(* ===== verification/Prelude.thy ===== *)
theory Prelude
  imports Main "HOL-Library.Word"
begin

text \<open>
  Shared vocabulary of the development: the machine types of the runtime, the errors an operation
  of the run-time library can end with, the state-and-error monad in which every operation that
  changes state is written, its total-correctness rules, and the arithmetic of bit vectors (values
  as integers, \<open>take_bit\<close> for wrap-around, \<open>signed_take_bit\<close> for two's complement) that the
  components share.
\<close>

unbundle bit_operations_syntax

named_theorems rt_simps "weakest preconditions of the runtime monad"
named_theorems bv_simps "arithmetic of bit vectors"
named_theorems page_simps "page arithmetic of shadow memory"

subsection \<open>Machine types\<close>

type_synonym u8 = "8 word"
type_synonym u32 = "32 word"
type_synonym u64 = "64 word"

text \<open>
  \<open>size_t\<close> values are natural numbers below \<open>2 ^ 64\<close>. Subtraction is the only operation of the
  runtime's index arithmetic that can leave the range on ordinary inputs; it wraps around.
\<close>

definition size_sub :: "nat \<Rightarrow> nat \<Rightarrow> nat" where
  "size_sub a b = nat ((int a - int b) mod 2 ^ 64)"

subsection \<open>Errors\<close>

text \<open>
  How a run-time function can fail. \<open>Null_expression\<close>: a null pointer reached a function that
  cannot handle null (\<open>RuntimeCommon.h\<close> marks those that can as \<open>nullable\<close>). \<open>Solver_error\<close>: the
  solver library refused to build the expression. \<open>Undefined_behaviour\<close>: the C++ operation has no
  defined result. \<open>Assertion_failed\<close>: an \<open>assert\<close> of the code. \<open>Runtime_error\<close>: a
  \<open>std::runtime_error\<close>. \<open>Out_of_range\<close>: \<open>std::map::at\<close> on a missing key.
\<close>

datatype rt_error =
    Null_expression
  | Solver_error
  | Undefined_behaviour
  | Assertion_failed string
  | Runtime_error string
  | Out_of_range

subsection \<open>The runtime monad\<close>

type_synonym ('s, 'a) rt = "'s \<Rightarrow> rt_error + 'a \<times> 's"

definition rt_return :: "'a \<Rightarrow> ('s, 'a) rt" where
  "rt_return x s = Inr (x, s)"

definition rt_raise :: "rt_error \<Rightarrow> ('s, 'a) rt" where
  "rt_raise e s = Inl e"

definition rt_bind :: "('s, 'a) rt \<Rightarrow> ('a \<Rightarrow> ('s, 'b) rt) \<Rightarrow> ('s, 'b) rt" where
  "rt_bind m f s = (case m s of Inl e \<Rightarrow> Inl e | Inr (x, s') \<Rightarrow> f x s')"

definition rt_assert :: "string \<Rightarrow> bool \<Rightarrow> ('s, unit) rt" where
  "rt_assert msg b = (if b then rt_return () else rt_raise (Assertion_failed msg))"

definition rt_get :: "('s \<Rightarrow> 'a) \<Rightarrow> ('s, 'a) rt" where
  "rt_get f s = Inr (f s, s)"

definition rt_modify :: "('s \<Rightarrow> 's) \<Rightarrow> ('s, unit) rt" where
  "rt_modify f s = Inr ((), f s)"

text \<open>
  Nested C++ calls such as \<open>f(g(a), h(b))\<close>: the arguments are evaluated left to right (C++ leaves
  the order open; every argument here is an expression builder, whose only effect is to register
  the expression it built).
\<close>

definition rt_call1 :: "('a \<Rightarrow> ('s, 'r) rt) \<Rightarrow> ('s, 'a) rt \<Rightarrow> ('s, 'r) rt" where
  "rt_call1 f m = rt_bind m f"

definition rt_call2 ::
    "('a \<Rightarrow> 'b \<Rightarrow> ('s, 'r) rt) \<Rightarrow> ('s, 'a) rt \<Rightarrow> ('s, 'b) rt \<Rightarrow> ('s, 'r) rt" where
  "rt_call2 f m1 m2 = rt_bind m1 (\<lambda>x. rt_bind m2 (\<lambda>y. f x y))"

definition rt_call3 ::
    "('a \<Rightarrow> 'b \<Rightarrow> 'c \<Rightarrow> ('s, 'r) rt) \<Rightarrow> ('s, 'a) rt \<Rightarrow> ('s, 'b) rt \<Rightarrow> ('s, 'c) rt \<Rightarrow> ('s, 'r) rt" where
  "rt_call3 f m1 m2 m3 = rt_bind m1 (\<lambda>x. rt_bind m2 (\<lambda>y. rt_bind m3 (\<lambda>z. f x y z)))"

text \<open>Total correctness: the operation returns, and its result and final state satisfy \<open>Q\<close>.\<close>

definition rt_ok :: "('s, 'a) rt \<Rightarrow> 's \<Rightarrow> ('a \<Rightarrow> 's \<Rightarrow> bool) \<Rightarrow> bool" where
  "rt_ok m s Q \<longleftrightarrow> (\<exists>x s'. m s = Inr (x, s') \<and> Q x s')"

lemma rt_ok_return [rt_simps]: "rt_ok (rt_return x) s Q \<longleftrightarrow> Q x s"
  by (simp add: rt_ok_def rt_return_def)

lemma rt_ok_raise [rt_simps]: "\<not> rt_ok (rt_raise e) s Q"
  by (simp add: rt_ok_def rt_raise_def)

lemma rt_ok_bind [rt_simps]:
  "rt_ok (rt_bind m f) s Q \<longleftrightarrow> rt_ok m s (\<lambda>x s'. rt_ok (f x) s' Q)"
  by (auto simp: rt_ok_def rt_bind_def split: sum.splits)

lemma rt_ok_assert [rt_simps]: "rt_ok (rt_assert msg b) s Q \<longleftrightarrow> b \<and> Q () s"
  by (simp add: rt_assert_def rt_simps)

lemma rt_ok_get [rt_simps]: "rt_ok (rt_get f) s Q \<longleftrightarrow> Q (f s) s"
  by (simp add: rt_ok_def rt_get_def)

lemma rt_ok_modify [rt_simps]: "rt_ok (rt_modify f) s Q \<longleftrightarrow> Q () (f s)"
  by (simp add: rt_ok_def rt_modify_def)

lemma rt_ok_call [rt_simps]:
  "rt_ok (rt_call1 f m) s Q \<longleftrightarrow> rt_ok m s (\<lambda>x s'. rt_ok (f x) s' Q)"
  "rt_ok (rt_call2 g m1 m2) s Q \<longleftrightarrow>
     rt_ok m1 s (\<lambda>x s1. rt_ok m2 s1 (\<lambda>y s2. rt_ok (g x y) s2 Q))"
  by (simp_all add: rt_call1_def rt_call2_def rt_simps)

lemma rt_ok_mono: "rt_ok m s Q \<Longrightarrow> (\<And>x s'. Q x s' \<Longrightarrow> R x s') \<Longrightarrow> rt_ok m s R"
  by (auto simp: rt_ok_def)

lemma rt_bind_return [simp]: "rt_bind (rt_return x) f = f x"
  by (simp add: fun_eq_iff rt_bind_def rt_return_def)

lemma rt_bind_Inl: "m s = Inl e \<Longrightarrow> rt_bind m f s = Inl e"
  by (simp add: rt_bind_def)

lemma rt_bind_Inr: "m s = Inr (x, s') \<Longrightarrow> rt_bind m f s = f x s'"
  by (simp add: rt_bind_def)

subsection \<open>Wrap-around of sizes\<close>

lemma size_sub_le [simp]: "b \<le> a \<Longrightarrow> a < 2 ^ 64 \<Longrightarrow> size_sub a b = a - b"
  by (simp add: size_sub_def nat_diff_distrib)

subsection \<open>Bit vectors as integers\<close>

text \<open>The two's complement reading of an \<open>n\<close>-bit value.\<close>

definition sval :: "nat \<Rightarrow> int \<Rightarrow> int" where
  "sval n x = signed_take_bit (n - 1) x"

lemma sval_bounds:
  "- (2 ^ (n - 1)) \<le> sval n x" "sval n x < 2 ^ (n - 1)"
  by (simp_all add: sval_def)

lemma sval_take_bit [bv_simps]: "0 < n \<Longrightarrow> sval n (take_bit n k) = sval n k"
  by (cases n) (simp_all add: sval_def signed_take_bit_take_bit)

lemma sval_self [bv_simps]: "- (2 ^ (n - 1)) \<le> k \<Longrightarrow> k < 2 ^ (n - 1) \<Longrightarrow> sval n k = k"
  by (simp add: sval_def signed_take_bit_int_eq_self)

lemma take_bit_sval [bv_simps]: "0 < n \<Longrightarrow> take_bit n (sval n k) = take_bit n k"
  by (cases n) (simp_all add: sval_def take_bit_signed_take_bit)

lemma sval_cases:
  assumes "0 < n" "0 \<le> x" "x < 2 ^ n"
  shows "sval n x = (if x < 2 ^ (n - 1) then x else x - 2 ^ n)"
proof (cases "x < 2 ^ (n - 1)")
  case True
  then show ?thesis using assms by (simp add: sval_self order_trans [of _ 0])
next
  case False
  have two: "(2::int) ^ n = 2 * 2 ^ (n - 1)"
    using assms(1) by (cases n) simp_all
  have "sval n x = sval n (take_bit n (x - 2 ^ n))"
    using assms by (simp add: take_bit_eq_mod)
  also have "\<dots> = x - 2 ^ n"
    using assms False two by (simp add: bv_simps)
  finally show ?thesis using False by simp
qed

end
