(* ===== verification/C_Strings.thy ===== *)
theory C_Strings
  imports Prelude
begin

text \<open>
  The string functions of the C and C++ standard libraries that the run-time library calls, on
  strings without a terminating null character: \<open>std::to_string\<close>, \<open>std::stoul\<close>, \<open>std::tolower\<close> and
  \<open>strstr\<close>, and that reading a printed number gives the number back.
\<close>

subsection \<open>Printing and searching\<close>

text \<open>Decimal digits of a number: \<open>std::to_string\<close>.\<close>

fun to_string :: "nat \<Rightarrow> string" where
  "to_string n =
     (if n < 10 then [char_of (48 + n)] else to_string (n div 10) @ [char_of (48 + n mod 10)])"

declare to_string.simps [simp del]

text \<open>\<open>strstr(haystack, needle) != NULL\<close>.\<close>

fun strstr :: "string \<Rightarrow> string \<Rightarrow> bool" where
  "strstr [] needle = (needle = [])"
| "strstr (c # cs) needle = (take (length needle) (c # cs) = needle \<or> strstr cs needle)"

text \<open>\<open>std::tolower\<close> in the C locale.\<close>

definition tolower :: "char \<Rightarrow> char" where
  "tolower c = (if 65 \<le> (of_char c :: nat) \<and> (of_char c :: nat) \<le> 90
     then char_of ((of_char c :: nat) + 32) else c)"

subsection \<open>Numbers\<close>

text \<open>
  \<open>std::stoul\<close> in base 10, which is \<open>strtoul\<close>: white space, an optional sign, digits; what follows the
  digits is ignored. No digits: \<open>std::invalid_argument\<close>. A value above \<open>ULONG_MAX\<close>:
  \<open>std::out_of_range\<close>. A negative sign negates the value modulo \<open>2 ^ 64\<close>.
\<close>

datatype stoul_error = Invalid_argument | Out_of_range_error

definition isspace :: "char \<Rightarrow> bool" where
  "isspace c \<longleftrightarrow> (of_char c :: nat) = 32 \<or> 9 \<le> (of_char c :: nat) \<and> (of_char c :: nat) \<le> 13"

definition isdigit :: "char \<Rightarrow> bool" where
  "isdigit c \<longleftrightarrow> 48 \<le> (of_char c :: nat) \<and> (of_char c :: nat) \<le> 57"

definition digits_value :: "string \<Rightarrow> nat" where
  "digits_value ds = fold (\<lambda>c n. 10 * n + (of_char c - 48)) ds 0"

definition stoul :: "string \<Rightarrow> stoul_error + u64" where
  "stoul str =
     (let body = dropWhile isspace str;
          negative = (body \<noteq> [] \<and> hd body = CHR ''-'');
          unsigned_part = (if body \<noteq> [] \<and> (hd body = CHR ''-'' \<or> hd body = CHR ''+'') then tl body else body);
          digits = takeWhile isdigit unsigned_part
      in if digits = [] then Inl Invalid_argument
         else if digits_value digits \<ge> 2 ^ 64 then Inl Out_of_range_error
         else Inr (if negative then - of_nat (digits_value digits) else of_nat (digits_value digits)))"

subsection \<open>Digits\<close>

lemma isdigit_digit: "d < 10 \<Longrightarrow> isdigit (char_of (48 + d :: nat))"
  by (simp add: isdigit_def)

lemma digit_value: "d < 10 \<Longrightarrow> (of_char (char_of (48 + d :: nat)) :: nat) - 48 = d"
  by simp

lemma digits_value_snoc: "digits_value (ds @ [c]) = 10 * digits_value ds + (of_char c - 48)"
  by (simp add: digits_value_def)

lemma to_string_digits: "list_all isdigit (to_string n)"
proof (induction n rule: to_string.induct)
  case (1 n)
  then show ?case by (subst to_string.simps) (auto simp: isdigit_digit)
qed

lemma to_string_value: "digits_value (to_string n) = n"
proof (induction n rule: to_string.induct)
  case (1 n)
  show ?case
  proof (cases "n < 10")
    case True
    then show ?thesis by (subst to_string.simps) (simp add: digits_value_def)
  next
    case False
    then show ?thesis using 1 by (subst to_string.simps) (simp add: digits_value_snoc)
  qed
qed

lemma to_string_nonempty [simp]: "to_string n \<noteq> []"
  by (subst to_string.simps) simp

lemma to_string_inj: "to_string m = to_string n \<Longrightarrow> m = n"
  by (metis to_string_value)

lemma digit_plain: "isdigit c \<Longrightarrow> \<not> isspace c \<and> c \<noteq> CHR ''-'' \<and> c \<noteq> CHR ''+''"
  by (auto simp: isdigit_def isspace_def)

text \<open>\<open>std::stoul\<close> of the decimal digits of a number, with what may follow them.\<close>

lemma stoul_digits:
  assumes "list_all isdigit ds" "ds \<noteq> []" "rest = [] \<or> \<not> isdigit (hd rest)"
  shows "stoul (ds @ rest) =
    (if digits_value ds < 2 ^ 64 then Inr (of_nat (digits_value ds)) else Inl Out_of_range_error)"
proof -
  obtain d ds' where ds: "ds = d # ds'" "isdigit d" using assms(1,2) by (cases ds) auto
  have "takeWhile isdigit (ds @ rest) = ds"
    using assms(1,3) by (cases rest) (auto simp: list_all_iff takeWhile_append)
  moreover have "dropWhile isspace (ds @ rest) = ds @ rest" "hd (ds @ rest) = d"
    using ds digit_plain by auto
  ultimately show ?thesis
    using digit_plain [OF ds(2)] assms(2) ds by (auto simp: stoul_def Let_def)
qed

lemma stoul_negative:
  assumes "list_all isdigit ds" "ds \<noteq> []"
  shows "stoul (CHR ''-'' # ds) =
    (if digits_value ds < 2 ^ 64 then Inr (- of_nat (digits_value ds)) else Inl Out_of_range_error)"
proof -
  have tw: "takeWhile isdigit ds = ds" using assms(1) by (simp add: list_all_iff takeWhile_eq_all_conv)
  show ?thesis using assms(2) by (simp add: stoul_def Let_def isspace_def tw)
qed

end
