(* ===== verification/Config.thy ===== *)
theory Config
  imports C_Strings
begin

text \<open>
  The configuration of the run-time library, \<open>runtime/include/Config.h\<close> and \<open>runtime/src/Config.cpp\<close>:
  which input is symbolic, where output and logs go, the garbage collection threshold. It is read
  from environment variables once, by \<open>loadConfig\<close>. The environment is a map from names to values
  (\<open>getenv\<close> returns null for an unset variable); every exception of the code is an error.
\<close>

subsection \<open>The configuration\<close>

datatype input_config = NoInput | StdinInput | MemoryInput | FileInput string

record config =
  input :: input_config
  outputDir :: string
  logFile :: string
  pruning :: bool
  aflCoverageMap :: string
  garbageCollectionThreshold :: u64

definition default_config :: config where
  "default_config = \<lparr>input = StdinInput, outputDir = ''/tmp/output'', logFile = [], pruning = False,
     aflCoverageMap = [], garbageCollectionThreshold = 5000000\<rparr>"

type_synonym environment = "string \<Rightarrow> string option"

subsection \<open>Flags\<close>

definition checkFlagString :: "string \<Rightarrow> rt_error + bool" where
  "checkFlagString flag =
     (let value = map tolower flag in
      if value = ''1'' \<or> value = ''on'' \<or> value = ''yes'' then Inr True
      else if value = [] \<or> value = ''0'' \<or> value = ''off'' \<or> value = ''no'' then Inr False
      else Inl (Runtime_error (''Unknown flag value '' @ value)))"

subsection \<open>Loading\<close>

text \<open>A variable that is set goes through its conversion, one that is not leaves the configuration.\<close>

definition when_set ::
    "environment \<Rightarrow> string \<Rightarrow> (string \<Rightarrow> (config, unit) rt) \<Rightarrow> (config, unit) rt" where
  "when_set env name f = (case env name of None \<Rightarrow> rt_return () | Some v \<Rightarrow> f v)"

definition flag :: "string \<Rightarrow> ('s, bool) rt" where
  "flag v = (case checkFlagString v of Inl e \<Rightarrow> rt_raise e | Inr b \<Rightarrow> rt_return b)"

definition set_memory_input :: "string \<Rightarrow> (config, unit) rt" where
  "set_memory_input v =
     rt_bind (flag v) (\<lambda>on.
     if \<not> on then rt_return ()
     else rt_bind (rt_get input) (\<lambda>inp.
       case inp of
         FileInput _ \<Rightarrow> rt_raise (Runtime_error ''Can't enable file and memory input at the same time'')
       | _ \<Rightarrow> rt_modify (\<lambda>c. c\<lparr>input := MemoryInput\<rparr>)))"

definition set_threshold :: "string \<Rightarrow> (config, unit) rt" where
  "set_threshold v =
     (case stoul v of
        Inr n \<Rightarrow> rt_modify (\<lambda>c. c\<lparr>garbageCollectionThreshold := n\<rparr>)
      | Inl Invalid_argument \<Rightarrow>
          rt_raise (Runtime_error (''Can't convert '' @ v @ '' to an integer''))
      | Inl Out_of_range_error \<Rightarrow>
          rt_raise (Runtime_error (''The GC threshold must be between 0 and '' @ to_string (2 ^ 64 - 1))))"

definition loadConfig :: "environment \<Rightarrow> (config, unit) rt" where
  "loadConfig env =
     rt_bind (when_set env ''SYMCC_OUTPUT_DIR'' (\<lambda>v. rt_modify (\<lambda>c. c\<lparr>outputDir := v\<rparr>))) (\<lambda>_.
     rt_bind (when_set env ''SYMCC_INPUT_FILE'' (\<lambda>v. rt_modify (\<lambda>c. c\<lparr>input := FileInput v\<rparr>))) (\<lambda>_.
     rt_bind (when_set env ''SYMCC_MEMORY_INPUT'' set_memory_input) (\<lambda>_.
     rt_bind (when_set env ''SYMCC_NO_SYMBOLIC_INPUT'' (\<lambda>v.
        rt_bind (flag v) (\<lambda>on. if on then rt_modify (\<lambda>c. c\<lparr>input := NoInput\<rparr>) else rt_return ()))) (\<lambda>_.
     rt_bind (when_set env ''SYMCC_LOG_FILE'' (\<lambda>v. rt_modify (\<lambda>c. c\<lparr>logFile := v\<rparr>))) (\<lambda>_.
     rt_bind (when_set env ''SYMCC_ENABLE_LINEARIZATION'' (\<lambda>v.
        rt_bind (flag v) (\<lambda>on. rt_modify (\<lambda>c. c\<lparr>pruning := on\<rparr>)))) (\<lambda>_.
     rt_bind (when_set env ''SYMCC_AFL_COVERAGE_MAP'' (\<lambda>v. rt_modify (\<lambda>c. c\<lparr>aflCoverageMap := v\<rparr>))) (\<lambda>_.
     when_set env ''SYMCC_GC_THRESHOLD'' set_threshold)))))))"

subsection \<open>Results of loading\<close>

lemma rt_ok_when_set [rt_simps]:
  "rt_ok (when_set env name f) c Q \<longleftrightarrow>
     (case env name of None \<Rightarrow> Q () c | Some v \<Rightarrow> rt_ok (f v) c Q)"
  by (simp add: when_set_def rt_simps split: option.split)

lemma rt_ok_flag [rt_simps]:
  "rt_ok (flag v) c Q \<longleftrightarrow> (case checkFlagString v of Inl e \<Rightarrow> False | Inr b \<Rightarrow> Q b c)"
  by (simp add: flag_def rt_simps split: sum.split)

lemma rt_ok_set_memory_input [rt_simps]:
  "rt_ok (set_memory_input v) c Q \<longleftrightarrow>
     (case checkFlagString v of Inl e \<Rightarrow> False
      | Inr on \<Rightarrow> if \<not> on then Q () c else (\<forall>f. input c \<noteq> FileInput f) \<and> Q () (c\<lparr>input := MemoryInput\<rparr>))"
  by (simp add: set_memory_input_def rt_simps split: sum.split input_config.split)

lemma rt_ok_set_threshold [rt_simps]:
  "rt_ok (set_threshold v) c Q \<longleftrightarrow>
     (case stoul v of Inl e \<Rightarrow> False | Inr n \<Rightarrow> Q () (c\<lparr>garbageCollectionThreshold := n\<rparr>))"
  by (simp add: set_threshold_def rt_simps split: sum.split stoul_error.split)

subsection \<open>What the environment asks for\<close>

text \<open>
  The specification: a flag is on, off or malformed; \<open>SYMCC_NO_SYMBOLIC_INPUT\<close> overrides the other
  inputs, \<open>SYMCC_MEMORY_INPUT\<close> excludes an input file, and standard input is the default.
\<close>

definition flag_on :: "environment \<Rightarrow> string \<Rightarrow> bool" where
  "flag_on env name \<longleftrightarrow> (\<exists>v. env name = Some v \<and> map tolower v \<in> {''1'', ''on'', ''yes''})"

definition flag_ok :: "environment \<Rightarrow> string \<Rightarrow> bool" where
  "flag_ok env name \<longleftrightarrow> (\<forall>v. env name = Some v \<longrightarrow>
     map tolower v \<in> {''1'', ''on'', ''yes'', [], ''0'', ''off'', ''no''})"

definition valid_environment :: "environment \<Rightarrow> bool" where
  "valid_environment env \<longleftrightarrow>
     flag_ok env ''SYMCC_MEMORY_INPUT'' \<and> flag_ok env ''SYMCC_NO_SYMBOLIC_INPUT'' \<and>
     flag_ok env ''SYMCC_ENABLE_LINEARIZATION'' \<and>
     \<not> (flag_on env ''SYMCC_MEMORY_INPUT'' \<and> env ''SYMCC_INPUT_FILE'' \<noteq> None) \<and>
     (\<forall>v. env ''SYMCC_GC_THRESHOLD'' = Some v \<longrightarrow> (\<exists>n. stoul v = Inr n))"

definition requested_input :: "environment \<Rightarrow> input_config" where
  "requested_input env =
     (if flag_on env ''SYMCC_NO_SYMBOLIC_INPUT'' then NoInput
      else if flag_on env ''SYMCC_MEMORY_INPUT'' then MemoryInput
      else case env ''SYMCC_INPUT_FILE'' of Some f \<Rightarrow> FileInput f | None \<Rightarrow> StdinInput)"

definition requested_config :: "environment \<Rightarrow> config" where
  "requested_config env = \<lparr>input = requested_input env,
     outputDir = (case env ''SYMCC_OUTPUT_DIR'' of Some d \<Rightarrow> d | None \<Rightarrow> ''/tmp/output''),
     logFile = (case env ''SYMCC_LOG_FILE'' of Some f \<Rightarrow> f | None \<Rightarrow> []),
     pruning = flag_on env ''SYMCC_ENABLE_LINEARIZATION'',
     aflCoverageMap = (case env ''SYMCC_AFL_COVERAGE_MAP'' of Some f \<Rightarrow> f | None \<Rightarrow> []),
     garbageCollectionThreshold = (case env ''SYMCC_GC_THRESHOLD'' of
        Some v \<Rightarrow> (case stoul v of Inr n \<Rightarrow> n | Inl _ \<Rightarrow> 5000000) | None \<Rightarrow> 5000000)\<rparr>"

lemma checkFlagString_cases:
  obtains "map tolower v \<in> {''1'', ''on'', ''yes''}" "checkFlagString v = Inr True"
  | "map tolower v \<in> {[], ''0'', ''off'', ''no''}" "checkFlagString v = Inr False"
  | "map tolower v \<notin> {''1'', ''on'', ''yes'', [], ''0'', ''off'', ''no''}"
    "checkFlagString v = Inl (Runtime_error (''Unknown flag value '' @ map tolower v))"
proof (cases "map tolower v \<in> {''1'', ''on'', ''yes''}")
  case True
  then show ?thesis using that(1) by (auto simp: checkFlagString_def Let_def)
next
  case False
  then show ?thesis
    using that(2,3) by (cases "map tolower v \<in> {[], ''0'', ''off'', ''no''}") (auto simp: checkFlagString_def Let_def)
qed

lemma flag_cases:
  obtains "env name = None" "flag_ok env name" "\<not> flag_on env name"
  | v where "env name = Some v" "checkFlagString v = Inr True" "flag_ok env name" "flag_on env name"
  | v where "env name = Some v" "checkFlagString v = Inr False" "flag_ok env name" "\<not> flag_on env name"
  | v e where "env name = Some v" "checkFlagString v = Inl e" "\<not> flag_ok env name" "\<not> flag_on env name"
proof (cases "env name")
  case None
  then show ?thesis using that(1) by (simp add: flag_ok_def flag_on_def)
next
  case (Some v)
  then show ?thesis
    by (cases v rule: checkFlagString_cases) (use that(2-4) in \<open>auto simp: flag_ok_def flag_on_def\<close>)
qed

lemma rt_ok_when_modify:
  "rt_ok (when_set env name (\<lambda>v. rt_modify (f v))) c Q \<longleftrightarrow>
     Q () (case env name of None \<Rightarrow> c | Some v \<Rightarrow> f v c)"
  by (simp add: rt_simps split: option.split)

lemma rt_ok_when_no_input:
  "rt_ok (when_set env name (\<lambda>v. rt_bind (flag v) (\<lambda>on.
       if on then rt_modify f else rt_return ()))) c Q \<longleftrightarrow>
     flag_ok env name \<and> Q () (if flag_on env name then f c else c)"
  by (cases env name rule: flag_cases) (simp_all add: rt_simps)

lemma rt_ok_when_pruning:
  "rt_ok (when_set env name (\<lambda>v. rt_bind (flag v) (\<lambda>on. rt_modify (\<lambda>c. c\<lparr>pruning := on\<rparr>)))) c Q \<longleftrightarrow>
     flag_ok env name \<and> Q () (c\<lparr>pruning := if env name = None then pruning c else flag_on env name\<rparr>)"
  by (cases env name rule: flag_cases) (simp_all add: rt_simps)

lemma rt_ok_when_memory_input:
  "rt_ok (when_set env name set_memory_input) c Q \<longleftrightarrow>
     flag_ok env name \<and> (flag_on env name \<longrightarrow> (\<forall>f. input c \<noteq> FileInput f)) \<and>
     Q () (if flag_on env name then c\<lparr>input := MemoryInput\<rparr> else c)"
  by (cases env name rule: flag_cases) (auto simp: rt_simps)

lemma rt_ok_when_threshold:
  "rt_ok (when_set env name set_threshold) c Q \<longleftrightarrow>
     (\<forall>v. env name = Some v \<longrightarrow> (\<exists>n. stoul v = Inr n)) \<and>
     Q () (c\<lparr>garbageCollectionThreshold := (case env name of
        Some v \<Rightarrow> (case stoul v of Inr n \<Rightarrow> n | Inl _ \<Rightarrow> garbageCollectionThreshold c)
      | None \<Rightarrow> garbageCollectionThreshold c)\<rparr>)"
  by (auto simp: rt_simps split: option.split sum.split)

lemmas rt_ok_when = rt_ok_when_modify rt_ok_when_no_input rt_ok_when_pruning rt_ok_when_memory_input
  rt_ok_when_threshold

text \<open>Conditional updates of a field, as updates with a conditional value.\<close>

lemma conditional_updates:
  "(case x of None \<Rightarrow> c | Some v \<Rightarrow> c\<lparr>outputDir := v\<rparr>) = c\<lparr>outputDir := case x of None \<Rightarrow> outputDir c | Some v \<Rightarrow> v\<rparr>"
  "(case x of None \<Rightarrow> c | Some v \<Rightarrow> c\<lparr>logFile := v\<rparr>) = c\<lparr>logFile := case x of None \<Rightarrow> logFile c | Some v \<Rightarrow> v\<rparr>"
  "(case x of None \<Rightarrow> c | Some v \<Rightarrow> c\<lparr>aflCoverageMap := v\<rparr>) =
     c\<lparr>aflCoverageMap := case x of None \<Rightarrow> aflCoverageMap c | Some v \<Rightarrow> v\<rparr>"
  "(case x of None \<Rightarrow> c | Some v \<Rightarrow> c\<lparr>input := FileInput v\<rparr>) =
     c\<lparr>input := case x of None \<Rightarrow> input c | Some v \<Rightarrow> FileInput v\<rparr>"
  "(if b then c\<lparr>input := i\<rparr> else c) = c\<lparr>input := if b then i else input c\<rparr>"
  by (simp_all split: option.split)

lemma flag_off_unset: "(if env name = None then False else flag_on env name) = flag_on env name"
  by (simp add: flag_on_def)

lemma default_input_file:
  "(\<forall>f. (case x of None \<Rightarrow> StdinInput | Some v \<Rightarrow> FileInput v) \<noteq> FileInput f) \<longleftrightarrow> x = None"
  by (simp split: option.split)

lemma loadConfig_meets_request:
  "rt_ok (loadConfig env) default_config Q \<longleftrightarrow> valid_environment env \<and> Q () (requested_config env)"
  unfolding loadConfig_def rt_ok_bind rt_ok_when conditional_updates
  by (simp add: default_config_def valid_environment_def requested_config_def requested_input_def
      flag_off_unset default_input_file cong: option.case_cong sum.case_cong if_cong split del: if_split)
  blast

end
