(* ===== verification/Shadow.thy ===== *)
theory Shadow
  imports Prelude
begin

text \<open>
  Shadow memory (\<open>runtime/include/Shadow.h\<close>, \<open>runtime/src/Shadow.cpp\<close>): the map from page addresses
  to shadow pages, the iterators that walk over it and create pages on demand, \<open>isConcrete\<close>, and the
  standard algorithms (\<open>std::copy\<close>, \<open>std::copy_backward\<close>, \<open>std::fill\<close>, \<open>std::all_of\<close>) as the runtime
  instantiates them. A pointer \<open>SymExpr *\<close> into a shadow is the page address of its region together
  with an index: every region is allocated for one page and never freed, so the page identifies it.
  The abstract view is \<open>shadow_at\<close>: which expression, if any, shadows a given byte.
\<close>

unbundle bit_operations_syntax

subsection \<open>Pages\<close>

definition kPageSize :: u64 where
  "kPageSize = 4096"

definition pageStart :: "u64 \<Rightarrow> u64" where
  "pageStart addr = addr AND NOT (kPageSize - 1)"

definition pageOffset :: "u64 \<Rightarrow> u64" where
  "pageOffset addr = addr AND (kPageSize - 1)"

text \<open>A shadow region holds one expression per byte of its page; null pointers are \<open>None\<close>.\<close>

type_synonym 'e page = "int \<Rightarrow> 'e option"
type_synonym 'e shadow = "u64 \<rightharpoonup> 'e page"
type_synonym shadow_ptr = "u64 \<times> int"

subsection \<open>Iterators\<close>

record shadow_iter =
  it_address :: u64
  it_shadow :: "shadow_ptr option"

definition getShadow :: "'e shadow \<Rightarrow> u64 \<Rightarrow> shadow_ptr option" where
  "getShadow sh address =
     (case sh (pageStart address) of
        Some _ \<Rightarrow> Some (pageStart address, uint (pageOffset address))
      | None \<Rightarrow> None)"

definition read_iter :: "'e shadow \<Rightarrow> u64 \<Rightarrow> shadow_iter" where
  "read_iter sh address = \<lparr>it_address = address, it_shadow = getShadow sh address\<rparr>"

definition read_next :: "'e shadow \<Rightarrow> shadow_iter \<Rightarrow> shadow_iter" where
  "read_next sh it =
     (let previousAddress = it_address it;
          address = previousAddress + 1;
          shadow = map_option (\<lambda>(r, i). (r, i + 1)) (it_shadow it)
      in \<lparr>it_address = address,
          it_shadow = (if pageStart address \<noteq> pageStart previousAddress
                       then getShadow sh address else shadow)\<rparr>)"

definition read_prev :: "'e shadow \<Rightarrow> shadow_iter \<Rightarrow> shadow_iter" where
  "read_prev sh it =
     (let previousAddress = it_address it;
          address = previousAddress - 1;
          shadow = map_option (\<lambda>(r, i). (r, i - 1)) (it_shadow it)
      in \<lparr>it_address = address,
          it_shadow = (if pageStart address \<noteq> pageStart previousAddress
                       then getShadow sh address else shadow)\<rparr>)"

definition read_deref :: "'e shadow \<Rightarrow> shadow_iter \<Rightarrow> 'e option" where
  "read_deref sh it =
     (case it_shadow it of
        Some (r, i) \<Rightarrow> (case sh r of Some pg \<Rightarrow> pg i | None \<Rightarrow> None)
      | None \<Rightarrow> None)"

definition getOrCreateShadow :: "'e shadow \<Rightarrow> u64 \<Rightarrow> shadow_ptr \<times> 'e shadow" where
  "getOrCreateShadow sh address =
     (case getShadow sh address of
        Some shadow \<Rightarrow> (shadow, sh)
      | None \<Rightarrow>
          let newShadow = (\<lambda>_. None)
          in ((pageStart address, uint (pageOffset address)), sh(pageStart address \<mapsto> newShadow)))"

definition write_iter :: "'e shadow \<Rightarrow> u64 \<Rightarrow> shadow_iter \<times> 'e shadow" where
  "write_iter sh address =
     (let (p, sh') = getOrCreateShadow sh address
      in (\<lparr>it_address = address, it_shadow = Some p\<rparr>, sh'))"

definition write_next :: "'e shadow \<Rightarrow> shadow_iter \<Rightarrow> shadow_iter \<times> 'e shadow" where
  "write_next sh it =
     (let previousAddress = it_address it;
          address = previousAddress + 1;
          shadow = map_option (\<lambda>(r, i). (r, i + 1)) (it_shadow it)
      in if pageStart address \<noteq> pageStart previousAddress
         then (let (p, sh') = getOrCreateShadow sh address
               in (\<lparr>it_address = address, it_shadow = Some p\<rparr>, sh'))
         else (\<lparr>it_address = address, it_shadow = shadow\<rparr>, sh))"

definition write_prev :: "'e shadow \<Rightarrow> shadow_iter \<Rightarrow> shadow_iter \<times> 'e shadow" where
  "write_prev sh it =
     (let previousAddress = it_address it;
          address = previousAddress - 1;
          shadow = map_option (\<lambda>(r, i). (r, i - 1)) (it_shadow it)
      in if pageStart address \<noteq> pageStart previousAddress
         then (let (p, sh') = getOrCreateShadow sh address
               in (\<lparr>it_address = address, it_shadow = Some p\<rparr>, sh'))
         else (\<lparr>it_address = address, it_shadow = shadow\<rparr>, sh))"

text \<open>Assignment through the reference \<open>*it\<close> of a write iterator.\<close>

definition write_assign :: "'e shadow \<Rightarrow> shadow_iter \<Rightarrow> 'e option \<Rightarrow> 'e shadow" where
  "write_assign sh it v =
     (case it_shadow it of
        Some (r, i) \<Rightarrow> (case sh r of Some pg \<Rightarrow> sh(r \<mapsto> pg(i := v)) | None \<Rightarrow> sh)
      | None \<Rightarrow> sh)"

lemma it_address_step [simp]:
  "it_address (read_iter sh a) = a"
  "it_address (read_next sh it) = it_address it + 1"
  "it_address (read_prev sh it) = it_address it - 1"
  "it_address (fst (write_iter sh a)) = a"
  "it_address (fst (write_next sh it)) = it_address it + 1"
  "it_address (fst (write_prev sh it)) = it_address it - 1"
  by (simp_all add: read_iter_def read_next_def read_prev_def write_iter_def write_next_def
      write_prev_def Let_def split: prod.split)

lemma unat_dec [simp]: "(x::u64) \<noteq> 0 \<Longrightarrow> unat (x - 1) < unat x"
  by (metis measure_unat)

lemma loop_measure_fwd [simp]: "(a::u64) \<noteq> e \<Longrightarrow> unat (e - (a + 1)) < unat (e - a)"
  using unat_dec [of "e - a"] by (simp add: algebra_simps)

lemma loop_measure_bwd [simp]: "(a::u64) \<noteq> e \<Longrightarrow> unat (e - 1 - a) < unat (e - a)"
  using unat_dec [of "e - a"] by (simp add: algebra_simps)

subsection \<open>The algorithms over iterators\<close>

function all_of_null :: "'e shadow \<Rightarrow> shadow_iter \<Rightarrow> shadow_iter \<Rightarrow> bool" where
  "all_of_null sh it stop =
     (if it_address it = it_address stop then True
      else if read_deref sh it \<noteq> None then False
      else all_of_null sh (read_next sh it) stop)"
  by pat_completeness auto
termination
  by (relation "measure (\<lambda>(sh, it, stop). unat (it_address stop - it_address it))") auto

function shadow_copy ::
    "'e shadow \<Rightarrow> shadow_iter \<Rightarrow> shadow_iter \<Rightarrow> shadow_iter \<Rightarrow> 'e shadow" where
  "shadow_copy sh it stop result =
     (if it_address it = it_address stop then sh
      else
        let sh1 = write_assign sh result (read_deref sh it);
            nx = write_next sh1 result
        in shadow_copy (snd nx) (read_next (snd nx) it) stop (fst nx))"
  by pat_completeness auto
termination
  by (relation "measure (\<lambda>(sh, it, stop, r). unat (it_address stop - it_address it))") auto

function shadow_copy_backward ::
    "'e shadow \<Rightarrow> shadow_iter \<Rightarrow> shadow_iter \<Rightarrow> shadow_iter \<Rightarrow> 'e shadow" where
  "shadow_copy_backward sh it stop result =
     (if it_address it = it_address stop then sh
      else
        let stop' = read_prev sh stop;
            v = read_deref sh stop';
            pv = write_prev sh result
        in shadow_copy_backward (write_assign (snd pv) (fst pv) v) it stop' (fst pv))"
  by pat_completeness auto
termination
  by (relation "measure (\<lambda>(sh, it, stop, r). unat (it_address stop - it_address it))") auto

function shadow_fill ::
    "'e shadow \<Rightarrow> shadow_iter \<Rightarrow> shadow_iter \<Rightarrow> 'e option \<Rightarrow> 'e shadow" where
  "shadow_fill sh it stop v =
     (if it_address it = it_address stop then sh
      else
        let nx = write_next (write_assign sh it v) it
        in shadow_fill (snd nx) (fst nx) stop v)"
  by pat_completeness auto
termination
  by (relation "measure (\<lambda>(sh, it, stop, v). unat (it_address stop - it_address it))") auto

declare all_of_null.simps [simp del] shadow_copy.simps [simp del]
  shadow_copy_backward.simps [simp del] shadow_fill.simps [simp del]

text \<open>
  \<open>std::fill(shadow.begin(), shadow.end(), v)\<close> on a \<open>ReadWriteShadow\<close>: building the two iterators
  already creates the pages at both ends of the region.
\<close>

definition fill_shadow :: "'e shadow \<Rightarrow> u64 \<Rightarrow> u64 \<Rightarrow> 'e option \<Rightarrow> 'e shadow" where
  "fill_shadow sh addr len v =
     (let b = write_iter sh addr;
          e = write_iter (snd b) (addr + len)
      in shadow_fill (snd e) (fst b) (fst e) v)"

definition isConcrete :: "'e shadow \<Rightarrow> u64 \<Rightarrow> u64 \<Rightarrow> bool" where
  "isConcrete sh addr nbytes =
     (if pageStart addr = pageStart (addr + nbytes) \<and> sh (pageStart addr) = None then True
      else all_of_null sh (read_iter sh addr) (read_iter sh (addr + nbytes)))"

subsection \<open>The abstract view\<close>

definition shadow_at :: "'e shadow \<Rightarrow> u64 \<Rightarrow> 'e option" where
  "shadow_at sh a =
     (case sh (pageStart a) of None \<Rightarrow> None | Some pg \<Rightarrow> pg (uint (pageOffset a)))"

text \<open>An iterator that points at the shadow cell of its own address.\<close>

definition iter_ok :: "'e shadow \<Rightarrow> shadow_iter \<Rightarrow> bool" where
  "iter_ok sh it \<longleftrightarrow>
     it_shadow it = Some (pageStart (it_address it), uint (pageOffset (it_address it))) \<and>
     sh (pageStart (it_address it)) \<noteq> None"

text \<open>
  A read iterator caches its pointer: it may say "no shadow" although a page has been created since.
  \<open>iter_view sh0 sh it\<close>: the pointer is right for \<open>sh\<close>, or it is null and there was no page in the
  earlier shadow \<open>sh0\<close>.
\<close>

definition iter_view :: "'e shadow \<Rightarrow> 'e shadow \<Rightarrow> shadow_iter \<Rightarrow> bool" where
  "iter_view sh0 sh it \<longleftrightarrow>
     iter_ok sh it \<or> (it_shadow it = None \<and> sh0 (pageStart (it_address it)) = None)"


subsection \<open>Page arithmetic\<close>

lemma pageOffset_take_bit: "pageOffset a = take_bit 12 a"
  by (simp add: pageOffset_def kPageSize_def take_bit_eq_mask mask_numeral)

lemma pageStart_minus: "pageStart a = a - pageOffset a"
proof -
  have "(a AND NOT (kPageSize - 1)) OR (a AND (kPageSize - 1)) = a"
    by (rule bit_word_eqI) (auto simp: bit_simps)
  moreover have "(a AND NOT (kPageSize - 1)) + (a AND (kPageSize - 1)) =
      (a AND NOT (kPageSize - 1)) OR (a AND (kPageSize - 1))"
    by (rule disjunctive_add) (auto simp: bit_simps)
  ultimately show ?thesis
    by (simp add: pageStart_def pageOffset_def algebra_simps)
qed

lemma page_split: "pageStart a + pageOffset a = a"
  by (simp add: pageStart_minus)

lemma pageOffset_bounds: "0 \<le> uint (pageOffset a)" "uint (pageOffset a) < 4096"
  using take_bit_int_less_exp [of 12 "uint a"]
  by (simp_all add: pageOffset_take_bit unsigned_take_bit_eq)

lemma page_inj: "pageStart a = pageStart b \<Longrightarrow> uint (pageOffset a) = uint (pageOffset b) \<Longrightarrow> a = b"
  by (metis page_split word_uint_eq_iff)

lemma pageOffset_next:
  assumes "pageStart (a + 1) = pageStart a"
  shows "uint (pageOffset (a + 1)) = uint (pageOffset a) + 1"
proof -
  have "pageOffset (a + 1) = pageOffset a + 1"
    using assms by (simp add: pageStart_minus algebra_simps)
  then show ?thesis
    using pageOffset_bounds [of a] by (simp add: uint_word_ariths)
qed

lemma pageOffset_prev:
  assumes "pageStart (a - 1) = pageStart a"
  shows "uint (pageOffset (a - 1)) = uint (pageOffset a) - 1"
  using pageOffset_next [of "a - 1"] assms by simp

lemma uint_pageStart: "uint (pageStart a) = uint a div 4096 * 4096"
proof -
  have off: "uint (pageOffset a) = uint a mod 4096"
    by (simp only: pageOffset_take_bit unsigned_take_bit_eq) (simp add: take_bit_eq_mod)
  then have "uint (pageOffset a) \<le> uint a"
    by (simp add: zmod_le_nonneg_dividend)
  then have "uint (pageStart a) = uint a - uint (pageOffset a)"
    using uint_sub_lem [where x = a and y = "pageOffset a"] by (simp add: pageStart_minus)
  then show ?thesis by (simp add: off minus_mod_eq_div_mult)
qed

text \<open>A region that starts and ends on the same page lies on that page.\<close>

lemma page_convex:
  assumes "unat addr + unat n < 2 ^ 64" "b - addr < n" "pageStart addr = pageStart (addr + n)"
  shows "pageStart b = pageStart addr"
proof -
  have no_wrap: "uint addr + uint n < 2 ^ 64"
  proof -
    have "int (unat addr + unat n) < int (2 ^ 64)"
      using assms(1) by (simp only: of_nat_less_iff)
    then show ?thesis by simp
  qed
  then have e: "uint (addr + n) = uint addr + uint n"
    using uint_add_lem [of addr n] by simp
  have b: "uint b = uint addr + uint (b - addr)"
  proof -
    have "uint addr + uint (b - addr) < 2 ^ 64"
      using no_wrap assms(2) by (simp add: word_less_def)
    then show ?thesis
      using uint_add_lem [of addr "b - addr"] by simp
  qed
  have lt: "uint (b - addr) < uint n" using assms(2) by (simp add: word_less_def)
  have same: "uint addr div 4096 = uint (addr + n) div 4096"
    using assms(3) uint_pageStart [of addr] uint_pageStart [of "addr + n"] by simp
  have "uint addr div 4096 \<le> uint b div 4096" "uint b div 4096 \<le> uint (addr + n) div 4096"
    using b e lt by (auto intro!: zdiv_mono1)
  with same have "uint (pageStart b) = uint (pageStart addr)"
    by (simp add: uint_pageStart)
  then show ?thesis by (simp add: word_uint_eq_iff)
qed

lemma range_step_fwd: "(a::u64) \<noteq> e \<Longrightarrow> b - a < e - a \<longleftrightarrow> b = a \<or> b - (a + 1) < e - (a + 1)"
proof -
  assume "a \<noteq> e"
  have "x < y \<longleftrightarrow> x = 0 \<or> x - 1 < y - 1" if "y \<noteq> 0" for x y :: u64
    using that by uint_arith
  from this [of "e - a" "b - a"] \<open>a \<noteq> e\<close> show ?thesis
    by (simp add: algebra_simps)
qed

subsection \<open>Single steps of the iterators\<close>

lemma read_iter_ok: "sh (pageStart a) \<noteq> None \<Longrightarrow> iter_ok sh (read_iter sh a)"
  by (auto simp: iter_ok_def read_iter_def getShadow_def)

lemma getShadow_view:
  assumes "dom sh0 \<subseteq> dom sh"
  shows "iter_view sh0 sh \<lparr>it_address = a, it_shadow = getShadow sh a\<rparr>"
  using assms by (auto simp: iter_view_def iter_ok_def getShadow_def dom_def split: option.splits)

lemma read_iter_view: "dom sh0 \<subseteq> dom sh \<Longrightarrow> iter_view sh0 sh (read_iter sh a)"
  by (simp add: read_iter_def getShadow_view)

lemma read_next_view:
  assumes "iter_view sh0 sh it" "dom sh0 \<subseteq> dom sh" "dom sh \<subseteq> dom sh'"
  shows "iter_view sh0 sh' (read_next sh' it)"
proof (cases "pageStart (it_address it + 1) = pageStart (it_address it)")
  case True
  with assms show ?thesis
    by (auto simp: iter_view_def iter_ok_def read_next_def pageOffset_next)
next
  case False
  then show ?thesis
    using getShadow_view [of sh0 sh' "it_address it + 1"] assms by (simp add: read_next_def Let_def)
qed

lemma read_prev_view:
  assumes "iter_view sh0 sh it" "dom sh0 \<subseteq> dom sh"
  shows "iter_view sh0 sh (read_prev sh it)"
proof (cases "pageStart (it_address it - 1) = pageStart (it_address it)")
  case True
  with assms show ?thesis
    by (auto simp: iter_view_def iter_ok_def read_prev_def pageOffset_prev)
next
  case False
  then show ?thesis
    using getShadow_view [of sh0 sh "it_address it - 1"] assms by (simp add: read_prev_def Let_def)
qed

lemma read_deref_view:
  assumes "iter_view sh0 sh it"
    and "shadow_at sh (it_address it) = shadow_at sh0 (it_address it)"
  shows "read_deref sh it = shadow_at sh0 (it_address it)"
  using assms
  by (auto simp: iter_view_def iter_ok_def read_deref_def shadow_at_def split: option.splits)

text \<open>Creating a page changes no shadow byte, because a new page is all null.\<close>

lemma getOrCreateShadow_ok:
  assumes "getOrCreateShadow sh a = (p, sh')"
  shows "iter_ok sh' \<lparr>it_address = a, it_shadow = Some p\<rparr>"
    and "shadow_at sh' b = shadow_at sh b" and "dom sh \<subseteq> dom sh'"
  using assms
  by (auto simp: getOrCreateShadow_def getShadow_def iter_ok_def shadow_at_def
      split: option.splits if_splits)

lemma write_iter_ok:
  "iter_ok (snd (write_iter sh a)) (fst (write_iter sh a))"
  "shadow_at (snd (write_iter sh a)) b = shadow_at sh b"
  "dom sh \<subseteq> dom (snd (write_iter sh a))"
  by (auto simp: write_iter_def getOrCreateShadow_ok split: prod.splits
      dest: getOrCreateShadow_ok(3) [THEN subsetD])

lemma write_next_ok:
  assumes "iter_ok sh it"
  shows "iter_ok (snd (write_next sh it)) (fst (write_next sh it))"
    and "shadow_at (snd (write_next sh it)) b = shadow_at sh b"
    and "dom sh \<subseteq> dom (snd (write_next sh it))"
proof -
  obtain p sh' where g: "getOrCreateShadow sh (it_address it + 1) = (p, sh')"
    by fastforce
  note ok = getOrCreateShadow_ok [OF g]
  show "iter_ok (snd (write_next sh it)) (fst (write_next sh it))"
    using assms ok(1) by (auto simp: write_next_def g Let_def iter_ok_def pageOffset_next)
  show "shadow_at (snd (write_next sh it)) b = shadow_at sh b"
    using ok(2) by (simp add: write_next_def g Let_def)
  show "dom sh \<subseteq> dom (snd (write_next sh it))"
    using ok(3) by (simp add: write_next_def g Let_def)
qed

lemma write_prev_ok:
  assumes "iter_ok sh it"
  shows "iter_ok (snd (write_prev sh it)) (fst (write_prev sh it))"
    and "shadow_at (snd (write_prev sh it)) b = shadow_at sh b"
    and "dom sh \<subseteq> dom (snd (write_prev sh it))"
proof -
  obtain p sh' where g: "getOrCreateShadow sh (it_address it - 1) = (p, sh')"
    by fastforce
  note ok = getOrCreateShadow_ok [OF g]
  show "iter_ok (snd (write_prev sh it)) (fst (write_prev sh it))"
    using assms ok(1) by (auto simp: write_prev_def g Let_def iter_ok_def pageOffset_prev)
  show "shadow_at (snd (write_prev sh it)) b = shadow_at sh b"
    using ok(2) by (simp add: write_prev_def g Let_def)
  show "dom sh \<subseteq> dom (snd (write_prev sh it))"
    using ok(3) by (simp add: write_prev_def g Let_def)
qed

lemma write_assign_ok:
  assumes "iter_ok sh it"
  shows "iter_ok (write_assign sh it v) it"
    and "shadow_at (write_assign sh it v) b = (if b = it_address it then v else shadow_at sh b)"
    and "dom (write_assign sh it v) = dom sh"
proof -
  from assms obtain pg where pg: "sh (pageStart (it_address it)) = Some pg"
    and p: "it_shadow it = Some (pageStart (it_address it), uint (pageOffset (it_address it)))"
    by (auto simp: iter_ok_def)
  show "iter_ok (write_assign sh it v) it"
    using p pg by (simp add: write_assign_def iter_ok_def)
  show "dom (write_assign sh it v) = dom sh"
    using p pg by (auto simp: write_assign_def)
  show "shadow_at (write_assign sh it v) b = (if b = it_address it then v else shadow_at sh b)"
    using p pg page_inj [of b "it_address it"] by (auto simp: write_assign_def shadow_at_def)
qed

text \<open>The assignment followed by \<open>++\<close>, as every forward loop body does it.\<close>

lemma write_step_ok:
  fixes v :: "'e option"
  assumes "iter_ok sh it"
  defines "nx \<equiv> write_next (write_assign sh it v) it"
  shows "iter_ok (snd nx) (fst nx)" "it_address (fst nx) = it_address it + 1"
    and "shadow_at (snd nx) b = (if b = it_address it then v else shadow_at sh b)"
    and "dom sh \<subseteq> dom (snd nx)"
  using write_assign_ok [OF assms(1), of v] write_next_ok [of "write_assign sh it v" it]
  by (auto simp: nx_def)

subsection \<open>Loops\<close>

lemma all_of_null_iff:
  assumes "iter_view sh sh it"
  shows "all_of_null sh it stop \<longleftrightarrow>
    (\<forall>b. b - it_address it < it_address stop - it_address it \<longrightarrow> shadow_at sh b = None)"
  using assms
proof (induction sh it stop rule: all_of_null.induct)
  case (1 sh it stop)
  show ?case
  proof (cases "it_address it = it_address stop")
    case True
    then show ?thesis by (simp add: all_of_null.simps [of sh it stop])
  next
    case False
    have v: "read_deref sh it = shadow_at sh (it_address it)"
      using "1.prems" by (rule read_deref_view) simp
    have "iter_view sh sh (read_next sh it)"
      using "1.prems" by (rule read_next_view) simp_all
    then show ?thesis
      using "1.IH" [OF False] False v
      by (auto simp: all_of_null.simps [of sh it stop] range_step_fwd [OF False])
  qed
qed

lemma shadow_fill_at:
  assumes "iter_ok sh it"
  shows "shadow_at (shadow_fill sh it stop v) b =
    (if b - it_address it < it_address stop - it_address it then v else shadow_at sh b)"
  using assms
proof (induction sh it stop v rule: shadow_fill.induct)
  case (1 sh it stop v)
  show ?case
  proof (cases "it_address it = it_address stop")
    case True
    then show ?thesis by (simp add: shadow_fill.simps [of sh it stop v])
  next
    case False
    note step = write_step_ok [OF "1.prems", of v]
    show ?thesis
      using "1.IH" [OF False refl step(1)] False step(2,3)
      by (simp add: shadow_fill.simps [of sh it stop v] range_step_fwd [OF False] Let_def)
  qed
qed

text \<open>
  Forward copy of the half-open source range \<open>[it, stop)\<close> to \<open>result\<close>. The ranges may overlap as long
  as no source byte is overwritten before it is read: the destination is not strictly inside the
  source. \<open>sh0\<close> is the shadow at the start of the loop.
\<close>

lemma shadow_copy_at:
  assumes "iter_view sh0 sh it" "iter_ok sh result" "dom sh0 \<subseteq> dom sh"
    and "\<And>i. i < it_address stop - it_address it \<Longrightarrow>
      shadow_at sh (it_address it + i) = shadow_at sh0 (it_address it + i)"
    and "it_address result = it_address it \<or>
      it_address stop - it_address it \<le> it_address result - it_address it"
  shows "shadow_at (shadow_copy sh it stop result) b =
    (if b - it_address result < it_address stop - it_address it
     then shadow_at sh0 (it_address it + (b - it_address result)) else shadow_at sh b)"
  using assms
proof (induction sh it stop result rule: shadow_copy.induct)
  case (1 sh it stop result)
  let ?a = "it_address it" and ?e = "it_address stop" and ?d = "it_address result"
  show ?case
  proof (cases "?a = ?e")
    case True
    then show ?thesis by (simp add: shadow_copy.simps [of sh it stop result])
  next
    case False
    define v where "v = read_deref sh it"
    have pos: "0 < ?e - ?a" using False by (simp add: word_neq_0_conv [symmetric])
    have v: "v = shadow_at sh0 ?a"
      unfolding v_def using "1.prems"(1) "1.prems"(4) [OF pos]
      by (auto intro: read_deref_view)
    define nx where "nx = write_next (write_assign sh result v) result"
    note step = write_step_ok [OF "1.prems"(2), of v, folded nx_def]
    have view: "iter_view sh0 (snd nx) (read_next (snd nx) it)"
      using "1.prems"(1,3) step(4) by (rule read_next_view)
    have unread: "shadow_at (snd nx) (?a + 1 + i) = shadow_at sh0 (?a + 1 + i)"
      if "i < ?e - (?a + 1)" for i
    proof -
      have j: "i + 1 < ?e - ?a" "i + 1 \<noteq> 0"
        using that False by (uint_arith)+
      have "?a + (i + 1) \<noteq> ?d"
      proof
        assume d: "?a + (i + 1) = ?d"
        from "1.prems"(5) j show False unfolding d [symmetric] by auto
      qed
      then show ?thesis
        using "1.prems"(4) [OF j(1)] step(3) [of "?a + (i + 1)"] by (simp add: algebra_simps)
    qed
    have apart: "?d + 1 = ?a + 1 \<or> ?e - (?a + 1) \<le> ?d + 1 - (?a + 1)"
      using "1.prems"(5) False by uint_arith
    have IH: "shadow_at (shadow_copy (snd nx) (read_next (snd nx) it) stop (fst nx)) b =
      (if b - (?d + 1) < ?e - (?a + 1)
       then shadow_at sh0 (?a + 1 + (b - (?d + 1))) else shadow_at (snd nx) b)"
      using "1.IH" [OF False refl refl, folded v_def, folded nx_def, OF view step(1)]
        "1.prems"(3) step(2,4) unread apart by auto
    have rng: "b - ?d < ?e - ?a \<longleftrightarrow> b = ?d \<or> b - (?d + 1) < ?e - (?a + 1)"
      using range_step_fwd [of 0 "?e - ?a" "b - ?d"] False by (simp add: algebra_simps)
    have unfold: "shadow_copy sh it stop result =
        shadow_copy (snd nx) (read_next (snd nx) it) stop (fst nx)"
      using False by (simp add: shadow_copy.simps [of sh it stop result] nx_def v_def Let_def)
    show ?thesis
      unfolding unfold IH using step(3) [of b] v by (auto simp: rng algebra_simps)
  qed
qed

text \<open>Backward copy of \<open>[it, stop)\<close> to the range that ends at \<open>result\<close>.\<close>

lemma shadow_copy_backward_at:
  assumes "iter_view sh0 sh stop" "iter_ok sh result" "dom sh0 \<subseteq> dom sh"
    and "\<And>i. i < it_address stop - it_address it \<Longrightarrow>
      shadow_at sh (it_address it + i) = shadow_at sh0 (it_address it + i)"
    and "it_address result = it_address stop \<or>
      it_address stop - it_address it \<le> it_address stop - it_address result"
  shows "shadow_at (shadow_copy_backward sh it stop result) b =
    (if it_address result - 1 - b < it_address stop - it_address it
     then shadow_at sh0 (b + (it_address stop - it_address result)) else shadow_at sh b)"
  using assms
proof (induction sh it stop result rule: shadow_copy_backward.induct)
  case (1 sh it stop result)
  let ?a = "it_address it" and ?e = "it_address stop" and ?d = "it_address result"
  show ?case
  proof (cases "?a = ?e")
    case True
    then show ?thesis by (simp add: shadow_copy_backward.simps [of sh it stop result])
  next
    case False
    define s' where "s' = read_prev sh stop"
    define v where "v = read_deref sh s'"
    have view: "iter_view sh0 sh s'"
      unfolding s'_def using "1.prems"(1,3) by (rule read_prev_view)
    have "?e - 1 - ?a < ?e - ?a" using False by (simp add: word_less_nat_alt)
    from "1.prems"(4) [OF this] have v: "v = shadow_at sh0 (?e - 1)"
      unfolding v_def using read_deref_view [OF view] by (simp add: s'_def)
    define pv where "pv = write_prev sh result"
    note pok = write_prev_ok [OF "1.prems"(2), folded pv_def]
    define sh' where "sh' = write_assign (snd pv) (fst pv) v"
    note wok = write_assign_ok [OF pok(1), of v, folded sh'_def]
    have adr: "it_address (fst pv) = ?d - 1" "it_address s' = ?e - 1"
      by (simp_all add: pv_def s'_def)
    have dom': "dom sh \<subseteq> dom sh'" using pok(3) wok(3) by simp
    have view': "iter_view sh0 sh' s'"
      using view dom' by (auto simp: iter_view_def iter_ok_def dom_def)
    have unread: "shadow_at sh' (?a + i) = shadow_at sh0 (?a + i)" if "i < ?e - 1 - ?a" for i
    proof -
      have j: "i < ?e - ?a" using that False by uint_arith
      have "?a + i \<noteq> ?d - 1"
      proof
        assume d: "?a + i = ?d - 1"
        then have d': "?d = ?a + i + 1" by simp
        from "1.prems"(5) that False show False unfolding d' by uint_arith
      qed
      then show ?thesis using "1.prems"(4) [OF j] wok(2) pok(2) adr(1) by simp
    qed
    have apart: "?d - 1 = ?e - 1 \<or> ?e - 1 - ?a \<le> ?e - 1 - (?d - 1)"
      using "1.prems"(5) False by uint_arith
    have IH: "shadow_at (shadow_copy_backward sh' it s' (fst pv)) b =
      (if ?d - 1 - 1 - b < ?e - 1 - ?a
       then shadow_at sh0 (b + (?e - 1 - (?d - 1))) else shadow_at sh' b)"
      using "1.IH" [OF False refl refl refl, folded s'_def, folded v_def pv_def,
          folded sh'_def, OF view' wok(1)] "1.prems"(3) dom' unread apart adr by auto
    have rng: "?d - 1 - b < ?e - ?a \<longleftrightarrow> b = ?d - 1 \<or> ?d - 1 - 1 - b < ?e - 1 - ?a"
      using range_step_fwd [of 0 "?e - ?a" "?d - 1 - b"] False by (auto simp: algebra_simps)
    have unfold: "shadow_copy_backward sh it stop result =
        shadow_copy_backward sh' it s' (fst pv)"
      using False
      by (simp add: shadow_copy_backward.simps [of sh it stop result] s'_def v_def pv_def
          sh'_def Let_def)
    show ?thesis
      unfolding unfold IH rng using wok(2) [of b] pok(2) [of b] v adr by auto
  qed
qed

subsection \<open>Whole regions\<close>

lemma fill_shadow_at:
  "shadow_at (fill_shadow sh addr len v) b = (if b - addr < len then v else shadow_at sh b)"
proof -
  let ?b = "write_iter sh addr"
  let ?e = "write_iter (snd ?b) (addr + len)"
  have "iter_ok (snd ?e) (fst ?b)"
    using write_iter_ok(1) [of sh addr] write_iter_ok(3) [of "snd ?b" "addr + len"]
    by (auto simp: iter_ok_def dom_def)
  from shadow_fill_at [OF this] show ?thesis
    by (simp add: fill_shadow_def Let_def write_iter_ok)
qed

lemma isConcrete_iff:
  assumes "unat addr + unat nbytes < 2 ^ 64"
  shows "isConcrete sh addr nbytes \<longleftrightarrow> (\<forall>b. b - addr < nbytes \<longrightarrow> shadow_at sh b = None)"
proof -
  have all: "all_of_null sh (read_iter sh addr) (read_iter sh (addr + nbytes)) \<longleftrightarrow>
      (\<forall>b. b - addr < nbytes \<longrightarrow> shadow_at sh b = None)"
    using all_of_null_iff [OF read_iter_view [OF order.refl],
        of sh addr "read_iter sh (addr + nbytes)"] by simp
  have "shadow_at sh b = None"
    if fast: "pageStart addr = pageStart (addr + nbytes)" "sh (pageStart addr) = None"
      and b: "b - addr < nbytes" for b
    using page_convex [OF assms b fast(1)] fast(2) by (simp add: shadow_at_def)
  with all show ?thesis by (auto simp: isConcrete_def)
qed
end
