(* ===== verification/Backend.thy ===== *)
theory Backend
  imports Prelude "HOL-Library.Signed_Division"
begin

text \<open>
  The interface between the backend-independent half of the run-time library
  (\<open>runtime/src/RuntimeCommon.cpp\<close>) and a symbolic backend, as \<open>runtime/include/RuntimeCommon.h\<close>
  declares it. A backend is a record of operations; symbolic expressions are pointers, so they are
  options and \<open>None\<close> is null. The locale \<open>expr_backend\<close> states what the common half relies on: every
  builder returns an expression that denotes the named bit-vector operation, keeps the expressions
  alive that were alive before, and handles null where the header says so. Denotations are values of
  the SMT-LIB theories of bit vectors and Booleans; a floating-point value is its IEEE 754 bit pattern,
  with a flag that tells double from single precision.
\<close>

unbundle bit_operations_syntax

subsection \<open>Values of expressions\<close>

datatype smt_value =
    BVV nat int
  | BoolV bool
  | IntV int
  | FloatV bool int

text \<open>The binary builders of the interface, by the name after \<open>_sym_build_\<close>.\<close>

datatype sym_binary =
    SAdd | SSub | SMul | SUnsigned_div | SSigned_div | SUnsigned_rem | SSigned_rem
  | SShift_left | SLogical_shift_right | SArithmetic_shift_right
  | SSigned_less_than | SSigned_less_equal | SSigned_greater_than | SSigned_greater_equal
  | SUnsigned_less_than | SUnsigned_less_equal | SUnsigned_greater_than | SUnsigned_greater_equal
  | SEqual | SNot_equal
  | SBool_and | SAnd | SBool_or | SOr | SBool_xor | SXor
  | SFloat_ordered_greater_than | SFloat_ordered_greater_equal | SFloat_ordered_less_than
  | SFloat_ordered_less_equal | SFloat_ordered_equal

subsection \<open>Meaning of the operations\<close>

fun bv_binary :: "sym_binary \<Rightarrow> nat \<Rightarrow> int \<Rightarrow> int \<Rightarrow> smt_value option" where
  "bv_binary SAdd n x y = Some (BVV n (take_bit n (x + y)))"
| "bv_binary SSub n x y = Some (BVV n (take_bit n (x - y)))"
| "bv_binary SMul n x y = Some (BVV n (take_bit n (x * y)))"
| "bv_binary SUnsigned_div n x y = (if y = 0 then None else Some (BVV n (x div y)))"
| "bv_binary SSigned_div n x y =
     (if y = 0 then None else Some (BVV n (take_bit n (sval n x sdiv sval n y))))"
| "bv_binary SUnsigned_rem n x y = (if y = 0 then None else Some (BVV n (x mod y)))"
| "bv_binary SSigned_rem n x y =
     (if y = 0 then None else Some (BVV n (take_bit n (sval n x smod sval n y))))"
| "bv_binary SShift_left n x y =
     Some (BVV n (if y < int n then take_bit n (x * 2 ^ nat y) else 0))"
| "bv_binary SLogical_shift_right n x y =
     Some (BVV n (if y < int n then x div 2 ^ nat y else 0))"
| "bv_binary SArithmetic_shift_right n x y =
     Some (BVV n (take_bit n (sval n x div 2 ^ (if y < int n then nat y else n))))"
| "bv_binary SSigned_less_than n x y = Some (BoolV (sval n x < sval n y))"
| "bv_binary SSigned_less_equal n x y = Some (BoolV (sval n x \<le> sval n y))"
| "bv_binary SSigned_greater_than n x y = Some (BoolV (sval n x > sval n y))"
| "bv_binary SSigned_greater_equal n x y = Some (BoolV (sval n x \<ge> sval n y))"
| "bv_binary SUnsigned_less_than n x y = Some (BoolV (x < y))"
| "bv_binary SUnsigned_less_equal n x y = Some (BoolV (x \<le> y))"
| "bv_binary SUnsigned_greater_than n x y = Some (BoolV (x > y))"
| "bv_binary SUnsigned_greater_equal n x y = Some (BoolV (x \<ge> y))"
| "bv_binary SEqual n x y = Some (BoolV (x = y))"
| "bv_binary SNot_equal n x y = Some (BoolV (x \<noteq> y))"
| "bv_binary SAnd n x y = Some (BVV n (x AND y))"
| "bv_binary SOr n x y = Some (BVV n (x OR y))"
| "bv_binary SXor n x y = Some (BVV n (x XOR y))"
| "bv_binary _ n x y = None"

fun bool_binary :: "sym_binary \<Rightarrow> bool \<Rightarrow> bool \<Rightarrow> smt_value option" where
  "bool_binary SEqual p q = Some (BoolV (p = q))"
| "bool_binary SNot_equal p q = Some (BoolV (p \<noteq> q))"
| "bool_binary SBool_and p q = Some (BoolV (p \<and> q))"
| "bool_binary SBool_or p q = Some (BoolV (p \<or> q))"
| "bool_binary SBool_xor p q = Some (BoolV (p \<noteq> q))"
| "bool_binary _ p q = None"

text \<open>IEEE 754 bit patterns: widths of the fields, the test for NaN, and the order of the other values.\<close>

definition fp_fraction_bits :: "bool \<Rightarrow> nat" where
  "fp_fraction_bits is_double = (if is_double then 52 else 23)"

definition fp_exponent_bits :: "bool \<Rightarrow> nat" where
  "fp_exponent_bits is_double = (if is_double then 11 else 8)"

definition fp_is_nan :: "bool \<Rightarrow> int \<Rightarrow> bool" where
  "fp_is_nan d x \<longleftrightarrow>
     x div 2 ^ fp_fraction_bits d mod 2 ^ fp_exponent_bits d = 2 ^ fp_exponent_bits d - 1 \<and>
     x mod 2 ^ fp_fraction_bits d \<noteq> 0"

definition fp_key :: "bool \<Rightarrow> int \<Rightarrow> int" where
  "fp_key d x =
     (let m = 2 ^ (fp_fraction_bits d + fp_exponent_bits d)
      in if x div m mod 2 = 1 then - (x mod m) else x mod m)"

definition fp_ordered :: "bool \<Rightarrow> int \<Rightarrow> int \<Rightarrow> bool" where
  "fp_ordered d x y \<longleftrightarrow> \<not> fp_is_nan d x \<and> \<not> fp_is_nan d y"

fun float_binary :: "sym_binary \<Rightarrow> bool \<Rightarrow> int \<Rightarrow> int \<Rightarrow> smt_value option" where
  "float_binary SFloat_ordered_greater_than d x y =
     Some (BoolV (fp_ordered d x y \<and> fp_key d x > fp_key d y))"
| "float_binary SFloat_ordered_greater_equal d x y =
     Some (BoolV (fp_ordered d x y \<and> fp_key d x \<ge> fp_key d y))"
| "float_binary SFloat_ordered_less_than d x y =
     Some (BoolV (fp_ordered d x y \<and> fp_key d x < fp_key d y))"
| "float_binary SFloat_ordered_less_equal d x y =
     Some (BoolV (fp_ordered d x y \<and> fp_key d x \<le> fp_key d y))"
| "float_binary SFloat_ordered_equal d x y =
     Some (BoolV (fp_ordered d x y \<and> fp_key d x = fp_key d y))"
| "float_binary _ d x y = None"

fun smt_binary :: "sym_binary \<Rightarrow> smt_value \<Rightarrow> smt_value \<Rightarrow> smt_value option" where
  "smt_binary op (BVV n x) (BVV m y) = (if n = m then bv_binary op n x y else None)"
| "smt_binary op (BoolV p) (BoolV q) = bool_binary op p q"
| "smt_binary op (FloatV d x) (FloatV d' y) = (if d = d' then float_binary op d x y else None)"
| "smt_binary op _ _ = None"

fun same_sort :: "smt_value \<Rightarrow> smt_value \<Rightarrow> bool" where
  "same_sort (BVV n _) (BVV m _) = (n = m)"
| "same_sort (BoolV _) (BoolV _) = True"
| "same_sort (IntV _) (IntV _) = True"
| "same_sort (FloatV d _) (FloatV d' _) = (d = d')"
| "same_sort _ _ = False"

definition bv_concat :: "nat \<Rightarrow> int \<Rightarrow> int \<Rightarrow> int" where
  "bv_concat m x y = x * 2 ^ m + y"

definition bv_extract :: "nat \<Rightarrow> nat \<Rightarrow> int \<Rightarrow> int" where
  "bv_extract hi lo x = take_bit (hi - lo + 1) (x div 2 ^ lo)"

subsection \<open>The interface\<close>

record ('b, 'e) backend =
  build_integer :: "u64 \<Rightarrow> u8 \<Rightarrow> ('b, 'e option) rt"
  build_binary :: "sym_binary \<Rightarrow> 'e option \<Rightarrow> 'e option \<Rightarrow> ('b, 'e option) rt"
  build_ite :: "'e option \<Rightarrow> 'e option \<Rightarrow> 'e option \<Rightarrow> ('b, 'e option) rt"
  build_sext :: "'e option \<Rightarrow> u8 \<Rightarrow> ('b, 'e option) rt"
  build_zext :: "'e option \<Rightarrow> u8 \<Rightarrow> ('b, 'e option) rt"
  build_trunc :: "'e option \<Rightarrow> u8 \<Rightarrow> ('b, 'e option) rt"
  build_bool_to_bit :: "'e option \<Rightarrow> ('b, 'e option) rt"
  concat_helper :: "'e option \<Rightarrow> 'e option \<Rightarrow> ('b, 'e option) rt"
  extract_helper :: "'e option \<Rightarrow> nat \<Rightarrow> nat \<Rightarrow> ('b, 'e option) rt"
  bits_helper :: "'e option \<Rightarrow> ('b, nat) rt"
  get_input_byte :: "u64 \<Rightarrow> u8 \<Rightarrow> ('b, 'e option) rt"
  get_input_byte_with_prefix :: "string \<Rightarrow> u64 \<Rightarrow> u8 \<Rightarrow> ('b, 'e option) rt"
  get_integer :: "string \<Rightarrow> ('b, 'e option) rt"
  push_path_constraint :: "'e option \<Rightarrow> bool \<Rightarrow> u64 \<Rightarrow> ('b, unit) rt"

text \<open>
  \<open>denotes live sem m s F\<close>: from state \<open>s\<close>, the builder \<open>m\<close> returns a live, non-null expression whose
  value under every assignment \<open>\<sigma>\<close> of the symbolic inputs is \<open>F \<sigma>\<close>, and nothing dies.
\<close>

definition denotes ::
    "('b \<Rightarrow> 'e set) \<Rightarrow> ('m \<Rightarrow> 'e \<Rightarrow> smt_value) \<Rightarrow> ('b, 'e option) rt \<Rightarrow> 'b \<Rightarrow> ('m \<Rightarrow> smt_value) \<Rightarrow> bool"
  where
  "denotes live sem m s F \<longleftrightarrow>
     rt_ok m s (\<lambda>x s'. \<exists>e. x = Some e \<and> e \<in> live s' \<and> live s \<subseteq> live s' \<and> (\<forall>\<sigma>. sem \<sigma> e = F \<sigma>))"

text \<open>The same from every state in which the expressions \<open>L\<close> are alive.\<close>

definition comp ::
    "('b \<Rightarrow> 'e set) \<Rightarrow> ('m \<Rightarrow> 'e \<Rightarrow> smt_value) \<Rightarrow> 'e set \<Rightarrow> ('b, 'e option) rt \<Rightarrow> ('m \<Rightarrow> smt_value) \<Rightarrow> bool"
  where
  "comp live sem L m F \<longleftrightarrow> (\<forall>s. L \<subseteq> live s \<longrightarrow> denotes live sem m s F)"

locale expr_backend =
  fixes B :: "('b, 'e) backend"
    and live :: "'b \<Rightarrow> 'e set"
    and sem :: "'m \<Rightarrow> 'e \<Rightarrow> smt_value"
  assumes value_range: "sem \<sigma> x = BVV n i \<Longrightarrow> 0 < n \<and> 0 \<le> i \<and> i < 2 ^ n"
    and law_integer: "0 < unat w \<Longrightarrow> unat w \<le> 64 \<Longrightarrow>
      denotes live sem (build_integer B k w) s
        (\<lambda>_. BVV (unat w) (take_bit (unat w) (uint k)))"
    and law_binary: "x \<in> live s \<Longrightarrow> y \<in> live s \<Longrightarrow>
      (\<And>\<sigma>. smt_binary op (sem \<sigma> x) (sem \<sigma> y) = Some (F \<sigma>)) \<Longrightarrow>
      denotes live sem (build_binary B op (Some x) (Some y)) s F"
    and law_ite: "c \<in> live s \<Longrightarrow> x \<in> live s \<Longrightarrow> y \<in> live s \<Longrightarrow>
      (\<And>\<sigma>. sem \<sigma> c = BoolV (p \<sigma>)) \<Longrightarrow> (\<And>\<sigma>. same_sort (sem \<sigma> x) (sem \<sigma> y)) \<Longrightarrow>
      denotes live sem (build_ite B (Some c) (Some x) (Some y)) s
        (\<lambda>\<sigma>. if p \<sigma> then sem \<sigma> x else sem \<sigma> y)"
    and law_sext: "x \<in> live s \<Longrightarrow> (\<And>\<sigma>. sem \<sigma> x = BVV n (f \<sigma>)) \<Longrightarrow>
      denotes live sem (build_sext B (Some x) w) s
        (\<lambda>\<sigma>. BVV (n + unat w) (take_bit (n + unat w) (sval n (f \<sigma>))))"
    and law_zext: "x \<in> live s \<Longrightarrow> (\<And>\<sigma>. sem \<sigma> x = BVV n (f \<sigma>)) \<Longrightarrow>
      denotes live sem (build_zext B (Some x) w) s (\<lambda>\<sigma>. BVV (n + unat w) (f \<sigma>))"
    and law_trunc: "x \<in> live s \<Longrightarrow> (\<And>\<sigma>. sem \<sigma> x = BVV n (f \<sigma>)) \<Longrightarrow> 0 < unat w \<Longrightarrow> unat w \<le> n \<Longrightarrow>
      denotes live sem (build_trunc B (Some x) w) s (\<lambda>\<sigma>. BVV (unat w) (take_bit (unat w) (f \<sigma>)))"
    and law_ext_null: "build_sext B None w s = Inr (None, s)" "build_zext B None w s = Inr (None, s)"
      "build_trunc B None w s = Inr (None, s)" "build_bool_to_bit B None s = Inr (None, s)"
    and law_bool_to_bit: "x \<in> live s \<Longrightarrow> (\<And>\<sigma>. sem \<sigma> x = BoolV (p \<sigma>)) \<Longrightarrow>
      denotes live sem (build_bool_to_bit B (Some x)) s (\<lambda>\<sigma>. BVV 1 (of_bool (p \<sigma>)))"
    and law_concat: "x \<in> live s \<Longrightarrow> y \<in> live s \<Longrightarrow> (\<And>\<sigma>. sem \<sigma> x = BVV n (f \<sigma>)) \<Longrightarrow>
      (\<And>\<sigma>. sem \<sigma> y = BVV m (g \<sigma>)) \<Longrightarrow>
      denotes live sem (concat_helper B (Some x) (Some y)) s
        (\<lambda>\<sigma>. BVV (n + m) (bv_concat m (f \<sigma>) (g \<sigma>)))"
    and law_extract: "x \<in> live s \<Longrightarrow> (\<And>\<sigma>. sem \<sigma> x = BVV n (f \<sigma>)) \<Longrightarrow> lo \<le> hi \<Longrightarrow> hi < n \<Longrightarrow>
      n < 2 ^ 32 \<Longrightarrow>
      denotes live sem (extract_helper B (Some x) hi lo) s
        (\<lambda>\<sigma>. BVV (hi - lo + 1) (bv_extract hi lo (f \<sigma>)))"
    and law_bits: "(\<And>\<sigma>. \<exists>i. sem \<sigma> x = BVV n i) \<Longrightarrow>
      \<exists>s'. bits_helper B (Some x) s = Inr (n, s') \<and> live s \<subseteq> live s'"

subsection \<open>Reasoning about expression builders\<close>



lemma denotesE:
  assumes "denotes live sem m s F"
  obtains e s' where "m s = Inr (Some e, s')" "e \<in> live s'" "live s \<subseteq> live s'" "\<And>\<sigma>. sem \<sigma> e = F \<sigma>"
  using assms by (auto simp: denotes_def rt_ok_def)

lemma compI: "(\<And>s. L \<subseteq> live s \<Longrightarrow> denotes live sem m s F) \<Longrightarrow> comp live sem L m F"
  by (simp add: comp_def)

lemma comp_cong: "comp live sem L m F \<Longrightarrow> (\<And>\<sigma>. F \<sigma> = G \<sigma>) \<Longrightarrow> comp live sem L m G"
  by (simp add: comp_def denotes_def)

lemma comp_denotes: "comp live sem L m F \<Longrightarrow> L \<subseteq> live s \<Longrightarrow> denotes live sem m s F"
  by (simp add: comp_def)

lemma comp_return:
  "x \<in> L \<Longrightarrow> (\<And>\<sigma>. sem \<sigma> x = F \<sigma>) \<Longrightarrow> comp live sem L (rt_return (Some x)) F"
  by (auto simp: comp_def denotes_def rt_simps)

lemma comp_bind:
  assumes m: "comp live sem L m F"
    and k: "\<And>e. (\<And>\<sigma>. sem \<sigma> e = F \<sigma>) \<Longrightarrow> comp live sem (insert e L) (k (Some e)) G"
  shows "comp live sem L (rt_bind m k) G"
  unfolding comp_def
proof (intro allI impI)
  fix s assume "L \<subseteq> live s"
  with m have "denotes live sem m s F" by (simp add: comp_def)
  then obtain e s' where e: "m s = Inr (Some e, s')" "e \<in> live s'" "live s \<subseteq> live s'"
    "\<And>\<sigma>. sem \<sigma> e = F \<sigma>" by (rule denotesE) blast
  have "insert e L \<subseteq> live s'" using e \<open>L \<subseteq> live s\<close> by auto
  with k [OF e(4)] have "denotes live sem (k (Some e)) s' G" by (simp add: comp_def)
  then show "denotes live sem (rt_bind m k) s G"
    using e(1,3) by (auto simp: denotes_def rt_ok_def rt_bind_def)
qed

lemma comp_call1:
  assumes "comp live sem L m F"
    and "\<And>x L'. x \<in> L' \<Longrightarrow> (\<And>\<sigma>. sem \<sigma> x = F \<sigma>) \<Longrightarrow> comp live sem L' (f (Some x)) H"
  shows "comp live sem L (rt_call1 f m) H"
  unfolding rt_call1_def by (rule comp_bind [OF assms(1)]) (rule assms(2), simp_all)

lemma comp_weaken: "comp live sem L m F \<Longrightarrow> L \<subseteq> L' \<Longrightarrow> comp live sem L' m F"
  by (auto simp: comp_def)

lemma comp_call2:
  assumes "comp live sem L m1 F" "comp live sem L m2 G"
    and "\<And>x y L'. x \<in> L' \<Longrightarrow> y \<in> L' \<Longrightarrow> (\<And>\<sigma>. sem \<sigma> x = F \<sigma>) \<Longrightarrow> (\<And>\<sigma>. sem \<sigma> y = G \<sigma>) \<Longrightarrow>
      comp live sem L' (f (Some x) (Some y)) H"
  shows "comp live sem L (rt_call2 f m1 m2) H"
  unfolding rt_call2_def
  by (rule comp_bind [OF assms(1)], rule comp_bind [OF comp_weaken [OF assms(2)]], blast)
    (rule assms(3), simp_all)

lemma comp_call3:
  assumes "comp live sem L m1 F" "comp live sem L m2 G" "comp live sem L m3 H"
    and "\<And>x y z L'. x \<in> L' \<Longrightarrow> y \<in> L' \<Longrightarrow> z \<in> L' \<Longrightarrow> (\<And>\<sigma>. sem \<sigma> x = F \<sigma>) \<Longrightarrow>
      (\<And>\<sigma>. sem \<sigma> y = G \<sigma>) \<Longrightarrow> (\<And>\<sigma>. sem \<sigma> z = H \<sigma>) \<Longrightarrow>
      comp live sem L' (f (Some x) (Some y) (Some z)) K"
  shows "comp live sem L (rt_call3 f m1 m2 m3) K"
  unfolding rt_call3_def
  by (rule comp_bind [OF assms(1)], rule comp_bind [OF comp_weaken [OF assms(2)]], blast,
      rule comp_bind [OF comp_weaken [OF assms(3)]], blast)
    (rule assms(4), simp_all)

context expr_backend
begin

lemma comp_value_binary:
  "comp live sem L (rt_call2 (build_binary B op) (rt_return x) (rt_return y)) F \<Longrightarrow>
   comp live sem L (build_binary B op x y) F"
  by (simp add: rt_call2_def)

lemma comp_value_ext:
  "comp live sem L (rt_call1 (\<lambda>x. build_sext B x w) (rt_return x)) F \<Longrightarrow>
   comp live sem L (build_sext B x w) F"
  "comp live sem L (rt_call1 (\<lambda>x. build_zext B x w) (rt_return x)) F \<Longrightarrow>
   comp live sem L (build_zext B x w) F"
  "comp live sem L (rt_call1 (\<lambda>x. build_trunc B x w) (rt_return x)) F \<Longrightarrow>
   comp live sem L (build_trunc B x w) F"
  by (simp_all add: rt_call1_def)

lemma comp_value_bits:
  "comp live sem L (rt_call1 (\<lambda>x. extract_helper B x hi lo) (rt_return x)) F \<Longrightarrow>
   comp live sem L (extract_helper B x hi lo) F"
  "comp live sem L (rt_call2 (concat_helper B) (rt_return x) (rt_return y)) F \<Longrightarrow>
   comp live sem L (concat_helper B x y) F"
  "comp live sem L (rt_call1 (build_bool_to_bit B) (rt_return x)) F \<Longrightarrow>
   comp live sem L (build_bool_to_bit B x) F"
  by (simp_all add: rt_call1_def rt_call2_def)

lemmas comp_values = comp_value_binary comp_value_ext comp_value_bits

lemma comp_integer:
  "0 < unat w \<Longrightarrow> unat w \<le> 64 \<Longrightarrow>
   comp live sem L (build_integer B v w) (\<lambda>_. BVV (unat w) (take_bit (unat w) (uint v)))"
  by (simp add: comp_def law_integer)

lemma comp_binary:
  assumes "comp live sem L m1 F" "comp live sem L m2 G"
    and "\<And>\<sigma>. smt_binary op (F \<sigma>) (G \<sigma>) = Some (H \<sigma>)"
  shows "comp live sem L (rt_call2 (build_binary B op) m1 m2) H"
  using assms(1,2)
proof (rule comp_call2)
  fix x y L'
  assume "x \<in> L'" "y \<in> L'" "\<And>\<sigma>. sem \<sigma> x = F \<sigma>" "\<And>\<sigma>. sem \<sigma> y = G \<sigma>"
  then show "comp live sem L' (build_binary B op (Some x) (Some y)) H"
    using assms(3) by (auto simp: comp_def intro!: law_binary)
qed

lemma comp_ops:
  assumes "comp live sem L m1 (\<lambda>\<sigma>. BVV n (f \<sigma>))" "comp live sem L m2 (\<lambda>\<sigma>. BVV n (g \<sigma>))"
  shows "comp live sem L (rt_call2 (build_binary B SAdd) m1 m2)
           (\<lambda>\<sigma>. BVV n (take_bit n (f \<sigma> + g \<sigma>)))"
    and "comp live sem L (rt_call2 (build_binary B SSub) m1 m2)
           (\<lambda>\<sigma>. BVV n (take_bit n (f \<sigma> - g \<sigma>)))"
    and "comp live sem L (rt_call2 (build_binary B SMul) m1 m2)
           (\<lambda>\<sigma>. BVV n (take_bit n (f \<sigma> * g \<sigma>)))"
    and "comp live sem L (rt_call2 (build_binary B SShift_left) m1 m2)
           (\<lambda>\<sigma>. BVV n (if g \<sigma> < int n then take_bit n (f \<sigma> * 2 ^ nat (g \<sigma>)) else 0))"
    and "comp live sem L (rt_call2 (build_binary B SArithmetic_shift_right) m1 m2)
           (\<lambda>\<sigma>. BVV n (take_bit n
              (sval n (f \<sigma>) div 2 ^ (if g \<sigma> < int n then nat (g \<sigma>) else n))))"
    and "comp live sem L (rt_call2 (build_binary B SSigned_less_equal) m1 m2)
           (\<lambda>\<sigma>. BoolV (sval n (f \<sigma>) \<le> sval n (g \<sigma>)))"
    and "comp live sem L (rt_call2 (build_binary B SSigned_greater_equal) m1 m2)
           (\<lambda>\<sigma>. BoolV (sval n (g \<sigma>) \<le> sval n (f \<sigma>)))"
    and "comp live sem L (rt_call2 (build_binary B SUnsigned_greater_equal) m1 m2)
           (\<lambda>\<sigma>. BoolV (g \<sigma> \<le> f \<sigma>))"
    and "comp live sem L (rt_call2 (build_binary B SEqual) m1 m2) (\<lambda>\<sigma>. BoolV (f \<sigma> = g \<sigma>))"
    and "comp live sem L (rt_call2 (build_binary B SNot_equal) m1 m2) (\<lambda>\<sigma>. BoolV (f \<sigma> \<noteq> g \<sigma>))"
  by (rule comp_binary [OF assms], simp)+

lemma comp_ite:
  assumes "comp live sem L c (\<lambda>\<sigma>. BoolV (p \<sigma>))" "comp live sem L m1 (\<lambda>\<sigma>. BVV n (f \<sigma>))"
    "comp live sem L m2 (\<lambda>\<sigma>. BVV n (g \<sigma>))"
  shows "comp live sem L (rt_call3 (build_ite B) c m1 m2)
    (\<lambda>\<sigma>. BVV n (if p \<sigma> then f \<sigma> else g \<sigma>))"
  using assms
proof (rule comp_call3)
  fix x y z L'
  assume x: "x \<in> L'" "y \<in> L'" "z \<in> L'" "\<And>\<sigma>. sem \<sigma> x = BoolV (p \<sigma>)"
    and yz: "\<And>\<sigma>. sem \<sigma> y = BVV n (f \<sigma>)" "\<And>\<sigma>. sem \<sigma> z = BVV n (g \<sigma>)"
  have "denotes live sem (build_ite B (Some x) (Some y) (Some z)) s
      (\<lambda>\<sigma>. if p \<sigma> then sem \<sigma> y else sem \<sigma> z)" if "L' \<subseteq> live s" for s
    using x yz that by (intro law_ite) auto
  then show "comp live sem L' (build_ite B (Some x) (Some y) (Some z))
      (\<lambda>\<sigma>. BVV n (if p \<sigma> then f \<sigma> else g \<sigma>))"
    unfolding comp_def by (auto simp: yz if_distrib [of "BVV n"] cong: if_cong)
qed

lemma comp_ext:
  assumes "comp live sem L m (\<lambda>\<sigma>. BVV n (f \<sigma>))"
  shows "comp live sem L (rt_call1 (\<lambda>x. build_sext B x w) m)
           (\<lambda>\<sigma>. BVV (n + unat w) (take_bit (n + unat w) (sval n (f \<sigma>))))"
    and "comp live sem L (rt_call1 (\<lambda>x. build_zext B x w) m) (\<lambda>\<sigma>. BVV (n + unat w) (f \<sigma>))"
    and "0 < unat w \<Longrightarrow> unat w \<le> n \<Longrightarrow>
         comp live sem L (rt_call1 (\<lambda>x. build_trunc B x w) m)
           (\<lambda>\<sigma>. BVV (unat w) (take_bit (unat w) (f \<sigma>)))"
    and "lo \<le> hi \<Longrightarrow> hi < n \<Longrightarrow> n < 2 ^ 32 \<Longrightarrow>
         comp live sem L (rt_call1 (\<lambda>x. extract_helper B x hi lo) m)
           (\<lambda>\<sigma>. BVV (hi - lo + 1) (bv_extract hi lo (f \<sigma>)))"
  by (rule comp_call1 [OF assms], rule compI,
      blast intro: law_sext law_zext law_trunc law_extract)+

lemma comp_bool_to_bit:
  assumes "comp live sem L m (\<lambda>\<sigma>. BoolV (p \<sigma>))"
  shows "comp live sem L (rt_call1 (build_bool_to_bit B) m) (\<lambda>\<sigma>. BVV 1 (of_bool (p \<sigma>)))"
  by (rule comp_call1 [OF assms], unfold comp_def, blast intro: law_bool_to_bit)

lemma comp_concat:
  assumes "comp live sem L m1 (\<lambda>\<sigma>. BVV n (f \<sigma>))" "comp live sem L m2 (\<lambda>\<sigma>. BVV m (g \<sigma>))"
  shows "comp live sem L (rt_call2 (concat_helper B) m1 m2)
    (\<lambda>\<sigma>. BVV (n + m) (bv_concat m (f \<sigma>) (g \<sigma>)))"
  by (rule comp_call2 [OF assms]) (auto simp: comp_def intro: law_concat)

lemma comp_bits:
  assumes "\<And>\<sigma>. sem \<sigma> x = BVV n (f \<sigma>)" "comp live sem L (k n) G"
  shows "comp live sem L (rt_bind (bits_helper B (Some x)) k) G"
proof (rule compI)
  fix s assume s: "L \<subseteq> live s"
  obtain s' where s': "bits_helper B (Some x) s = Inr (n, s')" "live s \<subseteq> live s'"
    using law_bits [of x n s] assms(1) by blast
  with s assms(2) have "denotes live sem (k n) s' G" by (auto simp: comp_def)
  then obtain e s'' where "k n s' = Inr (Some e, s'')" "e \<in> live s''" "live s' \<subseteq> live s''"
    "\<And>\<sigma>. sem \<sigma> e = G \<sigma>" by (rule denotesE) blast
  with s' show "denotes live sem (rt_bind (bits_helper B (Some x)) k) s G"
    by (auto simp: denotes_def rt_ok_def rt_bind_def)
qed

lemmas comp_exprs = comp_ops comp_ite comp_ext(1,2) comp_bool_to_bit comp_concat comp_return

lemma sem_bounds:
  assumes "\<And>\<sigma>. sem \<sigma> x = BVV n (f \<sigma>)"
  shows "0 < n" "0 \<le> f \<sigma>" "f \<sigma> < 2 ^ n"
  using value_range [OF assms, of \<sigma>] by simp_all

end

end
