(* ===== verification/Bytes.thy ===== *)
theory Bytes
  imports Backend
begin

text \<open>
  The byte view of bit vectors. \<open>mem_bytes n x\<close> is the memory image of an \<open>n\<close>-byte value whose first
  byte is the most significant one (the layout the runtime uses for aggregates); \<open>be_val\<close> reads a byte
  list back. Little-endian memory is the reversed list.
\<close>

fun be_val :: "int list \<Rightarrow> int" where
  "be_val [] = 0"
| "be_val (b # bs) = b * 256 ^ length bs + be_val bs"

definition mem_bytes :: "nat \<Rightarrow> int \<Rightarrow> int list" where
  "mem_bytes n x = map (\<lambda>i. x div 256 ^ (n - 1 - i) mod 256) [0..<n]"

lemma length_mem_bytes [simp]: "length (mem_bytes n x) = n"
  by (simp add: mem_bytes_def)

lemma nth_mem_bytes: "i < n \<Longrightarrow> mem_bytes n x ! i = x div 256 ^ (n - 1 - i) mod 256"
  by (simp add: mem_bytes_def)

lemma be_val_append: "be_val (xs @ ys) = be_val xs * 256 ^ length ys + be_val ys"
  by (induction xs) (simp_all add: algebra_simps power_add)

lemma be_val_bounds:
  "\<forall>b \<in> set bs. 0 \<le> b \<and> b < 256 \<Longrightarrow> 0 \<le> be_val bs \<and> be_val bs < 256 ^ length bs"
proof (induction bs)
  case Nil
  then show ?case by simp
next
  case (Cons b bs)
  then have "be_val bs < 256 ^ length bs" "0 \<le> be_val bs" "b \<le> 255" "0 \<le> b" by auto
  moreover have "b * 256 ^ length bs \<le> 255 * 256 ^ length bs"
    using \<open>b \<le> 255\<close> by (simp add: mult_right_mono)
  ultimately have "b * 256 ^ length bs + be_val bs < 256 * 256 ^ length bs" by linarith
  then show ?case using \<open>0 \<le> be_val bs\<close> \<open>0 \<le> b\<close> by simp
qed

lemma mem_bytes_bounds: "b \<in> set (mem_bytes n x) \<Longrightarrow> 0 \<le> b \<and> b < 256"
  by (auto simp: mem_bytes_def)

lemma pow256: "(256::int) ^ n = 2 ^ (8 * n)"
  by (simp add: power_mult)

text \<open>A slice of the memory image, read back, is a shift and a mask of the value.\<close>

lemma be_val_slice:
  assumes "o' + l \<le> n"
  shows "be_val (take l (drop o' (mem_bytes n x))) = x div 256 ^ (n - o' - l) mod 256 ^ l"
  using assms
proof (induction l)
  case 0
  then show ?case by simp
next
  case (Suc l)
  have tk: "take (Suc l) (drop o' (mem_bytes n x)) =
      take l (drop o' (mem_bytes n x)) @ [mem_bytes n x ! (o' + l)]"
    using Suc.prems by (simp add: take_Suc_conv_app_nth)
  let ?k = "n - o' - Suc l"
  have k: "n - o' - l = Suc ?k" "n - 1 - (o' + l) = ?k" using Suc.prems by auto
  let ?y = "x div 256 ^ ?k"
  have "be_val (take (Suc l) (drop o' (mem_bytes n x))) =
      (x div 256 ^ Suc ?k mod 256 ^ l) * 256 + ?y mod 256"
    using Suc.IH Suc.prems by (simp only: tk be_val_append nth_mem_bytes k) (simp add: k nth_mem_bytes)
  also have "x div 256 ^ Suc ?k = ?y div 256"
    by (simp add: power_Suc2 zdiv_zmult2_eq del: power_Suc)
  also have "(?y div 256 mod 256 ^ l) * 256 + ?y mod 256 = ?y mod 256 ^ Suc l"
    by (simp add: zmod_zmult2_eq)
  finally show ?case .
qed

lemma be_val_mem_bytes: "be_val (mem_bytes n x) = x mod 256 ^ n"
  using be_val_slice [of 0 n n x] by simp

lemma mem_bytes_be_val:
  assumes "\<forall>b \<in> set bs. 0 \<le> b \<and> b < 256"
  shows "mem_bytes (length bs) (be_val bs) = bs"
proof (rule nth_equalityI)
  fix i assume i: "i < length (mem_bytes (length bs) (be_val bs))"
  then have lt: "i < length bs" by simp
  let ?l = "length bs - 1 - i"
  have split: "bs = take i bs @ bs ! i # drop (Suc i) bs"
    using lt by (rule id_take_nth_drop)
  have pw: "(256::int) ^ (length bs - i) = 256 * 256 ^ (length bs - Suc i)"
    using lt by (simp add: power_Suc [symmetric] Suc_diff_Suc del: power_Suc)
  have low: "0 \<le> be_val (drop (Suc i) bs)" "be_val (drop (Suc i) bs) < 256 ^ ?l"
    using be_val_bounds [of "drop (Suc i) bs"] assms by (auto dest: in_set_dropD)
  have "be_val bs = (be_val (take i bs) * 256 + bs ! i) * 256 ^ ?l + be_val (drop (Suc i) bs)"
    by (subst split) (use lt pw in \<open>simp add: be_val_append algebra_simps\<close>)
  then have "be_val bs div 256 ^ ?l = be_val (take i bs) * 256 + bs ! i"
    using low by simp
  moreover have "0 \<le> bs ! i" "bs ! i < 256" using assms lt by auto
  ultimately show "mem_bytes (length bs) (be_val bs) ! i = bs ! i"
    using lt by (simp add: nth_mem_bytes)
qed simp

lemma bv_extract_slice:
  assumes "o' + l \<le> n" "0 < l"
  shows "bv_extract (8 * n - 8 * o' - 1) (8 * n - 8 * (o' + l)) x =
    be_val (take l (drop o' (mem_bytes n x)))"
proof -
  have "8 * n - 8 * o' - 1 - (8 * n - 8 * (o' + l)) + 1 = 8 * l" using assms by simp
  moreover have "8 * n - 8 * (o' + l) = 8 * (n - o' - l)" by simp
  ultimately have "bv_extract (8 * n - 8 * o' - 1) (8 * n - 8 * (o' + l)) x =
      take_bit (8 * l) (x div 2 ^ (8 * (n - o' - l)))"
    by (simp only: bv_extract_def)
  then show ?thesis
    using assms(1) by (simp only: be_val_slice take_bit_eq_mod pow256)
qed

lemma bv_concat_be_val:
  "bv_concat (8 * length bs) (be_val as) (be_val bs) = be_val (as @ bs)"
  by (simp add: bv_concat_def be_val_append pow256)

end
