(* ===== verification/Runtime_Exprs.thy ===== *)
theory Runtime_Exprs
  imports Bytes
begin

text \<open>
  The expression builders of \<open>runtime/src/RuntimeCommon.cpp\<close> that are written in terms of the backend
  interface: extraction and insertion in aggregates, byte swapping, saturating arithmetic,
  arithmetic with overflow, funnel shifts, absolute value. The definitions follow the C++ call by
  call; the lemmas say which value the resulting expression denotes, for any backend that keeps the
  contract \<open>expr_backend\<close>.
\<close>

unbundle bit_operations_syntax

subsection \<open>Constants of a given width\<close>

text \<open>\<open>uint64_t << int\<close>: defined for shift amounts from 0 to 63 only.\<close>

definition shl_u64 :: "u64 \<Rightarrow> int \<Rightarrow> ('s, u64) rt" where
  "shl_u64 x k =
     (if 0 \<le> k \<and> k < 64 then rt_return (push_bit (nat k) x) else rt_raise Undefined_behaviour)"

definition buildMinSignedInt :: "('b, 'e) backend \<Rightarrow> u8 \<Rightarrow> ('b, 'e option) rt" where
  "buildMinSignedInt B bits = rt_bind (shl_u64 1 (uint bits - 1)) (\<lambda>v. build_integer B v bits)"

definition buildMaxSignedInt :: "('b, 'e) backend \<Rightarrow> u8 \<Rightarrow> ('b, 'e option) rt" where
  "buildMaxSignedInt B bits =
     rt_bind (shl_u64 1 (uint bits)) (\<lambda>p. let mask = p - 1 in
       build_integer B (drop_bit 1 (NOT 0 AND mask)) bits)"

definition buildMaxUnsignedInt :: "('b, 'e) backend \<Rightarrow> u8 \<Rightarrow> ('b, 'e option) rt" where
  "buildMaxUnsignedInt B bits =
     rt_bind (shl_u64 1 (uint bits)) (\<lambda>p. let mask = p - 1 in
       build_integer B (NOT 0 AND mask) bits)"

subsection \<open>Aggregates\<close>

text \<open>The loop of \<open>_sym_build_extract\<close> for little-endian data: \<open>k\<close> iterations from \<open>i\<close> on.\<close>

fun extract_loop ::
    "('b, 'e) backend \<Rightarrow> 'e option \<Rightarrow> nat \<Rightarrow> nat \<Rightarrow> nat \<Rightarrow> nat \<Rightarrow> 'e option \<Rightarrow> ('b, 'e option) rt" where
  "extract_loop B expr totalBits offset i 0 result = rt_return result"
| "extract_loop B expr totalBits offset i (Suc k) result =
     rt_bind
       (rt_call2 (concat_helper B)
          (extract_helper B expr
             (size_sub (size_sub totalBits ((offset + i) * 8)) 1)
             (size_sub totalBits ((offset + i + 1) * 8)))
          (rt_return result))
       (extract_loop B expr totalBits offset (i + 1) k)"

definition sym_build_extract ::
    "('b, 'e) backend \<Rightarrow> 'e option \<Rightarrow> nat \<Rightarrow> nat \<Rightarrow> bool \<Rightarrow> ('b, 'e option) rt" where
  "sym_build_extract B expr offset len little_endian =
     rt_bind (bits_helper B expr) (\<lambda>totalBits.
     rt_bind (rt_assert ''Aggregate type contains partial bytes'' (totalBits mod 8 = 0)) (\<lambda>_.
       if little_endian
       then rt_bind
              (extract_helper B expr
                 (size_sub (size_sub totalBits (offset * 8)) 1)
                 (size_sub (size_sub totalBits (offset * 8)) 8))
              (extract_loop B expr totalBits offset 1 (len - 1))
       else extract_helper B expr
              (size_sub (size_sub totalBits (offset * 8)) 1)
              (size_sub totalBits ((offset + len) * 8))))"

definition sym_build_bswap :: "('b, 'e) backend \<Rightarrow> 'e option \<Rightarrow> ('b, 'e option) rt" where
  "sym_build_bswap B expr =
     rt_bind (bits_helper B expr) (\<lambda>bits.
     rt_bind (rt_assert ''bswap is not applicable'' (bits mod 16 = 0)) (\<lambda>_.
       sym_build_extract B expr 0 (bits div 8) True))"

definition sym_build_insert ::
    "('b, 'e) backend \<Rightarrow> 'e option \<Rightarrow> 'e option \<Rightarrow> nat \<Rightarrow> bool \<Rightarrow> ('b, 'e option) rt" where
  "sym_build_insert B target to_insert offset little_endian =
     rt_bind (bits_helper B to_insert) (\<lambda>bitsToInsert.
     rt_bind (rt_assert ''Expression to insert contains partial bytes'' (bitsToInsert mod 8 = 0)) (\<lambda>_.
     rt_bind (if offset = 0 then rt_return None else sym_build_extract B target 0 offset False)
       (\<lambda>beforeInsert.
     rt_bind (if little_endian \<and> bitsToInsert > 8 then sym_build_bswap B to_insert
              else rt_return to_insert) (\<lambda>newPiece.
     rt_bind (bits_helper B target) (\<lambda>targetBits.
     let afterLen = size_sub (size_sub (targetBits div 8) offset) (bitsToInsert div 8) in
     rt_bind (if afterLen = 0 then rt_return None
              else sym_build_extract B target (offset + bitsToInsert div 8) afterLen False)
       (\<lambda>afterInsert.
     rt_bind (if beforeInsert = None then rt_return newPiece
              else concat_helper B beforeInsert newPiece) (\<lambda>result.
     if afterInsert \<noteq> None then concat_helper B result afterInsert else rt_return result)))))))"

fun zero_bytes_loop ::
    "('b, 'e) backend \<Rightarrow> 'e option \<Rightarrow> nat \<Rightarrow> 'e option \<Rightarrow> ('b, 'e option) rt" where
  "zero_bytes_loop B zero_byte 0 result = rt_return result"
| "zero_bytes_loop B zero_byte (Suc k) result =
     rt_bind (concat_helper B result zero_byte) (zero_bytes_loop B zero_byte k)"

definition sym_build_zero_bytes :: "('b, 'e) backend \<Rightarrow> nat \<Rightarrow> ('b, 'e option) rt" where
  "sym_build_zero_bytes B len =
     rt_bind (build_integer B 0 8) (\<lambda>zero_byte. zero_bytes_loop B zero_byte (len - 1) zero_byte)"

subsection \<open>Booleans and bits\<close>

definition sym_build_bit_to_bool :: "('b, 'e) backend \<Rightarrow> 'e option \<Rightarrow> ('b, 'e option) rt" where
  "sym_build_bit_to_bool B expr =
     (if expr = None then rt_return None
      else rt_call2 (build_binary B SNot_equal) (rt_return expr)
             (rt_bind (bits_helper B expr) (\<lambda>bits. build_integer B 0 (of_nat bits))))"

subsection \<open>Arithmetic with overflow\<close>

definition buildOverflowResult ::
    "('b, 'e) backend \<Rightarrow> 'e option \<Rightarrow> 'e option \<Rightarrow> bool \<Rightarrow> ('b, 'e option) rt" where
  "buildOverflowResult B result_expr overflow little_endian =
     rt_bind (bits_helper B result_expr) (\<lambda>result_bits.
     rt_bind (rt_assert ''Arithmetic with overflow on integers of invalid length''
       (result_bits mod 8 = 0)) (\<lambda>_.
     rt_bind (if little_endian then sym_build_bswap B result_expr else rt_return result_expr)
       (\<lambda>result_expr_mem.
     rt_bind (rt_call1 (\<lambda>x. build_zext B x 7) (build_bool_to_bit B overflow)) (\<lambda>overflow_byte.
     if result_bits = 8 then concat_helper B result_expr_mem overflow_byte
     else
       rt_bind (sym_build_zero_bytes B (result_bits div 8 - 1)) (\<lambda>padding.
       rt_call2 (concat_helper B) (rt_return result_expr_mem)
         (if little_endian then concat_helper B overflow_byte padding
          else concat_helper B padding overflow_byte))))))"

text \<open>The lambda that computes \<open>overflow\<close> in each of the three functions is a definition of its own.\<close>

definition add_overflow_flag ::
    "('b, 'e) backend \<Rightarrow> 'e option \<Rightarrow> 'e option \<Rightarrow> bool \<Rightarrow> nat \<Rightarrow> ('b, 'e option) rt" where
  "add_overflow_flag B a b is_signed bits =
     (if is_signed
     then rt_bind (rt_call2 (build_binary B SAdd) (build_sext B a 1) (build_sext B b 1))
            (\<lambda>add_sext. rt_call2 (build_binary B SNot_equal) (rt_return add_sext)
               (rt_call1 (\<lambda>x. build_sext B x 1) (build_binary B SAdd a b)))
     else rt_bind (rt_call2 (build_binary B SAdd) (build_zext B a 1) (build_zext B b 1))
            (\<lambda>add_zext. rt_call2 (build_binary B SEqual)
               (extract_helper B add_zext bits bits) (build_integer B 1 1)))"

definition sym_build_add_overflow ::
    "('b, 'e) backend \<Rightarrow> 'e option \<Rightarrow> 'e option \<Rightarrow> bool \<Rightarrow> bool \<Rightarrow> ('b, 'e option) rt" where
  "sym_build_add_overflow B a b is_signed little_endian =
     rt_bind (bits_helper B a) (\<lambda>bits.
     rt_bind (add_overflow_flag B a b is_signed bits) (\<lambda>overflow.
     rt_bind (build_binary B SAdd a b) (\<lambda>r. buildOverflowResult B r overflow little_endian)))"

definition sub_overflow_flag ::
    "('b, 'e) backend \<Rightarrow> 'e option \<Rightarrow> 'e option \<Rightarrow> bool \<Rightarrow> nat \<Rightarrow> ('b, 'e option) rt" where
  "sub_overflow_flag B a b is_signed bits =
     (if is_signed
     then rt_bind (rt_call2 (build_binary B SSub) (build_sext B a 1) (build_sext B b 1))
            (\<lambda>sub_sext. rt_call2 (build_binary B SNot_equal) (rt_return sub_sext)
               (rt_call1 (\<lambda>x. build_sext B x 1) (build_binary B SSub a b)))
     else rt_bind (rt_call2 (build_binary B SSub) (build_zext B a 1) (build_zext B b 1))
            (\<lambda>sub_zext. rt_call2 (build_binary B SEqual)
               (extract_helper B sub_zext bits bits) (build_integer B 1 1)))"

definition sym_build_sub_overflow ::
    "('b, 'e) backend \<Rightarrow> 'e option \<Rightarrow> 'e option \<Rightarrow> bool \<Rightarrow> bool \<Rightarrow> ('b, 'e option) rt" where
  "sym_build_sub_overflow B a b is_signed little_endian =
     rt_bind (bits_helper B a) (\<lambda>bits.
     rt_bind (sub_overflow_flag B a b is_signed bits) (\<lambda>overflow.
     rt_bind (build_binary B SSub a b) (\<lambda>r. buildOverflowResult B r overflow little_endian)))"

definition mul_overflow_flag ::
    "('b, 'e) backend \<Rightarrow> 'e option \<Rightarrow> 'e option \<Rightarrow> bool \<Rightarrow> nat \<Rightarrow> ('b, 'e option) rt" where
  "mul_overflow_flag B a b is_signed bits =
     (if is_signed
     then rt_bind (rt_call2 (build_binary B SMul)
              (build_sext B a (of_nat bits)) (build_sext B b (of_nat bits)))
            (\<lambda>mul_sext. rt_call2 (build_binary B SNot_equal) (rt_return mul_sext)
               (rt_call1 (\<lambda>x. build_sext B x (of_nat bits)) (build_binary B SMul a b)))
     else rt_bind (rt_call2 (build_binary B SMul)
              (build_zext B a (of_nat bits)) (build_zext B b (of_nat bits)))
            (\<lambda>mul_zext. rt_call2 (build_binary B SEqual)
               (extract_helper B mul_zext (2 * bits - 1) (2 * bits - 1)) (build_integer B 1 1)))"

definition sym_build_mul_overflow ::
    "('b, 'e) backend \<Rightarrow> 'e option \<Rightarrow> 'e option \<Rightarrow> bool \<Rightarrow> bool \<Rightarrow> ('b, 'e option) rt" where
  "sym_build_mul_overflow B a b is_signed little_endian =
     rt_bind (bits_helper B a) (\<lambda>bits.
     rt_bind (mul_overflow_flag B a b is_signed bits) (\<lambda>overflow.
     rt_bind (build_binary B SMul a b) (\<lambda>r. buildOverflowResult B r overflow little_endian)))"

subsection \<open>Saturating arithmetic\<close>

definition sym_build_sadd_sat ::
    "('b, 'e) backend \<Rightarrow> 'e option \<Rightarrow> 'e option \<Rightarrow> ('b, 'e option) rt" where
  "sym_build_sadd_sat B a b =
     rt_bind (bits_helper B a) (\<lambda>bits.
     rt_bind (buildMinSignedInt B (of_nat bits)) (\<lambda>mn.
     rt_bind (buildMaxSignedInt B (of_nat bits)) (\<lambda>mx.
     rt_bind (rt_call2 (build_binary B SAdd) (build_sext B a 1) (build_sext B b 1)) (\<lambda>add_sext.
     rt_call3 (build_ite B)
       (rt_call2 (build_binary B SSigned_less_equal) (rt_return add_sext) (build_sext B mn 1))
       (rt_return mn)
       (rt_call3 (build_ite B)
          (rt_call2 (build_binary B SSigned_greater_equal) (rt_return add_sext) (build_sext B mx 1))
          (rt_return mx)
          (build_binary B SAdd a b))))))"

definition sym_build_uadd_sat ::
    "('b, 'e) backend \<Rightarrow> 'e option \<Rightarrow> 'e option \<Rightarrow> ('b, 'e option) rt" where
  "sym_build_uadd_sat B a b =
     rt_bind (bits_helper B a) (\<lambda>bits.
     rt_bind (buildMaxUnsignedInt B (of_nat bits)) (\<lambda>mx.
     rt_bind (rt_call2 (build_binary B SAdd) (build_zext B a 1) (build_zext B b 1)) (\<lambda>add_zext.
     rt_call3 (build_ite B)
       (rt_bind (extract_helper B add_zext bits bits) (sym_build_bit_to_bool B))
       (rt_return mx)
       (build_binary B SAdd a b))))"

definition sym_build_ssub_sat ::
    "('b, 'e) backend \<Rightarrow> 'e option \<Rightarrow> 'e option \<Rightarrow> ('b, 'e option) rt" where
  "sym_build_ssub_sat B a b =
     rt_bind (bits_helper B a) (\<lambda>bits.
     rt_bind (buildMinSignedInt B (of_nat bits)) (\<lambda>mn.
     rt_bind (buildMaxSignedInt B (of_nat bits)) (\<lambda>mx.
     rt_bind (rt_call2 (build_binary B SSub) (build_sext B a 1) (build_sext B b 1)) (\<lambda>sub_sext.
     rt_call3 (build_ite B)
       (rt_call2 (build_binary B SSigned_less_equal) (rt_return sub_sext) (build_sext B mn 1))
       (rt_return mn)
       (rt_call3 (build_ite B)
          (rt_call2 (build_binary B SSigned_greater_equal) (rt_return sub_sext) (build_sext B mx 1))
          (rt_return mx)
          (build_binary B SSub a b))))))"

definition sym_build_usub_sat ::
    "('b, 'e) backend \<Rightarrow> 'e option \<Rightarrow> 'e option \<Rightarrow> ('b, 'e option) rt" where
  "sym_build_usub_sat B a b =
     rt_bind (bits_helper B a) (\<lambda>bits.
     rt_call3 (build_ite B)
       (build_binary B SUnsigned_greater_equal a b)
       (build_binary B SSub a b)
       (build_integer B 0 (of_nat bits)))"

definition sym_build_shift_left_overflow ::
    "('b, 'e) backend \<Rightarrow> 'e option \<Rightarrow> 'e option \<Rightarrow> ('b, 'e option) rt" where
  "sym_build_shift_left_overflow B a b =
     rt_call2 (build_binary B SNot_equal)
       (rt_call2 (build_binary B SArithmetic_shift_right)
          (build_binary B SShift_left a b) (rt_return b))
       (rt_return a)"

definition sym_build_sshl_sat ::
    "('b, 'e) backend \<Rightarrow> 'e option \<Rightarrow> 'e option \<Rightarrow> ('b, 'e option) rt" where
  "sym_build_sshl_sat B a b =
     rt_bind (bits_helper B a) (\<lambda>bits.
     rt_call3 (build_ite B)
       (sym_build_shift_left_overflow B a b)
       (rt_call3 (build_ite B)
          (rt_bind (extract_helper B a (size_sub bits 1) (size_sub bits 1)) (sym_build_bit_to_bool B))
          (buildMinSignedInt B (of_nat bits))
          (buildMaxSignedInt B (of_nat bits)))
       (build_binary B SShift_left a b))"

definition sym_build_ushl_sat ::
    "('b, 'e) backend \<Rightarrow> 'e option \<Rightarrow> 'e option \<Rightarrow> ('b, 'e option) rt" where
  "sym_build_ushl_sat B a b =
     rt_bind (bits_helper B a) (\<lambda>bits.
     rt_call3 (build_ite B)
       (sym_build_shift_left_overflow B a b)
       (buildMaxUnsignedInt B (of_nat bits))
       (build_binary B SShift_left a b))"

subsection \<open>Funnel shifts and absolute value\<close>

definition sym_build_funnel_shift_left ::
    "('b, 'e) backend \<Rightarrow> 'e option \<Rightarrow> 'e option \<Rightarrow> 'e option \<Rightarrow> ('b, 'e option) rt" where
  "sym_build_funnel_shift_left B a b c =
     rt_bind (bits_helper B c) (\<lambda>bits.
     rt_bind (concat_helper B a b) (\<lambda>cat.
     rt_bind (rt_call2 (build_binary B SUnsigned_rem) (rt_return c)
                (build_integer B (of_nat bits) (of_nat bits))) (\<lambda>shift.
     rt_call1 (\<lambda>x. extract_helper B x 0 bits) (build_binary B SShift_left cat shift))))"

definition sym_build_funnel_shift_right ::
    "('b, 'e) backend \<Rightarrow> 'e option \<Rightarrow> 'e option \<Rightarrow> 'e option \<Rightarrow> ('b, 'e option) rt" where
  "sym_build_funnel_shift_right B a b c =
     rt_bind (bits_helper B c) (\<lambda>bits.
     rt_bind (concat_helper B a b) (\<lambda>cat.
     rt_bind (rt_call2 (build_binary B SUnsigned_rem) (rt_return c)
                (build_integer B (of_nat bits) (of_nat bits))) (\<lambda>shift.
     rt_call1 (\<lambda>x. extract_helper B x 0 bits) (build_binary B SLogical_shift_right cat shift))))"

definition sym_build_abs :: "('b, 'e) backend \<Rightarrow> 'e option \<Rightarrow> ('b, 'e option) rt" where
  "sym_build_abs B expr =
     rt_bind (bits_helper B expr) (\<lambda>bits.
     rt_call3 (build_ite B)
       (rt_call2 (build_binary B SSigned_greater_equal) (rt_return expr)
          (build_integer B 0 (of_nat bits)))
       (rt_return expr)
       (rt_call2 (build_binary B SSub) (build_integer B 0 (of_nat bits)) (rt_return expr)))"


subsection \<open>Lemmas on the constants\<close>

lemma unat_of_nat_u8: "n < 256 \<Longrightarrow> unat (of_nat n :: u8) = n"
  by (simp add: unat_of_nat)

lemma uint_exp_u64: "n < 64 \<Longrightarrow> uint ((2::u64) ^ n) = 2 ^ n"
proof -
  assume "n < 64"
  have "uint (push_bit n (1::u64)) = take_bit 64 (push_bit n 1)"
    by (simp only: unsigned_push_bit_eq) simp
  also have "\<dots> = 2 ^ n"
    using \<open>n < 64\<close> by (simp add: take_bit_int_eq_self)
  finally show ?thesis by simp
qed

lemma uint_mask_u64:
  assumes "n < 64"
  shows "uint ((2::u64) ^ n - 1) = 2 ^ n - 1"
proof -
  have "uint (1::u64) \<le> uint ((2::u64) ^ n)" using assms by (simp add: uint_exp_u64)
  then have "uint ((2::u64) ^ n - 1) = uint ((2::u64) ^ n) - uint (1::u64)"
    using uint_sub_lem [where x = "(2::u64) ^ n" and y = 1] by blast
  then show ?thesis using assms by (simp add: uint_exp_u64)
qed

lemma take_bit_uint_u64: "take_bit 64 (uint (w::u64)) = uint w"
  using uint_lt2p [of w] by (simp add: take_bit_int_eq_self)

lemma uint_half_mask_u64:
  assumes "0 < n" "n < 64"
  shows "uint (drop_bit 1 ((2::u64) ^ n - 1)) = 2 ^ (n - 1) - 1"
proof -
  have "uint (drop_bit 1 ((2::u64) ^ n - 1)) = drop_bit 1 (uint ((2::u64) ^ n - 1))"
    by (simp only: unsigned_drop_bit_eq) (simp add: take_bit_uint_u64)
  also have "\<dots> = (2 ^ n - 1) div 2"
    using assms by (simp add: uint_mask_u64 drop_bit_Suc)
  also have "\<dots> = 2 ^ (n - 1) - 1"
    using assms by (cases n) simp_all
  finally show ?thesis .
qed

subsection \<open>What the intrinsics mean\<close>

text \<open>LLVM's saturating intrinsics on \<open>n\<close>-bit values, by their specification on numbers.\<close>

definition saturate :: "nat \<Rightarrow> int \<Rightarrow> int" where
  "saturate n k = max (- (2 ^ (n - 1))) (min (2 ^ (n - 1) - 1) k)"

text \<open>Shifting left and back arithmetically recovers the value iff the shift lost nothing.\<close>

definition sshl_overflows :: "nat \<Rightarrow> int \<Rightarrow> int \<Rightarrow> bool" where
  "sshl_overflows n x y \<longleftrightarrow> sval n x * 2 ^ nat y \<noteq> saturate n (sval n x * 2 ^ nat y)"

lemma sval_min: "0 < n \<Longrightarrow> sval n (2 ^ (n - 1)) = - (2 ^ (n - 1))"
  by (subst sval_cases) (cases n; simp)+

lemma sval_max: "0 < n \<Longrightarrow> sval n (2 ^ (n - 1) - 1) = 2 ^ (n - 1) - 1"
  by (rule sval_self) (simp_all add: order_trans [of _ 0])

lemma sval_Suc_take_bit: "- (2 ^ n) \<le> k \<Longrightarrow> k < 2 ^ n \<Longrightarrow> sval (Suc n) (take_bit (Suc n) k) = k"
  by (simp add: sval_take_bit sval_self)

lemma two_pow_pred: "0 < n \<Longrightarrow> (2::int) ^ n = 2 * 2 ^ (n - 1)"
  by (cases n) simp_all

lemma sval_in_Suc: "0 < n \<Longrightarrow> sval (Suc n) (take_bit (Suc n) (sval n x)) = sval n x"
  using sval_bounds [of n x] two_pow_pred [of n] by (intro sval_Suc_take_bit) linarith+

lemma take_bit_saturate:
  assumes "0 < n"
  shows "take_bit n (saturate n k) =
    (if k \<le> - (2 ^ (n - 1)) then 2 ^ (n - 1)
     else if 2 ^ (n - 1) - 1 \<le> k then 2 ^ (n - 1) - 1 else take_bit n k)"
proof -
  obtain m where m: "n = Suc m" using assms by (cases n) simp_all
  have p: "(0::int) < 2 ^ m" by simp
  have "take_bit (Suc m) (- (2 ^ m) :: int) = take_bit (Suc m) (- (2 ^ m) + 2 ^ Suc m)"
    unfolding take_bit_eq_mod by (rule mod_add_self2 [symmetric])
  also have "\<dots> = 2 ^ m"
    using p by (intro trans [OF take_bit_int_eq_self]) simp_all
  finally have mn: "take_bit (Suc m) (- (2 ^ m) :: int) = 2 ^ m" .
  have mx: "take_bit (Suc m) (2 ^ m - 1 :: int) = 2 ^ m - 1"
    by (intro take_bit_int_eq_self) (use p in \<open>simp; linarith\<close>)+
  have "max (- q) (min (q - 1) k) = (if k \<le> - q then - q else if q - 1 \<le> k then q - 1 else k)"
    if "0 < q" for q :: int using that by (auto simp: max_def min_def)
  from this [OF p] have "saturate n k =
      (if k \<le> - (2 ^ m) then - (2 ^ m) else if 2 ^ m - 1 \<le> k then 2 ^ m - 1 else k)"
    by (simp add: saturate_def m)
  then show ?thesis by (simp add: m mn mx)
qed

text \<open>The test of the signed saturating builders: the sum, computed one bit wider.\<close>

lemma signed_saturation:
  assumes "0 < n" "k = sval n x + sval n y \<or> k = sval n x - sval n y" "take_bit n r = take_bit n k"
  shows "(if sval (Suc n) (take_bit (Suc n) k) \<le> sval (Suc n) (take_bit (Suc n) (sval n (2 ^ (n - 1))))
     then 2 ^ (n - 1)
     else if sval (Suc n) (take_bit (Suc n) (sval n (2 ^ (n - 1) - 1))) \<le> sval (Suc n) (take_bit (Suc n) k)
     then 2 ^ (n - 1) - 1 else take_bit n r) = take_bit n (saturate n k)"
proof -
  have "- (2 ^ n) \<le> k" "k < 2 ^ n"
    using assms(2) sval_bounds [of n x] sval_bounds [of n y] two_pow_pred [OF assms(1)] by auto
  then have k: "sval (Suc n) (take_bit (Suc n) k) = k" by (rule sval_Suc_take_bit)
  show ?thesis
    unfolding k take_bit_saturate [OF assms(1)] sval_in_Suc [OF assms(1)]
    by (simp only: sval_min [OF assms(1)] sval_max [OF assms(1)] assms(3))
qed

text \<open>The test of the unsigned saturating addition: the extra bit of the wider sum.\<close>

lemma carry_bit:
  assumes "0 \<le> x" "x < 2 ^ n" "0 \<le> y" "y < (2 ^ n :: int)"
  shows "bv_extract n n (take_bit (Suc n) (x + y)) = of_bool (2 ^ n \<le> x + y)"
proof -
  have lt: "x + y < 2 * 2 ^ n" using assms by linarith
  then have "take_bit (Suc n) (x + y) = x + y" using assms by (intro take_bit_int_eq_self) auto
  moreover have "(x + y) div 2 ^ n = of_bool (2 ^ n \<le> x + y)"
  proof (cases "2 ^ n \<le> x + y")
    case True
    then have "(x + y) div 2 ^ n = 1"
      using lt by (intro int_div_pos_eq [where r = "x + y - 2 ^ n"]) simp_all
    then show ?thesis using True by simp
  qed (use assms in simp)
  ultimately show ?thesis by (simp add: bv_extract_def)
qed

text \<open>The borrow of the wider difference.\<close>

lemma borrow_bit:
  assumes "0 \<le> x" "x < 2 ^ n" "0 \<le> y" "y < (2 ^ n :: int)"
  shows "bv_extract n n (take_bit (Suc n) (x - y)) = of_bool (x < y)"
proof (cases "x < y")
  case True
  have "take_bit (Suc n) (x - y) = take_bit (Suc n) (x - y + 2 ^ Suc n)"
    by (simp add: take_bit_eq_mod)
  also have "\<dots> = x - y + 2 ^ Suc n"
    using assms True by (intro take_bit_int_eq_self) auto
  finally have "take_bit (Suc n) (x - y) = x - y + 2 ^ Suc n" .
  then have "take_bit (Suc n) (x - y) div 2 ^ n = 1"
    using assms True by (intro int_div_pos_eq [where r = "x - y + 2 ^ n"]) simp_all
  then show ?thesis using True by (simp add: bv_extract_def)
next
  case False
  then have "take_bit (Suc n) (x - y) = x - y"
    using assms by (intro take_bit_int_eq_self) auto
  then show ?thesis using False assms by (simp add: bv_extract_def div_pos_pos_trivial)
qed

lemma div_pow_bounds:
  fixes k :: int
  assumes "- (2 ^ m) \<le> k" "k < 2 ^ m"
  shows "- (2 ^ m) \<le> k div 2 ^ y" "k div 2 ^ y < 2 ^ m"
proof -
  have "- (2 ^ m) * 2 ^ y \<le> - (2 ^ m) * (1::int)"
    by (rule mult_left_mono_neg) simp_all
  then have "- (2 ^ m) * 2 ^ y \<le> k" using assms(1) by linarith
  then have "- (2 ^ m) * 2 ^ y div 2 ^ y \<le> k div 2 ^ y" by (rule zdiv_mono1) simp
  moreover have "- (2 ^ m) * 2 ^ y div 2 ^ y = (- (2 ^ m) :: int)"
    by (rule nonzero_mult_div_cancel_right) simp
  ultimately show "- (2 ^ m) \<le> k div 2 ^ y" by simp
  show "k div 2 ^ y < 2 ^ m"
  proof (cases "0 \<le> k")
    case True
    then have "k div 2 ^ y \<le> k" using int_div_less_self [of k "2 ^ y"] by (cases "k = 0"; cases "y = 0") auto
    with assms(2) show ?thesis by simp
  next
    case False
    then have "k div 2 ^ y < 0" by (simp add: div_neg_pos_less0)
    then show ?thesis by (rule order_less_trans) simp
  qed
qed

lemma shift_overflow_test:
  assumes "0 < n" "0 \<le> x" "x < 2 ^ n" "y < n"
  shows "take_bit n (sval n (take_bit n (x * 2 ^ y)) div 2 ^ y) \<noteq> x \<longleftrightarrow> sshl_overflows n x (int y)"
proof -
  let ?s = "sval n x" and ?k = "sval n x * 2 ^ y"
  have tk: "take_bit n (x * 2 ^ y) = take_bit n ?k"
    using assms(1) by (metis take_bit_mult take_bit_sval)
  have sk: "sval n (take_bit n (x * 2 ^ y)) = sval n ?k"
    using assms(1) by (simp add: tk sval_take_bit)
  have rng: "sshl_overflows n x (int y) \<longleftrightarrow> sval n ?k \<noteq> ?k"
  proof -
    have "sval n ?k = ?k \<longleftrightarrow> - (2 ^ (n - 1)) \<le> ?k \<and> ?k < 2 ^ (n - 1)"
      using sval_bounds [of n ?k] sval_self [of n ?k] by metis
    moreover have "saturate n ?k = ?k \<longleftrightarrow> - (2 ^ (n - 1)) \<le> ?k \<and> ?k < 2 ^ (n - 1)"
      using zero_less_power [of "2::int" "n - 1"]
      by (auto simp: saturate_def max_def min_def simp del: One_nat_def zero_less_power)
    ultimately show ?thesis by (auto simp: sshl_overflows_def)
  qed
  have x: "x = take_bit n ?s" using assms by (simp add: take_bit_sval take_bit_int_eq_self)
  have "take_bit n (sval n ?k div 2 ^ y) = x \<longleftrightarrow> sval n ?k = ?k"
  proof
    assume "sval n ?k = ?k"
    then have "sval n ?k div 2 ^ y = ?s" by simp
    then show "take_bit n (sval n ?k div 2 ^ y) = x" using x by simp
  next
    assume eq: "take_bit n (sval n ?k div 2 ^ y) = x"
    have b: "- (2 ^ (n - 1)) \<le> sval n ?k div 2 ^ y" "sval n ?k div 2 ^ y < 2 ^ (n - 1)"
      using sval_bounds [of n ?k] div_pow_bounds by blast+
    then have "sval n (take_bit n (sval n ?k div 2 ^ y)) = sval n ?k div 2 ^ y"
      using assms(1) by (simp add: sval_take_bit sval_self)
    with eq have d: "sval n ?k div 2 ^ y = ?s" by simp
    have "take_bit n (sval n ?k) = take_bit n ?k" using assms(1) by (simp add: take_bit_sval)
    then have "take_bit y (sval n ?k) = take_bit y ?k"
      using assms(4) by (metis less_imp_le min_def take_bit_take_bit)
    then have "sval n ?k mod 2 ^ y = 0" by (simp add: take_bit_eq_mod)
    with d show "sval n ?k = ?k" by (metis add.right_neutral mult_div_mod_eq mult.commute)
  qed
  then show ?thesis using rng sk by simp
qed

lemma sign_bit:
  assumes "0 < n" "0 \<le> x" "x < (2 ^ n :: int)"
  shows "bv_extract (n - 1) (n - 1) x \<noteq> 0 \<longleftrightarrow> sval n x < 0"
proof -
  have s: "sval n x < 0 \<longleftrightarrow> 2 ^ (n - 1) \<le> x"
    unfolding sval_cases [OF assms] using assms by (auto simp del: One_nat_def)
  have "x div 2 ^ (n - 1) = of_bool (2 ^ (n - 1) \<le> x)"
  proof (cases "2 ^ (n - 1) \<le> x")
    case True
    then have "x div 2 ^ (n - 1) = 1"
      using assms(3) two_pow_pred [OF assms(1)]
      by (intro int_div_pos_eq [where r = "x - 2 ^ (n - 1)"]) simp_all
    then show ?thesis using True by simp
  qed (use assms(2) in simp)
  then show ?thesis using s by (simp add: bv_extract_def)
qed

lemma sshl_saturation:
  assumes "0 < n" "0 \<le> x" "x < (2 ^ n :: int)"
  shows "(if sshl_overflows n x y
       then if bv_extract (n - 1) (n - 1) x \<noteq> 0 then 2 ^ (n - 1) else 2 ^ (n - 1) - 1
       else take_bit n (x * 2 ^ nat y)) = take_bit n (saturate n (sval n x * 2 ^ nat y))"
proof (cases "sshl_overflows n x y")
  case False
  then show ?thesis
    using assms(1) by (simp add: sshl_overflows_def) (metis take_bit_mult take_bit_sval)
next
  case True
  let ?k = "sval n x * 2 ^ nat y"
  have out: "saturate n ?k \<noteq> ?k" using True by (auto simp: sshl_overflows_def)
  have sgn: "?k < 0 \<longleftrightarrow> sval n x < 0" by (simp add: mult_less_0_iff)
  have "?k < - (2 ^ (n - 1)) \<or> 2 ^ (n - 1) - 1 < ?k"
    using out zero_less_power [of "2::int" "n - 1"]
    by (auto simp: saturate_def max_def min_def simp del: One_nat_def zero_less_power split: if_splits)
  then show ?thesis
    using True sgn sign_bit [OF assms] zero_less_power [of "2::int" "n - 1"]
    by (auto simp: take_bit_saturate [OF assms(1)] simp del: One_nat_def zero_less_power)
qed

context expr_backend
begin

lemma comp_shl_u64:
  "0 \<le> k \<Longrightarrow> k < 64 \<Longrightarrow> comp live sem L (f (push_bit (nat k) x)) F \<Longrightarrow>
   comp live sem L (rt_bind (shl_u64 x k) f) F"
  by (simp add: shl_u64_def)

lemma comp_const:
  assumes "0 < n" "n \<le> 64" "uint v < 2 ^ n"
  shows "comp live sem L (build_integer B v (of_nat n)) (\<lambda>_. BVV n (uint v))"
  using comp_integer [of "of_nat n" L v] assms by (simp add: unat_of_nat_u8 take_bit_int_eq_self)

lemma uint_of_nat_u8: "n < 256 \<Longrightarrow> uint (of_nat n :: u8) = int n"
  by (simp add: unsigned_of_nat take_bit_nat_eq_self)

lemma comp_MinSignedInt:
  assumes "0 < n" "n \<le> 64"
  shows "comp live sem L (buildMinSignedInt B (of_nat n)) (\<lambda>_. BVV n (2 ^ (n - 1)))"
proof -
  have k: "nat (int n - 1) = n - 1" using assms by simp
  have "comp live sem L (build_integer B (2 ^ (n - 1)) (of_nat n)) (\<lambda>_. BVV n (2 ^ (n - 1)))"
    using comp_const [of n "2 ^ (n - 1)" L] assms by (simp add: uint_exp_u64)
  then show ?thesis
    unfolding buildMinSignedInt_def
    by (intro comp_shl_u64) (use assms k in \<open>simp_all add: uint_of_nat_u8\<close>)
qed

lemma comp_MaxSignedInt:
  assumes "0 < n" "n < 64"
  shows "comp live sem L (buildMaxSignedInt B (of_nat n)) (\<lambda>_. BVV n (2 ^ (n - 1) - 1))"
proof -
  have "(2::int) ^ (n - 1) \<le> 2 ^ n" by (rule power_increasing) simp_all
  then have "uint (drop_bit 1 ((2::u64) ^ n - 1)) < 2 ^ n"
    unfolding uint_half_mask_u64 [OF assms] by linarith
  from comp_const [OF assms(1) _ this, of L]
  have "comp live sem L (build_integer B (drop_bit 1 (2 ^ n - 1)) (of_nat n))
      (\<lambda>_. BVV n (2 ^ (n - 1) - 1))"
    unfolding uint_half_mask_u64 [OF assms] using assms by simp
  then show ?thesis
    unfolding buildMaxSignedInt_def
    by (intro comp_shl_u64) (use assms in \<open>simp_all add: uint_of_nat_u8\<close>)
qed

lemma comp_MaxUnsignedInt:
  assumes "0 < n" "n < 64"
  shows "comp live sem L (buildMaxUnsignedInt B (of_nat n)) (\<lambda>_. BVV n (2 ^ n - 1))"
proof -
  have "comp live sem L (build_integer B (2 ^ n - 1) (of_nat n)) (\<lambda>_. BVV n (2 ^ n - 1))"
    using comp_const [of n "2 ^ n - 1" L] assms by (simp add: uint_mask_u64)
  then show ?thesis
    unfolding buildMaxUnsignedInt_def
    by (intro comp_shl_u64) (use assms in \<open>simp_all add: uint_of_nat_u8\<close>)
qed

lemma comp_bit_to_bool:
  assumes "x \<in> L" "\<And>\<sigma>. sem \<sigma> x = BVV n (f \<sigma>)" "n \<le> 64"
  shows "comp live sem L (sym_build_bit_to_bool B (Some x)) (\<lambda>\<sigma>. BoolV (f \<sigma> \<noteq> 0))"
proof -
  have "0 < n" using sem_bounds(1) [OF assms(2)] .
  have "comp live sem L (build_integer B 0 (of_nat n)) (\<lambda>_. BVV n 0)"
    using comp_const [of n 0 L] assms \<open>0 < n\<close> by simp
  then have c: "comp live sem L
      (rt_bind (bits_helper B (Some x)) (\<lambda>bits. build_integer B 0 (of_nat bits))) (\<lambda>_. BVV n 0)"
    by (rule comp_bits [OF assms(2)])
  have v: "comp live sem L (rt_return (Some x)) (\<lambda>\<sigma>. BVV n (f \<sigma>))"
    using assms(1,2) by (rule comp_return)
  show ?thesis
    unfolding sym_build_bit_to_bool_def using comp_ops(10) [OF v c] by simp
qed


subsection \<open>Saturating arithmetic\<close>

lemma comp_usub_sat:
  assumes "a \<in> L" "b \<in> L" "\<And>\<sigma>. sem \<sigma> a = BVV n (f \<sigma>)" "\<And>\<sigma>. sem \<sigma> b = BVV n (g \<sigma>)" "n \<le> 64"
  shows "comp live sem L (sym_build_usub_sat B (Some a) (Some b)) (\<lambda>\<sigma>. BVV n (max 0 (f \<sigma> - g \<sigma>)))"
proof -
  note f = sem_bounds [OF assms(3)] and g = sem_bounds [OF assms(4)]
  have a: "comp live sem L (rt_return (Some a)) (\<lambda>\<sigma>. BVV n (f \<sigma>))"
    using assms(1,3) by (rule comp_return)
  have b: "comp live sem L (rt_return (Some b)) (\<lambda>\<sigma>. BVV n (g \<sigma>))"
    using assms(2,4) by (rule comp_return)
  have z: "comp live sem L (build_integer B 0 (of_nat n)) (\<lambda>_. BVV n 0)"
    using comp_const [of n 0 L] assms f(1) by simp
  have "comp live sem L (sym_build_usub_sat B (Some a) (Some b))
      (\<lambda>\<sigma>. BVV n (if g \<sigma> \<le> f \<sigma> then take_bit n (f \<sigma> - g \<sigma>) else 0))"
    unfolding sym_build_usub_sat_def
    by (rule comp_bits [OF assms(3)], rule comp_ite; (rule comp_values)?;
        rule comp_ops(8) comp_ops(2) z; rule a b)
  then show ?thesis
  proof (rule comp_cong)
    fix \<sigma>
    show "BVV n (if g \<sigma> \<le> f \<sigma> then take_bit n (f \<sigma> - g \<sigma>) else 0) = BVV n (max 0 (f \<sigma> - g \<sigma>))"
      using f(2,3) [of \<sigma>] g(2,3) [of \<sigma>] by (auto simp: take_bit_int_eq_self max_def)
  qed
qed


lemmas comp_build = comp_exprs comp_values comp_bits comp_MinSignedInt comp_MaxSignedInt
  comp_MaxUnsignedInt comp_bind

lemma comp_sadd_sat:
  assumes "\<And>\<sigma>. sem \<sigma> a = BVV n (f \<sigma>)" "\<And>\<sigma>. sem \<sigma> b = BVV n (g \<sigma>)" "n < 64"
  shows "comp live sem {a, b} (sym_build_sadd_sat B (Some a) (Some b))
    (\<lambda>\<sigma>. BVV n (take_bit n (saturate n (sval n (f \<sigma>) + sval n (g \<sigma>)))))"
proof -
  have n: "0 < n" by (rule sem_bounds(1) [OF assms(1)])
  have "take_bit n (f \<sigma> + g \<sigma>) = take_bit n (sval n (f \<sigma>) + sval n (g \<sigma>))" for \<sigma>
    using n by (metis take_bit_add take_bit_sval)
  note sat = signed_saturation [OF n disjI1 [OF refl] this]
  show ?thesis
    unfolding sym_build_sadd_sat_def
    apply (rule comp_cong)
    apply ((rule assms comp_build | assumption | (simp add: n assms(3) less_imp_le; fail))+)[1]
    subgoal for \<sigma>
      using sat [of \<sigma>] by (simp only: unsigned_1 Suc_eq_plus1 take_bit_add)
    done
qed

lemma comp_ssub_sat:
  assumes "\<And>\<sigma>. sem \<sigma> a = BVV n (f \<sigma>)" "\<And>\<sigma>. sem \<sigma> b = BVV n (g \<sigma>)" "n < 64"
  shows "comp live sem {a, b} (sym_build_ssub_sat B (Some a) (Some b))
    (\<lambda>\<sigma>. BVV n (take_bit n (saturate n (sval n (f \<sigma>) - sval n (g \<sigma>)))))"
proof -
  have n: "0 < n" by (rule sem_bounds(1) [OF assms(1)])
  have "take_bit n (f \<sigma> - g \<sigma>) = take_bit n (sval n (f \<sigma>) - sval n (g \<sigma>))" for \<sigma>
    using n by (metis take_bit_diff take_bit_sval)
  note sat = signed_saturation [OF n disjI2 [OF refl] this]
  show ?thesis
    unfolding sym_build_ssub_sat_def
    apply (rule comp_cong)
    apply ((rule assms comp_build | assumption | (simp add: n assms(3) less_imp_le; fail))+)[1]
    subgoal for \<sigma>
      using sat [of \<sigma>] by (simp only: unsigned_1 Suc_eq_plus1 take_bit_diff)
    done
qed

lemma comp_uadd_sat:
  assumes "\<And>\<sigma>. sem \<sigma> a = BVV n (f \<sigma>)" "\<And>\<sigma>. sem \<sigma> b = BVV n (g \<sigma>)" "n < 64"
  shows "comp live sem {a, b} (sym_build_uadd_sat B (Some a) (Some b))
    (\<lambda>\<sigma>. BVV n (min (2 ^ n - 1) (f \<sigma> + g \<sigma>)))"
proof -
  note f = sem_bounds [OF assms(1)] and g = sem_bounds [OF assms(2)]
  have carry: "bv_extract n n (take_bit (Suc n) (f \<sigma> + g \<sigma>)) = of_bool (2 ^ n \<le> f \<sigma> + g \<sigma>)" for \<sigma>
    by (rule carry_bit) (rule f g)+
  have tb: "take_bit n (f \<sigma> + g \<sigma>) = f \<sigma> + g \<sigma>" if "\<not> 2 ^ n \<le> f \<sigma> + g \<sigma>" for \<sigma>
    using that f(2) [of \<sigma>] g(2) [of \<sigma>] by (intro take_bit_int_eq_self) auto
  show ?thesis
    unfolding sym_build_uadd_sat_def
    apply (rule comp_cong)
    apply ((rule assms comp_build comp_bit_to_bool comp_ext(4) | assumption |
        (use f(1) assms(3) in \<open>simp; fail\<close>))+)[1]
    subgoal for \<sigma>
      using carry [of \<sigma>] tb [of \<sigma>] by (auto simp: min_def)
    done
qed

lemma comp_abs:
  assumes "\<And>\<sigma>. sem \<sigma> a = BVV n (f \<sigma>)" "n \<le> 64"
  shows "comp live sem {a} (sym_build_abs B (Some a)) (\<lambda>\<sigma>. BVV n (take_bit n \<bar>sval n (f \<sigma>)\<bar>))"
proof -
  note f = sem_bounds [OF assms(1)]
  have z: "comp live sem L (build_integer B 0 (of_nat n)) (\<lambda>_. BVV n 0)" for L
    using comp_const [of n 0 L] assms f(1) by simp
  have tb: "take_bit n (sval n (f \<sigma>)) = f \<sigma>" "take_bit n (- f \<sigma>) = take_bit n (- sval n (f \<sigma>))" for \<sigma>
    using f(1) f(2,3) [of \<sigma>] by (simp_all add: take_bit_sval take_bit_int_eq_self)
      (metis take_bit_minus take_bit_sval)
  show ?thesis
    unfolding sym_build_abs_def
    apply (rule comp_cong)
    apply ((rule assms z comp_build | assumption | (simp; fail))+)[1]
    subgoal for \<sigma>
      using tb [of \<sigma>] sval_self [of n 0] by (auto simp: abs_if not_le)
    done
qed

lemma comp_shift_left_overflow:
  assumes "a \<in> L" "b \<in> L" "\<And>\<sigma>. sem \<sigma> a = BVV n (f \<sigma>)" "\<And>\<sigma>. sem \<sigma> b = BVV n (g \<sigma>)"
    and "\<And>\<sigma>. g \<sigma> < int n"
  shows "comp live sem L (sym_build_shift_left_overflow B (Some a) (Some b))
    (\<lambda>\<sigma>. BoolV (sshl_overflows n (f \<sigma>) (g \<sigma>)))"
proof -
  note f = sem_bounds [OF assms(3)] and g = sem_bounds [OF assms(4)]
  have ovf: "take_bit n (sval n (take_bit n (f \<sigma> * 2 ^ nat (g \<sigma>))) div 2 ^ nat (g \<sigma>)) \<noteq> f \<sigma> \<longleftrightarrow>
      sshl_overflows n (f \<sigma>) (g \<sigma>)" for \<sigma>
    using shift_overflow_test [of n "f \<sigma>" "nat (g \<sigma>)"] f(1) f(2,3) [of \<sigma>] g(2) [of \<sigma>]
      assms(5) [of \<sigma>]
    by (simp add: nat_less_iff)
  show ?thesis
    unfolding sym_build_shift_left_overflow_def
    apply (rule comp_cong)
    apply ((rule assms comp_build | assumption | (simp; fail))+)[1]
    subgoal for \<sigma> using ovf [of \<sigma>] assms(5) [of \<sigma>] by simp
    done
qed

lemma comp_sshl_sat:
  assumes "\<And>\<sigma>. sem \<sigma> a = BVV n (f \<sigma>)" "\<And>\<sigma>. sem \<sigma> b = BVV n (g \<sigma>)" "n < 64"
    and "\<And>\<sigma>. g \<sigma> < int n"
  shows "comp live sem {a, b} (sym_build_sshl_sat B (Some a) (Some b))
    (\<lambda>\<sigma>. BVV n (take_bit n (saturate n (sval n (f \<sigma>) * 2 ^ nat (g \<sigma>)))))"
proof -
  note f = sem_bounds [OF assms(1)]
  have eq: "(if sshl_overflows n (f \<sigma>) (g \<sigma>)
       then if bv_extract (n - 1) (n - 1) (f \<sigma>) \<noteq> 0 then 2 ^ (n - 1) else 2 ^ (n - 1) - 1
       else take_bit n (f \<sigma> * 2 ^ nat (g \<sigma>))) =
      take_bit n (saturate n (sval n (f \<sigma>) * 2 ^ nat (g \<sigma>)))" for \<sigma>
    by (rule sshl_saturation [OF f(1) f(2) f(3)])
  have sz: "size_sub n 1 = n - 1" using f(1) assms(3) by simp
  show ?thesis
    unfolding sym_build_sshl_sat_def
    apply (rule comp_cong)
    apply ((rule assms comp_shift_left_overflow comp_build comp_bit_to_bool comp_ext(4) | assumption |
        (use f(1) assms(3) in \<open>simp; fail\<close>))+)[1]
    subgoal for \<sigma>
      unfolding sz using eq [of \<sigma>] assms(4) [of \<sigma>]
      by (simp only: if_True of_bool_def split: if_split)
    done
qed

lemma comp_ushl_sat:
  assumes "\<And>\<sigma>. sem \<sigma> a = BVV n (f \<sigma>)" "\<And>\<sigma>. sem \<sigma> b = BVV n (g \<sigma>)" "n < 64"
    and "\<And>\<sigma>. g \<sigma> < int n"
  shows "comp live sem {a, b} (sym_build_ushl_sat B (Some a) (Some b))
    (\<lambda>\<sigma>. BVV n (if sshl_overflows n (f \<sigma>) (g \<sigma>) then 2 ^ n - 1
                else take_bit n (f \<sigma> * 2 ^ nat (g \<sigma>))))"
proof -
  note f = sem_bounds [OF assms(1)]
  show ?thesis
    unfolding sym_build_ushl_sat_def
    apply (rule comp_cong)
    apply ((rule assms comp_shift_left_overflow comp_build | assumption |
        (use f(1) assms(3) in \<open>simp; fail\<close>))+)[1]
    subgoal for \<sigma> using assms(4) [of \<sigma>] by simp
    done
qed


subsection \<open>Aggregates\<close>

text \<open>One byte of the memory image.\<close>

lemma comp_byte:
  assumes "x \<in> L" "\<And>\<sigma>. sem \<sigma> x = BVV (8 * N) (f \<sigma>)" "j < N" "8 * N < 2 ^ 32"
    and "hi = 8 * N - 8 * j - 1" "lo = 8 * N - 8 * (j + 1)"
  shows "comp live sem L (extract_helper B (Some x) hi lo)
    (\<lambda>\<sigma>. BVV 8 (be_val [mem_bytes N (f \<sigma>) ! j]))"
proof -
  have x: "comp live sem L (rt_return (Some x)) (\<lambda>\<sigma>. BVV (8 * N) (f \<sigma>))"
    using assms(1,2) by (rule comp_return)
  have c: "comp live sem L (extract_helper B (Some x) hi lo)
      (\<lambda>\<sigma>. BVV (hi - lo + 1) (bv_extract hi lo (f \<sigma>)))"
    by (rule comp_values, rule comp_ext(4) [OF x]) (use assms in auto)
  have w: "hi - lo + 1 = 8" using assms(3,5,6) by simp
  have "bv_extract hi lo (f \<sigma>) = be_val [mem_bytes N (f \<sigma>) ! j]" for \<sigma>
    using bv_extract_slice [of j 1 N "f \<sigma>"] assms(3,5,6)
    by (simp add: take_Suc_conv_app_nth [of 0, simplified] hd_drop_conv_nth take_Suc)
  with c w show ?thesis by simp
qed

lemma comp_extract_loop:
  assumes "x \<in> L" "\<And>\<sigma>. sem \<sigma> x = BVV (8 * N) (f \<sigma>)" "8 * N < 2 ^ 32"
    and "r \<in> L" "\<And>\<sigma>. sem \<sigma> r = BVV (8 * i) (be_val (rev (take i (drop o' (mem_bytes N (f \<sigma>))))))"
    and "o' + i + k \<le> N"
  shows "comp live sem L (extract_loop B (Some x) (8 * N) o' i k (Some r))
    (\<lambda>\<sigma>. BVV (8 * (i + k)) (be_val (rev (take (i + k) (drop o' (mem_bytes N (f \<sigma>)))))))"
  using assms
proof (induction k arbitrary: i r L)
  case 0
  then show ?case by (auto intro: comp_return)
next
  case (Suc k)
  let ?mb = "\<lambda>\<sigma>. mem_bytes N (f \<sigma>)"
  have byte: "comp live sem L (extract_helper B (Some x)
       (size_sub (size_sub (8 * N) ((o' + i) * 8)) 1) (size_sub (8 * N) ((o' + i + 1) * 8)))
      (\<lambda>\<sigma>. BVV 8 (be_val [?mb \<sigma> ! (o' + i)]))"
    by (rule comp_byte [OF Suc.prems(1,2)]) (use Suc.prems in simp_all)
  have r: "comp live sem L (rt_return (Some r))
      (\<lambda>\<sigma>. BVV (8 * i) (be_val (rev (take i (drop o' (?mb \<sigma>))))))"
    using Suc.prems(4,5) by (rule comp_return)
  have tk: "take (Suc i) (drop o' (?mb \<sigma>)) = take i (drop o' (?mb \<sigma>)) @ [?mb \<sigma> ! (o' + i)]" for \<sigma>
    using Suc.prems(6) by (simp add: take_Suc_conv_app_nth)
  have len: "length (take i (drop o' (?mb \<sigma>))) = i" for \<sigma> using Suc.prems(6) by simp
  have "bv_concat (8 * i) (be_val [?mb \<sigma> ! (o' + i)]) (be_val (rev (take i (drop o' (?mb \<sigma>))))) =
      be_val (rev (take (Suc i) (drop o' (?mb \<sigma>))))" for \<sigma>
    using bv_concat_be_val [of "rev (take i (drop o' (?mb \<sigma>)))" "[?mb \<sigma> ! (o' + i)]"]
    unfolding length_rev len tk by simp
  with comp_concat [OF byte r] have cat: "comp live sem L (rt_call2 (concat_helper B)
      (extract_helper B (Some x)
         (size_sub (size_sub (8 * N) ((o' + i) * 8)) 1) (size_sub (8 * N) ((o' + i + 1) * 8)))
      (rt_return (Some r)))
      (\<lambda>\<sigma>. BVV (8 * Suc i) (be_val (rev (take (Suc i) (drop o' (?mb \<sigma>))))))"
    by (simp del: take_Suc)
  show ?case
    unfolding extract_loop.simps
  proof (rule comp_bind [OF cat])
    fix e assume "\<And>\<sigma>. sem \<sigma> e = BVV (8 * Suc i) (be_val (rev (take (Suc i) (drop o' (?mb \<sigma>)))))"
    from Suc.IH [OF _ Suc.prems(2,3) _ this, of "insert e L"] Suc.prems(1,6)
    show "comp live sem (insert e L) (extract_loop B (Some x) (8 * N) o' (i + 1) k (Some e))
      (\<lambda>\<sigma>. BVV (8 * (i + Suc k)) (be_val (rev (take (i + Suc k) (drop o' (?mb \<sigma>))))))"
      by simp
  qed
qed

lemma comp_extract:
  assumes "x \<in> L" "\<And>\<sigma>. sem \<sigma> x = BVV (8 * N) (f \<sigma>)" "8 * N < 2 ^ 32" "o' + l \<le> N" "0 < l"
  shows "comp live sem L (sym_build_extract B (Some x) o' l le)
    (\<lambda>\<sigma>. BVV (8 * l) (be_val ((if le then rev else id) (take l (drop o' (mem_bytes N (f \<sigma>)))))))"
proof -
  let ?mb = "\<lambda>\<sigma>. mem_bytes N (f \<sigma>)"
  let ?tot = "size_sub (8 * N) (o' * 8)"
  have sz: "?tot = 8 * N - 8 * o'" "size_sub (8 * N - 8 * o') 1 = 8 * N - 8 * o' - 1"
    "size_sub (8 * N - 8 * o') 8 = 8 * N - 8 * (o' + 1)" "size_sub (8 * N) ((o' + l) * 8) = 8 * N - 8 * (o' + l)"
    using assms by simp_all
  have first: "comp live sem L (extract_helper B (Some x) (size_sub ?tot 1) (size_sub ?tot 8))
      (\<lambda>\<sigma>. BVV 8 (be_val [?mb \<sigma> ! o']))"
    unfolding sz by (rule comp_byte [OF assms(1,2)]) (use assms in simp_all)
  have "comp live sem L
      (rt_bind (extract_helper B (Some x) (size_sub ?tot 1) (size_sub ?tot 8))
         (extract_loop B (Some x) (8 * N) o' 1 (l - 1)))
      (\<lambda>\<sigma>. BVV (8 * l) (be_val (rev (take l (drop o' (?mb \<sigma>))))))"
  proof (rule comp_bind [OF first])
    fix e assume e: "\<And>\<sigma>. sem \<sigma> e = BVV 8 (be_val [?mb \<sigma> ! o'])"
    have one: "take 1 (drop o' (?mb \<sigma>)) = [?mb \<sigma> ! o']" for \<sigma>
      using assms by (simp add: take_Suc hd_drop_conv_nth)
    have "comp live sem (insert e L) (extract_loop B (Some x) (8 * N) o' 1 (l - 1) (Some e))
        (\<lambda>\<sigma>. BVV (8 * (1 + (l - 1))) (be_val (rev (take (1 + (l - 1)) (drop o' (?mb \<sigma>))))))"
      by (rule comp_extract_loop [OF _ assms(2,3)]) (use assms e one in simp_all)
    then show "comp live sem (insert e L) (extract_loop B (Some x) (8 * N) o' 1 (l - 1) (Some e))
        (\<lambda>\<sigma>. BVV (8 * l) (be_val (rev (take l (drop o' (?mb \<sigma>))))))"
      using assms(5) by simp
  qed
  moreover have "comp live sem L
      (extract_helper B (Some x) (size_sub ?tot 1) (size_sub (8 * N) ((o' + l) * 8)))
      (\<lambda>\<sigma>. BVV (8 * l) (be_val (take l (drop o' (?mb \<sigma>)))))"
  proof -
    have x: "comp live sem L (rt_return (Some x)) (\<lambda>\<sigma>. BVV (8 * N) (f \<sigma>))"
      using assms(1,2) by (rule comp_return)
    let ?hi = "8 * N - 8 * o' - 1" and ?lo = "8 * N - 8 * (o' + l)"
    have "comp live sem L (extract_helper B (Some x) ?hi ?lo)
        (\<lambda>\<sigma>. BVV (?hi - ?lo + 1) (bv_extract ?hi ?lo (f \<sigma>)))"
      by (rule comp_values, rule comp_ext(4) [OF x]) (use assms in auto)
    moreover have "?hi - ?lo + 1 = 8 * l" using assms(4,5) by simp
    ultimately show ?thesis
      unfolding sz using bv_extract_slice [OF assms(4,5)] by simp
  qed
  ultimately show ?thesis
    unfolding sym_build_extract_def
    by (intro comp_bits [OF assms(2)]) (simp add: rt_assert_def)
qed

end
end
