(* ===== verification/Runtime_Aggregates.thy ===== *)
theory Runtime_Aggregates
  imports Runtime_Exprs
begin

text \<open>
  What the aggregate builders of \<open>runtime/src/RuntimeCommon.cpp\<close> denote, as byte lists: byte swapping,
  insertion into an aggregate, zero padding, and the in-memory structure \<open>{iN, i1}\<close> that the
  arithmetic-with-overflow intrinsics return. All lemmas are proved from the backend contract.
\<close>

subsection \<open>Byte lists\<close>

text \<open>The order in which the bytes of an \<open>iN\<close> appear in memory.\<close>

definition mem_order :: "bool \<Rightarrow> int list \<Rightarrow> int list" where
  "mem_order little_endian = (if little_endian then rev else id)"

lemma length_mem_order [simp]: "length (mem_order le bs) = length bs"
  by (simp add: mem_order_def)

text \<open>The memory image of \<open>{iN, i1}\<close> with \<open>N = 8 * k\<close>: the integer, then the flag padded to the same size.\<close>

definition overflow_struct :: "bool \<Rightarrow> nat \<Rightarrow> int \<Rightarrow> bool \<Rightarrow> int list" where
  "overflow_struct little_endian k r ovf =
     mem_order little_endian (mem_bytes k r) @
     mem_order little_endian (replicate (k - 1) 0 @ [of_bool ovf])"

lemma be_val_zeros [simp]: "be_val (replicate n 0) = 0"
  by (induction n) simp_all

lemma be_val_self: "0 \<le> x \<Longrightarrow> x < 2 ^ (8 * n) \<Longrightarrow> be_val (mem_bytes n x) = x"
  by (simp add: be_val_mem_bytes pow256)

lemma mem_order_single [simp]: "mem_order le [b] = [b]"
  by (simp add: mem_order_def)

lemma mem_order_mem_bytes_1: "mem_order le (mem_bytes 1 x) = mem_bytes 1 x"
  by (simp add: mem_order_def mem_bytes_def)

lemma bv_concat_bytes:
  "length bs = m \<Longrightarrow> bv_concat (8 * m) (be_val as) (be_val bs) = be_val (as @ bs)"
  using bv_concat_be_val by blast

lemma rt_bind_assert [simp]: "rt_bind (rt_assert msg True) f = f ()"
  by (simp add: rt_assert_def)

subsection \<open>Swapping, padding, inserting\<close>

context expr_backend
begin

lemma comp_bswap:
  assumes "x \<in> L" "\<And>\<sigma>. sem \<sigma> x = BVV (8 * N) (f \<sigma>)" "8 * N < 2 ^ 32" "even N"
  shows "comp live sem L (sym_build_bswap B (Some x))
    (\<lambda>\<sigma>. BVV (8 * N) (be_val (rev (mem_bytes N (f \<sigma>)))))"
proof -
  have "0 < N" using sem_bounds(1) [OF assms(2)] by simp
  moreover have "8 * N mod 16 = 0" using assms(4) by (auto elim!: evenE)
  ultimately show ?thesis
    unfolding sym_build_bswap_def
    using comp_extract [OF assms(1,2,3), of 0 N True]
    by (intro comp_bits [OF assms(2)]) simp
qed

lemma comp_zero_bytes_loop:
  assumes "z \<in> L" "\<And>\<sigma>. sem \<sigma> z = BVV 8 0" "r \<in> L" "\<And>\<sigma>. sem \<sigma> r = BVV (8 * i) 0"
  shows "comp live sem L (zero_bytes_loop B (Some z) k (Some r)) (\<lambda>_. BVV (8 * (i + k)) 0)"
  using assms
proof (induction k arbitrary: i r L)
  case 0
  then show ?case by (auto intro: comp_return)
next
  case (Suc k)
  have "comp live sem L (rt_return (Some r)) (\<lambda>_. BVV (8 * i) 0)"
    using Suc.prems(3,4) by (rule comp_return)
  moreover have "comp live sem L (rt_return (Some z)) (\<lambda>_. BVV 8 0)"
    using Suc.prems(1,2) by (rule comp_return)
  ultimately have c: "comp live sem L (concat_helper B (Some r) (Some z))
      (\<lambda>_. BVV (8 * i + 8) (bv_concat 8 0 0))"
    by (intro comp_values(6) comp_concat)
  show ?case
    unfolding zero_bytes_loop.simps
  proof (rule comp_bind [OF c])
    fix e assume e: "\<And>\<sigma>. sem \<sigma> e = BVV (8 * i + 8) (bv_concat 8 0 0)"
    have "sem \<sigma> e = BVV (8 * Suc i) 0" for \<sigma> using e [of \<sigma>] by (simp add: bv_concat_def)
    from Suc.IH [OF _ Suc.prems(2) _ this, of "insert e L"] Suc.prems(1)
    show "comp live sem (insert e L) (zero_bytes_loop B (Some z) k (Some e))
        (\<lambda>_. BVV (8 * (i + Suc k)) 0)"
      by simp
  qed
qed

lemma comp_zero_bytes:
  assumes "0 < n"
  shows "comp live sem L (sym_build_zero_bytes B n) (\<lambda>_. BVV (8 * n) 0)"
proof -
  have c: "comp live sem L (build_integer B 0 8) (\<lambda>_. BVV 8 0)"
    using comp_integer [of 8 L 0] by simp
  show ?thesis
    unfolding sym_build_zero_bytes_def
  proof (rule comp_bind [OF c])
    fix e assume "\<And>\<sigma>. sem \<sigma> e = BVV 8 0"
    then show "comp live sem (insert e L) (zero_bytes_loop B (Some e) (n - 1) (Some e))
        (\<lambda>_. BVV (8 * n) 0)"
      using comp_zero_bytes_loop [of e "insert e L" e 1 "n - 1"] assms by simp
  qed
qed

text \<open>The bytes of a value in memory order, by swapping when the target is little-endian.\<close>

lemma comp_mem_order:
  assumes "x \<in> L" "\<And>\<sigma>. sem \<sigma> x = BVV (8 * k) (f \<sigma>)" "8 * k < 2 ^ 32" "c \<Longrightarrow> even k"
    and "c = le \<or> k = 1"
  shows "comp live sem L (if c then sym_build_bswap B (Some x) else rt_return (Some x))
    (\<lambda>\<sigma>. BVV (8 * k) (be_val (mem_order le (mem_bytes k (f \<sigma>)))))"
proof (cases c)
  case True
  then show ?thesis
    using comp_bswap [OF assms(1,2,3)] assms(4,5) by (auto simp: mem_order_def)
next
  case False
  have "sem \<sigma> x = BVV (8 * k) (be_val (mem_order le (mem_bytes k (f \<sigma>))))" for \<sigma>
  proof -
    have "mem_order le (mem_bytes k (f \<sigma>)) = mem_bytes k (f \<sigma>)"
      using False assms(5) mem_order_mem_bytes_1 [of le "f \<sigma>"] by (auto simp: mem_order_def)
    then show ?thesis
      using assms(2) sem_bounds(2,3) [OF assms(2), of \<sigma>] by (simp add: be_val_self)
  qed
  with assms(1) show ?thesis using False by (auto intro: comp_return)
qed

text \<open>Concatenation of two byte lists.\<close>

lemma comp_concat_bytes:
  assumes "comp live sem L m1 (\<lambda>\<sigma>. BVV (8 * n) (be_val (as \<sigma>)))"
    "comp live sem L m2 (\<lambda>\<sigma>. BVV (8 * m) (be_val (bs \<sigma>)))" "\<And>\<sigma>. length (bs \<sigma>) = m"
  shows "comp live sem L (rt_call2 (concat_helper B) m1 m2)
    (\<lambda>\<sigma>. BVV (8 * (n + m)) (be_val (as \<sigma> @ bs \<sigma>)))"
  using comp_concat [OF assms(1,2)]
  by (simp only: bv_concat_bytes [OF assms(3)] distrib_left)

lemma comp_concat_exprs:
  assumes "x \<in> L" "y \<in> L" "\<And>\<sigma>. sem \<sigma> x = BVV (8 * n) (be_val (as \<sigma>))"
    "\<And>\<sigma>. sem \<sigma> y = BVV (8 * m) (be_val (bs \<sigma>))" "\<And>\<sigma>. length (bs \<sigma>) = m"
  shows "comp live sem L (concat_helper B (Some x) (Some y))
    (\<lambda>\<sigma>. BVV (8 * (n + m)) (be_val (as \<sigma> @ bs \<sigma>)))"
proof -
  have "comp live sem L (rt_return (Some x)) (\<lambda>\<sigma>. BVV (8 * n) (be_val (as \<sigma>)))"
    using assms(1,3) by (rule comp_return)
  moreover have "comp live sem L (rt_return (Some y)) (\<lambda>\<sigma>. BVV (8 * m) (be_val (bs \<sigma>)))"
    using assms(2,4) by (rule comp_return)
  ultimately show ?thesis by (intro comp_values(6) comp_concat_bytes assms(5))
qed

text \<open>The pieces around the insertion: either may be missing.\<close>

lemma comp_piece:
  assumes "t \<in> L" "\<And>\<sigma>. sem \<sigma> t = BVV (8 * N) (f \<sigma>)" "8 * N < 2 ^ 32" "m + l \<le> N"
    and "l = 0 \<Longrightarrow> comp live sem L (k None) G"
    and "\<And>e. 0 < l \<Longrightarrow>
      (\<And>\<sigma>. sem \<sigma> e = BVV (8 * l) (be_val (take l (drop m (mem_bytes N (f \<sigma>)))))) \<Longrightarrow>
      comp live sem (insert e L) (k (Some e)) G"
  shows "comp live sem L
    (rt_bind (if l = 0 then rt_return None else sym_build_extract B (Some t) m l False) k) G"
proof (cases "l = 0")
  case True
  then show ?thesis using assms(5) by simp
next
  case False
  then have "comp live sem L (sym_build_extract B (Some t) m l False)
      (\<lambda>\<sigma>. BVV (8 * l) (be_val (take l (drop m (mem_bytes N (f \<sigma>))))))"
    using comp_extract [OF assms(1-4), of False] by simp
  then show ?thesis using False assms(6) by (auto intro: comp_bind)
qed

text \<open>Joining the pieces, each of which is a byte list or missing.\<close>

definition piece_of :: "'e option \<Rightarrow> nat \<Rightarrow> ('m \<Rightarrow> int list) \<Rightarrow> bool" where
  "piece_of x n bs \<longleftrightarrow> (\<forall>\<sigma>. length (bs \<sigma>) = n) \<and>
     (case x of None \<Rightarrow> n = 0 | Some e \<Rightarrow> \<forall>\<sigma>. sem \<sigma> e = BVV (8 * n) (be_val (bs \<sigma>)))"

lemma comp_join:
  assumes "piece_of b n1 as" "p \<in> L" "\<And>\<sigma>. sem \<sigma> p = BVV (8 * n2) (be_val (bs \<sigma>))"
    "\<And>\<sigma>. length (bs \<sigma>) = n2" "piece_of a n3 cs" "set_option b \<subseteq> L" "set_option a \<subseteq> L"
  shows "comp live sem L
    (rt_bind (if b = None then rt_return (Some p) else concat_helper B b (Some p)) (\<lambda>result.
       if a \<noteq> None then concat_helper B result a else rt_return result))
    (\<lambda>\<sigma>. BVV (8 * (n1 + n2 + n3)) (be_val (as \<sigma> @ bs \<sigma> @ cs \<sigma>)))"
proof (rule comp_bind)
  show "comp live sem L (if b = None then rt_return (Some p) else concat_helper B b (Some p))
      (\<lambda>\<sigma>. BVV (8 * (n1 + n2)) (be_val (as \<sigma> @ bs \<sigma>)))"
    using assms(1-4,6) comp_concat_exprs [of _ L p n1 as n2 bs]
    by (cases b) (auto simp: piece_of_def intro: comp_return)
next
  fix e assume e: "\<And>\<sigma>. sem \<sigma> e = BVV (8 * (n1 + n2)) (be_val (as \<sigma> @ bs \<sigma>))"
  show "comp live sem (insert e L) (if a \<noteq> None then concat_helper B (Some e) a else rt_return (Some e))
      (\<lambda>\<sigma>. BVV (8 * (n1 + n2 + n3)) (be_val (as \<sigma> @ bs \<sigma> @ cs \<sigma>)))"
    using e assms(5,7) comp_concat_exprs [OF _ _ e, of "insert e L" _ n3 cs]
    by (cases a) (auto simp: piece_of_def intro: comp_return)
qed

lemma comp_insert:
  assumes "t \<in> L" "i \<in> L" "\<And>\<sigma>. sem \<sigma> t = BVV (8 * N) (f \<sigma>)" "\<And>\<sigma>. sem \<sigma> i = BVV (8 * k) (g \<sigma>)"
    and "8 * N < 2 ^ 32" "o' + k \<le> N" "le \<Longrightarrow> k = 1 \<or> even k"
  shows "comp live sem L (sym_build_insert B (Some t) (Some i) o' le)
    (\<lambda>\<sigma>. BVV (8 * N) (be_val (take o' (mem_bytes N (f \<sigma>)) @
        mem_order le (mem_bytes k (g \<sigma>)) @ drop (o' + k) (mem_bytes N (f \<sigma>)))))" (is "comp _ _ _ _ ?G")
proof -
  have k: "0 < k" using sem_bounds(1) [OF assms(4)] by simp
  let ?l = "N - (o' + k)"
  have len: "size_sub (size_sub (8 * N div 8) o') (8 * k div 8) = ?l" using assms(5,6) by simp
  have mid: "comp live sem L' (if le \<and> 8 < 8 * k then sym_build_bswap B (Some i) else rt_return (Some i))
      (\<lambda>\<sigma>. BVV (8 * k) (be_val (mem_order le (mem_bytes k (g \<sigma>)))))" if "i \<in> L'" for L'
    using that assms(4) by (rule comp_mem_order) (use assms(5,6,7) k in auto)
  have rest: "comp live sem L'
      (rt_bind (if le \<and> 8 < 8 * k then sym_build_bswap B (Some i) else rt_return (Some i)) (\<lambda>newPiece.
       rt_bind (bits_helper B (Some t)) (\<lambda>targetBits.
       let afterLen = size_sub (size_sub (targetBits div 8) o') (8 * k div 8) in
       rt_bind (if afterLen = 0 then rt_return None
                else sym_build_extract B (Some t) (o' + 8 * k div 8) afterLen False) (\<lambda>afterInsert.
       rt_bind (if b = None then rt_return newPiece else concat_helper B b newPiece) (\<lambda>result.
       if afterInsert \<noteq> None then concat_helper B result afterInsert else rt_return result)))))
      ?G" if b: "t \<in> L'" "i \<in> L'" "set_option b \<subseteq> L'"
      "piece_of b o' (\<lambda>\<sigma>. take o' (mem_bytes N (f \<sigma>)))" for b L'
  proof (rule comp_bind [OF mid [OF b(2)]], rule comp_bits [OF assms(3)], unfold Let_def len, rule comp_piece)
    fix p assume p: "\<And>\<sigma>. sem \<sigma> p = BVV (8 * k) (be_val (mem_order le (mem_bytes k (g \<sigma>))))"
    note join = comp_join [OF b(4) _ p, of _ _ ?l "\<lambda>\<sigma>. drop (o' + k) (mem_bytes N (f \<sigma>))"]
    show "comp live sem (insert p L') (rt_bind (if b = None then rt_return (Some p) else concat_helper B b (Some p))
        (\<lambda>result. if None \<noteq> None then concat_helper B result None else rt_return result)) ?G" if "?l = 0"
      using join [of "insert p L'" None] that b(3) assms(6) by (auto simp: piece_of_def)
    fix e assume e: "0 < ?l"
      "\<And>\<sigma>. sem \<sigma> e = BVV (8 * ?l) (be_val (take ?l (drop (o' + 8 * k div 8) (mem_bytes N (f \<sigma>)))))"
    show "comp live sem (insert e (insert p L'))
        (rt_bind (if b = None then rt_return (Some p) else concat_helper B b (Some p))
        (\<lambda>result. if Some e \<noteq> None then concat_helper B result (Some e) else rt_return result)) ?G"
      using join [of "insert e (insert p L')" "Some e"] e b(3) assms(6) by (auto simp: piece_of_def)
  qed (use b assms in auto)
  have bytes: "rt_bind (rt_assert msg (8 * k mod 8 = 0)) h = h ()" for msg and h :: "_ \<Rightarrow> ('b, 'e option) rt"
    by simp
  show ?thesis
    unfolding sym_build_insert_def
    apply (rule comp_bits [OF assms(4)])
    apply (unfold bytes)
    apply (rule comp_piece [OF assms(1,3,5)])
    subgoal using assms(6) by simp
    subgoal by (rule rest) (use assms(1,2) in \<open>simp_all add: piece_of_def\<close>)
    subgoal by (rule rest) (use assms(1,2,6) in \<open>simp_all add: piece_of_def\<close>)
    done
qed

subsection \<open>Round trips\<close>

lemma mem_bytes_range: "\<forall>b \<in> set (mem_bytes n x). 0 \<le> b \<and> b < 256"
  using mem_bytes_bounds by blast

lemma comp_bswap_bswap:
  assumes "x \<in> L" "\<And>\<sigma>. sem \<sigma> x = BVV (8 * N) (f \<sigma>)" "8 * N < 2 ^ 32" "even N"
  shows "comp live sem L (rt_bind (sym_build_bswap B (Some x)) (sym_build_bswap B)) (\<lambda>\<sigma>. BVV (8 * N) (f \<sigma>))"
proof (rule comp_bind [OF comp_bswap [OF assms]])
  fix e assume e: "\<And>\<sigma>. sem \<sigma> e = BVV (8 * N) (be_val (rev (mem_bytes N (f \<sigma>))))"
  have "mem_bytes N (be_val (rev (mem_bytes N (f \<sigma>)))) = rev (mem_bytes N (f \<sigma>))" for \<sigma>
    using mem_bytes_be_val [of "rev (mem_bytes N (f \<sigma>))"] mem_bytes_range [of N "f \<sigma>"] by simp
  moreover have "be_val (mem_bytes N (f \<sigma>)) = f \<sigma>" for \<sigma>
    using sem_bounds(2,3) [OF assms(2), of \<sigma>] by (simp add: be_val_self)
  ultimately show "comp live sem (insert e L) (sym_build_bswap B (Some e)) (\<lambda>\<sigma>. BVV (8 * N) (f \<sigma>))"
    using comp_bswap [OF _ e assms(3,4), of "insert e L"] by simp
qed

lemma comp_insert_extract:
  assumes "t \<in> L" "i \<in> L" "\<And>\<sigma>. sem \<sigma> t = BVV (8 * N) (f \<sigma>)" "\<And>\<sigma>. sem \<sigma> i = BVV (8 * k) (g \<sigma>)"
    and "8 * N < 2 ^ 32" "o' + k \<le> N" "le \<Longrightarrow> k = 1 \<or> even k"
  shows "comp live sem L
    (rt_bind (sym_build_insert B (Some t) (Some i) o' le) (\<lambda>r. sym_build_extract B r o' k le))
    (\<lambda>\<sigma>. BVV (8 * k) (g \<sigma>))"
proof (rule comp_bind [OF comp_insert [OF assms]])
  let ?bs = "\<lambda>\<sigma>. take o' (mem_bytes N (f \<sigma>)) @ mem_order le (mem_bytes k (g \<sigma>)) @ drop (o' + k) (mem_bytes N (f \<sigma>))"
  fix e assume e: "\<And>\<sigma>. sem \<sigma> e = BVV (8 * N) (be_val (?bs \<sigma>))"
  have k: "0 < k" using sem_bounds(1) [OF assms(4)] by simp
  have len: "length (?bs \<sigma>) = N" for \<sigma> using assms(6) by simp
  have bd: "\<forall>b \<in> set (?bs \<sigma>). 0 \<le> b \<and> b < 256" for \<sigma>
    using mem_bytes_range [of N "f \<sigma>"] mem_bytes_range [of k "g \<sigma>"]
    by (auto simp: mem_order_def dest: in_set_takeD in_set_dropD)
  have mb: "mem_bytes N (be_val (?bs \<sigma>)) = ?bs \<sigma>" for \<sigma>
    using mem_bytes_be_val [OF bd [of \<sigma>]] by (simp only: len)
  have slice: "take k (drop o' (?bs \<sigma>)) = mem_order le (mem_bytes k (g \<sigma>))" for \<sigma>
    using assms(6) by simp
  have twice: "(if le then rev else id) (mem_order le bs) = bs" for bs by (simp add: mem_order_def)
  have "be_val (mem_bytes k (g \<sigma>)) = g \<sigma>" for \<sigma>
    using sem_bounds(2,3) [OF assms(4), of \<sigma>] by (simp add: be_val_self)
  then show "comp live sem (insert e L) (sym_build_extract B (Some e) o' k le) (\<lambda>\<sigma>. BVV (8 * k) (g \<sigma>))"
    using comp_extract [OF _ e assms(5,6) k, of "insert e L" le] unfolding mb slice twice by simp
qed

end

end
