(* ===== verification/Runtime_Overflow.thy ===== *)
theory Runtime_Overflow
  imports Runtime_Aggregates
begin

text \<open>
  Arithmetic with overflow (\<open>_sym_build_add_overflow\<close>, \<open>_sym_build_sub_overflow\<close>,
  \<open>_sym_build_mul_overflow\<close> and \<open>buildOverflowResult\<close> of \<open>runtime/src/RuntimeCommon.cpp\<close>): the
  expression they build denotes the memory image of the structure \<open>{iN, i1}\<close> that LLVM's intrinsics
  return. The flag is right for signed arithmetic and for unsigned addition and subtraction; for
  unsigned multiplication it is the top bit of the double-width product.
\<close>

subsection \<open>Overflow of the signed operations\<close>

definition signed_overflow :: "nat \<Rightarrow> int \<Rightarrow> bool" where
  "signed_overflow n k \<longleftrightarrow> \<not> (- (2 ^ (n - 1)) \<le> k \<and> k < 2 ^ (n - 1))"

text \<open>Comparing the result with the one computed in more bits detects signed overflow.\<close>

lemma signed_overflow_test:
  assumes "0 < n" "n \<le> w" "- (2 ^ (w - 1)) \<le> k" "k < 2 ^ (w - 1)"
  shows "take_bit w k \<noteq> take_bit w (sval n (take_bit n k)) \<longleftrightarrow> signed_overflow n k"
proof -
  have w: "0 < w" using assms by simp
  have le: "(2::int) ^ (n - 1) \<le> 2 ^ (w - 1)" using assms(2) by (intro power_increasing) simp_all
  have k: "sval w (take_bit w k) = k" using assms(3,4) w by (simp add: sval_take_bit sval_self)
  have s: "sval w (take_bit w (sval n (take_bit n k))) = sval n k"
  proof -
    have "sval w (sval n k) = sval n k"
      using sval_bounds [of n k] le by (intro sval_self) linarith+
    then show ?thesis using w assms(1) by (simp add: sval_take_bit)
  qed
  have "take_bit w k = take_bit w (sval n (take_bit n k)) \<longleftrightarrow> k = sval n k"
    using k s assms(1) by (metis sval_take_bit)
  moreover have "k = sval n k \<longleftrightarrow> \<not> signed_overflow n k"
    using sval_bounds [of n k] sval_self [of n k] unfolding signed_overflow_def by metis
  ultimately show ?thesis by blast
qed

lemma sval_add_range:
  assumes "0 < n"
  shows "- (2 ^ n) \<le> sval n x + sval n y" "sval n x + sval n y < 2 ^ n"
    "- (2 ^ n) \<le> sval n x - sval n y" "sval n x - sval n y < 2 ^ n"
  using sval_bounds [of n x] sval_bounds [of n y] two_pow_pred [OF assms] by linarith+

lemma sval_mult_range:
  assumes "0 < n"
  shows "- (2 ^ (n + n - 1)) \<le> sval n x * sval n y" "sval n x * sval n y < 2 ^ (n + n - 1)"
proof -
  let ?h = "2 ^ (n - 1) :: int"
  have abs: "\<bar>sval n x\<bar> \<le> ?h" "\<bar>sval n y\<bar> \<le> ?h"
    using sval_bounds [of n x] sval_bounds [of n y] by auto
  have "\<bar>sval n x * sval n y\<bar> \<le> ?h * ?h"
    unfolding abs_mult by (rule mult_mono) (use abs in auto)
  moreover have "?h * ?h < 2 ^ (n + n - 1)"
  proof -
    have "(2::int) ^ (n + n - 1) = 2 * (?h * ?h)"
      using assms by (cases n) (simp_all add: power_add)
    then show ?thesis by simp
  qed
  ultimately show "- (2 ^ (n + n - 1)) \<le> sval n x * sval n y" "sval n x * sval n y < 2 ^ (n + n - 1)"
    by linarith+
qed

lemma take_bit_sval_arith:
  assumes "0 < n"
  shows "take_bit n (x + y) = take_bit n (sval n x + sval n y)"
    "take_bit n (x - y) = take_bit n (sval n x - sval n y)"
    "take_bit n (x * y) = take_bit n (sval n x * sval n y)"
  using assms by (metis take_bit_add take_bit_sval, metis take_bit_diff take_bit_sval,
      metis take_bit_mult take_bit_sval)

text \<open>The test of \<open>_sym_build_mul_overflow\<close> for unsigned operands.\<close>

lemma mul_top_bit:
  assumes "0 < n" "0 \<le> x" "x < 2 ^ n" "0 \<le> y" "y < (2 ^ n :: int)"
  shows "bv_extract (2 * n - 1) (2 * n - 1) (take_bit (n + n) (x * y)) = of_bool (2 ^ (2 * n - 1) \<le> x * y)"
proof -
  have lt: "x * y < 2 ^ (n + n)"
    unfolding power_add by (rule mult_strict_mono') (rule assms)+
  have nn: "0 \<le> x * y" using assms by simp
  have tb: "take_bit (n + n) (x * y) = x * y" using lt nn by (rule take_bit_int_eq_self [rotated])
  have two: "(2::int) ^ (n + n) = 2 * 2 ^ (2 * n - 1)"
  proof -
    have "n + n - 1 = 2 * n - 1" by simp
    then show ?thesis using two_pow_pred [of "n + n"] assms(1) by simp
  qed
  have "x * y div 2 ^ (2 * n - 1) = of_bool (2 ^ (2 * n - 1) \<le> x * y)"
  proof (cases "2 ^ (2 * n - 1) \<le> x * y")
    case True
    then have "x * y div 2 ^ (2 * n - 1) = 1"
      using lt two by (intro int_div_pos_eq [where r = "x * y - 2 ^ (2 * n - 1)"]) simp_all
    then show ?thesis using True by simp
  qed (use nn in simp)
  then show ?thesis unfolding tb by (simp add: bv_extract_def)
qed

subsection \<open>The structure in memory\<close>

context expr_backend
begin

lemma comp_flag_byte:
  assumes "v \<in> L" "\<And>\<sigma>. sem \<sigma> v = BoolV (p \<sigma>)"
  shows "comp live sem L (rt_call1 (\<lambda>x. build_zext B x 7) (build_bool_to_bit B (Some v)))
    (\<lambda>\<sigma>. BVV (8 * 1) (be_val [of_bool (p \<sigma>)]))"
proof -
  have "comp live sem L (rt_return (Some v)) (\<lambda>\<sigma>. BoolV (p \<sigma>))"
    using assms by (rule comp_return)
  then have "comp live sem L (rt_call1 (\<lambda>x. build_zext B x 7) (build_bool_to_bit B (Some v)))
      (\<lambda>\<sigma>. BVV (1 + unat (7::u8)) (of_bool (p \<sigma>)))"
    by (intro comp_ext(2) comp_values(7) comp_bool_to_bit)
  then show ?thesis by simp
qed

lemma comp_overflow_result:
  assumes "r \<in> L" "v \<in> L" "\<And>\<sigma>. sem \<sigma> r = BVV (8 * k) (f \<sigma>)" "\<And>\<sigma>. sem \<sigma> v = BoolV (p \<sigma>)"
    and "8 * k < 2 ^ 32" "le \<Longrightarrow> even k"
  shows "comp live sem L (buildOverflowResult B (Some r) (Some v) le)
    (\<lambda>\<sigma>. BVV (16 * k) (be_val (overflow_struct le k (f \<sigma>) (p \<sigma>))))"
proof -
  have k: "0 < k" using sem_bounds(1) [OF assms(3)] by simp
  have mem: "comp live sem L (if le then sym_build_bswap B (Some r) else rt_return (Some r))
      (\<lambda>\<sigma>. BVV (8 * k) (be_val (mem_order le (mem_bytes k (f \<sigma>)))))"
    by (rule comp_mem_order [OF assms(1,3,5)]) (use assms(6) in auto)
  have bytes: "rt_bind (rt_assert msg (8 * k mod 8 = 0)) h = h ()" for msg and h :: "_ \<Rightarrow> ('b, 'e option) rt"
    by simp
  show ?thesis
    unfolding buildOverflowResult_def
  proof (rule comp_bits [OF assms(3)], unfold bytes, rule comp_bind [OF mem], rule comp_bind)
    fix m assume m: "\<And>\<sigma>. sem \<sigma> m = BVV (8 * k) (be_val (mem_order le (mem_bytes k (f \<sigma>))))"
    show "comp live sem (insert m L) (rt_call1 (\<lambda>x. build_zext B x 7) (build_bool_to_bit B (Some v)))
        (\<lambda>\<sigma>. BVV (8 * 1) (be_val [of_bool (p \<sigma>)]))"
      by (rule comp_flag_byte) (use assms in auto)
    fix b assume b: "\<And>\<sigma>. sem \<sigma> b = BVV (8 * 1) (be_val [of_bool (p \<sigma>)])"
    let ?L = "insert b (insert m L)"
    show "comp live sem ?L
      (if 8 * k = 8 then concat_helper B (Some m) (Some b)
       else rt_bind (sym_build_zero_bytes B (8 * k div 8 - 1)) (\<lambda>padding.
         rt_call2 (concat_helper B) (rt_return (Some m))
           (if le then concat_helper B (Some b) padding else concat_helper B padding (Some b))))
      (\<lambda>\<sigma>. BVV (16 * k) (be_val (overflow_struct le k (f \<sigma>) (p \<sigma>))))"
    proof (cases "k = 1")
      case True
      then show ?thesis
        using comp_concat_exprs [OF _ _ m b, of ?L] by (simp add: overflow_struct_def)
    next
      case False
      have z: "comp live sem ?L (sym_build_zero_bytes B (k - 1))
          (\<lambda>_. BVV (8 * (k - 1)) (be_val (replicate (k - 1) 0)))"
        using comp_zero_bytes [of "k - 1" ?L] k False by simp
      have "comp live sem ?L (rt_bind (sym_build_zero_bytes B (k - 1)) (\<lambda>padding.
          rt_call2 (concat_helper B) (rt_return (Some m))
            (if le then concat_helper B (Some b) padding else concat_helper B padding (Some b))))
          (\<lambda>\<sigma>. BVV (8 * (k + k)) (be_val (mem_order le (mem_bytes k (f \<sigma>)) @
             mem_order le (replicate (k - 1) 0 @ [of_bool (p \<sigma>)]))))"
      proof (rule comp_bind [OF z], rule comp_concat_bytes)
        fix e assume e: "\<And>\<sigma>. sem \<sigma> e = BVV (8 * (k - 1)) (be_val (replicate (k - 1) 0))"
        show "comp live sem (insert e ?L) (rt_return (Some m))
            (\<lambda>\<sigma>. BVV (8 * k) (be_val (mem_order le (mem_bytes k (f \<sigma>)))))"
          using m by (intro comp_return) auto
        have w: "k - 1 + 1 = k" "1 + (k - 1) = k" using k by simp_all
        show "comp live sem (insert e ?L)
            (if le then concat_helper B (Some b) (Some e) else concat_helper B (Some e) (Some b))
            (\<lambda>\<sigma>. BVV (8 * k) (be_val (mem_order le (replicate (k - 1) 0 @ [of_bool (p \<sigma>)]))))"
          using comp_concat_exprs [OF _ _ b e, of "insert e ?L"]
            comp_concat_exprs [OF _ _ e b, of "insert e ?L"]
          unfolding w by (simp add: mem_order_def)
      qed (use k in simp)
      then show ?thesis
        using False by (simp add: overflow_struct_def mult_2 [symmetric])
    qed
  qed
qed

lemma comp_test_bit:
  assumes "x \<in> L" "\<And>\<sigma>. sem \<sigma> x = BVV m (f \<sigma>)" "i < m" "m < 2 ^ 32"
  shows "comp live sem L (extract_helper B (Some x) i i) (\<lambda>\<sigma>. BVV 1 (bv_extract i i (f \<sigma>)))"
proof -
  have "comp live sem L (rt_return (Some x)) (\<lambda>\<sigma>. BVV m (f \<sigma>))"
    using assms(1,2) by (rule comp_return)
  from comp_ext(4) [OF this, of i i] show ?thesis
    using assms(3,4) by (intro comp_values(5)) simp
qed

text \<open>The flags that the three builders compute.\<close>

lemma comp_one_bit: "comp live sem L (build_integer B 1 1) (\<lambda>_. BVV 1 1)"
  using comp_integer [of 1 L 1] by simp

lemma comp_add_flag:
  assumes "a \<in> L" "b \<in> L" "\<And>\<sigma>. sem \<sigma> a = BVV n (f \<sigma>)" "\<And>\<sigma>. sem \<sigma> b = BVV n (g \<sigma>)" "n < 2 ^ 31"
  shows "comp live sem L (add_overflow_flag B (Some a) (Some b) is_signed n)
    (\<lambda>\<sigma>. BoolV (if is_signed then signed_overflow n (sval n (f \<sigma>) + sval n (g \<sigma>)) else 2 ^ n \<le> f \<sigma> + g \<sigma>))"
proof -
  note f = sem_bounds [OF assms(3)] and g = sem_bounds [OF assms(4)]
  have s: "take_bit (Suc n) (sval n (f \<sigma>) + sval n (g \<sigma>)) \<noteq>
      take_bit (Suc n) (sval n (take_bit n (f \<sigma> + g \<sigma>))) \<longleftrightarrow>
      signed_overflow n (sval n (f \<sigma>) + sval n (g \<sigma>))" for \<sigma>
    by (subst take_bit_sval_arith(1) [OF f(1), of "f \<sigma>"], rule signed_overflow_test)
      (use f(1) sval_add_range [OF f(1)] in simp_all)
  have c: "bv_extract n n (take_bit (Suc n) (f \<sigma> + g \<sigma>)) = of_bool (2 ^ n \<le> f \<sigma> + g \<sigma>)" for \<sigma>
    by (rule carry_bit) (rule f g)+
  show ?thesis
    unfolding add_overflow_flag_def
    apply (cases is_signed)
    subgoal
      apply (simp only: if_True)
      apply (rule comp_cong)
       apply ((rule assms comp_build | assumption | (simp add: assms(1,2); fail))+)[1]
      subgoal for \<sigma> using s [of \<sigma>] by (simp only: unsigned_1 Suc_eq_plus1 take_bit_add if_True)
      done
    subgoal
      apply (simp only: if_False)
      apply (rule comp_cong)
       apply ((rule assms comp_one_bit comp_test_bit comp_build | assumption |
          (use assms(1,2,5) f(1) in \<open>simp; fail\<close>))+)[1]
      subgoal for \<sigma> using c [of \<sigma>] by (simp)
      done
    done
qed

lemma comp_sub_flag:
  assumes "a \<in> L" "b \<in> L" "\<And>\<sigma>. sem \<sigma> a = BVV n (f \<sigma>)" "\<And>\<sigma>. sem \<sigma> b = BVV n (g \<sigma>)" "n < 2 ^ 31"
  shows "comp live sem L (sub_overflow_flag B (Some a) (Some b) is_signed n)
    (\<lambda>\<sigma>. BoolV (if is_signed then signed_overflow n (sval n (f \<sigma>) - sval n (g \<sigma>)) else f \<sigma> < g \<sigma>))"
proof -
  note f = sem_bounds [OF assms(3)] and g = sem_bounds [OF assms(4)]
  have s: "take_bit (Suc n) (sval n (f \<sigma>) - sval n (g \<sigma>)) \<noteq>
      take_bit (Suc n) (sval n (take_bit n (f \<sigma> - g \<sigma>))) \<longleftrightarrow>
      signed_overflow n (sval n (f \<sigma>) - sval n (g \<sigma>))" for \<sigma>
    by (subst take_bit_sval_arith(2) [OF f(1), of "f \<sigma>"], rule signed_overflow_test)
      (use f(1) sval_add_range [OF f(1)] in simp_all)
  have c: "bv_extract n n (take_bit (Suc n) (f \<sigma> - g \<sigma>)) = of_bool (f \<sigma> < g \<sigma>)" for \<sigma>
    by (rule borrow_bit) (rule f g)+
  show ?thesis
    unfolding sub_overflow_flag_def
    apply (cases is_signed)
    subgoal
      apply (simp only: if_True)
      apply (rule comp_cong)
       apply ((rule assms comp_build | assumption | (simp add: assms(1,2); fail))+)[1]
      subgoal for \<sigma> using s [of \<sigma>] by (simp only: unsigned_1 Suc_eq_plus1 take_bit_diff if_True)
      done
    subgoal
      apply (simp only: if_False)
      apply (rule comp_cong)
       apply ((rule assms comp_one_bit comp_test_bit comp_build | assumption |
          (use assms(1,2,5) f(1) in \<open>simp; fail\<close>))+)[1]
      subgoal for \<sigma> using c [of \<sigma>] by (simp)
      done
    done
qed

lemma comp_mul_flag:
  assumes "a \<in> L" "b \<in> L" "\<And>\<sigma>. sem \<sigma> a = BVV n (f \<sigma>)" "\<And>\<sigma>. sem \<sigma> b = BVV n (g \<sigma>)" "n < 256"
  shows "comp live sem L (mul_overflow_flag B (Some a) (Some b) is_signed n)
    (\<lambda>\<sigma>. BoolV (if is_signed then signed_overflow n (sval n (f \<sigma>) * sval n (g \<sigma>)) else 2 ^ (2 * n - 1) \<le> f \<sigma> * g \<sigma>))"
proof -
  note f = sem_bounds [OF assms(3)] and g = sem_bounds [OF assms(4)]
  have u8: "unat (of_nat n :: u8) = n" using assms(5) by (simp add: unat_of_nat_u8)
  have s: "take_bit (n + n) (sval n (f \<sigma>) * sval n (g \<sigma>)) \<noteq>
      take_bit (n + n) (sval n (take_bit n (f \<sigma> * g \<sigma>))) \<longleftrightarrow>
      signed_overflow n (sval n (f \<sigma>) * sval n (g \<sigma>))" for \<sigma>
    by (subst take_bit_sval_arith(3) [OF f(1), of "f \<sigma>"], rule signed_overflow_test)
      (use f(1) sval_mult_range [OF f(1)] in simp_all)
  have c: "bv_extract (2 * n - 1) (2 * n - 1) (take_bit (n + n) (f \<sigma> * g \<sigma>)) =
      of_bool (2 ^ (2 * n - 1) \<le> f \<sigma> * g \<sigma>)" for \<sigma>
    by (rule mul_top_bit) (rule f g)+
  show ?thesis
    unfolding mul_overflow_flag_def
    apply (cases is_signed)
    subgoal
      apply (simp only: if_True)
      apply (rule comp_cong)
       apply ((rule assms comp_build | assumption | (simp add: assms(1,2); fail))+)[1]
      subgoal for \<sigma> using s [of \<sigma>] by (simp only: u8 take_bit_mult if_True)
      done
    subgoal
      apply (simp only: if_False)
      apply (rule comp_cong)
       apply ((rule assms comp_one_bit comp_test_bit comp_build | assumption |
          (use assms(1,2,5) f(1) in \<open>simp add: u8; fail\<close>))+)[1]
      subgoal for \<sigma> using c [of \<sigma>] by (simp add: u8)
      done
    done
qed

subsection \<open>The builders\<close>

lemma comp_with_overflow:
  assumes "\<And>\<sigma>. sem \<sigma> a = BVV (8 * k) (f \<sigma>)" "comp live sem L (flag (8 * k)) (\<lambda>\<sigma>. BoolV (p \<sigma>))"
    and "\<And>L'. L \<subseteq> L' \<Longrightarrow> comp live sem L' m (\<lambda>\<sigma>. BVV (8 * k) (h \<sigma>))"
    and "8 * k < 2 ^ 32" "le \<Longrightarrow> even k"
  shows "comp live sem L
    (rt_bind (bits_helper B (Some a)) (\<lambda>bits. rt_bind (flag bits) (\<lambda>overflow.
       rt_bind m (\<lambda>r. buildOverflowResult B r overflow le))))
    (\<lambda>\<sigma>. BVV (16 * k) (be_val (overflow_struct le k (h \<sigma>) (p \<sigma>))))"
  apply (rule comp_bits [OF assms(1)], rule comp_bind [OF assms(2)], rule comp_bind [OF assms(3)])
  subgoal by blast
  subgoal by (rule comp_overflow_result) (use assms(4,5) in auto)
  done

lemma comp_arith:
  assumes "a \<in> L" "b \<in> L" "\<And>\<sigma>. sem \<sigma> a = BVV n (f \<sigma>)" "\<And>\<sigma>. sem \<sigma> b = BVV n (g \<sigma>)"
  shows "comp live sem L (build_binary B SAdd (Some a) (Some b)) (\<lambda>\<sigma>. BVV n (take_bit n (f \<sigma> + g \<sigma>)))"
    "comp live sem L (build_binary B SSub (Some a) (Some b)) (\<lambda>\<sigma>. BVV n (take_bit n (f \<sigma> - g \<sigma>)))"
    "comp live sem L (build_binary B SMul (Some a) (Some b)) (\<lambda>\<sigma>. BVV n (take_bit n (f \<sigma> * g \<sigma>)))"
  by (rule comp_values, rule comp_ops; rule comp_return; rule assms)+

lemma comp_add_overflow:
  assumes "a \<in> L" "b \<in> L" "\<And>\<sigma>. sem \<sigma> a = BVV (8 * k) (f \<sigma>)" "\<And>\<sigma>. sem \<sigma> b = BVV (8 * k) (g \<sigma>)"
    and "8 * k < 2 ^ 31" "le \<Longrightarrow> even k"
  shows "comp live sem L (sym_build_add_overflow B (Some a) (Some b) is_signed le)
    (\<lambda>\<sigma>. BVV (16 * k) (be_val (overflow_struct le k (take_bit (8 * k) (f \<sigma> + g \<sigma>))
       (if is_signed then signed_overflow (8 * k) (sval (8 * k) (f \<sigma>) + sval (8 * k) (g \<sigma>))
        else 2 ^ (8 * k) \<le> f \<sigma> + g \<sigma>))))"
  unfolding sym_build_add_overflow_def
  by (rule comp_with_overflow [OF assms(3)], rule comp_add_flag, (rule assms)+,
      rule comp_arith) (use assms in auto)

lemma comp_sub_overflow:
  assumes "a \<in> L" "b \<in> L" "\<And>\<sigma>. sem \<sigma> a = BVV (8 * k) (f \<sigma>)" "\<And>\<sigma>. sem \<sigma> b = BVV (8 * k) (g \<sigma>)"
    and "8 * k < 2 ^ 31" "le \<Longrightarrow> even k"
  shows "comp live sem L (sym_build_sub_overflow B (Some a) (Some b) is_signed le)
    (\<lambda>\<sigma>. BVV (16 * k) (be_val (overflow_struct le k (take_bit (8 * k) (f \<sigma> - g \<sigma>))
       (if is_signed then signed_overflow (8 * k) (sval (8 * k) (f \<sigma>) - sval (8 * k) (g \<sigma>))
        else f \<sigma> < g \<sigma>))))"
  unfolding sym_build_sub_overflow_def
  by (rule comp_with_overflow [OF assms(3)], rule comp_sub_flag, (rule assms)+,
      rule comp_arith) (use assms in auto)

lemma comp_mul_overflow:
  assumes "a \<in> L" "b \<in> L" "\<And>\<sigma>. sem \<sigma> a = BVV (8 * k) (f \<sigma>)" "\<And>\<sigma>. sem \<sigma> b = BVV (8 * k) (g \<sigma>)"
    and "8 * k < 256" "le \<Longrightarrow> even k"
  shows "comp live sem L (sym_build_mul_overflow B (Some a) (Some b) is_signed le)
    (\<lambda>\<sigma>. BVV (16 * k) (be_val (overflow_struct le k (take_bit (8 * k) (f \<sigma> * g \<sigma>))
       (if is_signed then signed_overflow (8 * k) (sval (8 * k) (f \<sigma>) * sval (8 * k) (g \<sigma>))
        else 2 ^ (2 * (8 * k) - 1) \<le> f \<sigma> * g \<sigma>))))"
  unfolding sym_build_mul_overflow_def
  by (rule comp_with_overflow [OF assms(3)], rule comp_mul_flag, (rule assms)+,
      rule comp_arith) (use assms in auto)

text \<open>
  On little-endian targets the result goes through \<open>_sym_build_bswap\<close>, whose assertion refuses an odd
  number of bytes, the case of \<open>i8\<close> included.
\<close>

lemma overflow_result_odd:
  assumes "\<And>\<sigma>. sem \<sigma> r = BVV (8 * k) (f \<sigma>)" "odd k"
  shows "buildOverflowResult B (Some r) v True s = Inl (Assertion_failed ''bswap is not applicable'')"
proof -
  have bits: "\<exists>s'. bits_helper B (Some r) s = Inr (8 * k, s') \<and> live s \<subseteq> live s'" for s
    by (rule law_bits) (use assms(1) in blast)
  obtain s1 where s1: "bits_helper B (Some r) s = Inr (8 * k, s1)" using bits by blast
  obtain s2 where s2: "bits_helper B (Some r) s1 = Inr (8 * k, s2)" using bits by blast
  have "8 * k mod 16 \<noteq> 0" using assms(2) by presburger
  then show ?thesis
    by (simp add: buildOverflowResult_def sym_build_bswap_def rt_bind_def s1 s2 rt_assert_def
        rt_return_def rt_raise_def)
qed

lemma add_overflow_odd:
  assumes "a \<in> live s" "b \<in> live s" "\<And>\<sigma>. sem \<sigma> a = BVV (8 * k) (f \<sigma>)"
    "\<And>\<sigma>. sem \<sigma> b = BVV (8 * k) (g \<sigma>)" "8 * k < 2 ^ 31" "odd k"
  shows "sym_build_add_overflow B (Some a) (Some b) is_signed True s =
    Inl (Assertion_failed ''bswap is not applicable'')"
proof -
  have "\<exists>s'. bits_helper B (Some a) s = Inr (8 * k, s') \<and> live s \<subseteq> live s'"
    by (rule law_bits) (use assms(3) in blast)
  then obtain s0 where bits: "bits_helper B (Some a) s = Inr (8 * k, s0)" "live s \<subseteq> live s0" by blast
  have "denotes live sem (add_overflow_flag B (Some a) (Some b) is_signed (8 * k)) s0
      (\<lambda>\<sigma>. BoolV (if is_signed then signed_overflow (8 * k) (sval (8 * k) (f \<sigma>) + sval (8 * k) (g \<sigma>))
        else 2 ^ (8 * k) \<le> f \<sigma> + g \<sigma>))"
    by (rule comp_denotes [OF comp_add_flag [of a "{a, b}" b]]) (use assms bits(2) in auto)
  then obtain v s1 where v: "add_overflow_flag B (Some a) (Some b) is_signed (8 * k) s0 = Inr (Some v, s1)"
    "live s0 \<subseteq> live s1" by (rule denotesE) blast
  have "denotes live sem (build_binary B SAdd (Some a) (Some b)) s1
      (\<lambda>\<sigma>. BVV (8 * k) (take_bit (8 * k) (f \<sigma> + g \<sigma>)))"
    by (rule comp_denotes [OF comp_arith(1) [of a "{a, b}" b]]) (use assms bits(2) v(2) in auto)
  then obtain r s2 where "build_binary B SAdd (Some a) (Some b) s1 = Inr (Some r, s2)"
    "\<And>\<sigma>. sem \<sigma> r = BVV (8 * k) (take_bit (8 * k) (f \<sigma> + g \<sigma>))" by (rule denotesE) blast
  with bits(1) v(1) overflow_result_odd [of r k _ "Some v" s2] assms(6) show ?thesis
    by (auto simp: sym_build_add_overflow_def rt_bind_def)
qed

end

end
