(* ===== verification/Runtime_Memory.thy ===== *)
theory Runtime_Memory
  imports Shadow Runtime_Overflow
begin

text \<open>
  The stateful half of \<open>runtime/src/RuntimeCommon.cpp\<close>: the registers in which expressions travel
  between functions, the symbolic counterparts of \<open>memcpy\<close>, \<open>memset\<close>, \<open>memmove\<close>, loads and stores, and
  the functions that mark memory as symbolic. The state is a record of the globals; the backend's
  own state is one of its fields. \<open>memory\<close> is the concrete memory of the program under test and
  \<open>expr_cells\<close> the memory cells that hold expressions (the regions the compiler registers).
\<close>

subsection \<open>State\<close>

record ('b, 'e) runtime =
  g_shadow_pages :: "'e shadow"
  memory :: "u64 \<Rightarrow> u8"
  expr_cells :: "u64 \<Rightarrow> 'e option"
  g_return_value :: "'e option"
  g_function_arguments :: "'e option list"
  expressionRegions :: "(u64 \<times> nat) list"
  memory_input :: bool
  inputOffset_plain :: u64
  inputOffset_type :: u64
  inputOffset_prefix :: u64
  backend_state :: 'b

definition kMaxFunctionArguments :: nat where
  "kMaxFunctionArguments = 256"

text \<open>A call into the backend.\<close>

definition on_backend :: "('b, 'a) rt \<Rightarrow> (('b, 'e) runtime, 'a) rt" where
  "on_backend m s = (case m (backend_state s) of
     Inl e \<Rightarrow> Inl e
   | Inr (x, b) \<Rightarrow> Inr (x, s\<lparr>backend_state := b\<rparr>))"

subsection \<open>Registers\<close>

definition sym_set_return_expression :: "'e option \<Rightarrow> (('b, 'e) runtime, unit) rt" where
  "sym_set_return_expression expr = rt_modify (\<lambda>s. s\<lparr>g_return_value := expr\<rparr>)"

definition sym_get_return_expression :: "(('b, 'e) runtime, 'e option) rt" where
  "sym_get_return_expression =
     rt_bind (rt_get g_return_value) (\<lambda>result.
     rt_bind (rt_modify (\<lambda>s. s\<lparr>g_return_value := None\<rparr>)) (\<lambda>_.
     rt_return result))"

definition sym_set_parameter_expression :: "u8 \<Rightarrow> 'e option \<Rightarrow> (('b, 'e) runtime, unit) rt" where
  "sym_set_parameter_expression index expr =
     rt_modify (\<lambda>s. s\<lparr>g_function_arguments := (g_function_arguments s)[unat index := expr]\<rparr>)"

definition sym_get_parameter_expression :: "u8 \<Rightarrow> (('b, 'e) runtime, 'e option) rt" where
  "sym_get_parameter_expression index = rt_get (\<lambda>s. g_function_arguments s ! unat index)"

subsection \<open>Copying and filling\<close>

text \<open>\<open>std::copy\<close> from a read-only to a writable view, and its backward variant.\<close>

definition copy_shadow :: "'e shadow \<Rightarrow> u64 \<Rightarrow> u64 \<Rightarrow> u64 \<Rightarrow> 'e shadow" where
  "copy_shadow sh dest src len =
     (let w = write_iter sh dest
      in shadow_copy (snd w) (read_iter sh src) (read_iter sh (src + len)) (fst w))"

definition copy_shadow_backward :: "'e shadow \<Rightarrow> u64 \<Rightarrow> u64 \<Rightarrow> u64 \<Rightarrow> 'e shadow" where
  "copy_shadow_backward sh dest src len =
     (let w = write_iter sh (dest + len)
      in shadow_copy_backward (snd w) (read_iter sh src) (read_iter sh (src + len)) (fst w))"

definition on_shadow :: "('e shadow \<Rightarrow> 'e shadow) \<Rightarrow> (('b, 'e) runtime, unit) rt" where
  "on_shadow f = rt_modify (\<lambda>s. s\<lparr>g_shadow_pages := f (g_shadow_pages s)\<rparr>)"

definition sym_memcpy :: "u64 \<Rightarrow> u64 \<Rightarrow> u64 \<Rightarrow> (('b, 'e) runtime, unit) rt" where
  "sym_memcpy dest src len =
     rt_bind (rt_get g_shadow_pages) (\<lambda>sh.
     if isConcrete sh src len \<and> isConcrete sh dest len then rt_return ()
     else on_shadow (\<lambda>sh. copy_shadow sh dest src len))"

definition sym_memset :: "u64 \<Rightarrow> 'e option \<Rightarrow> u64 \<Rightarrow> (('b, 'e) runtime, unit) rt" where
  "sym_memset addr value len =
     rt_bind (rt_get g_shadow_pages) (\<lambda>sh.
     if value = None \<and> isConcrete sh addr len then rt_return ()
     else on_shadow (\<lambda>sh. fill_shadow sh addr len value))"

definition sym_memmove :: "u64 \<Rightarrow> u64 \<Rightarrow> u64 \<Rightarrow> (('b, 'e) runtime, unit) rt" where
  "sym_memmove dest src len =
     rt_bind (rt_get g_shadow_pages) (\<lambda>sh.
     if isConcrete sh src len \<and> isConcrete sh dest len then rt_return ()
     else if dest > src then on_shadow (\<lambda>sh. copy_shadow_backward sh dest src len)
     else on_shadow (\<lambda>sh. copy_shadow sh dest src len))"

subsection \<open>Loads\<close>

text \<open>\<open>NonNullReadShadowIterator::operator*\<close>, with the assertion of the iterator it extends.\<close>

definition nonnull_deref :: "('b, 'e) backend \<Rightarrow> shadow_iter \<Rightarrow> (('b, 'e) runtime, 'e option) rt" where
  "nonnull_deref B it =
     rt_bind (rt_get (\<lambda>s. read_deref (g_shadow_pages s) it)) (\<lambda>symbolicResult.
     if symbolicResult \<noteq> None
     then rt_bind (on_backend (bits_helper B symbolicResult)) (\<lambda>bits.
          rt_bind (rt_assert ''Shadow memory always represents bytes'' (bits = 8)) (\<lambda>_.
          rt_return symbolicResult))
     else rt_bind (rt_get (\<lambda>s. memory s (it_address it))) (\<lambda>byte.
          on_backend (build_integer B (ucast byte) 8)))"

text \<open>The lambda that \<open>_sym_read_memory\<close> passes to \<open>std::accumulate\<close>.\<close>

definition join_bytes ::
    "('b, 'e) backend \<Rightarrow> bool \<Rightarrow> 'e option \<Rightarrow> 'e option \<Rightarrow> (('b, 'e) runtime, 'e option) rt" where
  "join_bytes B little_endian result byteExpr =
     (if result = None then rt_return byteExpr
      else if little_endian then on_backend (concat_helper B byteExpr result)
      else on_backend (concat_helper B result byteExpr))"

function read_loop ::
    "('b, 'e) backend \<Rightarrow> bool \<Rightarrow> shadow_iter \<Rightarrow> shadow_iter \<Rightarrow> 'e option \<Rightarrow>
     (('b, 'e) runtime, 'e option) rt" where
  "read_loop B little_endian it stop result =
     (if it_address it = it_address stop then rt_return result
      else
        rt_bind (nonnull_deref B it) (\<lambda>byteExpr.
        rt_bind (join_bytes B little_endian result byteExpr) (\<lambda>result'.
        rt_bind (rt_get g_shadow_pages) (\<lambda>sh.
        read_loop B little_endian (read_next sh it) stop result'))))"
  by pat_completeness auto
termination
  by (relation "measure (\<lambda>(B, le, it, stop, r). unat (it_address stop - it_address it))") auto

definition sym_read_memory ::
    "('b, 'e) backend \<Rightarrow> u64 \<Rightarrow> u64 \<Rightarrow> bool \<Rightarrow> (('b, 'e) runtime, 'e option) rt" where
  "sym_read_memory B addr len little_endian =
     rt_bind (rt_assert ''Invalid query for zero-length memory region'' (len \<noteq> 0)) (\<lambda>_.
     rt_bind (rt_get g_shadow_pages) (\<lambda>sh.
     if isConcrete sh addr len then rt_return None
     else read_loop B little_endian (read_iter sh addr) (read_iter sh (addr + len)) None))"

subsection \<open>Stores\<close>

text \<open>Assignment through a write iterator, then \<open>++it\<close>, as the loops over a writable view do.\<close>

definition store_and_advance ::
    "shadow_iter \<Rightarrow> 'e option \<Rightarrow> (('b, 'e) runtime, shadow_iter) rt" where
  "store_and_advance it v =
     rt_bind (rt_get g_shadow_pages) (\<lambda>sh.
     let nx = write_next (write_assign sh it v) it in
     rt_bind (rt_modify (\<lambda>s. s\<lparr>g_shadow_pages := snd nx\<rparr>)) (\<lambda>_. rt_return (fst nx)))"

text \<open>The iterators \<open>begin()\<close> and \<open>end()\<close> of a writable view; both create the page they point into.\<close>

definition view_iterators ::
    "u64 \<Rightarrow> u64 \<Rightarrow> (('b, 'e) runtime, shadow_iter \<times> shadow_iter) rt" where
  "view_iterators addr len =
     rt_bind (rt_get g_shadow_pages) (\<lambda>sh.
     let b = write_iter sh addr; e = write_iter (snd b) (addr + len) in
     rt_bind (rt_modify (\<lambda>s. s\<lparr>g_shadow_pages := snd e\<rparr>)) (\<lambda>_. rt_return (fst b, fst e)))"

text \<open>A loop over a writable view that stores what \<open>gen i\<close> returns into the \<open>i\<close>-th byte's shadow.\<close>

fun store_loop ::
    "(nat \<Rightarrow> (('b, 'e) runtime, 'e option) rt) \<Rightarrow> nat \<Rightarrow> nat \<Rightarrow> shadow_iter \<Rightarrow>
     (('b, 'e) runtime, unit) rt" where
  "store_loop gen i 0 it = rt_return ()"
| "store_loop gen i (Suc k) it =
     rt_bind (gen i) (\<lambda>v.
     rt_bind (store_and_advance it v) (\<lambda>it'.
     store_loop gen (Suc i) k it'))"

definition store_all ::
    "(nat \<Rightarrow> (('b, 'e) runtime, 'e option) rt) \<Rightarrow> u64 \<Rightarrow> u64 \<Rightarrow> (('b, 'e) runtime, unit) rt" where
  "store_all gen addr len =
     rt_bind (view_iterators addr len) (\<lambda>(b, e).
     store_loop gen 0 (unat (it_address e - it_address b)) b)"

definition sym_write_memory ::
    "('b, 'e) backend \<Rightarrow> u64 \<Rightarrow> u64 \<Rightarrow> 'e option \<Rightarrow> bool \<Rightarrow> (('b, 'e) runtime, unit) rt" where
  "sym_write_memory B addr len expr little_endian =
     rt_bind (rt_assert ''Invalid query for zero-length memory region'' (len \<noteq> 0)) (\<lambda>_.
     rt_bind (rt_get g_shadow_pages) (\<lambda>sh.
     if expr = None \<and> isConcrete sh addr len then rt_return ()
     else if expr = None then on_shadow (\<lambda>sh. fill_shadow sh addr len None)
     else store_all (\<lambda>i. on_backend
            (if little_endian then extract_helper B expr (size_sub (8 * (i + 1)) 1) (8 * i)
             else extract_helper B expr (size_sub ((unat len - i) * 8) 1) ((unat len - i - 1) * 8)))
          addr len))"

subsection \<open>Symbolic inputs\<close>

definition sym_make_symbolic ::
    "('b, 'e) backend \<Rightarrow> u64 \<Rightarrow> u64 \<Rightarrow> u64 \<Rightarrow> (('b, 'e) runtime, unit) rt" where
  "sym_make_symbolic B data byte_length input_offset =
     store_all (\<lambda>i. rt_bind (rt_get (\<lambda>s. memory s (data + of_nat i))) (\<lambda>byte.
       on_backend (get_input_byte B (input_offset + of_nat i) byte))) data byte_length"

definition sym_make_symbolic_with_type ::
    "('b, 'e) backend \<Rightarrow> u64 \<Rightarrow> u64 \<Rightarrow> u64 \<Rightarrow> string \<Rightarrow> string \<Rightarrow> (('b, 'e) runtime, unit) rt" where
  "sym_make_symbolic_with_type B data byte_length input_offset prefix type_name =
     rt_bind (store_all (\<lambda>i. rt_bind (rt_get (\<lambda>s. memory s (data + of_nat i))) (\<lambda>byte.
       on_backend (get_input_byte B (input_offset + of_nat i) byte))) data byte_length) (\<lambda>_.
     if type_name = ''int''
     then rt_bind (on_backend (get_integer B prefix)) (\<lambda>_. rt_return ())
     else rt_return ())"

definition sym_make_symbolic_with_prefix ::
    "('b, 'e) backend \<Rightarrow> u64 \<Rightarrow> u64 \<Rightarrow> u64 \<Rightarrow> string \<Rightarrow> (('b, 'e) runtime, unit) rt" where
  "sym_make_symbolic_with_prefix B data byte_length input_offset prefix =
     store_all (\<lambda>i. rt_bind (rt_get (\<lambda>s. memory s (data + of_nat i))) (\<lambda>byte.
       on_backend (get_input_byte_with_prefix B prefix (input_offset + of_nat i) byte)))
       data byte_length"

definition not_memory_input :: string where
  "not_memory_input =
     ''Calls to symcc_make_symbolic aren't allowed when SYMCC_MEMORY_INPUT isn't set''"

definition symcc_make_symbolic ::
    "('b, 'e) backend \<Rightarrow> u64 \<Rightarrow> u64 \<Rightarrow> (('b, 'e) runtime, unit) rt" where
  "symcc_make_symbolic B start byte_length =
     rt_bind (rt_get id) (\<lambda>s.
     if \<not> memory_input s then rt_raise (Runtime_error not_memory_input)
     else rt_bind (sym_make_symbolic B start byte_length (inputOffset_plain s)) (\<lambda>_.
          rt_modify (\<lambda>s. s\<lparr>inputOffset_plain := inputOffset_plain s + byte_length\<rparr>)))"

definition symcc_make_symbolic_with_type ::
    "('b, 'e) backend \<Rightarrow> u64 \<Rightarrow> u64 \<Rightarrow> string \<Rightarrow> string \<Rightarrow> (('b, 'e) runtime, unit) rt" where
  "symcc_make_symbolic_with_type B start byte_length prefix type_name =
     rt_bind (rt_get id) (\<lambda>s.
     if \<not> memory_input s then rt_raise (Runtime_error not_memory_input)
     else rt_bind (sym_make_symbolic_with_type B start byte_length (inputOffset_type s) prefix type_name) (\<lambda>_.
          rt_modify (\<lambda>s. s\<lparr>inputOffset_type := inputOffset_type s + byte_length\<rparr>)))"

definition symcc_make_symbolic_with_prefix ::
    "('b, 'e) backend \<Rightarrow> u64 \<Rightarrow> u64 \<Rightarrow> string \<Rightarrow> (('b, 'e) runtime, unit) rt" where
  "symcc_make_symbolic_with_prefix B start byte_length prefix =
     rt_bind (rt_get id) (\<lambda>s.
     if \<not> memory_input s then rt_raise (Runtime_error not_memory_input)
     else rt_bind (sym_make_symbolic_with_prefix B start byte_length (inputOffset_prefix s) prefix) (\<lambda>_.
          rt_modify (\<lambda>s. s\<lparr>inputOffset_prefix := inputOffset_prefix s + byte_length\<rparr>)))"

subsection \<open>Garbage collection\<close>

text \<open>\<open>runtime/src/GarbageCollection.cpp\<close>: where the program may still hold expressions.\<close>

definition registerExpressionRegion :: "u64 \<times> nat \<Rightarrow> (('b, 'e) runtime, unit) rt" where
  "registerExpressionRegion r = rt_modify (\<lambda>s. s\<lparr>expressionRegions := expressionRegions s @ [r]\<rparr>)"

definition sym_register_expression_region :: "u64 \<Rightarrow> nat \<Rightarrow> (('b, 'e) runtime, unit) rt" where
  "sym_register_expression_region start len = registerExpressionRegion (start, len)"

definition region_expressions :: "('b, 'e) runtime \<Rightarrow> u64 \<times> nat \<Rightarrow> 'e set" where
  "region_expressions s r =
     (\<Union>i \<in> set [0..<snd r]. set_option (expr_cells s (fst r + 8 * of_nat i)))"

definition page_expressions :: "'e page \<Rightarrow> 'e set" where
  "page_expressions pg = (\<Union>i \<in> set [0..<4096]. set_option (pg (int i)))"

definition collectReachableExpressions :: "('b, 'e) runtime \<Rightarrow> 'e set" where
  "collectReachableExpressions s =
     (\<Union>r \<in> set (expressionRegions s). region_expressions s r) \<union>
     (\<Union>pg \<in> ran (g_shadow_pages s). page_expressions pg)"

end
