(* ===== verification/Store_Loops.thy ===== *)
theory Store_Loops
  imports Memory_Laws
begin

text \<open>
  The loops that write one expression per byte of a region (\<open>_sym_write_memory\<close>, \<open>_sym_make_symbolic\<close>,
  \<open>std::generate\<close> in the wrapper of \<open>mmap\<close>), for any generator of the bytes' expressions: an invariant
  \<open>I\<close> of the backend's state that advances with every byte, a preorder \<open>R\<close> between its states, and what
  is known of byte \<open>i\<close>'s expression, \<open>P i\<close>, as long as the backend moves along \<open>R\<close>.
\<close>

lemma shadow_backend_swap:
  "(s::('b, 'e) runtime)\<lparr>backend_state := b, g_shadow_pages := sh\<rparr> = s\<lparr>g_shadow_pages := sh, backend_state := b\<rparr>"
  by (cases s) simp

definition generates ::
    "(nat \<Rightarrow> (('b, 'e) runtime, 'e option) rt) \<Rightarrow> (nat \<Rightarrow> 'b \<Rightarrow> bool) \<Rightarrow> ('b \<Rightarrow> 'b \<Rightarrow> bool) \<Rightarrow>
     (nat \<Rightarrow> 'e option \<Rightarrow> 'b \<Rightarrow> bool) \<Rightarrow> nat \<Rightarrow> (u64 \<Rightarrow> u8) \<Rightarrow> bool" where
  "generates gen I R P n m \<longleftrightarrow> reflp R \<and> transp R \<and>
     (\<forall>i < n. \<forall>s. memory s = m \<longrightarrow> I i (backend_state s) \<longrightarrow> rt_ok (gen i) s (\<lambda>x s'.
        \<exists>b. s' = s\<lparr>backend_state := b\<rparr> \<and> R (backend_state s) b \<and> I (Suc i) b \<and> P i x b)) \<and>
     (\<forall>i < n. \<forall>x b b'. P i x b \<longrightarrow> R b b' \<longrightarrow> P i x b')"

lemma generatesE:
  assumes "generates gen I R P n m" "i < n" "memory s = m" "I i (backend_state s)"
  obtains x b where "gen i s = Inr (x, s\<lparr>backend_state := b\<rparr>)" "R (backend_state s) b" "I (Suc i) b" "P i x b"
proof -
  have "rt_ok (gen i) s (\<lambda>x s'. \<exists>b. s' = s\<lparr>backend_state := b\<rparr> \<and> R (backend_state s) b \<and> I (Suc i) b \<and> P i x b)"
    using assms unfolding generates_def by blast
  then show thesis using that unfolding rt_ok_def by blast
qed

lemma generates_stable: "generates gen I R P n m \<Longrightarrow> i < n \<Longrightarrow> P i x b \<Longrightarrow> R b b' \<Longrightarrow> P i x b'"
  unfolding generates_def by blast

lemma generates_order:
  assumes "generates gen I R P n m"
  shows "R b b" "R b1 b2 \<Longrightarrow> R b2 b3 \<Longrightarrow> R b1 b3"
  using assms unfolding generates_def by (blast dest: reflpD transpD)+

text \<open>The addresses that remain after the first byte of a region of \<open>k + 1\<close> bytes.\<close>

lemma rest_of_region:
  assumes "Suc k < 2 ^ 64" "x = a \<or> \<not> x - a < of_nat (Suc k)"
  shows "\<not> x - (a + 1 :: u64) < of_nat k"
proof (cases "x = a")
  case True
  then have "x - (a + 1) = - 1" by simp
  then show ?thesis
    using assms(1) by (simp only: less_of_nat_u64 [OF Suc_lessD [OF assms(1)]])
      (simp add: unsigned_minus_1_eq_mask mask_eq_exp_minus_1)
next
  case False
  with assms(2) have "\<not> x - a < a + of_nat (Suc k) - a" by simp
  then show ?thesis
    using range_step_fwd [of a "a + of_nat (Suc k)" x] False of_nat_Suc_u64 [OF assms(1)]
    by (simp add: algebra_simps)
qed

lemma first_of_region: "Suc k < 2 ^ 64 \<Longrightarrow> (0::u64) < of_nat (Suc k)"
  by (simp only: less_of_nat_u64) simp

lemma store_loop_generates:
  assumes "generates gen I R P (i + k) (memory s)" "I i (backend_state s)"
    and "iter_ok (g_shadow_pages s) it" "k < 2 ^ 64"
  shows "\<exists>sh b. store_loop gen i k it s = Inr ((), s\<lparr>g_shadow_pages := sh, backend_state := b\<rparr>) \<and>
    R (backend_state s) b \<and> I (i + k) b \<and>
    (\<forall>j < k. P (i + j) (shadow_at sh (it_address it + of_nat j)) b) \<and>
    (\<forall>a. \<not> a - it_address it < of_nat k \<longrightarrow> shadow_at sh a = shadow_at (g_shadow_pages s) a)"
  using assms
proof (induction k arbitrary: i it s)
  case 0
  show ?case
    by (rule exI [of _ "g_shadow_pages s"], rule exI [of _ "backend_state s"])
      (use 0 generates_order(1) in \<open>fastforce simp: rt_return_def\<close>)
next
  case (Suc k)
  note gen = Suc.prems(1) and k = Suc.prems(4)
  let ?a = "it_address it"
  obtain x b1 where x: "gen i s = Inr (x, s\<lparr>backend_state := b1\<rparr>)" "R (backend_state s) b1" "I (Suc i) b1" "P i x b1"
    by (rule generatesE [OF gen _ refl Suc.prems(2)]) auto
  let ?nx = "write_next (write_assign (g_shadow_pages s) it x) it"
  note st = write_step_ok [OF Suc.prems(3), of x]
  let ?s1 = "s\<lparr>g_shadow_pages := snd ?nx, backend_state := b1\<rparr>"
  have run: "store_loop gen i (Suc k) it s = store_loop gen (Suc i) k (fst ?nx) ?s1"
    using x(1) by (simp add: shadow_backend_swap store_and_advance_def rt_bind_def rt_get_def rt_modify_def rt_return_def Let_def)
  obtain sh b where IH: "store_loop gen (Suc i) k (fst ?nx) ?s1 = Inr ((), ?s1\<lparr>g_shadow_pages := sh, backend_state := b\<rparr>)"
    "R b1 b" "I (Suc i + k) b" "\<forall>j < k. P (Suc i + j) (shadow_at sh (?a + 1 + of_nat j)) b"
    "\<forall>a. \<not> a - (?a + 1) < of_nat k \<longrightarrow> shadow_at sh a = shadow_at (snd ?nx) a"
    using Suc.IH [of "Suc i" ?s1 "fst ?nx"] gen k x(3) st(1,2) that by auto
  have bytes: "P (i + j) (shadow_at sh (?a + of_nat j)) b" if j: "j < Suc k" for j
  proof (cases j)
    case 0
    have "shadow_at sh ?a = x" using IH(5) rest_of_region [OF k, of ?a ?a] st(3) [of ?a] by simp
    then show ?thesis using 0 generates_stable [OF gen _ x(4) IH(2)] by simp
  next
    case (Suc j')
    then show ?thesis using IH(4) [rule_format, of j'] j by (simp add: ac_simps)
  qed
  have frame: "shadow_at sh c = shadow_at (g_shadow_pages s) c" if c: "\<not> c - ?a < of_nat (Suc k)" for c
  proof -
    have "c \<noteq> ?a" using c first_of_region [OF k] by auto
    then show ?thesis using IH(5) rest_of_region [OF k, of c ?a] c st(3) [of c] by simp
  qed
  show ?case
    using IH(1,3) generates_order(2) [OF gen x(2) IH(2)] bytes frame
    by (intro exI [of _ sh] exI [of _ b]) (auto simp: run simp del: store_loop.simps)
qed

lemma store_all_generates:
  assumes "generates gen I R P (unat len) (memory s)" "I 0 (backend_state s)"
  obtains sh b where "store_all gen addr len s = Inr ((), s\<lparr>g_shadow_pages := sh, backend_state := b\<rparr>)"
    "R (backend_state s) b" "I (unat len) b"
    "\<And>j. j < unat len \<Longrightarrow> P j (shadow_at sh (addr + of_nat j)) b"
    "\<And>a. \<not> a - addr < len \<Longrightarrow> shadow_at sh a = shadow_at (g_shadow_pages s) a"
proof -
  let ?b = "write_iter (g_shadow_pages s) addr"
  let ?e = "write_iter (snd ?b) (addr + len)"
  let ?s = "s\<lparr>g_shadow_pages := snd ?e\<rparr>"
  have ok: "iter_ok (snd ?e) (fst ?b)"
    using write_iter_ok(1) [of "g_shadow_pages s" addr] write_iter_ok(3) [of "snd ?b" "addr + len"]
    by (auto simp: iter_ok_def dom_def)
  have lt: "unat len < 2 ^ 64" using unsigned_less [of len] by simp
  have "store_all gen addr len s = store_loop gen 0 (unat len) (fst ?b) ?s"
    by (simp add: store_all_def view_iterators_def rt_bind_def rt_get_def rt_modify_def rt_return_def Let_def)
  moreover obtain sh b where "store_loop gen 0 (unat len) (fst ?b) ?s = Inr ((), ?s\<lparr>g_shadow_pages := sh, backend_state := b\<rparr>)"
    "R (backend_state ?s) b" "I (0 + unat len) b"
    "\<And>j. j < unat len \<Longrightarrow> P (0 + j) (shadow_at sh (it_address (fst ?b) + of_nat j)) b"
    "\<And>a. \<not> a - it_address (fst ?b) < of_nat (unat len) \<Longrightarrow> shadow_at sh a = shadow_at (g_shadow_pages ?s) a"
    using store_loop_generates [of gen I R P 0 "unat len" ?s "fst ?b"] assms ok lt that by auto
  ultimately show thesis
    using that [of b sh] by (simp add: write_iter_ok(2))
qed

end
