(* ===== verification/Memory_Access.thy ===== *)
theory Memory_Access
  imports Store_Loops
begin

text \<open>
  Loads and stores: \<open>_sym_read_memory\<close> denotes the bytes of the region, symbolic or concrete, joined in
  memory order; \<open>_sym_write_memory\<close> leaves one byte expression per byte; reading back what was written
  gives the written value. All lemmas are proved from the backend contract.
\<close>

subsection \<open>Operations that only touch the backend\<close>

lemma rt_ok_on_backend [rt_simps]:
  "rt_ok (on_backend m) s Q \<longleftrightarrow> rt_ok m (backend_state s) (\<lambda>x b. Q x (s\<lparr>backend_state := b\<rparr>))"
  by (auto simp: rt_ok_def on_backend_def split: sum.splits)

definition mem_denotes ::
    "('b \<Rightarrow> 'e set) \<Rightarrow> ('m \<Rightarrow> 'e \<Rightarrow> smt_value) \<Rightarrow> (('b, 'e) runtime, 'e option) rt \<Rightarrow>
     ('b, 'e) runtime \<Rightarrow> ('m \<Rightarrow> smt_value) \<Rightarrow> bool" where
  "mem_denotes live sem m s F \<longleftrightarrow>
     rt_ok m s (\<lambda>x s'. \<exists>e b. x = Some e \<and> s' = s\<lparr>backend_state := b\<rparr> \<and> e \<in> live b \<and>
       live (backend_state s) \<subseteq> live b \<and> (\<forall>\<sigma>. sem \<sigma> e = F \<sigma>))"

lemma mem_denotesE:
  assumes "mem_denotes live sem m s F"
  obtains e b where "m s = Inr (Some e, s\<lparr>backend_state := b\<rparr>)" "e \<in> live b"
    "live (backend_state s) \<subseteq> live b" "\<And>\<sigma>. sem \<sigma> e = F \<sigma>"
  using assms by (auto simp: mem_denotes_def rt_ok_def)

lemma mem_denotesI:
  assumes "m s = Inr (Some e, s\<lparr>backend_state := b\<rparr>)" "e \<in> live b"
    "live (backend_state s) \<subseteq> live b" "\<And>\<sigma>. sem \<sigma> e = F \<sigma>"
  shows "mem_denotes live sem m s F"
  unfolding mem_denotes_def rt_ok_def using assms by blast

lemma mem_denotes_on_backend:
  "denotes live sem m (backend_state s) F \<Longrightarrow> mem_denotes live sem (on_backend m) s F"
  unfolding mem_denotes_def rt_simps denotes_def by (erule rt_ok_mono) blast

subsection \<open>Bytes of memory\<close>

text \<open>The value of a byte under an assignment: its shadow expression's, or the concrete one.\<close>

definition byte_value ::
    "('m \<Rightarrow> 'e \<Rightarrow> smt_value) \<Rightarrow> ('b, 'e) runtime \<Rightarrow> u64 \<Rightarrow> 'm \<Rightarrow> int" where
  "byte_value sem s a \<sigma> =
     (case shadow_at (g_shadow_pages s) a of
        Some e \<Rightarrow> (case sem \<sigma> e of BVV n i \<Rightarrow> i | _ \<Rightarrow> 0)
      | None \<Rightarrow> uint (memory s a))"

definition byte_ok ::
    "('b \<Rightarrow> 'e set) \<Rightarrow> ('m \<Rightarrow> 'e \<Rightarrow> smt_value) \<Rightarrow> ('b, 'e) runtime \<Rightarrow> u64 \<Rightarrow> bool" where
  "byte_ok live sem s a \<longleftrightarrow>
     (\<forall>e. shadow_at (g_shadow_pages s) a = Some e \<longrightarrow>
        e \<in> live (backend_state s) \<and> (\<forall>\<sigma>. \<exists>i. sem \<sigma> e = BVV 8 i))"

definition region_bytes ::
    "('m \<Rightarrow> 'e \<Rightarrow> smt_value) \<Rightarrow> ('b, 'e) runtime \<Rightarrow> u64 \<Rightarrow> nat \<Rightarrow> 'm \<Rightarrow> int list" where
  "region_bytes sem s addr n \<sigma> = map (\<lambda>j. byte_value sem s (addr + of_nat j) \<sigma>) [0..<n]"

lemma length_region_bytes [simp]: "length (region_bytes sem s addr n \<sigma>) = n"
  by (simp add: region_bytes_def)

lemma region_bytes_Suc:
  "region_bytes sem s addr (Suc n) \<sigma> =
     byte_value sem s addr \<sigma> # region_bytes sem s (addr + 1) n \<sigma>"
  unfolding region_bytes_def by (subst upt_conv_Cons)
    (simp_all add: map_Suc_upt [symmetric] algebra_simps del: upt_Suc)

lemma byte_value_backend [simp]:
  "byte_value sem (s\<lparr>backend_state := b\<rparr>) = byte_value sem s"
  "region_bytes sem (s\<lparr>backend_state := b\<rparr>) = region_bytes sem s"
  by (auto simp: byte_value_def region_bytes_def fun_eq_iff split: option.splits)

lemma byte_ok_backend:
  "byte_ok live sem s a \<Longrightarrow> live (backend_state s) \<subseteq> live b \<Longrightarrow> byte_ok live sem (s\<lparr>backend_state := b\<rparr>) a"
  by (auto simp: byte_ok_def)

subsection \<open>Loads\<close>

declare read_loop.simps [simp del]

context expr_backend
begin

lemma nonnull_deref_denotes:
  assumes "iter_view (g_shadow_pages s) (g_shadow_pages s) it" "byte_ok live sem s (it_address it)"
  shows "mem_denotes live sem (nonnull_deref B it) s (\<lambda>\<sigma>. BVV 8 (byte_value sem s (it_address it) \<sigma>))"
proof (cases "shadow_at (g_shadow_pages s) (it_address it)")
  case None
  then have d: "read_deref (g_shadow_pages s) it = None"
    using read_deref_view [OF assms(1)] by simp
  have "uint (memory s (it_address it)) < 2 ^ 8" using uint_lt2p [of "memory s (it_address it)"] by simp
  then have v: "take_bit 8 (uint (ucast (memory s (it_address it)) :: u64)) = uint (memory s (it_address it))"
    by (simp add: unsigned_ucast_eq take_bit_int_eq_self)
  have "denotes live sem (build_integer B (ucast (memory s (it_address it))) 8) (backend_state s)
      (\<lambda>_. BVV 8 (uint (memory s (it_address it))))"
    using law_integer [of 8 "ucast (memory s (it_address it))" "backend_state s"] v by simp
  then show ?thesis
    using mem_denotes_on_backend [of live sem _ s] d None
    by (simp add: mem_denotes_def nonnull_deref_def rt_simps byte_value_def)
next
  case (Some e)
  then have d: "read_deref (g_shadow_pages s) it = Some e"
    using read_deref_view [OF assms(1)] by simp
  have e: "e \<in> live (backend_state s)" "\<And>\<sigma>. \<exists>i. sem \<sigma> e = BVV 8 i"
    using assms(2) Some by (auto simp: byte_ok_def)
  obtain b where b: "bits_helper B (Some e) (backend_state s) = Inr (8, b)" "live (backend_state s) \<subseteq> live b"
    using law_bits [OF e(2), of "backend_state s"] by blast
  have "nonnull_deref B it s = Inr (Some e, s\<lparr>backend_state := b\<rparr>)"
    using d b(1) by (simp add: nonnull_deref_def rt_bind_def rt_get_def on_backend_def rt_assert_def rt_return_def)
  moreover have "sem \<sigma> e = BVV 8 (byte_value sem s (it_address it) \<sigma>)" for \<sigma>
    using e(2) [of \<sigma>] Some by (auto simp: byte_value_def)
  ultimately show ?thesis using e(1) b(2) by (intro mem_denotesI) auto
qed

text \<open>One step of the accumulation.\<close>

lemma join_bytes_denotes:
  assumes "x \<in> live (backend_state s)" "\<And>\<sigma>. sem \<sigma> x = BVV 8 (v \<sigma>)"
    and "r = None \<Longrightarrow> i = 0"
    and "\<And>e. r = Some e \<Longrightarrow> e \<in> live (backend_state s) \<and>
      (\<forall>\<sigma>. sem \<sigma> e = BVV (8 * i) (be_val (mem_order le (bs \<sigma>))))"
    and "\<And>\<sigma>. length (bs \<sigma>) = i"
  shows "mem_denotes live sem (join_bytes B le r (Some x)) s
    (\<lambda>\<sigma>. BVV (8 * Suc i) (be_val (mem_order le (bs \<sigma> @ [v \<sigma>]))))"
proof (cases r)
  case None
  then have "bs \<sigma> = []" for \<sigma> using assms(3,5) by simp
  moreover have "8 * Suc i = 8" using None assms(3) by simp
  ultimately show ?thesis
    using None assms(1,2)
    by (intro mem_denotesI [where b = "backend_state s"]) (auto simp: join_bytes_def rt_return_def)
next
  case (Some e)
  then have e: "e \<in> live (backend_state s)" "\<And>\<sigma>. sem \<sigma> e = BVV (8 * i) (be_val (mem_order le (bs \<sigma>)))"
    using assms(4) by auto
  have len: "length (mem_order le (bs \<sigma>)) = i" for \<sigma> using assms(5) by simp
  have x: "sem \<sigma> x = BVV (8 * 1) (be_val [v \<sigma>])" for \<sigma> using assms(2) by simp
  have "comp live sem {x, e} (if le then concat_helper B (Some x) (Some e) else concat_helper B (Some e) (Some x))
      (\<lambda>\<sigma>. BVV (8 * Suc i) (be_val (mem_order le (bs \<sigma> @ [v \<sigma>]))))"
    using comp_concat_exprs [OF _ _ x e(2) len, of "{x, e}"] comp_concat_exprs [OF _ _ e(2) x, of "{x, e}"]
    by (cases le) (simp_all add: mem_order_def)
  then have "denotes live sem (if le then concat_helper B (Some x) (Some e) else concat_helper B (Some e) (Some x))
      (backend_state s) (\<lambda>\<sigma>. BVV (8 * Suc i) (be_val (mem_order le (bs \<sigma> @ [v \<sigma>]))))"
    using assms(1) e(1) by (auto simp: comp_def)
  then have "mem_denotes live sem
      (on_backend (if le then concat_helper B (Some x) (Some e) else concat_helper B (Some e) (Some x))) s
      (\<lambda>\<sigma>. BVV (8 * Suc i) (be_val (mem_order le (bs \<sigma> @ [v \<sigma>]))))"
    by (rule mem_denotes_on_backend)
  then show ?thesis using Some by (auto simp: join_bytes_def if_distrib [of on_backend] cong: if_cong)
qed

lemma read_loop_denotes:
  assumes "iter_view (g_shadow_pages s) (g_shadow_pages s) it"
    and "it_address stop = it_address it + of_nat k" "k < 2 ^ 64"
    and "\<And>j. j < k \<Longrightarrow> byte_ok live sem s (it_address it + of_nat j)"
    and "r = None \<Longrightarrow> i = 0 \<and> 0 < k"
    and "\<And>e. r = Some e \<Longrightarrow> e \<in> live (backend_state s) \<and>
      (\<forall>\<sigma>. sem \<sigma> e = BVV (8 * i) (be_val (mem_order le (bs \<sigma>))))"
    and "\<And>\<sigma>. length (bs \<sigma>) = i"
  shows "mem_denotes live sem (read_loop B le it stop r) s
    (\<lambda>\<sigma>. BVV (8 * (i + k)) (be_val (mem_order le (bs \<sigma> @ region_bytes sem s (it_address it) k \<sigma>))))"
  using assms
proof (induction k arbitrary: it r i bs s)
  case 0
  then obtain e where "r = Some e" by (cases r) auto
  with 0 show ?case
    by (intro mem_denotesI [where b = "backend_state s"])
      (auto simp: read_loop.simps [of _ _ it] rt_return_def region_bytes_def)
next
  case (Suc k)
  let ?a = "it_address it" and ?sh = "g_shadow_pages s"
  have ne: "?a \<noteq> it_address stop"
  proof
    assume "?a = it_address stop"
    then have "(of_nat (Suc k) :: u64) = 0" using Suc.prems(2) by (metis add_cancel_right_right)
    then show False using of_nat_Suc_u64 [OF Suc.prems(3)] by blast
  qed
  have b0: "byte_ok live sem s ?a" using Suc.prems(4) [of 0] by simp
  obtain x b1 where x: "nonnull_deref B it s = Inr (Some x, s\<lparr>backend_state := b1\<rparr>)" "x \<in> live b1"
    "live (backend_state s) \<subseteq> live b1" "\<And>\<sigma>. sem \<sigma> x = BVV 8 (byte_value sem s ?a \<sigma>)"
    using mem_denotesE [OF nonnull_deref_denotes [OF Suc.prems(1) b0]] by blast
  let ?s1 = "s\<lparr>backend_state := b1\<rparr>"
  have "mem_denotes live sem (join_bytes B le r (Some x)) ?s1
      (\<lambda>\<sigma>. BVV (8 * Suc i) (be_val (mem_order le (bs \<sigma> @ [byte_value sem s ?a \<sigma>]))))"
    by (rule join_bytes_denotes) (use x Suc.prems(5-7) in auto)
  then obtain y b2 where y: "join_bytes B le r (Some x) ?s1 = Inr (Some y, s\<lparr>backend_state := b2\<rparr>)"
    "y \<in> live b2" "live b1 \<subseteq> live b2"
    "\<And>\<sigma>. sem \<sigma> y = BVV (8 * Suc i) (be_val (mem_order le (bs \<sigma> @ [byte_value sem s ?a \<sigma>])))"
    by (rule mem_denotesE) auto
  let ?s2 = "s\<lparr>backend_state := b2\<rparr>"
  have unfold: "read_loop B le it stop r s = read_loop B le (read_next ?sh it) stop (Some y) ?s2"
    using ne x(1) y(1) by (simp add: read_loop.simps [of _ _ it] rt_bind_def rt_get_def)
  have "mem_denotes live sem (read_loop B le (read_next ?sh it) stop (Some y)) ?s2
      (\<lambda>\<sigma>. BVV (8 * (Suc i + k)) (be_val (mem_order le ((bs \<sigma> @ [byte_value sem s ?a \<sigma>]) @
         region_bytes sem ?s2 (it_address (read_next ?sh it)) k \<sigma>))))"
  proof (rule Suc.IH)
    show "iter_view (g_shadow_pages ?s2) (g_shadow_pages ?s2) (read_next ?sh it)"
      using read_next_view [OF Suc.prems(1)] by simp
    show "byte_ok live sem ?s2 (it_address (read_next ?sh it) + of_nat j)" if "j < k" for j
      using Suc.prems(4) [of "Suc j"] that x(3) y(3) byte_ok_backend [of live sem s _ b2]
      by (simp add: algebra_simps)
  qed (use Suc.prems(2,3,7) y in \<open>simp_all add: algebra_simps\<close>)
  then have "mem_denotes live sem (read_loop B le (read_next ?sh it) stop (Some y)) ?s2
      (\<lambda>\<sigma>. BVV (8 * (i + Suc k)) (be_val (mem_order le (bs \<sigma> @ region_bytes sem s ?a (Suc k) \<sigma>))))"
    by (simp add: region_bytes_Suc)
  then obtain e b where "read_loop B le (read_next ?sh it) stop (Some y) ?s2 = Inr (Some e, s\<lparr>backend_state := b\<rparr>)"
    "e \<in> live b" "live b2 \<subseteq> live b"
    "\<And>\<sigma>. sem \<sigma> e = BVV (8 * (i + Suc k)) (be_val (mem_order le (bs \<sigma> @ region_bytes sem s ?a (Suc k) \<sigma>)))"
    by (rule mem_denotesE) auto
  then show ?case
    using x(3) y(3) unfold by (intro mem_denotesI [where b = b and e = e]) auto
qed

lemma read_memory_denotes:
  assumes "len \<noteq> 0" "\<not> isConcrete (g_shadow_pages s) addr len"
    and "\<And>b. b - addr < len \<Longrightarrow> byte_ok live sem s b"
  shows "mem_denotes live sem (sym_read_memory B addr len le) s
    (\<lambda>\<sigma>. BVV (8 * unat len) (be_val (mem_order le (region_bytes sem s addr (unat len) \<sigma>))))"
proof -
  let ?sh = "g_shadow_pages s"
  have lt: "unat len < 2 ^ 64" using unsigned_less [of len] by simp
  have "mem_denotes live sem (read_loop B le (read_iter ?sh addr) (read_iter ?sh (addr + len)) None) s
      (\<lambda>\<sigma>. BVV (8 * (0 + unat len))
        (be_val (mem_order le ((\<lambda>_. []) \<sigma> @ region_bytes sem s (it_address (read_iter ?sh addr)) (unat len) \<sigma>))))"
  proof (rule read_loop_denotes)
    show "iter_view ?sh ?sh (read_iter ?sh addr)" by (simp add: read_iter_view)
    show "byte_ok live sem s (it_address (read_iter ?sh addr) + of_nat j)" if "j < unat len" for j
    proof -
      have "(of_nat j :: u64) < len" using that lt by (simp add: word_less_nat_alt unat_of_nat)
      then show ?thesis using assms(3) [of "addr + of_nat j"] by simp
    qed
    show "0 = (0::nat) \<and> 0 < unat len" using assms(1) by (simp add: unat_gt_0)
  qed (use lt in simp_all)
  then show ?thesis
    using assms(1,2) by (simp add: mem_denotes_def sym_read_memory_def rt_simps)
qed

subsection \<open>Stores\<close>

text \<open>
  \<open>gen_ok gen P s\<close>: from \<open>s\<close>, and from every later state of the backend, the generator of byte \<open>i\<close> returns
  an expression that satisfies \<open>P i\<close> and touches nothing but the backend.
\<close>

definition gen_ok ::
    "(nat \<Rightarrow> (('b, 'e) runtime, 'e option) rt) \<Rightarrow> (nat \<Rightarrow> 'e \<Rightarrow> bool) \<Rightarrow> nat \<Rightarrow> 'e set \<Rightarrow> bool" where
  "gen_ok gen P n L \<longleftrightarrow>
     (\<forall>i < n. \<forall>s. L \<subseteq> live (backend_state s) \<longrightarrow> rt_ok (gen i) s (\<lambda>x s'. \<exists>e b. x = Some e \<and>
        s' = s\<lparr>backend_state := b\<rparr> \<and> e \<in> live b \<and> live (backend_state s) \<subseteq> live b \<and> P i e))"

lemma gen_ok_generates:
  "gen_ok gen P n L \<Longrightarrow> generates gen (\<lambda>_ b. L \<subseteq> live b) (\<lambda>b b'. live b \<subseteq> live b')
     (\<lambda>i x b. \<exists>e. x = Some e \<and> e \<in> live b \<and> P i e) n m"
  unfolding generates_def gen_ok_def
  by (intro conjI allI impI reflpI transpI) (blast intro: rt_ok_mono)+

text \<open>After the loop, the bytes of the region are shadowed by the generated expressions.\<close>

lemma store_all_ok:
  assumes "gen_ok gen P (unat len) L" "L \<subseteq> live (backend_state s)"
  obtains sh b where "store_all gen addr len s = Inr ((), s\<lparr>g_shadow_pages := sh, backend_state := b\<rparr>)"
    "live (backend_state s) \<subseteq> live b"
    "\<And>j. j < unat len \<Longrightarrow> \<exists>e. shadow_at sh (addr + of_nat j) = Some e \<and> e \<in> live b \<and> P j e"
    "\<And>a. \<not> a - addr < len \<Longrightarrow> shadow_at sh a = shadow_at (g_shadow_pages s) a"
  by (rule store_all_generates [OF gen_ok_generates [OF assms(1)], of s addr]) (use assms(2) that in auto)

text \<open>The bytes of an expression, in the order in which \<open>_sym_write_memory\<close> stores them.\<close>

lemma write_byte_denotes:
  assumes "e \<in> live s" "\<And>\<sigma>. sem \<sigma> e = BVV (8 * n) (f \<sigma>)" "8 * n < 2 ^ 32" "i < n"
  shows "denotes live sem
    (if le then extract_helper B (Some e) (size_sub (8 * (i + 1)) 1) (8 * i)
     else extract_helper B (Some e) (size_sub ((n - i) * 8) 1) ((n - i - 1) * 8)) s
    (\<lambda>\<sigma>. BVV 8 (mem_order le (mem_bytes n (f \<sigma>)) ! i))"
proof -
  let ?j = "if le then n - 1 - i else i"
  have "comp live sem {e} (extract_helper B (Some e) (8 * n - 8 * ?j - 1) (8 * n - 8 * (?j + 1)))
      (\<lambda>\<sigma>. BVV 8 (be_val [mem_bytes n (f \<sigma>) ! ?j]))"
    by (rule comp_byte) (use assms in auto)
  from comp_denotes [OF this, of s] have d: "denotes live sem
      (extract_helper B (Some e) (8 * n - 8 * ?j - 1) (8 * n - 8 * (?j + 1))) s
      (\<lambda>\<sigma>. BVV 8 (mem_bytes n (f \<sigma>) ! ?j))"
    using assms(1) by simp
  have nth: "mem_order le (mem_bytes n x) ! i = mem_bytes n x ! ?j" for x
    using assms(4) by (simp add: mem_order_def rev_nth)
  have hi: "8 * n - 8 * ?j - 1 = (if le then size_sub (8 * (i + 1)) 1 else size_sub ((n - i) * 8) 1)"
    and lo: "8 * n - 8 * (?j + 1) = (if le then 8 * i else (n - i - 1) * 8)"
    using assms(3,4) by (auto simp: diff_mult_distrib2 diff_mult_distrib)
  show ?thesis using d unfolding hi lo nth by (cases le) simp_all
qed

lemma write_memory_run:
  assumes "e \<in> live (backend_state s)" "\<And>\<sigma>. sem \<sigma> e = BVV (8 * unat len) (f \<sigma>)"
    and "len \<noteq> 0" "8 * unat len < 2 ^ 32"
  obtains sh b where
    "sym_write_memory B addr len (Some e) le s = Inr ((), s\<lparr>g_shadow_pages := sh, backend_state := b\<rparr>)"
    "live (backend_state s) \<subseteq> live b"
    "\<And>j. j < unat len \<Longrightarrow> \<exists>x. shadow_at sh (addr + of_nat j) = Some x \<and> x \<in> live b \<and>
       (\<forall>\<sigma>. sem \<sigma> x = BVV 8 (mem_order le (mem_bytes (unat len) (f \<sigma>)) ! j))"
    "\<And>a. \<not> a - addr < len \<Longrightarrow> shadow_at sh a = shadow_at (g_shadow_pages s) a"
proof -
  let ?gen = "\<lambda>i. on_backend
    (if le then extract_helper B (Some e) (size_sub (8 * (i + 1)) 1) (8 * i)
     else extract_helper B (Some e) (size_sub ((unat len - i) * 8) 1) ((unat len - i - 1) * 8))"
  let ?P = "\<lambda>i x. \<forall>\<sigma>. sem \<sigma> x = BVV 8 (mem_order le (mem_bytes (unat len) (f \<sigma>)) ! i)"
  have "gen_ok ?gen ?P (unat len) {e}"
    unfolding gen_ok_def
  proof (intro allI impI)
    fix i and s :: "('b, 'e) runtime" assume i: "i < unat len" and s: "{e} \<subseteq> live (backend_state s)"
    have "mem_denotes live sem (?gen i) s (\<lambda>\<sigma>. BVV 8 (mem_order le (mem_bytes (unat len) (f \<sigma>)) ! i))"
      by (rule mem_denotes_on_backend, rule write_byte_denotes [OF _ assms(2,4) i]) (use s in simp)
    then show "rt_ok (?gen i) s (\<lambda>x s'. \<exists>e b. x = Some e \<and> s' = s\<lparr>backend_state := b\<rparr> \<and> e \<in> live b \<and>
        live (backend_state s) \<subseteq> live b \<and> ?P i e)"
      unfolding mem_denotes_def .
  qed
  moreover have "{e} \<subseteq> live (backend_state s)" using assms(1) by simp
  ultimately obtain sh b where sh:
    "store_all ?gen addr len s = Inr ((), s\<lparr>g_shadow_pages := sh, backend_state := b\<rparr>)"
    "live (backend_state s) \<subseteq> live b"
    "\<And>j. j < unat len \<Longrightarrow> \<exists>x. shadow_at sh (addr + of_nat j) = Some x \<and> x \<in> live b \<and> ?P j x"
    "\<And>a. \<not> a - addr < len \<Longrightarrow> shadow_at sh a = shadow_at (g_shadow_pages s) a"
    by (rule store_all_ok) blast
  have "sym_write_memory B addr len (Some e) le s = store_all ?gen addr len s"
    using assms(3) by (simp add: sym_write_memory_def rt_bind_def rt_get_def rt_assert_def rt_return_def)
  then show thesis using that [OF _ sh(2-4)] sh(1) by simp
qed

subsection \<open>Reading back\<close>

lemma write_read_memory:
  assumes "e \<in> live (backend_state s)" "\<And>\<sigma>. sem \<sigma> e = BVV (8 * unat len) (f \<sigma>)"
    and "len \<noteq> 0" "8 * unat len < 2 ^ 32" "unat addr + unat len < 2 ^ 64"
  obtains s' where "sym_write_memory B addr len (Some e) le s = Inr ((), s')"
    "mem_denotes live sem (sym_read_memory B addr len le') s'
      (\<lambda>\<sigma>. BVV (8 * unat len) (be_val (mem_order le' (mem_order le (mem_bytes (unat len) (f \<sigma>))))))"
    "\<And>a. \<not> a - addr < len \<Longrightarrow> shadow_at (g_shadow_pages s') a = shadow_at (g_shadow_pages s) a"
proof -
  obtain sh b where sh:
    "sym_write_memory B addr len (Some e) le s = Inr ((), s\<lparr>g_shadow_pages := sh, backend_state := b\<rparr>)"
    "\<And>j. j < unat len \<Longrightarrow> \<exists>x. shadow_at sh (addr + of_nat j) = Some x \<and> x \<in> live b \<and>
       (\<forall>\<sigma>. sem \<sigma> x = BVV 8 (mem_order le (mem_bytes (unat len) (f \<sigma>)) ! j))"
    "\<And>a. \<not> a - addr < len \<Longrightarrow> shadow_at sh a = shadow_at (g_shadow_pages s) a"
    using assms(1,2,3,4) by (rule write_memory_run) blast
  let ?s' = "s\<lparr>g_shadow_pages := sh, backend_state := b\<rparr>"
  have byte: "\<exists>x. shadow_at sh a = Some x \<and> x \<in> live b \<and>
      (\<forall>\<sigma>. sem \<sigma> x = BVV 8 (mem_order le (mem_bytes (unat len) (f \<sigma>)) ! unat (a - addr)))"
    if "a - addr < len" for a
    using sh(2) [of "unat (a - addr)"] that by (simp add: word_less_nat_alt)
  have "byte_ok live sem ?s' a" if "a - addr < len" for a
    using byte [OF that] by (auto simp: byte_ok_def)
  moreover have "\<not> isConcrete sh addr len"
  proof -
    have "addr - addr < len" using assms(3) by (simp add: word_neq_0_conv)
    then show ?thesis
      using byte [of addr] unfolding isConcrete_iff [OF assms(5)] by (auto intro!: exI [of _ addr])
  qed
  ultimately have "mem_denotes live sem (sym_read_memory B addr len le') ?s'
      (\<lambda>\<sigma>. BVV (8 * unat len) (be_val (mem_order le' (region_bytes sem ?s' addr (unat len) \<sigma>))))"
    using assms(3) by (intro read_memory_denotes) simp_all
  moreover have "region_bytes sem ?s' addr (unat len) \<sigma> = mem_order le (mem_bytes (unat len) (f \<sigma>))" for \<sigma>
  proof (rule nth_equalityI)
    fix j assume "j < length (region_bytes sem ?s' addr (unat len) \<sigma>)"
    then have j: "j < unat len" by simp
    obtain x where "shadow_at sh (addr + of_nat j) = Some x"
      "\<forall>\<sigma>. sem \<sigma> x = BVV 8 (mem_order le (mem_bytes (unat len) (f \<sigma>)) ! j)"
      using sh(2) [OF j] by blast
    then show "region_bytes sem ?s' addr (unat len) \<sigma> ! j = mem_order le (mem_bytes (unat len) (f \<sigma>)) ! j"
      using j by (simp add: region_bytes_def byte_value_def)
  qed simp
  ultimately show thesis using that [OF sh(1)] sh(3) by simp
qed

text \<open>With the same byte order on both sides the value comes back.\<close>

lemma mem_order_twice: "mem_order le (mem_order le bs) = bs"
  by (simp add: mem_order_def)

lemma write_read_same:
  assumes "e \<in> live (backend_state s)" "\<And>\<sigma>. sem \<sigma> e = BVV (8 * unat len) (f \<sigma>)"
    and "len \<noteq> 0" "8 * unat len < 2 ^ 32" "unat addr + unat len < 2 ^ 64"
  shows "rt_ok (sym_write_memory B addr len (Some e) le) s (\<lambda>_ s'.
    mem_denotes live sem (sym_read_memory B addr len le) s' (\<lambda>\<sigma>. sem \<sigma> e) \<and>
    (\<forall>a. \<not> a - addr < len \<longrightarrow> shadow_at (g_shadow_pages s') a = shadow_at (g_shadow_pages s) a))"
proof -
  have v: "be_val (mem_bytes (unat len) (f \<sigma>)) = f \<sigma>" for \<sigma>
    using sem_bounds(2,3) [OF assms(2), of \<sigma>] by (simp add: be_val_self)
  obtain s' where "sym_write_memory B addr len (Some e) le s = Inr ((), s')"
    "mem_denotes live sem (sym_read_memory B addr len le) s'
      (\<lambda>\<sigma>. BVV (8 * unat len) (be_val (mem_order le (mem_order le (mem_bytes (unat len) (f \<sigma>))))))"
    "\<And>a. \<not> a - addr < len \<Longrightarrow> shadow_at (g_shadow_pages s') a = shadow_at (g_shadow_pages s) a"
    using assms by (rule write_read_memory [where le' = le]) blast
  then show ?thesis unfolding rt_ok_def by (auto simp: mem_order_twice v assms(2))
qed

end

text \<open>A null expression makes the region concrete; loads of concrete regions build nothing.\<close>

lemma write_null:
  assumes "len \<noteq> 0" "unat addr + unat len < 2 ^ 64"
  shows "rt_ok (sym_write_memory B addr len None le) s (\<lambda>_ s'.
    (\<forall>a. shadow_at (g_shadow_pages s') a = (if a - addr < len then None else shadow_at (g_shadow_pages s) a)) \<and>
    sym_read_memory B addr len le' s' = Inr (None, s'))"
proof -
  have read: "sym_read_memory B addr len le' s' = Inr (None, s')"
    if "\<forall>a. a - addr < len \<longrightarrow> shadow_at (g_shadow_pages s') a = None" for s'
    using that assms(1) isConcrete_iff [OF assms(2), of "g_shadow_pages s'"]
    by (simp add: sym_read_memory_def rt_bind_def rt_get_def rt_assert_def rt_return_def)
  show ?thesis
  proof (cases "isConcrete (g_shadow_pages s) addr len")
    case True
    then have "\<forall>a. a - addr < len \<longrightarrow> shadow_at (g_shadow_pages s) a = None"
      using isConcrete_iff [OF assms(2)] by blast
    then show ?thesis using True assms(1) read [of s] by (simp add: sym_write_memory_def rt_simps)
  next
    case False
    then show ?thesis
      using assms(1) by (auto simp: sym_write_memory_def rt_simps on_shadow_def fill_shadow_at intro: read)
  qed
qed

end
