(* ===== verification/Libc.thy ===== *)
theory Libc
  imports Config Memory_Access
begin

text \<open>
  The C library under the wrappers. What the C standard defines of memory and strings (\<open>memcpy\<close>,
  \<open>strlen\<close>, \<open>strchr\<close>, ...) are functions on the program's memory; what reaches the operating system or
  the allocator (\<open>read\<close>, \<open>fopen\<close>, \<open>malloc\<close>, ...) are the parameters in the record \<open>libc\<close>, state
  transformers of the memory and of a world of any type. \<open>process\<close> is the state of a program that
  runs with the run-time library.
\<close>

subsection \<open>Types\<close>

type_synonym i32 = "32 word"
type_synonym mem = "u64 \<Rightarrow> u8"
type_synonym ('w, 'a) os_call = "mem \<times> 'w \<Rightarrow> 'a \<times> mem \<times> 'w"

text \<open>File pointers and pointers are addresses, null is 0; \<open>int\<close> is a 32-bit word read with \<open>sint\<close>.\<close>

record 'w libc =
  c_malloc :: "u64 \<Rightarrow> ('w, u64) os_call"
  c_calloc :: "u64 \<Rightarrow> u64 \<Rightarrow> ('w, u64) os_call"
  c_mmap64 :: "u64 \<Rightarrow> u64 \<Rightarrow> i32 \<Rightarrow> i32 \<Rightarrow> i32 \<Rightarrow> u64 \<Rightarrow> ('w, u64) os_call"
  c_open :: "u64 \<Rightarrow> i32 \<Rightarrow> u32 \<Rightarrow> ('w, i32) os_call"
  c_read :: "i32 \<Rightarrow> u64 \<Rightarrow> u64 \<Rightarrow> ('w, u64) os_call"
  c_lseek64 :: "i32 \<Rightarrow> u64 \<Rightarrow> i32 \<Rightarrow> ('w, u64) os_call"
  c_fopen :: "u64 \<Rightarrow> u64 \<Rightarrow> ('w, u64) os_call"
  c_fopen64 :: "u64 \<Rightarrow> u64 \<Rightarrow> ('w, u64) os_call"
  c_fileno :: "u64 \<Rightarrow> 'w \<Rightarrow> i32"
  c_fread :: "u64 \<Rightarrow> u64 \<Rightarrow> u64 \<Rightarrow> u64 \<Rightarrow> ('w, u64) os_call"
  c_fgets :: "u64 \<Rightarrow> i32 \<Rightarrow> u64 \<Rightarrow> ('w, u64) os_call"
  c_rewind :: "u64 \<Rightarrow> ('w, unit) os_call"
  c_fseek :: "u64 \<Rightarrow> u64 \<Rightarrow> i32 \<Rightarrow> ('w, i32) os_call"
  c_fseeko :: "u64 \<Rightarrow> u64 \<Rightarrow> i32 \<Rightarrow> ('w, i32) os_call"
  c_fseeko64 :: "u64 \<Rightarrow> u64 \<Rightarrow> i32 \<Rightarrow> ('w, i32) os_call"
  c_ftell :: "u64 \<Rightarrow> ('w, u64) os_call"
  c_ftello :: "u64 \<Rightarrow> ('w, u64) os_call"
  c_ftello64 :: "u64 \<Rightarrow> ('w, u64) os_call"
  c_getc :: "u64 \<Rightarrow> ('w, i32) os_call"
  c_fgetc :: "u64 \<Rightarrow> ('w, i32) os_call"
  c_ungetc :: "i32 \<Rightarrow> u64 \<Rightarrow> ('w, i32) os_call"
  c_stdin :: u64
  set_errno :: "i32 \<Rightarrow> 'w \<Rightarrow> 'w"
  symbol_address :: "string \<Rightarrow> u64"
  little_endian_host :: bool

subsection \<open>Memory functions\<close>

definition c_memcpy :: "mem \<Rightarrow> u64 \<Rightarrow> u64 \<Rightarrow> u64 \<Rightarrow> mem" where
  "c_memcpy m dest src n = (\<lambda>a. if a - dest < n then m (src + (a - dest)) else m a)"

definition c_memset :: "mem \<Rightarrow> u64 \<Rightarrow> i32 \<Rightarrow> u64 \<Rightarrow> mem" where
  "c_memset m s c n = (\<lambda>a. if a - s < n then ucast c else m a)"

text \<open>\<open>memcmp\<close>: the difference of the first bytes that differ.\<close>

fun c_memcmp :: "mem \<Rightarrow> u64 \<Rightarrow> u64 \<Rightarrow> nat \<Rightarrow> i32" where
  "c_memcmp m a b 0 = 0"
| "c_memcmp m a b (Suc n) =
     (if m a \<noteq> m b then ucast (m a) - ucast (m b) else c_memcmp m (a + 1) (b + 1) n)"

subsection \<open>String functions\<close>

text \<open>\<open>strnlen\<close>; \<open>strlen\<close> is \<open>strnlen\<close> over the whole address space (a C string has a terminator).\<close>

function c_strnlen :: "mem \<Rightarrow> u64 \<Rightarrow> nat \<Rightarrow> nat" where
  "c_strnlen m s n = (if n = 0 \<or> m s = 0 then 0 else Suc (c_strnlen m (s + 1) (n - 1)))"
  by pat_completeness auto
termination by (relation "measure (\<lambda>(m, s, n). n)") auto

declare c_strnlen.simps [simp del]

definition c_strlen :: "mem \<Rightarrow> u64 \<Rightarrow> nat" where
  "c_strlen m s = c_strnlen m s (2 ^ 64)"

definition c_string :: "mem \<Rightarrow> u64 \<Rightarrow> string" where
  "c_string m s = map (\<lambda>i. char_of (unat (m (s + of_nat i)))) [0..<c_strlen m s]"

text \<open>\<open>strncpy\<close> pads with null characters.\<close>

definition c_strncpy :: "mem \<Rightarrow> u64 \<Rightarrow> u64 \<Rightarrow> u64 \<Rightarrow> mem" where
  "c_strncpy m dest src n = (\<lambda>a.
     if a - dest < n
     then (if unat (a - dest) < c_strnlen m src (unat n) then m (src + (a - dest)) else 0)
     else m a)"

text \<open>\<open>strchr\<close>: the terminator counts as part of the string; null when the character is not found.\<close>

definition c_strchr :: "mem \<Rightarrow> u64 \<Rightarrow> i32 \<Rightarrow> u64" where
  "c_strchr m s c =
     (case List.find (\<lambda>i. m (s + of_nat i) = ucast c) [0..<Suc (c_strlen m s)] of
        Some i \<Rightarrow> s + of_nat i
      | None \<Rightarrow> 0)"

definition c_ntohl :: "bool \<Rightarrow> u32 \<Rightarrow> u32" where
  "c_ntohl little_endian x =
     (if little_endian
      then push_bit 24 (x AND 255) OR push_bit 8 (x AND 65280) OR
           drop_bit 8 (x AND 16711680) OR drop_bit 24 x
      else x)"

subsection \<open>The process\<close>

record ('b, 'e, 'w) process =
  rtl :: "('b, 'e) runtime"
  inputFileDescriptor :: i32
  inputOffset :: u64
  g_config :: config
  world :: 'w
  warnings :: "string list"

definition on_runtime :: "(('b, 'e) runtime, 'a) rt \<Rightarrow> (('b, 'e, 'w) process, 'a) rt" where
  "on_runtime m s = (case m (rtl s) of
     Inl e \<Rightarrow> Inl e
   | Inr (x, r) \<Rightarrow> Inr (x, s\<lparr>rtl := r\<rparr>))"

definition on_os :: "('w, 'a) os_call \<Rightarrow> (('b, 'e, 'w) process, 'a) rt" where
  "on_os f s = (case f (memory (rtl s), world s) of
     (x, m, w) \<Rightarrow> Inr (x, s\<lparr>rtl := (rtl s)\<lparr>memory := m\<rparr>, world := w\<rparr>))"

definition on_memory :: "(mem \<Rightarrow> mem) \<Rightarrow> (('b, 'e, 'w) process, unit) rt" where
  "on_memory f = rt_modify (\<lambda>s. s\<lparr>rtl := (rtl s)\<lparr>memory := f (memory (rtl s))\<rparr>\<rparr>)"

definition get_memory :: "(('b, 'e, 'w) process, mem) rt" where
  "get_memory = rt_get (\<lambda>s. memory (rtl s))"

definition fileno :: "'w libc \<Rightarrow> u64 \<Rightarrow> (('b, 'e, 'w) process, i32) rt" where
  "fileno L stream = rt_get (\<lambda>s. c_fileno L stream (world s))"

lemma rt_ok_on_runtime [rt_simps]:
  "rt_ok (on_runtime m) s Q \<longleftrightarrow> rt_ok m (rtl s) (\<lambda>x r. Q x (s\<lparr>rtl := r\<rparr>))"
  by (auto simp: rt_ok_def on_runtime_def split: sum.splits)

lemma rt_ok_on_os [rt_simps]:
  "rt_ok (on_os f) s Q \<longleftrightarrow> (case f (memory (rtl s), world s) of
     (x, m, w) \<Rightarrow> Q x (s\<lparr>rtl := (rtl s)\<lparr>memory := m\<rparr>, world := w\<rparr>))"
  by (auto simp: rt_ok_def on_os_def split: prod.split)

lemma rt_ok_on_memory [rt_simps]:
  "rt_ok (on_memory f) s Q \<longleftrightarrow> Q () (s\<lparr>rtl := (rtl s)\<lparr>memory := f (memory (rtl s))\<rparr>\<rparr>)"
  by (simp add: on_memory_def rt_simps)

lemma rt_ok_get_memory [rt_simps]: "rt_ok get_memory s Q \<longleftrightarrow> Q (memory (rtl s)) s"
  by (simp add: get_memory_def rt_simps)

lemma rt_ok_fileno [rt_simps]: "rt_ok (fileno L stream) s Q \<longleftrightarrow> Q (c_fileno L stream (world s)) s"
  by (simp add: fileno_def rt_simps)

subsection \<open>Facts about the memory functions\<close>

lemma c_strnlen_le: "c_strnlen m s n \<le> n"
  by (induction m s n rule: c_strnlen.induct) (subst c_strnlen.simps, auto)

lemma c_strnlen_nonzero: "i < c_strnlen m s n \<Longrightarrow> m (s + of_nat i) \<noteq> 0"
proof (induction m s n arbitrary: i rule: c_strnlen.induct)
  case (1 m s n)
  then show ?case
    by (subst (asm) (2) c_strnlen.simps) (cases i, auto simp: ac_simps split: if_splits)
qed

lemma c_strnlen_terminator: "c_strnlen m s n < n \<Longrightarrow> m (s + of_nat (c_strnlen m s n)) = 0"
proof (induction m s n rule: c_strnlen.induct)
  case (1 m s n)
  show ?case
  proof (cases "n = 0 \<or> m s = 0")
    case True
    then show ?thesis using 1(2) by (simp add: c_strnlen.simps [of m s n])
  next
    case False
    then have eq: "c_strnlen m s n = Suc (c_strnlen m (s + 1) (n - 1))" by (simp add: c_strnlen.simps [of m s n])
    then have "m (s + 1 + of_nat (c_strnlen m (s + 1) (n - 1))) = 0"
      using 1 False by auto
    then show ?thesis by (simp add: eq ac_simps)
  qed
qed

lemma ucast_u8_inj: "(ucast x :: i32) = ucast y \<longleftrightarrow> x = (y :: u8)"
proof -
  have "uint (ucast x :: i32) = uint x" for x :: u8
    using uint_lt2p [of x] by (simp add: unsigned_ucast_eq take_bit_int_eq_self)
  then show ?thesis by (metis word_uint_eq_iff)
qed

lemma c_memcmp_zero_iff:
  "n < 2 ^ 64 \<Longrightarrow> c_memcmp m a b n = 0 \<longleftrightarrow> (\<forall>i < n. m (a + of_nat i) = m (b + of_nat i))"
proof (induction n arbitrary: a b)
  case (Suc n)
  have d: "(ucast (m a) - ucast (m b) :: i32) = 0 \<longleftrightarrow> m a = m b"
    by (simp add: ucast_u8_inj)
  have "(\<forall>i < Suc n. m (a + of_nat i) = m (b + of_nat i)) \<longleftrightarrow>
      m a = m b \<and> (\<forall>i < n. m (a + 1 + of_nat i) = m (b + 1 + of_nat i))"
    by (auto simp: less_Suc_eq_0_disj ac_simps)
  then show ?case using Suc d by simp
qed simp

end
