(* ===== verification/Libc_Wrappers.thy ===== *)
theory Libc_Wrappers
  imports Libc
begin

text \<open>
  \<open>runtime/src/LibcWrappers.cpp\<close>: the wrappers that instrumented programs call in place of C library
  functions. A wrapper for \<open>f\<close> is \<open>SYM_f\<close> (in the code \<open>SYM(f)\<close>). It asks the solver for other values of
  symbolic arguments (\<open>tryAlternative\<close>), calls the wrapped function, updates the symbolic state the way
  the function changes memory, and leaves the expression of the result in the return register.
\<close>

subsection \<open>Shared parts\<close>

definition MAP_FAILED :: u64 where "MAP_FAILED = - 1"
definition EOF :: i32 where "EOF = - 1"
definition SEEK_SET :: i32 where "SEEK_SET = 0"
definition EOVERFLOW :: i32 where "EOVERFLOW = 75"

definition param :: "u8 \<Rightarrow> (('b, 'e, 'w) process, 'e option) rt" where
  "param i = on_runtime (sym_get_parameter_expression i)"

definition set_return :: "'e option \<Rightarrow> (('b, 'e, 'w) process, unit) rt" where
  "set_return e = on_runtime (sym_set_return_expression e)"

text \<open>The value is passed as \<open>uint64_t\<close>, with the width of its type; \<open>caller\<close> is the wrapper's address.\<close>

definition tryAlternative ::
    "('b, 'e) backend \<Rightarrow> u64 \<Rightarrow> u8 \<Rightarrow> 'e option \<Rightarrow> u64 \<Rightarrow> (('b, 'e, 'w) process, unit) rt" where
  "tryAlternative B value bits valueExpr caller =
     (if valueExpr \<noteq> None
      then on_runtime (on_backend
        (rt_bind (build_integer B value bits) (\<lambda>v.
         rt_bind (build_binary B SEqual valueExpr v) (\<lambda>c.
         push_path_constraint B c True caller))))
      else rt_return ())"

definition try_param ::
    "('b, 'e) backend \<Rightarrow> u64 \<Rightarrow> u8 \<Rightarrow> u8 \<Rightarrow> u64 \<Rightarrow> (('b, 'e, 'w) process, unit) rt" where
  "try_param B value bits i caller = rt_bind (param i) (\<lambda>e. tryAlternative B value bits e caller)"

definition multiple_open :: string where
  "multiple_open = ''Warning: input file opened multiple times; this is not yet supported''"

definition maybeSetInputFile :: "u64 \<Rightarrow> i32 \<Rightarrow> (('b, 'e, 'w) process, unit) rt" where
  "maybeSetInputFile path fd =
     rt_bind (rt_get id) (\<lambda>s.
     case input (g_config s) of
       FileInput fileName \<Rightarrow>
         if \<not> strstr (c_string (memory (rtl s)) path) fileName then rt_return ()
         else
           rt_bind (if inputFileDescriptor s \<noteq> - 1
                    then rt_modify (\<lambda>s. s\<lparr>warnings := warnings s @ [multiple_open]\<rparr>)
                    else rt_return ()) (\<lambda>_.
           rt_modify (\<lambda>s. s\<lparr>inputFileDescriptor := fd, inputOffset := 0\<rparr>))
     | _ \<Rightarrow> rt_return ())"

definition initLibcWrappers :: "(('b, 'e, 'w) process, unit) rt" where
  "initLibcWrappers =
     rt_bind (rt_get g_config) (\<lambda>c.
     if input c = StdinInput then rt_modify (\<lambda>s. s\<lparr>inputFileDescriptor := 0\<rparr>) else rt_return ())"

text \<open>\<open>if (!isConcrete(buf, n)) std::fill(shadow.begin(), shadow.end(), nullptr)\<close>.\<close>

definition make_concrete :: "u64 \<Rightarrow> u64 \<Rightarrow> (('b, 'e, 'w) process, unit) rt" where
  "make_concrete buf n =
     on_runtime (rt_bind (rt_get g_shadow_pages) (\<lambda>sh.
       if \<not> isConcrete sh buf n then on_shadow (\<lambda>sh. fill_shadow sh buf n None) else rt_return ()))"

text \<open>
  What the readers do with the bytes they read: symbolic and counted when they come from the input,
  concrete otherwise.
\<close>

definition input_read ::
    "('b, 'e) backend \<Rightarrow> i32 \<Rightarrow> u64 \<Rightarrow> u64 \<Rightarrow> (('b, 'e, 'w) process, unit) rt" where
  "input_read B fd buf n =
     rt_bind (rt_get id) (\<lambda>s.
     if fd = inputFileDescriptor s
     then rt_bind (on_runtime (sym_make_symbolic B buf n (inputOffset s))) (\<lambda>_.
          rt_modify (\<lambda>s. s\<lparr>inputOffset := inputOffset s + n\<rparr>))
     else make_concrete buf n)"

subsection \<open>Allocation and mapping\<close>

definition SYM_malloc ::
    "('b, 'e) backend \<Rightarrow> 'w libc \<Rightarrow> u64 \<Rightarrow> (('b, 'e, 'w) process, u64) rt" where
  "SYM_malloc B L sz =
     rt_bind (on_os (c_malloc L sz)) (\<lambda>result.
     rt_bind (try_param B sz 64 0 (symbol_address L ''malloc_symbolized'')) (\<lambda>_.
     rt_bind (set_return None) (\<lambda>_.
     rt_return result)))"

definition SYM_calloc ::
    "('b, 'e) backend \<Rightarrow> 'w libc \<Rightarrow> u64 \<Rightarrow> u64 \<Rightarrow> (('b, 'e, 'w) process, u64) rt" where
  "SYM_calloc B L nmemb sz =
     rt_bind (on_os (c_calloc L nmemb sz)) (\<lambda>result.
     rt_bind (try_param B nmemb 64 0 (symbol_address L ''calloc_symbolized'')) (\<lambda>_.
     rt_bind (try_param B sz 64 1 (symbol_address L ''calloc_symbolized'')) (\<lambda>_.
     rt_bind (set_return None) (\<lambda>_.
     rt_return result))))"

text \<open>\<open>std::generate\<close> of the mapped bytes: every byte is asked for at the same \<open>inputOffset\<close>.\<close>

definition map_input ::
    "('b, 'e) backend \<Rightarrow> u64 \<Rightarrow> u64 \<Rightarrow> u64 \<Rightarrow> (('b, 'e) runtime, unit) rt" where
  "map_input B result len offset =
     store_all (\<lambda>i. rt_bind (rt_get (\<lambda>s. memory s (result + of_nat i))) (\<lambda>byte.
       on_backend (get_input_byte B offset byte))) result len"

definition SYM_mmap64 ::
    "('b, 'e) backend \<Rightarrow> 'w libc \<Rightarrow> u64 \<Rightarrow> u64 \<Rightarrow> i32 \<Rightarrow> i32 \<Rightarrow> i32 \<Rightarrow> u64 \<Rightarrow>
     (('b, 'e, 'w) process, u64) rt" where
  "SYM_mmap64 B L addr len prot flags fildes off =
     rt_bind (on_os (c_mmap64 L addr len prot flags fildes off)) (\<lambda>result.
     rt_bind (set_return None) (\<lambda>_.
     if result = MAP_FAILED then rt_return result
     else
       rt_bind (rt_get inputFileDescriptor) (\<lambda>fd.
       rt_bind
         (if fildes = fd
          then rt_bind (rt_modify (\<lambda>s. s\<lparr>inputOffset := off + len\<rparr>)) (\<lambda>_.
               rt_bind (rt_get inputOffset) (\<lambda>offset.
               on_runtime (map_input B result len offset)))
          else make_concrete result len) (\<lambda>_.
       rt_bind (try_param B len 64 1 (symbol_address L ''mmap64_symbolized'')) (\<lambda>_.
       rt_return result)))))"

definition SYM_mmap ::
    "('b, 'e) backend \<Rightarrow> 'w libc \<Rightarrow> u64 \<Rightarrow> u64 \<Rightarrow> i32 \<Rightarrow> i32 \<Rightarrow> i32 \<Rightarrow> u32 \<Rightarrow>
     (('b, 'e, 'w) process, u64) rt" where
  "SYM_mmap B L addr len prot flags fildes off = SYM_mmap64 B L addr len prot flags fildes (ucast off)"

subsection \<open>Files\<close>

definition SYM_open :: "'w libc \<Rightarrow> u64 \<Rightarrow> i32 \<Rightarrow> u32 \<Rightarrow> (('b, 'e, 'w) process, i32) rt" where
  "SYM_open L path oflag mode =
     rt_bind (on_os (c_open L path oflag mode)) (\<lambda>result.
     rt_bind (set_return None) (\<lambda>_.
     rt_bind (if 0 \<le> sint result then maybeSetInputFile path result else rt_return ()) (\<lambda>_.
     rt_return result)))"

definition SYM_read ::
    "('b, 'e) backend \<Rightarrow> 'w libc \<Rightarrow> i32 \<Rightarrow> u64 \<Rightarrow> u64 \<Rightarrow> (('b, 'e, 'w) process, u64) rt" where
  "SYM_read B L fildes buf nbyte =
     rt_bind (try_param B buf 64 1 (symbol_address L ''read_symbolized'')) (\<lambda>_.
     rt_bind (try_param B nbyte 64 2 (symbol_address L ''read_symbolized'')) (\<lambda>_.
     rt_bind (on_os (c_read L fildes buf nbyte)) (\<lambda>result.
     rt_bind (set_return None) (\<lambda>_.
     if sint result < 0 then rt_return result
     else rt_bind (input_read B fildes buf result) (\<lambda>_. rt_return result)))))"

definition SYM_lseek64 ::
    "'w libc \<Rightarrow> i32 \<Rightarrow> u64 \<Rightarrow> i32 \<Rightarrow> (('b, 'e, 'w) process, u64) rt" where
  "SYM_lseek64 L fd offset whence =
     rt_bind (on_os (c_lseek64 L fd offset whence)) (\<lambda>result.
     rt_bind (set_return None) (\<lambda>_.
     if result = - 1 then rt_return result
     else
       rt_bind (if whence = SEEK_SET then rt_bind (param 1) set_return else rt_return ()) (\<lambda>_.
       rt_bind (rt_modify (\<lambda>s. if fd = inputFileDescriptor s then s\<lparr>inputOffset := result\<rparr> else s)) (\<lambda>_.
       rt_return result))))"

definition SYM_lseek ::
    "'w libc \<Rightarrow> i32 \<Rightarrow> u32 \<Rightarrow> i32 \<Rightarrow> (('b, 'e, 'w) process, u32) rt" where
  "SYM_lseek L fd offset whence =
     rt_bind (SYM_lseek64 L fd (ucast offset) whence) (\<lambda>result.
     let result32 = ucast result in
     if result = ucast result32 then rt_return result32
     else rt_bind (rt_modify (\<lambda>s. s\<lparr>world := set_errno L EOVERFLOW (world s)\<rparr>)) (\<lambda>_.
          rt_return (- 1)))"

definition SYM_fopen :: "'w libc \<Rightarrow> u64 \<Rightarrow> u64 \<Rightarrow> (('b, 'e, 'w) process, u64) rt" where
  "SYM_fopen L pathname mode =
     rt_bind (on_os (c_fopen L pathname mode)) (\<lambda>result.
     rt_bind (set_return None) (\<lambda>_.
     rt_bind (if result \<noteq> 0 then rt_bind (fileno L result) (maybeSetInputFile pathname) else rt_return ()) (\<lambda>_.
     rt_return result)))"

definition SYM_fopen64 :: "'w libc \<Rightarrow> u64 \<Rightarrow> u64 \<Rightarrow> (('b, 'e, 'w) process, u64) rt" where
  "SYM_fopen64 L pathname mode =
     rt_bind (on_os (c_fopen64 L pathname mode)) (\<lambda>result.
     rt_bind (set_return None) (\<lambda>_.
     rt_bind (if result \<noteq> 0 then rt_bind (fileno L result) (maybeSetInputFile pathname) else rt_return ()) (\<lambda>_.
     rt_return result)))"

definition SYM_fread ::
    "('b, 'e) backend \<Rightarrow> 'w libc \<Rightarrow> u64 \<Rightarrow> u64 \<Rightarrow> u64 \<Rightarrow> u64 \<Rightarrow> (('b, 'e, 'w) process, u64) rt" where
  "SYM_fread B L ptr sz nmemb stream =
     rt_bind (try_param B ptr 64 0 (symbol_address L ''fread_symbolized'')) (\<lambda>_.
     rt_bind (try_param B sz 64 1 (symbol_address L ''fread_symbolized'')) (\<lambda>_.
     rt_bind (try_param B nmemb 64 2 (symbol_address L ''fread_symbolized'')) (\<lambda>_.
     rt_bind (on_os (c_fread L ptr sz nmemb stream)) (\<lambda>result.
     rt_bind (set_return None) (\<lambda>_.
     rt_bind (fileno L stream) (\<lambda>fd.
     rt_bind (input_read B fd ptr (result * sz)) (\<lambda>_.
     rt_return result)))))))"

definition SYM_fgets ::
    "('b, 'e) backend \<Rightarrow> 'w libc \<Rightarrow> u64 \<Rightarrow> i32 \<Rightarrow> u64 \<Rightarrow> (('b, 'e, 'w) process, u64) rt" where
  "SYM_fgets B L str n stream =
     rt_bind (try_param B str 64 0 (symbol_address L ''fgets_symbolized'')) (\<lambda>_.
     rt_bind (try_param B (scast n) 32 1 (symbol_address L ''fgets_symbolized'')) (\<lambda>_.
     rt_bind (on_os (c_fgets L str n stream)) (\<lambda>result.
     rt_bind (rt_bind (param 0) set_return) (\<lambda>_.
     rt_bind (fileno L stream) (\<lambda>fd.
     rt_bind get_memory (\<lambda>m.
     rt_bind (input_read B fd str (of_nat (c_strlen m str))) (\<lambda>_.
     rt_return result)))))))"

definition SYM_rewind :: "'w libc \<Rightarrow> u64 \<Rightarrow> (('b, 'e, 'w) process, unit) rt" where
  "SYM_rewind L stream =
     rt_bind (on_os (c_rewind L stream)) (\<lambda>_.
     rt_bind (set_return None) (\<lambda>_.
     rt_bind (fileno L stream) (\<lambda>fd.
     rt_modify (\<lambda>s. if fd = inputFileDescriptor s then s\<lparr>inputOffset := 0\<rparr> else s))))"

text \<open>\<open>fseek\<close>, \<open>fseeko\<close> and \<open>fseeko64\<close> differ only in the functions they call.\<close>

definition SYM_seek ::
    "('b, 'e) backend \<Rightarrow> 'w libc \<Rightarrow> u64 \<Rightarrow> (u64 \<Rightarrow> u64 \<Rightarrow> i32 \<Rightarrow> ('w, i32) os_call) \<Rightarrow>
     (u64 \<Rightarrow> ('w, u64) os_call) \<Rightarrow> u64 \<Rightarrow> u64 \<Rightarrow> i32 \<Rightarrow> (('b, 'e, 'w) process, i32) rt" where
  "SYM_seek B L caller seek tell stream offset whence =
     rt_bind (try_param B offset 64 1 caller) (\<lambda>_.
     rt_bind (on_os (seek stream offset whence)) (\<lambda>result.
     rt_bind (set_return None) (\<lambda>_.
     if result = - 1 then rt_return result
     else
       rt_bind (fileno L stream) (\<lambda>fd.
       rt_bind (rt_get inputFileDescriptor) (\<lambda>input_fd.
       if fd = input_fd
       then rt_bind (on_os (tell stream)) (\<lambda>pos.
            if pos = - 1 then rt_return (- 1)
            else rt_bind (rt_modify (\<lambda>s. s\<lparr>inputOffset := pos\<rparr>)) (\<lambda>_. rt_return result))
       else rt_return result)))))"

definition SYM_fseek ::
    "('b, 'e) backend \<Rightarrow> 'w libc \<Rightarrow> u64 \<Rightarrow> u64 \<Rightarrow> i32 \<Rightarrow> (('b, 'e, 'w) process, i32) rt" where
  "SYM_fseek B L = SYM_seek B L (symbol_address L ''fseek_symbolized'') (c_fseek L) (c_ftell L)"

definition SYM_fseeko ::
    "('b, 'e) backend \<Rightarrow> 'w libc \<Rightarrow> u64 \<Rightarrow> u64 \<Rightarrow> i32 \<Rightarrow> (('b, 'e, 'w) process, i32) rt" where
  "SYM_fseeko B L = SYM_seek B L (symbol_address L ''fseeko_symbolized'') (c_fseeko L) (c_ftello L)"

definition SYM_fseeko64 ::
    "('b, 'e) backend \<Rightarrow> 'w libc \<Rightarrow> u64 \<Rightarrow> u64 \<Rightarrow> i32 \<Rightarrow> (('b, 'e, 'w) process, i32) rt" where
  "SYM_fseeko64 B L = SYM_seek B L (symbol_address L ''fseeko64_symbolized'') (c_fseeko64 L) (c_ftello64 L)"

subsection \<open>Characters\<close>

text \<open>The body that \<open>getc\<close> and \<open>fgetc\<close> share.\<close>

definition SYM_get_char ::
    "('b, 'e) backend \<Rightarrow> 'w libc \<Rightarrow> (u64 \<Rightarrow> ('w, i32) os_call) \<Rightarrow> u64 \<Rightarrow> (('b, 'e, 'w) process, i32) rt" where
  "SYM_get_char B L get stream =
     rt_bind (on_os (get stream)) (\<lambda>result.
     if result = EOF then rt_bind (set_return None) (\<lambda>_. rt_return result)
     else
       rt_bind (fileno L stream) (\<lambda>fd.
       rt_bind (rt_get id) (\<lambda>s.
       rt_bind
         (if fd = inputFileDescriptor s
          then rt_bind (rt_modify (\<lambda>s. s\<lparr>inputOffset := inputOffset s + 1\<rparr>)) (\<lambda>_.
               rt_bind (on_runtime (on_backend
                 (rt_bind (get_input_byte B (inputOffset s) (ucast result)) (\<lambda>byte.
                  build_zext B byte (4 * 8 - 8))))) set_return)
          else set_return None) (\<lambda>_.
       rt_return result))))"

definition SYM_getc ::
    "('b, 'e) backend \<Rightarrow> 'w libc \<Rightarrow> u64 \<Rightarrow> (('b, 'e, 'w) process, i32) rt" where
  "SYM_getc B L = SYM_get_char B L (c_getc L)"

definition SYM_fgetc ::
    "('b, 'e) backend \<Rightarrow> 'w libc \<Rightarrow> u64 \<Rightarrow> (('b, 'e, 'w) process, i32) rt" where
  "SYM_fgetc B L = SYM_get_char B L (c_fgetc L)"

definition SYM_getchar :: "('b, 'e) backend \<Rightarrow> 'w libc \<Rightarrow> (('b, 'e, 'w) process, i32) rt" where
  "SYM_getchar B L = SYM_getc B L (c_stdin L)"

definition SYM_ungetc :: "'w libc \<Rightarrow> i32 \<Rightarrow> u64 \<Rightarrow> (('b, 'e, 'w) process, i32) rt" where
  "SYM_ungetc L c stream =
     rt_bind (on_os (c_ungetc L c stream)) (\<lambda>result.
     rt_bind (rt_bind (param 0) set_return) (\<lambda>_.
     rt_bind (fileno L stream) (\<lambda>fd.
     rt_bind (rt_modify (\<lambda>s. if fd = inputFileDescriptor s \<and> result \<noteq> EOF
                             then s\<lparr>inputOffset := inputOffset s - 1\<rparr> else s)) (\<lambda>_.
     rt_return result))))"

subsection \<open>Memory\<close>

definition SYM_memcpy ::
    "('b, 'e) backend \<Rightarrow> 'w libc \<Rightarrow> u64 \<Rightarrow> u64 \<Rightarrow> u64 \<Rightarrow> (('b, 'e, 'w) process, u64) rt" where
  "SYM_memcpy B L dest src n =
     rt_bind (on_memory (\<lambda>m. c_memcpy m dest src n)) (\<lambda>_.
     rt_bind (try_param B dest 64 0 (symbol_address L ''memcpy_symbolized'')) (\<lambda>_.
     rt_bind (try_param B src 64 1 (symbol_address L ''memcpy_symbolized'')) (\<lambda>_.
     rt_bind (try_param B n 64 2 (symbol_address L ''memcpy_symbolized'')) (\<lambda>_.
     rt_bind (on_runtime (sym_memcpy dest src n)) (\<lambda>_.
     rt_bind (rt_bind (param 0) set_return) (\<lambda>_.
     rt_return dest))))))"

definition SYM_memset ::
    "('b, 'e) backend \<Rightarrow> 'w libc \<Rightarrow> u64 \<Rightarrow> i32 \<Rightarrow> u64 \<Rightarrow> (('b, 'e, 'w) process, u64) rt" where
  "SYM_memset B L s c n =
     rt_bind (on_memory (\<lambda>m. c_memset m s c n)) (\<lambda>_.
     rt_bind (try_param B s 64 0 (symbol_address L ''memset_symbolized'')) (\<lambda>_.
     rt_bind (try_param B n 64 2 (symbol_address L ''memset_symbolized'')) (\<lambda>_.
     rt_bind (param 1) (\<lambda>cExpr.
     rt_bind (on_runtime (sym_memset s cExpr n)) (\<lambda>_.
     rt_bind (rt_bind (param 0) set_return) (\<lambda>_.
     rt_return s))))))"

definition SYM_bzero ::
    "('b, 'e) backend \<Rightarrow> 'w libc \<Rightarrow> u64 \<Rightarrow> u64 \<Rightarrow> (('b, 'e, 'w) process, unit) rt" where
  "SYM_bzero B L s n =
     rt_bind (on_memory (\<lambda>m. c_memset m s 0 n)) (\<lambda>_.
     rt_bind (set_return None) (\<lambda>_.
     rt_bind (try_param B s 64 0 (symbol_address L ''bzero_symbolized'')) (\<lambda>_.
     rt_bind (try_param B n 64 1 (symbol_address L ''bzero_symbolized'')) (\<lambda>_.
     on_runtime (on_shadow (\<lambda>sh. fill_shadow sh s n None))))))"

definition SYM_memmove ::
    "('b, 'e) backend \<Rightarrow> 'w libc \<Rightarrow> u64 \<Rightarrow> u64 \<Rightarrow> u64 \<Rightarrow> (('b, 'e, 'w) process, u64) rt" where
  "SYM_memmove B L dest src n =
     rt_bind (try_param B dest 64 0 (symbol_address L ''memmove_symbolized'')) (\<lambda>_.
     rt_bind (try_param B src 64 1 (symbol_address L ''memmove_symbolized'')) (\<lambda>_.
     rt_bind (try_param B n 64 2 (symbol_address L ''memmove_symbolized'')) (\<lambda>_.
     rt_bind (on_memory (\<lambda>m. c_memcpy m dest src n)) (\<lambda>_.
     rt_bind (on_runtime (sym_memmove dest src n)) (\<lambda>_.
     rt_bind (rt_bind (param 0) set_return) (\<lambda>_.
     rt_return dest))))))"

definition SYM_bcopy ::
    "('b, 'e) backend \<Rightarrow> 'w libc \<Rightarrow> u64 \<Rightarrow> u64 \<Rightarrow> u64 \<Rightarrow> (('b, 'e, 'w) process, unit) rt" where
  "SYM_bcopy B L src dest n =
     rt_bind (try_param B src 64 0 (symbol_address L ''bcopy_symbolized'')) (\<lambda>_.
     rt_bind (try_param B dest 64 1 (symbol_address L ''bcopy_symbolized'')) (\<lambda>_.
     rt_bind (try_param B n 64 2 (symbol_address L ''bcopy_symbolized'')) (\<lambda>_.
     rt_bind (on_memory (\<lambda>m. c_memcpy m dest src n)) (\<lambda>_.
     rt_bind (on_runtime (sym_memmove dest src n)) (\<lambda>_.
     set_return None)))))"

subsection \<open>Strings and comparisons\<close>

text \<open>The shadow of \<open>strncpy\<close>: the copied bytes keep their expressions, the padding is concrete.\<close>

definition copy_padded :: "u64 \<Rightarrow> u64 \<Rightarrow> u64 \<Rightarrow> u64 \<Rightarrow> (('b, 'e) runtime, unit) rt" where
  "copy_padded dest src copied n =
     rt_bind (rt_get g_shadow_pages) (\<lambda>sh.
     if isConcrete sh src copied \<and> isConcrete sh dest n then rt_return ()
     else
       rt_bind (on_shadow (\<lambda>sh. copy_shadow sh dest src copied)) (\<lambda>_.
       if copied < n then on_shadow (\<lambda>sh. fill_shadow sh (dest + copied) (n - copied) None)
       else rt_return ()))"

definition SYM_strncpy ::
    "('b, 'e) backend \<Rightarrow> 'w libc \<Rightarrow> u64 \<Rightarrow> u64 \<Rightarrow> u64 \<Rightarrow> (('b, 'e, 'w) process, u64) rt" where
  "SYM_strncpy B L dest src n =
     rt_bind (try_param B dest 64 0 (symbol_address L ''strncpy_symbolized'')) (\<lambda>_.
     rt_bind (try_param B src 64 1 (symbol_address L ''strncpy_symbolized'')) (\<lambda>_.
     rt_bind (try_param B n 64 2 (symbol_address L ''strncpy_symbolized'')) (\<lambda>_.
     rt_bind (on_memory (\<lambda>m. c_strncpy m dest src n)) (\<lambda>_.
     rt_bind (set_return None) (\<lambda>_.
     rt_bind get_memory (\<lambda>m.
     let srcLen = of_nat (c_strnlen m src (unat n)); copied = min n srcLen in
     rt_bind (on_runtime (copy_padded dest src copied n)) (\<lambda>_.
     rt_return dest)))))))"

text \<open>One round of the loop of \<open>strchr\<close>: the byte at \<open>s + i\<close> is not the character looked for.\<close>

definition differs_from ::
    "('b, 'e) backend \<Rightarrow> u64 \<Rightarrow> 'e option \<Rightarrow> 'e option \<Rightarrow> u64 \<Rightarrow> (('b, 'e) runtime, unit) rt" where
  "differs_from B caller cExpr shadowByte a =
     rt_bind (rt_get (\<lambda>s. memory s a)) (\<lambda>byte.
     on_backend
       (rt_bind (if shadowByte \<noteq> None then rt_return shadowByte else build_integer B (scast byte) 8) (\<lambda>e.
        rt_bind (build_binary B SNot_equal e cExpr) (\<lambda>c.
        push_path_constraint B c True caller))))"

fun strchr_loop ::
    "('b, 'e) backend \<Rightarrow> u64 \<Rightarrow> 'e option \<Rightarrow> u64 \<Rightarrow> nat \<Rightarrow> shadow_iter \<Rightarrow> (('b, 'e) runtime, unit) rt" where
  "strchr_loop B caller cExpr a 0 shadowIt = rt_return ()"
| "strchr_loop B caller cExpr a (Suc k) shadowIt =
     rt_bind (rt_get g_shadow_pages) (\<lambda>sh.
     rt_bind (differs_from B caller cExpr (read_deref sh shadowIt) a) (\<lambda>_.
     strchr_loop B caller cExpr (a + 1) k (read_next sh shadowIt)))"

definition SYM_strchr ::
    "('b, 'e) backend \<Rightarrow> 'w libc \<Rightarrow> u64 \<Rightarrow> i32 \<Rightarrow> (('b, 'e, 'w) process, u64) rt" where
  "SYM_strchr B L s c =
     rt_bind (try_param B s 64 0 (symbol_address L ''strchr_symbolized'')) (\<lambda>_.
     rt_bind (try_param B (scast c) 32 1 (symbol_address L ''strchr_symbolized'')) (\<lambda>_.
     rt_bind get_memory (\<lambda>m.
     let result = c_strchr m s c;
         len = (if result \<noteq> 0 then result - s else of_nat (c_strlen m s)) in
     rt_bind (set_return None) (\<lambda>_.
     rt_bind (param 1) (\<lambda>cExpr.
     rt_bind (on_runtime (rt_get g_shadow_pages)) (\<lambda>sh.
     if isConcrete sh s len \<and> cExpr = None then rt_return result
     else
       rt_bind (on_runtime (on_backend
         (if cExpr = None then build_integer B (scast c) 8 else build_trunc B cExpr 8))) (\<lambda>cExpr'.
       rt_bind (on_runtime (strchr_loop B (symbol_address L ''strchr_symbolized'') cExpr' s (unat len)
         (read_iter sh s))) (\<lambda>_.
       rt_return result))))))))"

text \<open>The conjunction of the comparisons of the bytes at two non-null iterators.\<close>

definition compare_bytes ::
    "('b, 'e) backend \<Rightarrow> shadow_iter \<Rightarrow> shadow_iter \<Rightarrow> (('b, 'e) runtime, 'e option) rt" where
  "compare_bytes B itA itB =
     rt_bind (nonnull_deref B itA) (\<lambda>x.
     rt_bind (nonnull_deref B itB) (\<lambda>y.
     on_backend (build_binary B SEqual x y)))"

fun compare_loop ::
    "('b, 'e) backend \<Rightarrow> nat \<Rightarrow> shadow_iter \<Rightarrow> shadow_iter \<Rightarrow> 'e option \<Rightarrow> (('b, 'e) runtime, 'e option) rt" where
  "compare_loop B 0 itA itB allEqual = rt_return allEqual"
| "compare_loop B (Suc k) itA itB allEqual =
     rt_bind (rt_get g_shadow_pages) (\<lambda>sh.
     let itA' = read_next sh itA; itB' = read_next sh itB in
     rt_bind (compare_bytes B itA' itB') (\<lambda>e.
     rt_bind (on_backend (build_binary B SBool_and allEqual e)) (\<lambda>allEqual'.
     compare_loop B k itA' itB' allEqual')))"

definition compare_constraint ::
    "('b, 'e) backend \<Rightarrow> u64 \<Rightarrow> u64 \<Rightarrow> u64 \<Rightarrow> (('b, 'e) runtime, 'e option) rt" where
  "compare_constraint B a b n =
     rt_bind (rt_get g_shadow_pages) (\<lambda>sh.
     rt_bind (compare_bytes B (read_iter sh a) (read_iter sh b)) (\<lambda>allEqual.
     compare_loop B (unat n - 1) (read_iter sh a) (read_iter sh b) allEqual))"

definition compare_regions ::
    "('b, 'e) backend \<Rightarrow> u64 \<Rightarrow> u64 \<Rightarrow> u64 \<Rightarrow> bool \<Rightarrow> u64 \<Rightarrow> (('b, 'e) runtime, unit) rt" where
  "compare_regions B a b n equal caller =
     rt_bind (rt_get g_shadow_pages) (\<lambda>sh.
     if isConcrete sh a n \<and> isConcrete sh b n then rt_return ()
     else
       rt_bind (compare_constraint B a b n) (\<lambda>allEqual.
       on_backend (push_path_constraint B allEqual equal caller)))"

text \<open>\<open>memcmp\<close> and \<open>bcmp\<close> differ in their addresses only.\<close>

definition SYM_compare ::
    "('b, 'e) backend \<Rightarrow> u64 \<Rightarrow> u64 \<Rightarrow> u64 \<Rightarrow> u64 \<Rightarrow> (('b, 'e, 'w) process, i32) rt" where
  "SYM_compare B caller a b n =
     rt_bind (try_param B a 64 0 caller) (\<lambda>_.
     rt_bind (try_param B b 64 1 caller) (\<lambda>_.
     rt_bind (try_param B n 64 2 caller) (\<lambda>_.
     rt_bind get_memory (\<lambda>m.
     let result = c_memcmp m a b (unat n) in
     rt_bind (set_return None) (\<lambda>_.
     rt_bind (on_runtime (compare_regions B a b n (result = 0) caller)) (\<lambda>_.
     rt_return result))))))"

definition SYM_memcmp ::
    "('b, 'e) backend \<Rightarrow> 'w libc \<Rightarrow> u64 \<Rightarrow> u64 \<Rightarrow> u64 \<Rightarrow> (('b, 'e, 'w) process, i32) rt" where
  "SYM_memcmp B L = SYM_compare B (symbol_address L ''memcmp_symbolized'')"

definition SYM_bcmp ::
    "('b, 'e) backend \<Rightarrow> 'w libc \<Rightarrow> u64 \<Rightarrow> u64 \<Rightarrow> u64 \<Rightarrow> (('b, 'e, 'w) process, i32) rt" where
  "SYM_bcmp B L = SYM_compare B (symbol_address L ''bcmp_symbolized'')"

definition SYM_ntohl ::
    "('b, 'e) backend \<Rightarrow> 'w libc \<Rightarrow> u32 \<Rightarrow> (('b, 'e, 'w) process, u32) rt" where
  "SYM_ntohl B L netlong =
     rt_bind (param 0) (\<lambda>netlongExpr.
     let result = c_ntohl (little_endian_host L) netlong in
     if netlongExpr = None then rt_bind (set_return None) (\<lambda>_. rt_return result)
     else
       rt_bind (if little_endian_host L
                then rt_bind (on_runtime (on_backend (sym_build_bswap B netlongExpr))) set_return
                else set_return netlongExpr) (\<lambda>_.
       rt_return result))"

end
