(* ===== verification/Z3_Interface.thy ===== *)
theory Z3_Interface
  imports Backend
begin

text \<open>
  The part of the Z3 C API that \<open>runtime/src/backends/simple/Runtime.cpp\<close> calls. Z3 is a library the
  repository links against, so its functions are parameters: a record of operations, with \<open>None\<close> for
  the calls Z3 refuses. The locale \<open>z3_laws\<close> states the documented behaviour the backend relies on:
  every \<open>Z3_mk_\<close> function builds an expression with the SMT-LIB meaning of its name when the sorts of
  the operands fit, and refuses otherwise. The term algebra at the end is a concrete library that
  keeps these laws.
\<close>

unbundle bit_operations_syntax

subsection \<open>Sorts and operations\<close>

datatype z3_sort = BV_sort nat | Int_sort | Fpa_sort bool

text \<open>
  The functions \<open>Z3_mk_\<close> that build expressions from expressions, by the rest of their name: on two bit
  vectors, on one, on integers, on floating-point numbers, and the others.
\<close>

datatype z3_bv2 =
    Z_bvadd | Z_bvsub | Z_bvmul | Z_bvudiv | Z_bvsdiv | Z_bvurem | Z_bvsrem
  | Z_bvshl | Z_bvlshr | Z_bvashr
  | Z_bvslt | Z_bvsle | Z_bvsgt | Z_bvsge | Z_bvult | Z_bvule | Z_bvugt | Z_bvuge
  | Z_bvand | Z_bvor | Z_bvxor

datatype z3_bv1 =
    Z_bvneg | Z_bvnot | Z_extract nat nat | Z_sign_ext nat | Z_zero_ext nat | Z_bv2int bool

datatype z3_int_nary = Z_add | Z_sub | Z_mul

datatype z3_int2 = Z_div | Z_mod | Z_rem | Z_lt | Z_le | Z_gt | Z_ge

datatype z3_fpa_rel = Z_fpa_gt | Z_fpa_geq | Z_fpa_lt | Z_fpa_leq | Z_fpa_eq

datatype z3_fpa =
    Z_fpa_add | Z_fpa_sub | Z_fpa_mul | Z_fpa_div | Z_fpa_rem | Z_fpa_abs | Z_fpa_neg
  | Z_fpa_to_fp_signed z3_sort | Z_fpa_to_fp_unsigned z3_sort | Z_fpa_to_fp_float z3_sort
  | Z_fpa_to_fp_bv z3_sort | Z_fpa_to_ieee_bv | Z_fpa_to_sbv nat | Z_fpa_to_ubv nat

datatype z3_op =
    Z_bv2 z3_bv2 | Z_bv1 z3_bv1 | Z_int_nary z3_int_nary | Z_int2 z3_int2
  | Z_fpa_rel z3_fpa_rel | Z_fpa z3_fpa | Z_fpa_is_nan
  | Z_not | Z_eq | Z_xor | Z_and | Z_or | Z_ite | Z_concat

text \<open>
  SMT-LIB's meaning of the operations, total on operands of the right sorts (division by zero
  included). Floating-point operations that round, and division on integers, are left without a meaning.
\<close>

fun bv_sem :: "z3_bv2 \<Rightarrow> nat \<Rightarrow> int \<Rightarrow> int \<Rightarrow> smt_value option" where
  "bv_sem Z_bvadd n x y = Some (BVV n (take_bit n (x + y)))"
| "bv_sem Z_bvsub n x y = Some (BVV n (take_bit n (x - y)))"
| "bv_sem Z_bvmul n x y = Some (BVV n (take_bit n (x * y)))"
| "bv_sem Z_bvudiv n x y = Some (BVV n (if y = 0 then 2 ^ n - 1 else x div y))"
| "bv_sem Z_bvurem n x y = Some (BVV n (if y = 0 then x else x mod y))"
| "bv_sem Z_bvsdiv n x y = Some (BVV n
     (if y = 0 then (if sval n x < 0 then 1 else 2 ^ n - 1)
      else take_bit n (sgn (sval n x) * sgn (sval n y) * (\<bar>sval n x\<bar> div \<bar>sval n y\<bar>))))"
| "bv_sem Z_bvsrem n x y = Some (BVV n
     (if y = 0 then x else take_bit n (sgn (sval n x) * (\<bar>sval n x\<bar> mod \<bar>sval n y\<bar>))))"
| "bv_sem Z_bvshl n x y = Some (BVV n (if y < int n then take_bit n (push_bit (nat y) x) else 0))"
| "bv_sem Z_bvlshr n x y = Some (BVV n (if y < int n then drop_bit (nat y) x else 0))"
| "bv_sem Z_bvashr n x y = Some (BVV n
     (if y < int n then take_bit n (drop_bit (nat y) (sval n x))
      else if sval n x < 0 then 2 ^ n - 1 else 0))"
| "bv_sem Z_bvslt n x y = Some (BoolV (sval n x < sval n y))"
| "bv_sem Z_bvsle n x y = Some (BoolV (sval n x \<le> sval n y))"
| "bv_sem Z_bvsgt n x y = Some (BoolV (sval n y < sval n x))"
| "bv_sem Z_bvsge n x y = Some (BoolV (sval n y \<le> sval n x))"
| "bv_sem Z_bvult n x y = Some (BoolV (x < y))"
| "bv_sem Z_bvule n x y = Some (BoolV (x \<le> y))"
| "bv_sem Z_bvugt n x y = Some (BoolV (y < x))"
| "bv_sem Z_bvuge n x y = Some (BoolV (y \<le> x))"
| "bv_sem Z_bvand n x y = Some (BVV n (x AND y))"
| "bv_sem Z_bvor n x y = Some (BVV n (x OR y))"
| "bv_sem Z_bvxor n x y = Some (BVV n (x XOR y))"

fun fp_sem :: "z3_fpa_rel \<Rightarrow> bool \<Rightarrow> int \<Rightarrow> int \<Rightarrow> smt_value option" where
  "fp_sem Z_fpa_gt d x y = Some (BoolV (fp_ordered d x y \<and> fp_key d y < fp_key d x))"
| "fp_sem Z_fpa_geq d x y = Some (BoolV (fp_ordered d x y \<and> fp_key d y \<le> fp_key d x))"
| "fp_sem Z_fpa_lt d x y = Some (BoolV (fp_ordered d x y \<and> fp_key d x < fp_key d y))"
| "fp_sem Z_fpa_leq d x y = Some (BoolV (fp_ordered d x y \<and> fp_key d x \<le> fp_key d y))"
| "fp_sem Z_fpa_eq d x y = Some (BoolV (fp_ordered d x y \<and> fp_key d x = fp_key d y))"

fun int_sem :: "z3_int2 \<Rightarrow> int \<Rightarrow> int \<Rightarrow> smt_value option" where
  "int_sem Z_lt x y = Some (BoolV (x < y))"
| "int_sem Z_le x y = Some (BoolV (x \<le> y))"
| "int_sem Z_gt x y = Some (BoolV (y < x))"
| "int_sem Z_ge x y = Some (BoolV (y \<le> x))"
| "int_sem _ x y = None"

fun bools_of :: "smt_value list \<Rightarrow> bool list option" where
  "bools_of [] = Some []"
| "bools_of (BoolV p # vs) = map_option ((#) p) (bools_of vs)"
| "bools_of _ = None"

fun ints_of :: "smt_value list \<Rightarrow> int list option" where
  "ints_of [] = Some []"
| "ints_of (IntV i # vs) = map_option ((#) i) (ints_of vs)"
| "ints_of _ = None"

fun bv_unary_sem :: "z3_bv1 \<Rightarrow> nat \<Rightarrow> int \<Rightarrow> smt_value option" where
  "bv_unary_sem Z_bvneg n x = Some (BVV n (take_bit n (- x)))"
| "bv_unary_sem Z_bvnot n x = Some (BVV n (take_bit n (NOT x)))"
| "bv_unary_sem (Z_extract hi lo) n x =
     (if lo \<le> hi \<and> hi < n then Some (BVV (hi - lo + 1) (take_bit (hi - lo + 1) (drop_bit lo x)))
      else None)"
| "bv_unary_sem (Z_sign_ext m) n x = Some (BVV (n + m) (take_bit (n + m) (sval n x)))"
| "bv_unary_sem (Z_zero_ext m) n x = Some (BVV (n + m) x)"
| "bv_unary_sem (Z_bv2int s) n x = Some (IntV (if s then sval n x else x))"

fun sub_ints :: "int list \<Rightarrow> int" where
  "sub_ints [] = 0"
| "sub_ints (i # is) = foldl (-) i is"

fun int_nary_sem :: "z3_int_nary \<Rightarrow> int list \<Rightarrow> int" where
  "int_nary_sem Z_add is = sum_list is"
| "int_nary_sem Z_sub is = sub_ints is"
| "int_nary_sem Z_mul is = prod_list is"

definition unary_sem :: "z3_op \<Rightarrow> smt_value \<Rightarrow> smt_value option" where
  "unary_sem op v = (case (op, v) of
     (Z_bv1 f, BVV n x) \<Rightarrow> bv_unary_sem f n x
   | (Z_not, BoolV p) \<Rightarrow> Some (BoolV (\<not> p))
   | (Z_fpa_is_nan, FloatV d x) \<Rightarrow> Some (BoolV (fp_is_nan d x))
   | _ \<Rightarrow> None)"

definition eq_sem :: "smt_value \<Rightarrow> smt_value \<Rightarrow> smt_value option" where
  "eq_sem v w = (case (v, w) of
     (BVV n x, BVV m y) \<Rightarrow> if n = m then Some (BoolV (x = y)) else None
   | (BoolV p, BoolV q) \<Rightarrow> Some (BoolV (p = q))
   | (IntV x, IntV y) \<Rightarrow> Some (BoolV (x = y))
   | _ \<Rightarrow> None)"

definition binary_sem :: "z3_op \<Rightarrow> smt_value \<Rightarrow> smt_value \<Rightarrow> smt_value option" where
  "binary_sem op v w = (case op of
     Z_eq \<Rightarrow> eq_sem v w
   | _ \<Rightarrow> (case (op, v, w) of
       (Z_bv2 f, BVV n x, BVV m y) \<Rightarrow> if n = m then bv_sem f n x y else None
     | (Z_concat, BVV n x, BVV m y) \<Rightarrow> Some (BVV (n + m) (push_bit m x + y))
     | (Z_xor, BoolV p, BoolV q) \<Rightarrow> Some (BoolV (p \<noteq> q))
     | (Z_fpa_rel f, FloatV d x, FloatV d' y) \<Rightarrow> if d = d' then fp_sem f d x y else None
     | (Z_int2 f, IntV x, IntV y) \<Rightarrow> int_sem f x y
     | _ \<Rightarrow> None))"

definition ite_sem :: "smt_value \<Rightarrow> smt_value \<Rightarrow> smt_value \<Rightarrow> smt_value option" where
  "ite_sem c v w = (case c of
     BoolV p \<Rightarrow> if same_sort v w then Some (if p then v else w) else None
   | _ \<Rightarrow> None)"

definition z3_sem :: "z3_op \<Rightarrow> smt_value list \<Rightarrow> smt_value option" where
  "z3_sem op vs = (case op of
     Z_and \<Rightarrow> map_option (\<lambda>ps. BoolV (list_all id ps)) (bools_of vs)
   | Z_or \<Rightarrow> map_option (\<lambda>ps. BoolV (list_ex id ps)) (bools_of vs)
   | Z_int_nary f \<Rightarrow> map_option (\<lambda>is. IntV (int_nary_sem f is)) (ints_of vs)
   | _ \<Rightarrow> (case vs of
       [v] \<Rightarrow> unary_sem op v
     | [v, w] \<Rightarrow> binary_sem op v w
     | [c, v, w] \<Rightarrow> if op = Z_ite then ite_sem c v w else None
     | _ \<Rightarrow> None))"

subsection \<open>The API\<close>

datatype z3_lbool = Z3_L_FALSE | Z3_L_UNDEF | Z3_L_TRUE

text \<open>
  \<open>mk_app op args\<close> is \<open>Z3_mk_op(ctx, args)\<close>, the rounding mode of the floating-point operations left
  implicit; \<open>ast_bits\<close> is \<open>Z3_get_bv_sort_size\<close> of \<open>Z3_get_sort\<close>; \<open>solver_check\<close> sees the assertions
  that are in force. Equality of expressions is \<open>Z3_is_eq_ast\<close>.
\<close>

record 'e z3 =
  mk_app :: "z3_op \<Rightarrow> 'e list \<Rightarrow> 'e option"
  mk_int :: "int \<Rightarrow> z3_sort \<Rightarrow> 'e option"
  mk_unsigned_int64 :: "u64 \<Rightarrow> z3_sort \<Rightarrow> 'e option"
  mk_fpa_numeral_double :: "u64 \<Rightarrow> z3_sort \<Rightarrow> 'e option"
  mk_const :: "string \<Rightarrow> z3_sort \<Rightarrow> 'e option"
  mk_true :: 'e
  mk_false :: 'e
  mk_round_nearest :: 'e
  ast_bits :: "'e \<Rightarrow> nat option"
  z3_simplify :: "'e \<Rightarrow> 'e"
  solver_check :: "'e list \<Rightarrow> z3_lbool"

text \<open>
  Z3 refuses operands of the wrong sorts; the law below says so for operations on bit vectors, which
  have a meaning on all operands of the right sorts.
\<close>

fun bv_op :: "z3_op \<Rightarrow> bool" where
  "bv_op (Z_bv2 f) = True"
| "bv_op (Z_bv1 f) = True"
| "bv_op Z_concat = True"
| "bv_op _ = False"

locale z3_laws =
  fixes z :: "'e z3" and sem :: "'m \<Rightarrow> 'e \<Rightarrow> smt_value"
  assumes z3_range: "sem \<sigma> x = BVV n i \<Longrightarrow> 0 < n \<and> 0 \<le> i \<and> i < 2 ^ n"
    and z3_app: "(\<And>\<sigma>. z3_sem op (map (sem \<sigma>) xs) = Some (F \<sigma>)) \<Longrightarrow>
      \<exists>e. mk_app z op xs = Some e \<and> (\<forall>\<sigma>. sem \<sigma> e = F \<sigma>)"
    and z3_refuses: "bv_op op \<Longrightarrow> (\<And>\<sigma>. z3_sem op (map (sem \<sigma>) xs) = None) \<Longrightarrow> mk_app z op xs = None"
    and z3_numeral: "0 < n \<Longrightarrow> \<exists>e. mk_unsigned_int64 z k (BV_sort n) = Some e \<and>
      (\<forall>\<sigma>. sem \<sigma> e = BVV n (take_bit n (uint k)))"
    and z3_int: "0 < n \<Longrightarrow> \<exists>e. mk_int z i (BV_sort n) = Some e \<and>
      (\<forall>\<sigma>. sem \<sigma> e = BVV n (take_bit n i))"
    and z3_const: "0 < n \<Longrightarrow> \<exists>e. mk_const z name (BV_sort n) = Some e \<and>
      (\<forall>\<sigma>. \<exists>i. sem \<sigma> e = BVV n i)"
    and z3_const_inj: "mk_const z name srt = Some e \<Longrightarrow> mk_const z name' srt' = Some e \<Longrightarrow> name = name'"
    and z3_bools: "sem \<sigma> (mk_true z) = BoolV True" "sem \<sigma> (mk_false z) = BoolV False"
    and z3_bits: "(\<And>\<sigma>. \<exists>i. sem \<sigma> x = BVV n i) \<Longrightarrow> ast_bits z x = Some n"
    and z3_simplifies: "sem \<sigma> (z3_simplify z x) = sem \<sigma> x"
    and z3_check: "solver_check z cs = Z3_L_TRUE \<Longrightarrow> \<exists>\<sigma>. \<forall>c \<in> set cs. sem \<sigma> c = BoolV True"
      "solver_check z cs = Z3_L_FALSE \<Longrightarrow> \<not> (\<exists>\<sigma>. \<forall>c \<in> set cs. sem \<sigma> c = BoolV True)"

subsection \<open>Ranges\<close>

definition in_range :: "smt_value \<Rightarrow> bool" where
  "in_range v = (case v of BVV n i \<Rightarrow> 0 < n \<and> 0 \<le> i \<and> i < 2 ^ n | _ \<Rightarrow> True)"

lemma in_range_simps [simp]:
  "in_range (BVV n i) \<longleftrightarrow> 0 < n \<and> 0 \<le> i \<and> i < 2 ^ n" "in_range (BoolV p)" "in_range (IntV k)"
  "in_range (FloatV d x)"
  by (simp_all add: in_range_def)

lemma take_bit_range [simp]: "take_bit n k < (2 ^ n :: int)"
  by (rule take_bit_int_less_exp)

lemma bv_sem_range:
  assumes "bv_sem f n x y = Some v" "0 < n" "0 \<le> x" "x < 2 ^ n" "0 \<le> y" "y < 2 ^ n"
  shows "in_range v"
proof -
  have d: "x div y < 2 ^ n" if "y \<noteq> 0"
  proof -
    have "x div y \<le> x div 1" by (rule zdiv_mono2) (use assms(3,5) that in simp_all)
    then show ?thesis using assms(4) by simp
  qed
  have m: "x mod y < 2 ^ n" if "y \<noteq> 0"
    using assms(5,6) that pos_mod_bound [of y x] by linarith
  have s: "drop_bit k x < 2 ^ n" "0 \<le> drop_bit k x" for k
  proof -
    have "x div 2 ^ k \<le> x div 1" by (rule zdiv_mono2) (use assms(3) in simp_all)
    then show "drop_bit k x < 2 ^ n" using assms(4) by (simp add: drop_bit_eq_div)
  qed (use assms(3) in simp)
  have b: "x AND y < 2 ^ n" "x OR y < 2 ^ n" "x XOR y < 2 ^ n"
    using assms by (auto simp: OR_upper XOR_upper intro: order_le_less_trans [OF AND_upper1])
  have one: "(1::int) < 2 ^ n" "(1::int) \<le> 2 ^ n" using assms(2) by (simp_all add: one_less_power)
  have p: "0 \<le> x div y" "y \<noteq> 0 \<Longrightarrow> 0 \<le> x mod y"
    using assms(3,5) by (simp_all add: div_int_pos_iff)
  show ?thesis
    using assms(1) by (cases f; clarsimp) (use assms(2-) one d m s b p in simp_all)
qed

lemma bv_unary_sem_range:
  assumes "bv_unary_sem f n x = Some v" "0 < n" "0 \<le> x" "x < 2 ^ n"
  shows "in_range v"
proof -
  have "x < 2 ^ (n + m)" for m
    by (rule order_less_le_trans [OF assms(4)]) (rule power_increasing, simp_all)
  then show ?thesis
    using assms by (cases f) (auto split: if_splits simp del: power_Suc)
qed

lemma concat_range:
  assumes "0 \<le> x" "x < 2 ^ n" "0 \<le> y" "y < (2 ^ m :: int)"
  shows "0 \<le> push_bit m x + y" "push_bit m x + y < 2 ^ (n + m)"
proof -
  show "0 \<le> push_bit m x + y" using assms by simp
  have "x \<le> 2 ^ n - 1" using assms(2) by simp
  then have "x * 2 ^ m \<le> (2 ^ n - 1) * 2 ^ m" by (rule mult_right_mono) simp
  then show "push_bit m x + y < 2 ^ (n + m)"
    using assms(4) by (simp add: push_bit_eq_mult power_add left_diff_distrib)
qed

lemma z3_sem_range:
  assumes "z3_sem op vs = Some v" "list_all in_range vs"
  shows "in_range v"
proof -
  have u: "in_range w" if "unary_sem op a = Some w" "in_range a" for a w
    using that bv_unary_sem_range by (cases op; cases a) (auto simp: unary_sem_def)
  have e: "in_range w" if "eq_sem a b = Some w" for a b w
    using that by (auto simp: eq_sem_def split: smt_value.splits if_splits)
  have fp: "in_range w" if "fp_sem f d x y = Some w" for f d x y w
    using that by (cases f) auto
  have it: "in_range w" if "int_sem f x y = Some w" for f x y w
    using that by (cases f) auto
  have b: "in_range w" if "binary_sem op a b = Some w" "in_range a" "in_range b" for a b w
    using that(1) unfolding binary_sem_def
    by (cases op; cases a; cases b; clarsimp split: if_splits)
      (use that e fp it bv_sem_range concat_range in auto)
  have i: "in_range w" if "ite_sem c a b = Some w" "in_range a" "in_range b" for c a b w
    using that by (auto simp: ite_sem_def split: smt_value.splits if_splits)
  have rest: "in_range v" if "(case vs of [v] \<Rightarrow> unary_sem op v | [v, w] \<Rightarrow> binary_sem op v w
      | [c, v, w] \<Rightarrow> if op = Z_ite then ite_sem c v w else None | _ \<Rightarrow> None) = Some v"
    using that assms(2) u b i by (auto split: list.splits if_splits)
  show ?thesis
    using assms(1) rest unfolding z3_sem_def by (cases op) auto
qed

subsection \<open>A library that keeps the laws\<close>

datatype z3_term =
    T_num nat int
  | T_fpa bool int
  | T_bool bool
  | T_const string z3_sort
  | T_app z3_op "z3_term list"

fun const_sem :: "int \<Rightarrow> z3_sort \<Rightarrow> smt_value" where
  "const_sem k (BV_sort n) = (if 0 < n then BVV n (take_bit n k) else BoolV False)"
| "const_sem k Int_sort = IntV k"
| "const_sem k (Fpa_sort d) = FloatV d (take_bit (if d then 64 else 32) k)"

fun term_sem :: "(string \<Rightarrow> int) \<Rightarrow> z3_term \<Rightarrow> smt_value" where
  "term_sem \<sigma> (T_num n k) = const_sem k (BV_sort n)"
| "term_sem \<sigma> (T_fpa d k) = const_sem k (Fpa_sort d)"
| "term_sem \<sigma> (T_bool p) = BoolV p"
| "term_sem \<sigma> (T_const name srt) = const_sem (\<sigma> name) srt"
| "term_sem \<sigma> (T_app op ts) =
     (case z3_sem op (map (term_sem \<sigma>) ts) of Some v \<Rightarrow> v | None \<Rightarrow> BoolV False)"

fun is_closed :: "z3_term \<Rightarrow> bool" where
  "is_closed (T_const name srt) = False"
| "is_closed (T_app op ts) = list_all is_closed ts"
| "is_closed _ = True"

definition zero_env :: "string \<Rightarrow> int" where
  "zero_env = (\<lambda>_. 0)"

definition term_app :: "z3_op \<Rightarrow> z3_term list \<Rightarrow> z3_term option" where
  "term_app op ts =
     (case z3_sem op (map (term_sem zero_env) ts) of Some _ \<Rightarrow> Some (T_app op ts) | None \<Rightarrow> None)"

definition term_simplify :: "z3_term \<Rightarrow> z3_term" where
  "term_simplify t =
     (if is_closed t
      then (case term_sem zero_env t of
              BVV n i \<Rightarrow> T_num n i | BoolV p \<Rightarrow> T_bool p | _ \<Rightarrow> t)
      else t)"

fun sort_ok :: "z3_sort \<Rightarrow> bool" where
  "sort_ok (BV_sort n) = (0 < n)"
| "sort_ok _ = True"

definition term_z3 :: "z3_term z3" where
  "term_z3 = \<lparr>
     mk_app = term_app,
     mk_int = (\<lambda>k srt. case srt of BV_sort n \<Rightarrow> if 0 < n then Some (T_num n k) else None | _ \<Rightarrow> None),
     mk_unsigned_int64 = (\<lambda>k srt. case srt of BV_sort n \<Rightarrow> if 0 < n then Some (T_num n (uint k)) else None | _ \<Rightarrow> None),
     mk_fpa_numeral_double = (\<lambda>k srt. case srt of Fpa_sort True \<Rightarrow> Some (T_fpa True (uint k)) | _ \<Rightarrow> None),
     mk_const = (\<lambda>name srt. if sort_ok srt then Some (T_const name srt) else None),
     mk_true = T_bool True,
     mk_false = T_bool False,
     mk_round_nearest = T_num 2 0,
     ast_bits = (\<lambda>t. case term_sem zero_env t of BVV n _ \<Rightarrow> Some n | _ \<Rightarrow> None),
     z3_simplify = term_simplify,
     solver_check = (\<lambda>ts. if list_all (\<lambda>t. term_sem zero_env t = BoolV True) ts then Z3_L_TRUE
                         else if list_ex (\<lambda>t. t = T_bool False) ts then Z3_L_FALSE
                         else Z3_L_UNDEF)\<rparr>"

lemma const_sem_range: "in_range (const_sem k srt)"
  by (cases srt) simp_all

lemma term_sem_range: "in_range (term_sem \<sigma> t)"
proof (induction t)
  case (T_app op ts)
  then have "list_all in_range (map (term_sem \<sigma>) ts)" by (simp add: list_all_iff)
  then show ?case by (auto split: option.splits intro: z3_sem_range)
qed (use const_sem_range [of _ "BV_sort _"] const_sem_range [of _ "Fpa_sort _"] const_sem_range
     in \<open>simp_all del: const_sem.simps\<close>)

lemma term_sem_closed: "is_closed t \<Longrightarrow> term_sem \<sigma> t = term_sem \<sigma>' t"
proof (induction t)
  case (T_app op ts)
  then have "map (term_sem \<sigma>) ts = map (term_sem \<sigma>') ts" by (simp add: list_all_iff)
  then show ?case by (simp del: map_eq_conv)
qed simp_all

lemma term_simplify_sem: "term_sem \<sigma> (term_simplify t) = term_sem \<sigma> t"
proof (cases "is_closed t")
  case True
  then have "term_sem \<sigma> t = term_sem zero_env t" by (rule term_sem_closed)
  then show ?thesis
    using term_sem_range [of zero_env t]
    by (auto simp: term_simplify_def take_bit_int_eq_self split: smt_value.splits)
qed (simp add: term_simplify_def)

lemma term_app_sem:
  assumes "\<And>\<sigma>. z3_sem op (map (term_sem \<sigma>) ts) = Some (F \<sigma>)"
  shows "term_app op ts = Some (T_app op ts)" "term_sem \<sigma> (T_app op ts) = F \<sigma>"
  using assms by (simp_all add: term_app_def)

interpretation term_lib: z3_laws term_z3 term_sem
proof
  show "0 < n \<and> 0 \<le> i \<and> i < 2 ^ n" if "term_sem \<sigma> x = BVV n i" for \<sigma> x n i
    using term_sem_range [of \<sigma> x] that by simp
  show "\<exists>e. mk_app term_z3 op xs = Some e \<and> (\<forall>\<sigma>. term_sem \<sigma> e = F \<sigma>)"
    if "\<And>\<sigma>. z3_sem op (map (term_sem \<sigma>) xs) = Some (F \<sigma>)" for op xs F
    using term_app_sem [OF that] by (auto simp: term_z3_def)
  show "mk_app term_z3 op xs = None" if "\<And>\<sigma>. z3_sem op (map (term_sem \<sigma>) xs) = None" for op xs
    using that [of zero_env] by (simp add: term_z3_def term_app_def)
  show "term_sem \<sigma> (z3_simplify term_z3 x) = term_sem \<sigma> x" for \<sigma> x
    by (simp add: term_z3_def term_simplify_sem)
  show "ast_bits term_z3 x = Some n" if "\<And>\<sigma>. \<exists>i. term_sem \<sigma> x = BVV n i" for x n
    using that [of zero_env] by (auto simp: term_z3_def)
  show "\<exists>\<sigma>. \<forall>c \<in> set cs. term_sem \<sigma> c = BoolV True" if "solver_check term_z3 cs = Z3_L_TRUE" for cs
    using that by (auto simp: term_z3_def list_all_iff split: if_splits)
  show "\<not> (\<exists>\<sigma>. \<forall>c \<in> set cs. term_sem \<sigma> c = BoolV True)"
    if "solver_check term_z3 cs = Z3_L_FALSE" for cs
    using that by (auto simp: term_z3_def list_ex_iff split: if_splits intro: bexI [of _ "T_bool False"])
qed (auto simp: term_z3_def split: if_splits)

end
