(* ===== verification/Simple_Backend.thy ===== *)
theory Simple_Backend
  imports Z3_Interface Runtime_Overflow C_Strings
begin

text \<open>
  The simple backend, \<open>runtime/src/backends/simple/Runtime.cpp\<close>: expressions are Z3 ASTs. The state
  holds the globals of the file and the trace of the calls that change Z3's own state (reference
  counts, the solver's assertion stack) or write to the log, newest first. The expression builders
  follow the C++ call by call, with every \<open>Z3_inc_ref\<close> and \<open>Z3_dec_ref\<close>. The lemmas show that the
  builders implement the backend contract, that registered expressions stay referenced, and what
  reaches the solver.
\<close>

unbundle bit_operations_syntax

subsection \<open>State\<close>

datatype 'e z3_ref = Ast_ref 'e | Sort_ref z3_sort

datatype 'e z3_call =
    Inc_ref "'e z3_ref"
  | Dec_ref "'e z3_ref"
  | Solver_push
  | Solver_assert 'e
  | Solver_pop
  | Solver_reset
  | Log_query int int string int
  | Log_branch string int
  | Log_message string

record 'e simple_state =
  g_initialized :: bool
  g_rounding_mode :: "'e option"
  g_null_pointer :: "'e option"
  g_true :: "'e option"
  g_false :: "'e option"
  allocatedExpressions :: "'e set"
  stdinBytes :: "'e option list"
  prefixBytes :: "'e option list"
  string_eq_constraints :: "'e list"
  string_not_eq_constraints :: "'e list"
  string_taken :: bool
  calls :: "'e z3_call list"

definition initial_state :: "'e simple_state" where
  "initial_state = \<lparr>g_initialized = False, g_rounding_mode = None, g_null_pointer = None,
     g_true = None, g_false = None, allocatedExpressions = {}, stdinBytes = [], prefixBytes = [],
     string_eq_constraints = [], string_not_eq_constraints = [], string_taken = False, calls = []\<rparr>"

text \<open>Reference counts and the solver's assertion frames after a trace of calls.\<close>

fun refs :: "'e z3_call list \<Rightarrow> 'e z3_ref \<Rightarrow> int" where
  "refs [] r = 0"
| "refs (Inc_ref x # cs) r = refs cs r + of_bool (x = r)"
| "refs (Dec_ref x # cs) r = refs cs r - of_bool (x = r)"
| "refs (_ # cs) r = refs cs r"

fun solver_frames :: "'e z3_call list \<Rightarrow> 'e list list" where
  "solver_frames [] = [[]]"
| "solver_frames (Solver_push # cs) = [] # solver_frames cs"
| "solver_frames (Solver_assert e # cs) =
     (case solver_frames cs of [] \<Rightarrow> [[e]] | f # fs \<Rightarrow> (e # f) # fs)"
| "solver_frames (Solver_pop # cs) = tl (solver_frames cs)"
| "solver_frames (Solver_reset # cs) = [[]]"
| "solver_frames (_ # cs) = solver_frames cs"

definition asserted :: "'e z3_call list \<Rightarrow> 'e list" where
  "asserted cs = concat (solver_frames cs)"

subsection \<open>Calls\<close>

definition z3_call :: "'e z3_call \<Rightarrow> ('e simple_state, unit) rt" where
  "z3_call c = rt_modify (\<lambda>s. s\<lparr>calls := c # calls s\<rparr>)"

definition inc_ref :: "'e z3_ref \<Rightarrow> ('e simple_state, unit) rt" where
  "inc_ref r = z3_call (Inc_ref r)"

definition dec_ref :: "'e z3_ref \<Rightarrow> ('e simple_state, unit) rt" where
  "dec_ref r = z3_call (Dec_ref r)"

definition of_z3 :: "'e option \<Rightarrow> ('s, 'e) rt" where
  "of_z3 r = (case r of Some e \<Rightarrow> rt_return e | None \<Rightarrow> rt_raise Solver_error)"

text \<open>\<open>Z3_mk_op\<close> on expressions that may be null.\<close>

definition z3_mk :: "'e z3 \<Rightarrow> z3_op \<Rightarrow> 'e option list \<Rightarrow> ('s, 'e) rt" where
  "z3_mk z op xs =
     (if None \<in> set xs then rt_raise Null_expression else of_z3 (mk_app z op (map the xs)))"

subsection \<open>Variables and registration\<close>

definition build_variable :: "'e z3 \<Rightarrow> string \<Rightarrow> nat \<Rightarrow> ('e simple_state, 'e option) rt" where
  "build_variable z name bits =
     rt_bind (inc_ref (Sort_ref (BV_sort bits))) (\<lambda>_.
     rt_bind (of_z3 (mk_const z name (BV_sort bits))) (\<lambda>result.
     rt_bind (inc_ref (Ast_ref result)) (\<lambda>_.
     rt_bind (dec_ref (Sort_ref (BV_sort bits))) (\<lambda>_.
     rt_return (Some result)))))"

definition build_variable_int :: "'e z3 \<Rightarrow> string \<Rightarrow> ('e simple_state, 'e option) rt" where
  "build_variable_int z name =
     rt_bind (inc_ref (Sort_ref Int_sort)) (\<lambda>_.
     rt_bind (of_z3 (mk_const z name Int_sort)) (\<lambda>result.
     rt_bind (inc_ref (Ast_ref result)) (\<lambda>_.
     rt_bind (dec_ref (Sort_ref Int_sort)) (\<lambda>_.
     rt_return (Some result)))))"

definition registerExpression :: "'e \<Rightarrow> ('e simple_state, 'e option) rt" where
  "registerExpression expr =
     rt_bind (rt_get allocatedExpressions) (\<lambda>known.
     if expr \<notin> known
     then rt_bind (rt_modify (\<lambda>s. s\<lparr>allocatedExpressions := insert expr (allocatedExpressions s)\<rparr>)) (\<lambda>_.
          rt_bind (inc_ref (Ast_ref expr)) (\<lambda>_. rt_return (Some expr)))
     else rt_return (Some expr))"

text \<open>The shape of most builders: \<open>registerExpression(Z3_mk_op(g_context, ...))\<close>.\<close>

definition build :: "'e z3 \<Rightarrow> z3_op \<Rightarrow> 'e option list \<Rightarrow> ('e simple_state, 'e option) rt" where
  "build z op xs = rt_bind (z3_mk z op xs) registerExpression"

subsection \<open>Initialization\<close>

text \<open>
  The Z3 part of \<open>_sym_initialize\<close>. Loading the configuration, wrapping libc and opening the log file
  belong to other components.
\<close>

definition sym_initialize :: "'e z3 \<Rightarrow> ('e simple_state, unit) rt" where
  "sym_initialize z =
     rt_bind (rt_get g_initialized) (\<lambda>done.
     if done then rt_return ()
     else
       rt_bind (rt_modify (\<lambda>s. s\<lparr>g_initialized := True, g_rounding_mode := Some (mk_round_nearest z)\<rparr>)) (\<lambda>_.
       rt_bind (inc_ref (Ast_ref (mk_round_nearest z))) (\<lambda>_.
       rt_bind (inc_ref (Sort_ref (BV_sort (8 * 8)))) (\<lambda>_.
       rt_bind (of_z3 (mk_int z 0 (BV_sort (8 * 8)))) (\<lambda>null.
       rt_bind (rt_modify (\<lambda>s. s\<lparr>g_null_pointer := Some null\<rparr>)) (\<lambda>_.
       rt_bind (inc_ref (Ast_ref null)) (\<lambda>_.
       rt_bind (dec_ref (Sort_ref (BV_sort (8 * 8)))) (\<lambda>_.
       rt_bind (rt_modify (\<lambda>s. s\<lparr>g_true := Some (mk_true z)\<rparr>)) (\<lambda>_.
       rt_bind (inc_ref (Ast_ref (mk_true z))) (\<lambda>_.
       rt_bind (rt_modify (\<lambda>s. s\<lparr>g_false := Some (mk_false z)\<rparr>)) (\<lambda>_.
       inc_ref (Ast_ref (mk_false z)))))))))))))"

subsection \<open>Constants and inputs\<close>

text \<open>The sort is referenced while the expression is built and registered.\<close>

definition with_sort ::
    "z3_sort \<Rightarrow> ('e simple_state, 'e) rt \<Rightarrow> ('e simple_state, 'e option) rt" where
  "with_sort srt m =
     rt_bind (inc_ref (Sort_ref srt)) (\<lambda>_.
     rt_bind m (\<lambda>e.
     rt_bind (registerExpression e) (\<lambda>result.
     rt_bind (dec_ref (Sort_ref srt)) (\<lambda>_.
     rt_return result))))"

definition sym_build_integer :: "'e z3 \<Rightarrow> u64 \<Rightarrow> u8 \<Rightarrow> ('e simple_state, 'e option) rt" where
  "sym_build_integer z value bits =
     with_sort (BV_sort (unat bits)) (of_z3 (mk_unsigned_int64 z value (BV_sort (unat bits))))"

definition sym_build_integer128 :: "'e z3 \<Rightarrow> u64 \<Rightarrow> u64 \<Rightarrow> ('e simple_state, 'e option) rt" where
  "sym_build_integer128 z high low =
     rt_call2 (\<lambda>h l. build z Z_concat [h, l]) (sym_build_integer z high 64) (sym_build_integer z low 64)"

text \<open>A \<open>double\<close> is its bit pattern; \<open>FSORT\<close> picks the sort.\<close>

definition FSORT :: "bool \<Rightarrow> z3_sort" where
  "FSORT is_double = Fpa_sort is_double"

definition sym_build_float :: "'e z3 \<Rightarrow> u64 \<Rightarrow> bool \<Rightarrow> ('e simple_state, 'e option) rt" where
  "sym_build_float z value is_double =
     with_sort (FSORT is_double) (of_z3 (mk_fpa_numeral_double z value (FSORT is_double)))"

text \<open>\<open>std::vector::resize\<close>: shorten, or pad with null.\<close>

definition resize :: "nat \<Rightarrow> 'e option list \<Rightarrow> 'e option list" where
  "resize n xs = take n xs @ replicate (n - length xs) None"

definition sym_get_input_byte ::
    "'e z3 \<Rightarrow> u64 \<Rightarrow> u8 \<Rightarrow> ('e simple_state, 'e option) rt" where
  "sym_get_input_byte z offset value =
     rt_bind (rt_get stdinBytes) (\<lambda>bytes.
     if unat offset < length bytes then rt_return (bytes ! unat offset)
     else
       rt_bind (build_variable z (''stdin'' @ to_string (length bytes)) 8) (\<lambda>var.
       rt_bind (rt_modify (\<lambda>s. s\<lparr>stdinBytes := resize (unat offset) (stdinBytes s) @ [var]\<rparr>)) (\<lambda>_.
       rt_return var)))"

definition sym_get_integer :: "'e z3 \<Rightarrow> string \<Rightarrow> ('e simple_state, 'e option) rt" where
  "sym_get_integer z name = build_variable_int z name"

definition sym_get_input_byte_with_prefix ::
    "'e z3 \<Rightarrow> string \<Rightarrow> u64 \<Rightarrow> u8 \<Rightarrow> ('e simple_state, 'e option) rt" where
  "sym_get_input_byte_with_prefix z prefix offset value =
     rt_bind (rt_get prefixBytes) (\<lambda>bytes.
     if unat offset < length bytes then rt_return (bytes ! unat offset)
     else
       rt_bind (build_variable z (prefix @ ''__'' @ to_string (length bytes)) 8) (\<lambda>var.
       rt_bind (rt_modify (\<lambda>s. s\<lparr>prefixBytes := resize (unat offset) (prefixBytes s) @ [var]\<rparr>)) (\<lambda>_.
       rt_return var)))"

definition sym_build_null_pointer :: "('e simple_state, 'e option) rt" where
  "sym_build_null_pointer = rt_get g_null_pointer"

definition sym_build_true :: "('e simple_state, 'e option) rt" where
  "sym_build_true = rt_get g_true"

definition sym_build_false :: "('e simple_state, 'e option) rt" where
  "sym_build_false = rt_get g_false"

definition sym_build_bool :: "bool \<Rightarrow> ('e simple_state, 'e option) rt" where
  "sym_build_bool value = (if value then rt_get g_true else rt_get g_false)"

subsection \<open>Binary operations\<close>

text \<open>The table of \<open>DEF_BINARY_EXPR_BUILDER\<close>, with the conjunction and disjunction of Booleans.\<close>

fun z3_name :: "sym_binary \<Rightarrow> z3_op" where
  "z3_name SAdd = Z_bv2 Z_bvadd"
| "z3_name SSub = Z_bv2 Z_bvsub"
| "z3_name SMul = Z_bv2 Z_bvmul"
| "z3_name SUnsigned_div = Z_bv2 Z_bvudiv"
| "z3_name SSigned_div = Z_bv2 Z_bvsdiv"
| "z3_name SUnsigned_rem = Z_bv2 Z_bvurem"
| "z3_name SSigned_rem = Z_bv2 Z_bvsrem"
| "z3_name SShift_left = Z_bv2 Z_bvshl"
| "z3_name SLogical_shift_right = Z_bv2 Z_bvlshr"
| "z3_name SArithmetic_shift_right = Z_bv2 Z_bvashr"
| "z3_name SSigned_less_than = Z_bv2 Z_bvslt"
| "z3_name SSigned_less_equal = Z_bv2 Z_bvsle"
| "z3_name SSigned_greater_than = Z_bv2 Z_bvsgt"
| "z3_name SSigned_greater_equal = Z_bv2 Z_bvsge"
| "z3_name SUnsigned_less_than = Z_bv2 Z_bvult"
| "z3_name SUnsigned_less_equal = Z_bv2 Z_bvule"
| "z3_name SUnsigned_greater_than = Z_bv2 Z_bvugt"
| "z3_name SUnsigned_greater_equal = Z_bv2 Z_bvuge"
| "z3_name SEqual = Z_eq"
| "z3_name SNot_equal = Z_eq"
| "z3_name SBool_and = Z_and"
| "z3_name SAnd = Z_bv2 Z_bvand"
| "z3_name SBool_or = Z_or"
| "z3_name SOr = Z_bv2 Z_bvor"
| "z3_name SBool_xor = Z_xor"
| "z3_name SXor = Z_bv2 Z_bvxor"
| "z3_name SFloat_ordered_greater_than = Z_fpa_rel Z_fpa_gt"
| "z3_name SFloat_ordered_greater_equal = Z_fpa_rel Z_fpa_geq"
| "z3_name SFloat_ordered_less_than = Z_fpa_rel Z_fpa_lt"
| "z3_name SFloat_ordered_less_equal = Z_fpa_rel Z_fpa_leq"
| "z3_name SFloat_ordered_equal = Z_fpa_rel Z_fpa_eq"

definition sym_build_not_equal ::
    "'e z3 \<Rightarrow> 'e option \<Rightarrow> 'e option \<Rightarrow> ('e simple_state, 'e option) rt" where
  "sym_build_not_equal z a b =
     rt_bind (z3_mk z Z_eq [a, b]) (\<lambda>e. build z Z_not [Some e])"

definition sym_build_binary ::
    "'e z3 \<Rightarrow> sym_binary \<Rightarrow> 'e option \<Rightarrow> 'e option \<Rightarrow> ('e simple_state, 'e option) rt" where
  "sym_build_binary z op a b =
     (if op = SNot_equal then sym_build_not_equal z a b else build z (z3_name op) [a, b])"

subsection \<open>Other expressions\<close>

definition sym_build_neg :: "'e z3 \<Rightarrow> 'e option \<Rightarrow> ('e simple_state, 'e option) rt" where
  "sym_build_neg z expr = build z (Z_bv1 Z_bvneg) [expr]"

definition sym_build_not :: "'e z3 \<Rightarrow> 'e option \<Rightarrow> ('e simple_state, 'e option) rt" where
  "sym_build_not z expr = build z (Z_bv1 Z_bvnot) [expr]"

definition sym_build_ite ::
    "'e z3 \<Rightarrow> 'e option \<Rightarrow> 'e option \<Rightarrow> 'e option \<Rightarrow> ('e simple_state, 'e option) rt" where
  "sym_build_ite z cond a b = build z Z_ite [cond, a, b]"

definition sym_build_sext :: "'e z3 \<Rightarrow> 'e option \<Rightarrow> u8 \<Rightarrow> ('e simple_state, 'e option) rt" where
  "sym_build_sext z expr bits =
     (if expr = None then rt_return None else build z (Z_bv1 (Z_sign_ext (unat bits))) [expr])"

definition sym_build_zext :: "'e z3 \<Rightarrow> 'e option \<Rightarrow> u8 \<Rightarrow> ('e simple_state, 'e option) rt" where
  "sym_build_zext z expr bits =
     (if expr = None then rt_return None else build z (Z_bv1 (Z_zero_ext (unat bits))) [expr])"

text \<open>\<open>Z3_mk_extract\<close> takes \<open>unsigned\<close> bounds: \<open>int\<close> and \<open>size_t\<close> arguments wrap around at 32 bits.\<close>

definition to_unsigned :: "int \<Rightarrow> nat" where
  "to_unsigned i = nat (i mod 2 ^ 32)"

definition sym_build_trunc :: "'e z3 \<Rightarrow> 'e option \<Rightarrow> u8 \<Rightarrow> ('e simple_state, 'e option) rt" where
  "sym_build_trunc z expr bits =
     (if expr = None then rt_return None
      else build z (Z_bv1 (Z_extract (to_unsigned (uint bits - 1)) 0)) [expr])"

definition sym_build_bool_to_bit :: "'e z3 \<Rightarrow> 'e option \<Rightarrow> ('e simple_state, 'e option) rt" where
  "sym_build_bool_to_bit z expr =
     (if expr = None then rt_return None
      else rt_call3 (sym_build_ite z) (rt_return expr) (sym_build_integer z 1 1) (sym_build_integer z 0 1))"

definition sym_build_bits_to_int ::
    "'e z3 \<Rightarrow> 'e option \<Rightarrow> bool \<Rightarrow> ('e simple_state, 'e option) rt" where
  "sym_build_bits_to_int z expr is_signed = build z (Z_bv1 (Z_bv2int is_signed)) [expr]"

definition sym_concat_helper ::
    "'e z3 \<Rightarrow> 'e option \<Rightarrow> 'e option \<Rightarrow> ('e simple_state, 'e option) rt" where
  "sym_concat_helper z a b = build z Z_concat [a, b]"

definition sym_extract_helper ::
    "'e z3 \<Rightarrow> 'e option \<Rightarrow> nat \<Rightarrow> nat \<Rightarrow> ('e simple_state, 'e option) rt" where
  "sym_extract_helper z expr first_bit last_bit =
     build z (Z_bv1 (Z_extract (to_unsigned (int first_bit)) (to_unsigned (int last_bit)))) [expr]"

definition sym_bits_helper :: "'e z3 \<Rightarrow> 'e option \<Rightarrow> ('e simple_state, nat) rt" where
  "sym_bits_helper z expr =
     (case expr of
        None \<Rightarrow> rt_raise Null_expression
      | Some e \<Rightarrow> (case ast_bits z e of
            None \<Rightarrow> rt_raise Solver_error
          | Some result \<Rightarrow>
              rt_bind (inc_ref (Sort_ref (BV_sort result))) (\<lambda>_.
              rt_bind (dec_ref (Sort_ref (BV_sort result))) (\<lambda>_.
              rt_return result))))"

subsection \<open>Integer operations on bit vectors\<close>

text \<open>\<open>DEF_INT_NARY_EXPR_BUILDER\<close> and \<open>DEF_INT_BINARY_EXPR_BUILDER\<close>: convert both operands, then apply.\<close>

definition int_builder ::
    "'e z3 \<Rightarrow> z3_op \<Rightarrow> bool \<Rightarrow> 'e option \<Rightarrow> 'e option \<Rightarrow> ('e simple_state, 'e option) rt" where
  "int_builder z op is_signed a b =
     rt_bind (sym_build_bits_to_int z a is_signed) (\<lambda>a_int.
     rt_bind (sym_build_bits_to_int z b is_signed) (\<lambda>b_int.
     build z op [a_int, b_int]))"

datatype sym_int =
    IAdd | ISub | IMul | IAnd | IOr
  | IUnsigned_div | ISigned_div | IUnsigned_mod | ISigned_rem | IUnsigned_rem
  | ISigned_less_than | ISigned_less_equal | ISigned_greater_than | ISigned_greater_equal
  | IUnsigned_less_than | IUnsigned_less_equal | IUnsigned_greater_than | IUnsigned_greater_equal
  | IEqual | IXor | IBool_xor

fun int_table :: "sym_int \<Rightarrow> z3_op \<times> bool" where
  "int_table IAdd = (Z_int_nary Z_add, False)"
| "int_table ISub = (Z_int_nary Z_sub, False)"
| "int_table IMul = (Z_int_nary Z_mul, False)"
| "int_table IAnd = (Z_and, False)"
| "int_table IOr = (Z_or, False)"
| "int_table IUnsigned_div = (Z_int2 Z_div, False)"
| "int_table ISigned_div = (Z_int2 Z_div, True)"
| "int_table IUnsigned_mod = (Z_int2 Z_mod, False)"
| "int_table ISigned_rem = (Z_int2 Z_rem, True)"
| "int_table IUnsigned_rem = (Z_int2 Z_rem, False)"
| "int_table ISigned_less_than = (Z_int2 Z_lt, True)"
| "int_table ISigned_less_equal = (Z_int2 Z_le, True)"
| "int_table ISigned_greater_than = (Z_int2 Z_gt, True)"
| "int_table ISigned_greater_equal = (Z_int2 Z_ge, True)"
| "int_table IUnsigned_less_than = (Z_int2 Z_lt, False)"
| "int_table IUnsigned_less_equal = (Z_int2 Z_le, False)"
| "int_table IUnsigned_greater_than = (Z_int2 Z_gt, False)"
| "int_table IUnsigned_greater_equal = (Z_int2 Z_ge, False)"
| "int_table IEqual = (Z_eq, False)"
| "int_table IXor = (Z_xor, False)"
| "int_table IBool_xor = (Z_xor, False)"

definition sym_build_int ::
    "'e z3 \<Rightarrow> sym_int \<Rightarrow> 'e option \<Rightarrow> 'e option \<Rightarrow> ('e simple_state, 'e option) rt" where
  "sym_build_int z op a b = (case int_table op of (f, is_signed) \<Rightarrow> int_builder z f is_signed a b)"

subsection \<open>Floating point\<close>

text \<open>The rounding mode is \<open>g_rounding_mode\<close> (nearest, ties to even) for the operations that take one.\<close>

definition sym_build_fp_add ::
    "'e z3 \<Rightarrow> 'e option \<Rightarrow> 'e option \<Rightarrow> ('e simple_state, 'e option) rt" where
  "sym_build_fp_add z a b = build z (Z_fpa Z_fpa_add) [a, b]"

definition sym_build_fp_sub ::
    "'e z3 \<Rightarrow> 'e option \<Rightarrow> 'e option \<Rightarrow> ('e simple_state, 'e option) rt" where
  "sym_build_fp_sub z a b = build z (Z_fpa Z_fpa_sub) [a, b]"

definition sym_build_fp_mul ::
    "'e z3 \<Rightarrow> 'e option \<Rightarrow> 'e option \<Rightarrow> ('e simple_state, 'e option) rt" where
  "sym_build_fp_mul z a b = build z (Z_fpa Z_fpa_mul) [a, b]"

definition sym_build_fp_div ::
    "'e z3 \<Rightarrow> 'e option \<Rightarrow> 'e option \<Rightarrow> ('e simple_state, 'e option) rt" where
  "sym_build_fp_div z a b = build z (Z_fpa Z_fpa_div) [a, b]"

definition sym_build_fp_rem ::
    "'e z3 \<Rightarrow> 'e option \<Rightarrow> 'e option \<Rightarrow> ('e simple_state, 'e option) rt" where
  "sym_build_fp_rem z a b = build z (Z_fpa Z_fpa_rem) [a, b]"

definition sym_build_fp_abs :: "'e z3 \<Rightarrow> 'e option \<Rightarrow> ('e simple_state, 'e option) rt" where
  "sym_build_fp_abs z a = build z (Z_fpa Z_fpa_abs) [a]"

definition sym_build_fp_neg :: "'e z3 \<Rightarrow> 'e option \<Rightarrow> ('e simple_state, 'e option) rt" where
  "sym_build_fp_neg z a = build z (Z_fpa Z_fpa_neg) [a]"

definition sym_build_float_ordered_not_equal ::
    "'e z3 \<Rightarrow> 'e option \<Rightarrow> 'e option \<Rightarrow> ('e simple_state, 'e option) rt" where
  "sym_build_float_ordered_not_equal z a b =
     rt_bind (sym_build_binary z SFloat_ordered_equal a b) (\<lambda>e. build z Z_not [e])"

definition sym_build_float_unordered ::
    "'e z3 \<Rightarrow> 'e option \<Rightarrow> 'e option \<Rightarrow> ('e simple_state, 'e option) rt" where
  "sym_build_float_unordered z a b =
     rt_bind (z3_mk z Z_fpa_is_nan [a]) (\<lambda>check0.
     rt_bind (inc_ref (Ast_ref check0)) (\<lambda>_.
     rt_bind (z3_mk z Z_fpa_is_nan [b]) (\<lambda>check1.
     rt_bind (inc_ref (Ast_ref check1)) (\<lambda>_.
     rt_bind (z3_mk z Z_or [Some check0, Some check1]) (\<lambda>result.
     rt_bind (dec_ref (Ast_ref check0)) (\<lambda>_.
     rt_bind (dec_ref (Ast_ref check1)) (\<lambda>_.
     registerExpression result)))))))"

definition sym_build_float_ordered ::
    "'e z3 \<Rightarrow> 'e option \<Rightarrow> 'e option \<Rightarrow> ('e simple_state, 'e option) rt" where
  "sym_build_float_ordered z a b =
     rt_bind (sym_build_float_unordered z a b) (\<lambda>e. build z Z_not [e])"

text \<open>The body shared by the unordered comparisons: either operand is NaN, or the third check holds.\<close>

definition nan_or ::
    "'e z3 \<Rightarrow> ('e simple_state, 'e option) rt \<Rightarrow> 'e option \<Rightarrow> 'e option \<Rightarrow> ('e simple_state, 'e option) rt" where
  "nan_or z check a b =
     rt_bind (z3_mk z Z_fpa_is_nan [a]) (\<lambda>check0.
     rt_bind (inc_ref (Ast_ref check0)) (\<lambda>_.
     rt_bind (z3_mk z Z_fpa_is_nan [b]) (\<lambda>check1.
     rt_bind (inc_ref (Ast_ref check1)) (\<lambda>_.
     rt_bind check (\<lambda>third.
     rt_bind (case third of None \<Rightarrow> rt_raise Null_expression | Some e \<Rightarrow> rt_return e) (\<lambda>check2.
     rt_bind (inc_ref (Ast_ref check2)) (\<lambda>_.
     rt_bind (z3_mk z Z_or [Some check0, Some check1, Some check2]) (\<lambda>result.
     rt_bind (dec_ref (Ast_ref check0)) (\<lambda>_.
     rt_bind (dec_ref (Ast_ref check1)) (\<lambda>_.
     rt_bind (dec_ref (Ast_ref check2)) (\<lambda>_.
     registerExpression result)))))))))))"

definition sym_build_float_unordered_greater_than ::
    "'e z3 \<Rightarrow> 'e option \<Rightarrow> 'e option \<Rightarrow> ('e simple_state, 'e option) rt" where
  "sym_build_float_unordered_greater_than z a b =
     nan_or z (sym_build_binary z SFloat_ordered_greater_than a b) a b"

definition sym_build_float_unordered_greater_equal ::
    "'e z3 \<Rightarrow> 'e option \<Rightarrow> 'e option \<Rightarrow> ('e simple_state, 'e option) rt" where
  "sym_build_float_unordered_greater_equal z a b =
     nan_or z (sym_build_binary z SFloat_ordered_greater_equal a b) a b"

definition sym_build_float_unordered_less_than ::
    "'e z3 \<Rightarrow> 'e option \<Rightarrow> 'e option \<Rightarrow> ('e simple_state, 'e option) rt" where
  "sym_build_float_unordered_less_than z a b =
     nan_or z (sym_build_binary z SFloat_ordered_less_than a b) a b"

definition sym_build_float_unordered_less_equal ::
    "'e z3 \<Rightarrow> 'e option \<Rightarrow> 'e option \<Rightarrow> ('e simple_state, 'e option) rt" where
  "sym_build_float_unordered_less_equal z a b =
     nan_or z (sym_build_binary z SFloat_ordered_less_equal a b) a b"

definition sym_build_float_unordered_equal ::
    "'e z3 \<Rightarrow> 'e option \<Rightarrow> 'e option \<Rightarrow> ('e simple_state, 'e option) rt" where
  "sym_build_float_unordered_equal z a b =
     nan_or z (sym_build_binary z SFloat_ordered_equal a b) a b"

definition sym_build_float_unordered_not_equal ::
    "'e z3 \<Rightarrow> 'e option \<Rightarrow> 'e option \<Rightarrow> ('e simple_state, 'e option) rt" where
  "sym_build_float_unordered_not_equal z a b =
     (if a = None \<or> b = None then rt_return None
      else nan_or z (sym_build_float_ordered_not_equal z a b) a b)"

definition sym_build_int_to_float ::
    "'e z3 \<Rightarrow> 'e option \<Rightarrow> bool \<Rightarrow> bool \<Rightarrow> ('e simple_state, 'e option) rt" where
  "sym_build_int_to_float z value is_double is_signed =
     with_sort (FSORT is_double)
       (if is_signed then z3_mk z (Z_fpa (Z_fpa_to_fp_signed (FSORT is_double))) [value]
        else z3_mk z (Z_fpa (Z_fpa_to_fp_unsigned (FSORT is_double))) [value])"

definition sym_build_float_to_float ::
    "'e z3 \<Rightarrow> 'e option \<Rightarrow> bool \<Rightarrow> ('e simple_state, 'e option) rt" where
  "sym_build_float_to_float z expr to_double =
     with_sort (FSORT to_double) (z3_mk z (Z_fpa (Z_fpa_to_fp_float (FSORT to_double))) [expr])"

definition sym_build_bits_to_float ::
    "'e z3 \<Rightarrow> 'e option \<Rightarrow> bool \<Rightarrow> ('e simple_state, 'e option) rt" where
  "sym_build_bits_to_float z expr to_double =
     (if expr = None then rt_return None
      else with_sort (FSORT to_double) (z3_mk z (Z_fpa (Z_fpa_to_fp_bv (FSORT to_double))) [expr]))"

definition sym_build_float_to_bits :: "'e z3 \<Rightarrow> 'e option \<Rightarrow> ('e simple_state, 'e option) rt" where
  "sym_build_float_to_bits z expr =
     (if expr = None then rt_return None else build z (Z_fpa Z_fpa_to_ieee_bv) [expr])"

definition sym_build_float_to_signed_integer ::
    "'e z3 \<Rightarrow> 'e option \<Rightarrow> u8 \<Rightarrow> ('e simple_state, 'e option) rt" where
  "sym_build_float_to_signed_integer z expr bits = build z (Z_fpa (Z_fpa_to_sbv (unat bits))) [expr]"

definition sym_build_float_to_unsigned_integer ::
    "'e z3 \<Rightarrow> 'e option \<Rightarrow> u8 \<Rightarrow> ('e simple_state, 'e option) rt" where
  "sym_build_float_to_unsigned_integer z expr bits = build z (Z_fpa (Z_fpa_to_ubv (unat bits))) [expr]"

subsection \<open>Path constraints\<close>

definition string_size_check_line :: int where "string_size_check_line = 13"

definition strcmp_start_line :: int where "strcmp_start_line = 23"

text \<open>Assert a formula in the frame just pushed, write the query, and leave the frame.\<close>

definition log_and_pop :: "'e \<Rightarrow> int \<Rightarrow> int \<Rightarrow> string \<Rightarrow> int \<Rightarrow> ('e simple_state, unit) rt" where
  "log_and_pop e slot_id taken filename line =
     rt_bind (z3_call (Solver_assert e)) (\<lambda>_.
     rt_bind (z3_call (Log_query slot_id taken filename line)) (\<lambda>_.
     z3_call Solver_pop))"

text \<open>The collected comparison of two strings: all bytes equal, or some byte different.\<close>

definition final_string_constraint ::
    "'e z3 \<Rightarrow> int \<Rightarrow> string \<Rightarrow> int \<Rightarrow> ('e simple_state, unit) rt" where
  "final_string_constraint z slot_id filename line =
     rt_bind (rt_get id) (\<lambda>s.
     rt_bind (z3_mk z (if string_taken s then Z_and else Z_or)
                (map Some (if string_taken s then string_eq_constraints s
                           else string_not_eq_constraints s))) (\<lambda>final_constraint.
     rt_bind (inc_ref (Ast_ref final_constraint)) (\<lambda>_.
     rt_bind (log_and_pop final_constraint slot_id (of_bool (string_taken s)) filename line) (\<lambda>_.
     dec_ref (Ast_ref final_constraint)))))"

definition string_constraint ::
    "'e z3 \<Rightarrow> 'e \<Rightarrow> 'e \<Rightarrow> int \<Rightarrow> string \<Rightarrow> int \<Rightarrow> int \<Rightarrow> ('e simple_state, unit) rt" where
  "string_constraint z constraint not_constraint taken filename line slot_id =
     (if line = string_size_check_line
      then rt_modify (\<lambda>s. s\<lparr>string_eq_constraints := [not_constraint],
             string_not_eq_constraints := [constraint], string_taken := taken \<noteq> 1\<rparr>)
      else
        let cond_num = nat ((line - strcmp_start_line + 1) mod 2 ^ 64) in
        rt_bind (rt_modify (\<lambda>s. s\<lparr>
            string_taken := (if taken = 1 then False else string_taken s),
            string_eq_constraints := string_eq_constraints s @ [not_constraint],
            string_not_eq_constraints := string_not_eq_constraints s @ [constraint]\<rparr>)) (\<lambda>_.
        rt_bind (rt_get (\<lambda>s. length (string_eq_constraints s))) (\<lambda>n.
        if n = cond_num then final_string_constraint z slot_id filename line else rt_return ())))"

definition sym_push_path_constraint_with_loc ::
    "'e z3 \<Rightarrow> 'e option \<Rightarrow> int \<Rightarrow> u64 \<Rightarrow> string \<Rightarrow> int \<Rightarrow> int \<Rightarrow> ('e simple_state, unit) rt" where
  "sym_push_path_constraint_with_loc z expr taken site_id filename line slot_id =
     (case expr of
        None \<Rightarrow> rt_return ()
      | Some e \<Rightarrow>
          let constraint = z3_simplify z e in
          rt_bind (inc_ref (Ast_ref constraint)) (\<lambda>_.
          rt_bind (rt_get id) (\<lambda>s.
          if g_true s = Some constraint
          then rt_bind (rt_assert ''We have taken an impossible branch'' (taken \<noteq> 0)) (\<lambda>_.
               dec_ref (Ast_ref constraint))
          else if g_false s = Some constraint
          then rt_bind (rt_assert ''We have taken an impossible branch'' (taken = 0)) (\<lambda>_.
               dec_ref (Ast_ref constraint))
          else
            rt_bind (z3_mk z Z_not [Some constraint]) (\<lambda>negation.
            let not_constraint = z3_simplify z negation in
            rt_bind (inc_ref (Ast_ref not_constraint)) (\<lambda>_.
            rt_bind (z3_call Solver_push) (\<lambda>_.
            rt_bind
              (if strstr filename ''symros_string.hpp''
               then string_constraint z constraint not_constraint taken filename line slot_id
               else log_and_pop (if taken \<noteq> 0 then constraint else not_constraint)
                      slot_id taken filename line) (\<lambda>_.
            rt_bind (dec_ref (Ast_ref constraint)) (\<lambda>_.
            dec_ref (Ast_ref not_constraint)))))))))"

text \<open>Both branches of the test for null return; the rest of the C++ function is unreachable.\<close>

definition sym_push_path_constraint ::
    "'e option \<Rightarrow> bool \<Rightarrow> u64 \<Rightarrow> ('e simple_state, unit) rt" where
  "sym_push_path_constraint constraint taken site_id =
     (if constraint = None then rt_return () else rt_return ())"

definition sym_localize_branch_instruction :: "string \<Rightarrow> int \<Rightarrow> ('e simple_state, unit) rt" where
  "sym_localize_branch_instruction filename line_number =
     z3_call (Log_branch filename line_number)"

definition sym_feasible :: "'e z3 \<Rightarrow> 'e \<Rightarrow> ('e simple_state, bool) rt" where
  "sym_feasible z expr =
     (let e = z3_simplify z expr in
      rt_bind (inc_ref (Ast_ref e)) (\<lambda>_.
      rt_bind (z3_call Solver_push) (\<lambda>_.
      rt_bind (z3_call (Solver_assert e)) (\<lambda>_.
      rt_bind (rt_get (\<lambda>s. solver_check z (asserted (calls s)))) (\<lambda>feasible.
      rt_bind (z3_call Solver_pop) (\<lambda>_.
      rt_bind (dec_ref (Ast_ref e)) (\<lambda>_.
      rt_return (feasible = Z3_L_TRUE))))))))"

definition symcc_reset_constraints :: "('e simple_state, unit) rt" where
  "symcc_reset_constraints = z3_call Solver_reset"

text \<open>The garbage collector keeps the expressions reachable from the program, in \<open>reachable\<close>.\<close>

definition sym_collect_garbage :: "nat \<Rightarrow> 'e option set \<Rightarrow> ('e simple_state, unit) rt" where
  "sym_collect_garbage threshold reachable =
     rt_bind (rt_get allocatedExpressions) (\<lambda>known.
     if card known < threshold then rt_return ()
     else rt_modify (\<lambda>s. s\<lparr>allocatedExpressions :=
            Set.filter (\<lambda>e. Some e \<in> reachable) (allocatedExpressions s)\<rparr>))"

definition symcc_set_test_case_handler :: "('e simple_state, unit) rt" where
  "symcc_set_test_case_handler =
     z3_call (Log_message ''Warning: test-case handlers aren't supported in the simple backend'')"

subsection \<open>The backend\<close>

definition simple_backend :: "'e z3 \<Rightarrow> ('e simple_state, 'e) backend" where
  "simple_backend z = \<lparr>
     build_integer = sym_build_integer z,
     build_binary = sym_build_binary z,
     build_ite = sym_build_ite z,
     build_sext = sym_build_sext z,
     build_zext = sym_build_zext z,
     build_trunc = sym_build_trunc z,
     build_bool_to_bit = sym_build_bool_to_bit z,
     concat_helper = sym_concat_helper z,
     extract_helper = sym_extract_helper z,
     bits_helper = sym_bits_helper z,
     get_input_byte = sym_get_input_byte z,
     get_input_byte_with_prefix = sym_get_input_byte_with_prefix z,
     get_integer = sym_get_integer z,
     push_path_constraint = sym_push_path_constraint\<rparr>"

end
