(* ===== verification/Simple_Backend_Laws.thy ===== *)
theory Simple_Backend_Laws
  imports Simple_Backend
begin

text \<open>
  The simple backend keeps the backend contract: for every solver library that keeps the laws of
  \<open>Z3_Interface\<close>, the builders denote what \<open>expr_backend\<close> asks for. Everything proved about the
  builders of \<open>RuntimeCommon.cpp\<close> therefore holds of the expressions the simple backend hands to Z3.
\<close>

subsection \<open>Live expressions\<close>

text \<open>An expression can be used while it is registered or referenced.\<close>

definition live_exprs :: "'e simple_state \<Rightarrow> 'e set" where
  "live_exprs s = allocatedExpressions s \<union> {e. 0 < refs (calls s) (Ast_ref e)}"

lemma registerExpression_ok:
  "rt_ok (registerExpression e) s
     (\<lambda>x s'. x = Some e \<and> e \<in> live_exprs s' \<and> live_exprs s \<subseteq> live_exprs s')"
  by (auto simp: registerExpression_def rt_simps inc_ref_def z3_call_def live_exprs_def)

lemma denotes_register:
  "(\<And>\<sigma>. sem \<sigma> e = F \<sigma>) \<Longrightarrow> denotes live_exprs sem (registerExpression e) s F"
  unfolding denotes_def by (rule rt_ok_mono [OF registerExpression_ok]) blast

lemma live_sort_refs:
  "live_exprs (s\<lparr>calls := Inc_ref (Sort_ref srt) # calls s\<rparr>) = live_exprs s"
  "live_exprs (s\<lparr>calls := Dec_ref (Sort_ref srt) # calls s\<rparr>) = live_exprs s"
  by (simp_all add: live_exprs_def)

lemma denotes_with_sort:
  assumes "r = Some e" "\<And>\<sigma>. sem \<sigma> e = F \<sigma>"
  shows "denotes live_exprs sem (with_sort srt (of_z3 r)) s F"
proof -
  let ?s = "s\<lparr>calls := Inc_ref (Sort_ref srt) # calls s\<rparr>"
  obtain s' where "registerExpression e ?s = Inr (Some e, s')" "e \<in> live_exprs s'"
    "live_exprs ?s \<subseteq> live_exprs s'"
    using registerExpression_ok [of e ?s] by (auto simp: rt_ok_def)
  then show ?thesis
    using assms live_sort_refs(1) [of srt s] live_sort_refs(2) [of srt s']
    by (simp add: denotes_def rt_ok_def with_sort_def of_z3_def inc_ref_def dec_ref_def z3_call_def
        rt_bind_def rt_modify_def rt_return_def)
qed

subsection \<open>The table of operations\<close>

lemma sval_div_pow: "0 < n \<Longrightarrow> sval n x div 2 ^ n = (if sval n x < 0 then - 1 else 0)"
proof -
  assume n: "0 < n"
  have b: "- (2 ^ n) \<le> sval n x" "sval n x < 2 ^ n"
    using sval_bounds [of n x] two_pow_pred [OF n] zero_less_power [of "2::int" "n - 1"] by linarith+
  show ?thesis
  proof (cases "sval n x < 0")
    case True
    have "sval n x div 2 ^ n = - 1"
      using b True by (intro int_div_pos_eq [where r = "sval n x + 2 ^ n"]) auto
    then show ?thesis using True by simp
  qed (use b in simp)
qed

lemma ashr_sem:
  "0 < n \<Longrightarrow> take_bit n (sval n x div 2 ^ (if y < int n then nat y else n)) =
    (if y < int n then take_bit n (drop_bit (nat y) (sval n x))
     else if sval n x < 0 then 2 ^ n - 1 else 0)"
  by (simp add: drop_bit_eq_div sval_div_pow mask_eq_exp_minus_1)

lemma bv_table:
  assumes "bv_binary op n x y = Some v" "op \<noteq> SNot_equal" "0 < n"
  shows "z3_sem (z3_name op) [BVV n x, BVV n y] = Some v"
  using assms
  by (cases op)
    (auto simp: z3_sem_def binary_sem_def eq_sem_def ashr_sem push_bit_eq_mult drop_bit_eq_div
      signed_divide_int_def signed_modulo_int_def split: if_splits)

lemma bool_table:
  assumes "bool_binary op p q = Some v" "op \<noteq> SNot_equal"
  shows "z3_sem (z3_name op) [BoolV p, BoolV q] = Some v"
  using assms by (cases op) (auto simp: z3_sem_def binary_sem_def eq_sem_def)

lemma float_table:
  assumes "float_binary op d x y = Some v"
  shows "z3_sem (z3_name op) [FloatV d x, FloatV d y] = Some v"
  using assms by (cases op) (auto simp: z3_sem_def binary_sem_def)

lemma binary_table:
  assumes "smt_binary op v w = Some r" "op \<noteq> SNot_equal" "in_range v"
  shows "z3_sem (z3_name op) [v, w] = Some r"
  using assms bv_table bool_table float_table by (cases v; cases w) (auto split: if_splits)

lemma not_equal_table:
  assumes "smt_binary SNot_equal v w = Some r"
  shows "\<exists>p. z3_sem Z_eq [v, w] = Some (BoolV p) \<and> r = BoolV (\<not> p)"
  using assms
  by (cases v; cases w) (auto simp: z3_sem_def binary_sem_def eq_sem_def split: if_splits)

subsection \<open>The contract\<close>

context z3_laws
begin

lemma denotes_build:
  assumes "\<And>\<sigma>. z3_sem op (map (sem \<sigma>) xs) = Some (F \<sigma>)"
  shows "denotes live_exprs sem (build z op (map Some xs)) s F"
proof -
  obtain e where e: "mk_app z op xs = Some e" "\<And>\<sigma>. sem \<sigma> e = F \<sigma>"
    using z3_app [OF assms] by auto
  have "map (the \<circ> Some) xs = xs" by (simp add: comp_def)
  then have "build z op (map Some xs) = registerExpression e"
    using e(1) by (simp add: build_def z3_mk_def of_z3_def)
  then show ?thesis using denotes_register [of sem e F s] e(2) by simp
qed

lemmas denotes_build1 = denotes_build [where xs = "[x]" for x, simplified]
lemmas denotes_build2 = denotes_build [where xs = "[x, y]" for x y, simplified]
lemmas denotes_build3 = denotes_build [where xs = "[x, y, w]" for x y w, simplified]

lemma range: "in_range (sem \<sigma> x)"
  using z3_range by (cases "sem \<sigma> x") auto

lemma denotes_integer:
  assumes "0 < unat w"
  shows "denotes live_exprs sem (sym_build_integer z k w) s
    (\<lambda>_. BVV (unat w) (take_bit (unat w) (uint k)))"
  using z3_numeral [OF assms, of k] unfolding sym_build_integer_def
  by (auto intro: denotes_with_sort)

lemma denotes_binary:
  assumes "\<And>\<sigma>. smt_binary op (sem \<sigma> x) (sem \<sigma> y) = Some (F \<sigma>)"
  shows "denotes live_exprs sem (sym_build_binary z op (Some x) (Some y)) s F"
proof (cases "op = SNot_equal")
  case False
  then show ?thesis
    using binary_table [OF assms] range by (auto simp: sym_build_binary_def intro: denotes_build2)
next
  case True
  with assms have "\<forall>\<sigma>. \<exists>p. z3_sem Z_eq [sem \<sigma> x, sem \<sigma> y] = Some (BoolV p) \<and> F \<sigma> = BoolV (\<not> p)"
    by (intro allI not_equal_table) simp
  then obtain p where p: "\<And>\<sigma>. z3_sem Z_eq [sem \<sigma> x, sem \<sigma> y] = Some (BoolV (p \<sigma>))"
    "\<And>\<sigma>. F \<sigma> = BoolV (\<not> p \<sigma>)" by metis
  obtain e where e: "mk_app z Z_eq [x, y] = Some e" "\<And>\<sigma>. sem \<sigma> e = BoolV (p \<sigma>)"
    using z3_app [of Z_eq "[x, y]" "\<lambda>\<sigma>. BoolV (p \<sigma>)"] p(1) by auto
  have "sym_build_binary z op (Some x) (Some y) = build z Z_not [Some e]"
    using True e(1) by (simp add: sym_build_binary_def sym_build_not_equal_def z3_mk_def of_z3_def)
  moreover have "denotes live_exprs sem (build z Z_not [Some e]) s F"
    by (rule denotes_build1) (simp add: z3_sem_def unary_sem_def e(2) p(2))
  ultimately show ?thesis by simp
qed

lemma bits_helper_ok:
  assumes "\<And>\<sigma>. \<exists>i. sem \<sigma> x = BVV n i"
  shows "\<exists>s'. sym_bits_helper z (Some x) s = Inr (n, s') \<and> live_exprs s \<subseteq> live_exprs s'"
  using z3_bits [OF assms]
  by (simp add: sym_bits_helper_def rt_bind_def inc_ref_def dec_ref_def z3_call_def rt_modify_def
      rt_return_def live_exprs_def)

lemma denotes_ite:
  assumes "\<And>\<sigma>. sem \<sigma> c = BoolV (p \<sigma>)" "\<And>\<sigma>. same_sort (sem \<sigma> x) (sem \<sigma> y)"
  shows "denotes live_exprs sem (sym_build_ite z (Some c) (Some x) (Some y)) s
    (\<lambda>\<sigma>. if p \<sigma> then sem \<sigma> x else sem \<sigma> y)"
  unfolding sym_build_ite_def by (rule denotes_build3) (simp add: z3_sem_def ite_sem_def assms)

lemma denotes_ext:
  assumes "\<And>\<sigma>. sem \<sigma> x = BVV n (f \<sigma>)"
  shows "denotes live_exprs sem (sym_build_sext z (Some x) w) s
      (\<lambda>\<sigma>. BVV (n + unat w) (take_bit (n + unat w) (sval n (f \<sigma>))))"
    and "denotes live_exprs sem (sym_build_zext z (Some x) w) s (\<lambda>\<sigma>. BVV (n + unat w) (f \<sigma>))"
  unfolding sym_build_sext_def sym_build_zext_def
  by (simp_all, (rule denotes_build1, simp add: z3_sem_def unary_sem_def assms)+)

lemma denotes_extract:
  assumes "\<And>\<sigma>. sem \<sigma> x = BVV n (f \<sigma>)" "lo \<le> hi" "hi < n"
  shows "denotes live_exprs sem (build z (Z_bv1 (Z_extract hi lo)) [Some x]) s
    (\<lambda>\<sigma>. BVV (hi - lo + 1) (bv_extract hi lo (f \<sigma>)))"
  by (rule denotes_build1)
    (simp add: z3_sem_def unary_sem_def assms bv_extract_def drop_bit_eq_div)

lemma to_unsigned_small: "n < 2 ^ 32 \<Longrightarrow> to_unsigned (int n) = n"
  by (simp add: to_unsigned_def)

lemma denotes_trunc:
  assumes "\<And>\<sigma>. sem \<sigma> x = BVV n (f \<sigma>)" "0 < unat w" "unat w \<le> n"
  shows "denotes live_exprs sem (sym_build_trunc z (Some x) w) s
    (\<lambda>\<sigma>. BVV (unat w) (take_bit (unat w) (f \<sigma>)))"
proof -
  have "unat w < 2 ^ LENGTH(8)" by (rule unsigned_less)
  moreover have "uint w - 1 = int (unat w - 1)"
    using assms(2) by (simp add: of_nat_diff)
  ultimately have hi: "to_unsigned (uint w - 1) = unat w - 1"
    by (simp only: to_unsigned_def) simp
  have "denotes live_exprs sem (build z (Z_bv1 (Z_extract (unat w - 1) 0)) [Some x]) s
      (\<lambda>\<sigma>. BVV (unat w - 1 - 0 + 1) (bv_extract (unat w - 1) 0 (f \<sigma>)))"
    by (rule denotes_extract) (use assms in auto)
  then show ?thesis
    using assms(2) by (simp add: sym_build_trunc_def hi bv_extract_def)
qed

lemma denotes_bool_to_bit:
  assumes "\<And>\<sigma>. sem \<sigma> x = BoolV (p \<sigma>)"
  shows "denotes live_exprs sem (sym_build_bool_to_bit z (Some x)) s (\<lambda>\<sigma>. BVV 1 (of_bool (p \<sigma>)))"
proof -
  have bit: "comp live_exprs sem L (sym_build_integer z k 1) (\<lambda>_. BVV 1 (take_bit 1 (uint k)))" for L k
    using denotes_integer [of 1 k] by (simp add: Backend.comp_def)
  have "comp live_exprs sem {} (rt_bind (sym_build_integer z 1 1) (\<lambda>t.
      rt_bind (sym_build_integer z 0 1) (\<lambda>f. sym_build_ite z (Some x) t f)))
      (\<lambda>\<sigma>. BVV 1 (of_bool (p \<sigma>)))"
  proof (rule comp_bind [OF bit], rule comp_bind [OF bit])
    fix t f
    assume t: "\<And>\<sigma>. sem \<sigma> t = BVV 1 (take_bit 1 (uint (1::u64)))"
      and f: "\<And>\<sigma>. sem \<sigma> f = BVV 1 (take_bit 1 (uint (0::u64)))"
    have "denotes live_exprs sem (sym_build_ite z (Some x) (Some t) (Some f)) s
        (\<lambda>\<sigma>. if p \<sigma> then sem \<sigma> t else sem \<sigma> f)" for s
      by (rule denotes_ite) (simp_all add: assms t f)
    moreover have "(if p \<sigma> then sem \<sigma> t else sem \<sigma> f) = BVV 1 (of_bool (p \<sigma>))" for \<sigma>
      using t f by simp
    ultimately show "comp live_exprs sem {f, t} (sym_build_ite z (Some x) (Some t) (Some f))
        (\<lambda>\<sigma>. BVV 1 (of_bool (p \<sigma>)))"
      by (simp add: Backend.comp_def)
  qed
  from comp_denotes [OF this] show ?thesis
    by (simp add: sym_build_bool_to_bit_def rt_call3_def)
qed

lemma denotes_concat:
  assumes "\<And>\<sigma>. sem \<sigma> x = BVV n (f \<sigma>)" "\<And>\<sigma>. sem \<sigma> y = BVV m (g \<sigma>)"
  shows "denotes live_exprs sem (sym_concat_helper z (Some x) (Some y)) s
    (\<lambda>\<sigma>. BVV (n + m) (bv_concat m (f \<sigma>) (g \<sigma>)))"
  unfolding sym_concat_helper_def
  by (rule denotes_build2)
    (simp add: z3_sem_def binary_sem_def assms bv_concat_def push_bit_eq_mult)

lemma denotes_extract_helper:
  assumes "\<And>\<sigma>. sem \<sigma> x = BVV n (f \<sigma>)" "lo \<le> hi" "hi < n" "n < 2 ^ 32"
  shows "denotes live_exprs sem (sym_extract_helper z (Some x) hi lo) s
    (\<lambda>\<sigma>. BVV (hi - lo + 1) (bv_extract hi lo (f \<sigma>)))"
proof -
  have "to_unsigned (int hi) = hi" "to_unsigned (int lo) = lo"
    using assms(2-4) by (intro to_unsigned_small; simp)+
  then show ?thesis
    using denotes_extract [OF assms(1-3)] by (simp add: sym_extract_helper_def)
qed

end

sublocale z3_laws \<subseteq> simple: expr_backend "simple_backend z" live_exprs sem
proof
  show "0 < n \<and> 0 \<le> i \<and> i < 2 ^ n" if "sem \<sigma> x = BVV n i" for \<sigma> x n i
    using that by (rule z3_range)
  show "build_sext (simple_backend z) None w s = Inr (None, s)" for w s
    by (simp add: simple_backend_def sym_build_sext_def rt_return_def)
  show "build_zext (simple_backend z) None w s = Inr (None, s)" for w s
    by (simp add: simple_backend_def sym_build_zext_def rt_return_def)
  show "build_trunc (simple_backend z) None w s = Inr (None, s)" for w s
    by (simp add: simple_backend_def sym_build_trunc_def rt_return_def)
  show "build_bool_to_bit (simple_backend z) None s = Inr (None, s)" for s
    by (simp add: simple_backend_def sym_build_bool_to_bit_def rt_return_def)
  show "denotes live_exprs sem (build_bool_to_bit (simple_backend z) (Some x)) s (\<lambda>\<sigma>. BVV 1 (of_bool (p \<sigma>)))"
    if "\<And>\<sigma>. sem \<sigma> x = BoolV (p \<sigma>)" for x s p
    using denotes_bool_to_bit [OF that] by (simp add: simple_backend_def)
  show "denotes live_exprs sem (extract_helper (simple_backend z) (Some x) hi lo) s
      (\<lambda>\<sigma>. BVV (hi - lo + 1) (bv_extract hi lo (f \<sigma>)))"
    if "\<And>\<sigma>. sem \<sigma> x = BVV n (f \<sigma>)" "lo \<le> hi" "hi < n" "n < 2 ^ 32" for x s n f lo hi
    using denotes_extract_helper [OF that] by (simp add: simple_backend_def)
qed (simp_all add: simple_backend_def denotes_integer denotes_binary denotes_ite denotes_ext
    denotes_trunc denotes_concat bits_helper_ok)

context z3_laws
begin

lemma simple_contract: "expr_backend (simple_backend z) live_exprs sem"
  by (rule simple.expr_backend_axioms)

end

end
