(* ===== verification/Simple_Inputs.thy ===== *)
theory Simple_Inputs
  imports Simple_Backend_Laws
begin

text \<open>
  The input variables of the simple backend and its reference counting: the names of input bytes, the
  stability of the table of input bytes, and the invariant that every expression handed to the
  program holds a reference, over all sequences of calls.
\<close>

subsection \<open>Names of input bytes\<close>

text \<open>The table of input bytes holds, at each offset, the variable named after it.\<close>

definition stdin_table :: "'e z3 \<Rightarrow> 'e option list \<Rightarrow> bool" where
  "stdin_table z bytes \<longleftrightarrow>
     (\<forall>i < length bytes. bytes ! i = mk_const z (''stdin'' @ to_string i) (BV_sort 8))"

lemma build_variable_run:
  assumes "mk_const z name (BV_sort n) = Some e"
  shows "build_variable z name n s = Inr (Some e, s\<lparr>calls :=
    Dec_ref (Sort_ref (BV_sort n)) # Inc_ref (Ast_ref e) # Inc_ref (Sort_ref (BV_sort n)) # calls s\<rparr>)"
  using assms
  by (simp add: build_variable_def rt_bind_def inc_ref_def dec_ref_def z3_call_def rt_modify_def
      of_z3_def rt_return_def)

text \<open>Reading a known byte returns the table entry and changes nothing.\<close>

lemma get_input_byte_known:
  assumes "unat off < length (stdinBytes s)"
  shows "sym_get_input_byte z off v s = Inr (stdinBytes s ! unat off, s)"
  using assms by (simp add: sym_get_input_byte_def rt_bind_def rt_get_def rt_return_def)

text \<open>Reading a byte beyond the table adds a variable, named after the length of the table.\<close>

lemma get_input_byte_new:
  assumes "length (stdinBytes s) \<le> unat off"
    and "mk_const z (''stdin'' @ to_string (length (stdinBytes s))) (BV_sort 8) = Some e"
  shows "\<exists>s'. sym_get_input_byte z off v s = Inr (Some e, s') \<and>
    stdinBytes s' = stdinBytes s @ replicate (unat off - length (stdinBytes s)) None @ [Some e]"
  using assms build_variable_run [OF assms(2), of s]
  by (simp add: sym_get_input_byte_def rt_bind_def rt_get_def rt_modify_def rt_return_def resize_def)

text \<open>Offsets read in order: each has its own variable, and reading it again returns the same one.\<close>

lemma get_input_byte_in_order:
  assumes "z3_laws z sem" "stdin_table z (stdinBytes s)" "unat off \<le> length (stdinBytes s)"
  shows "\<exists>e s'. mk_const z (''stdin'' @ to_string (unat off)) (BV_sort 8) = Some e \<and>
    sym_get_input_byte z off v s = Inr (Some e, s') \<and> stdin_table z (stdinBytes s') \<and>
    length (stdinBytes s') = max (length (stdinBytes s)) (unat off + 1) \<and>
    sym_get_input_byte z off v' s' = Inr (Some e, s')"
proof -
  obtain e where e: "mk_const z (''stdin'' @ to_string (unat off)) (BV_sort 8) = Some e"
    using z3_laws.z3_const [OF assms(1), of 8] by auto
  show ?thesis
  proof (cases "unat off < length (stdinBytes s)")
    case True
    then have "stdinBytes s ! unat off = Some e" using assms(2) e by (simp add: stdin_table_def)
    then show ?thesis
      using True e assms(2) get_input_byte_known [OF True, of z] by auto
  next
    case False
    with assms(3) have len: "length (stdinBytes s) = unat off" by simp
    then obtain s' where s': "sym_get_input_byte z off v s = Inr (Some e, s')"
      "stdinBytes s' = stdinBytes s @ [Some e]"
      using get_input_byte_new [of s off z e v] e by auto
    have "stdin_table z (stdinBytes s')"
      using assms(2) e len by (auto simp: stdin_table_def s'(2) nth_append less_Suc_eq)
    moreover have "unat off < length (stdinBytes s')" "stdinBytes s' ! unat off = Some e"
      by (simp_all add: s'(2) len [symmetric])
    ultimately show ?thesis
      using e s' len get_input_byte_known [of off s' z v'] by auto
  qed
qed

lemma input_names_distinct:
  assumes "z3_laws z sem" "mk_const z (''stdin'' @ to_string i) (BV_sort 8) = Some e"
    "mk_const z (''stdin'' @ to_string j) (BV_sort 8) = Some e"
  shows "i = j"
  using z3_laws.z3_const_inj [OF assms] by (auto intro: to_string_inj)

subsection \<open>Reference counts\<close>

text \<open>No count is negative, and every registered expression holds a reference.\<close>

definition refs_ok :: "'e simple_state \<Rightarrow> bool" where
  "refs_ok s \<longleftrightarrow> (\<forall>e. 0 \<le> refs (calls s) (Ast_ref e)) \<and>
     (\<forall>e \<in> allocatedExpressions s. 0 < refs (calls s) (Ast_ref e))"

text \<open>
  \<open>grows s s'\<close>: no reference to an expression is lost from \<open>s\<close> to \<open>s'\<close>, and what is newly registered
  gains one. Every operation of the backend that returns grows the state in this sense.
\<close>

definition grows :: "'e simple_state \<Rightarrow> 'e simple_state \<Rightarrow> bool" where
  "grows s s' \<longleftrightarrow>
     (\<forall>e. refs (calls s) (Ast_ref e) \<le> refs (calls s') (Ast_ref e)) \<and>
     (\<forall>e \<in> allocatedExpressions s' - allocatedExpressions s.
        refs (calls s) (Ast_ref e) < refs (calls s') (Ast_ref e))"

lemma grows_refs_ok: "grows s s' \<Longrightarrow> refs_ok s \<Longrightarrow> refs_ok s'"
  unfolding grows_def refs_ok_def by (meson DiffI order_le_less_trans order_less_le_trans order_trans)

lemma grows_refl [simp]: "grows s s"
  by (simp add: grows_def)

lemma grows_trans: "grows s s' \<Longrightarrow> grows s' s'' \<Longrightarrow> grows s s''"
  unfolding grows_def by (smt (verit) Diff_iff)

text \<open>What holds of the result whenever the operation returns.\<close>

definition rt_post :: "('s, 'a) rt \<Rightarrow> 's \<Rightarrow> ('a \<Rightarrow> 's \<Rightarrow> bool) \<Rightarrow> bool" where
  "rt_post m s Q \<longleftrightarrow> (\<forall>x s'. m s = Inr (x, s') \<longrightarrow> Q x s')"

named_theorems post_simps "partial correctness of the operations"

lemma rt_post_basic [post_simps]:
  "rt_post (rt_return x) s Q \<longleftrightarrow> Q x s" "rt_post (rt_raise e) s Q"
  "rt_post (rt_get f) s Q \<longleftrightarrow> Q (f s) s" "rt_post (rt_modify h) s Q' \<longleftrightarrow> Q' () (h s)"
  "rt_post (rt_assert msg b) s Q' \<longleftrightarrow> (b \<longrightarrow> Q' () s)"
  by (simp_all add: rt_post_def rt_return_def rt_raise_def rt_get_def rt_modify_def rt_assert_def)

lemma rt_post_bind [post_simps]:
  "rt_post (rt_bind m f) s Q \<longleftrightarrow> rt_post m s (\<lambda>x s'. rt_post (f x) s' Q)"
  by (fastforce simp: rt_post_def rt_bind_def split: sum.splits)

lemma rt_post_calls [post_simps]:
  "rt_post (z3_call c) s Q \<longleftrightarrow> Q () (s\<lparr>calls := c # calls s\<rparr>)"
  by (simp add: z3_call_def post_simps)

lemma rt_post_mono: "rt_post m s Q \<Longrightarrow> (\<And>x s'. Q x s' \<Longrightarrow> R x s') \<Longrightarrow> rt_post m s R"
  by (auto simp: rt_post_def)

definition growing :: "('e simple_state, 'a) rt \<Rightarrow> bool" where
  "growing m \<longleftrightarrow> (\<forall>s. rt_post m s (\<lambda>_. grows s))"

lemma growing_post: "growing m \<Longrightarrow> (\<And>x s'. grows s s' \<Longrightarrow> Q x s') \<Longrightarrow> rt_post m s Q"
  by (auto simp: growing_def rt_post_def)

named_theorems growing_rules "operations that lose no reference"

lemma growing_basic [growing_rules]:
  "growing (rt_return x)" "growing (rt_raise e)" "growing (rt_get f)" "growing (rt_assert msg b)"
  by (simp_all add: growing_def post_simps)

lemma growing_bind [growing_rules]:
  assumes "growing m" "\<And>x. growing (f x)"
  shows "growing (rt_bind m f)"
  unfolding growing_def rt_post_bind
  by (auto intro!: growing_post [OF assms(1)] growing_post [OF assms(2)] intro: grows_trans)

lemma growing_inc_ref [growing_rules]: "growing (inc_ref r)"
  by (auto simp: growing_def post_simps inc_ref_def grows_def)

lemma growing_sort [growing_rules]: "growing (dec_ref (Sort_ref srt))"
  by (simp add: growing_def post_simps dec_ref_def grows_def)

lemma growing_register [growing_rules]: "growing (registerExpression e)"
  by (auto simp: growing_def registerExpression_def post_simps inc_ref_def grows_def)

lemma growing_of_z3 [growing_rules]: "growing (of_z3 r)"
  by (cases r) (simp_all add: of_z3_def growing_rules)

lemma growing_z3_mk [growing_rules]: "growing (z3_mk z op xs)"
  by (simp add: z3_mk_def growing_rules)

lemma growing_if [growing_rules]: "growing m1 \<Longrightarrow> growing m2 \<Longrightarrow> growing (if b then m1 else m2)"
  by simp

lemma growing_globals [growing_rules]:
  assumes "\<And>s. allocatedExpressions (h s) \<subseteq> allocatedExpressions s" "\<And>s. calls (h s) = calls s"
  shows "growing (rt_modify h)"
  unfolding growing_def post_simps grows_def using assms by auto

lemma growing_build [growing_rules]: "growing (build z op xs)"
  unfolding build_def by (intro growing_rules)

lemma growing_with_sort [growing_rules]: "growing m \<Longrightarrow> growing (with_sort srt m)"
  unfolding with_sort_def by (intro growing_rules)

lemma growing_solver [growing_rules]:
  "growing (z3_call Solver_push)" "growing (z3_call (Solver_assert e))" "growing (z3_call Solver_pop)"
  "growing (z3_call Solver_reset)" "growing (z3_call (Log_query i b f l))" "growing (z3_call (Log_branch f l))"
  "growing (z3_call (Log_message msg))"
  by (simp_all add: growing_def post_simps grows_def)

text \<open>Bracketing: references taken before and dropped after an operation that loses none.\<close>

lemma grows_bracket:
  assumes "grows (s\<lparr>calls := Inc_ref r # calls s\<rparr>) s'"
  shows "grows s (s'\<lparr>calls := Dec_ref r # calls s'\<rparr>)"
proof -
  have le: "refs (calls s) (Ast_ref e) + of_bool (r = Ast_ref e) \<le> refs (calls s') (Ast_ref e)"
    and lt: "e \<in> allocatedExpressions s' - allocatedExpressions s \<Longrightarrow>
      refs (calls s) (Ast_ref e) + of_bool (r = Ast_ref e) < refs (calls s') (Ast_ref e)" for e
    using assms by (simp_all add: grows_def)
  show ?thesis
    unfolding grows_def using le lt by (auto simp: le_diff_eq less_diff_eq)
qed

lemma growing_bracket [growing_rules]:
  assumes "growing m"
  shows "growing (rt_bind (inc_ref r) (\<lambda>_. rt_bind m (\<lambda>_. dec_ref r)))"
  unfolding growing_def inc_ref_def dec_ref_def
  by (auto simp: post_simps intro!: growing_post [OF assms] grows_bracket)

lemma post_z3_mk: "(\<And>e. Q e s) \<Longrightarrow> rt_post (z3_mk z op xs) s Q"
  by (auto simp: rt_post_def z3_mk_def of_z3_def rt_raise_def rt_return_def split: option.splits if_splits)

lemma growing_unordered [growing_rules]: "growing (sym_build_float_unordered z a b)"
  unfolding growing_def sym_build_float_unordered_def inc_ref_def dec_ref_def
  by (auto simp: post_simps intro!: post_z3_mk growing_post [OF growing_register]
      elim!: grows_trans [rotated]) (simp add: grows_def)

lemma growing_nan_or [growing_rules]:
  assumes "growing check"
  shows "growing (nan_or z check a b)"
proof -
  have fin: "grows s (s2\<lparr>calls := Dec_ref r2 # Dec_ref r1 # Dec_ref r0 # Inc_ref r2 # calls s2\<rparr>)"
    if "grows (s\<lparr>calls := Inc_ref r1 # Inc_ref r0 # calls s\<rparr>) s2" for s s2 :: "'a simple_state" and r0 r1 r2
  proof -
    have "grows s (s2\<lparr>calls := Dec_ref r0 # Dec_ref r1 # calls s2\<rparr>)"
      using grows_bracket [where s = "s\<lparr>calls := Inc_ref r0 # calls s\<rparr>" and r = r1 and s' = s2] that
        grows_bracket [where s = s and r = r0 and s' = "s2\<lparr>calls := Dec_ref r1 # calls s2\<rparr>"] by simp
    then show ?thesis by (simp add: grows_def algebra_simps)
  qed
  have opt: "rt_post (case x of None \<Rightarrow> rt_raise Null_expression | Some e \<Rightarrow> rt_return e) s Q"
    if "\<And>e. Q e s" for x :: "'a option" and s :: "'a simple_state" and Q
    using that by (cases x) (simp_all add: post_simps)
  show ?thesis
    unfolding growing_def nan_or_def inc_ref_def dec_ref_def
    by (auto simp: post_simps intro!: post_z3_mk opt growing_post [OF assms] growing_post [OF growing_register]
        elim!: grows_trans [rotated] intro: fin)
qed

subsection \<open>All operations\<close>

lemma growing_case [growing_rules]: "(\<And>e. x = Some e \<Longrightarrow> growing (f e)) \<Longrightarrow> growing m \<Longrightarrow>
    growing (case x of None \<Rightarrow> m | Some e \<Rightarrow> f e)"
  by (cases x) simp_all

lemma growing_calls [growing_rules]:
  "growing m1 \<Longrightarrow> growing m2 \<Longrightarrow> (\<And>x y. growing (f2 x y)) \<Longrightarrow> growing (rt_call2 f2 m1 m2)"
  "growing m1 \<Longrightarrow> growing m2 \<Longrightarrow> growing m3 \<Longrightarrow> (\<And>x y w. growing (f3 x y w)) \<Longrightarrow>
   growing (rt_call3 f3 m1 m2 m3)"
  by (auto simp: rt_call2_def rt_call3_def intro!: growing_bind)

lemma growing_variable [growing_rules]: "growing (build_variable z name n)" "growing (build_variable_int z name)"
  unfolding build_variable_def build_variable_int_def by (intro growing_rules)+

lemma growing_log_and_pop [growing_rules]: "growing (log_and_pop e slot taken file line)"
  unfolding log_and_pop_def by (intro growing_rules)

lemma growing_final_string [growing_rules]: "growing (final_string_constraint z slot file line)"
  unfolding final_string_constraint_def by (intro growing_rules)

lemma growing_string [growing_rules]: "growing (string_constraint z c nc taken file line slot)"
  unfolding string_constraint_def Let_def by (intro growing_rules) simp_all

lemma growing_push_loc [growing_rules]:
  "growing (sym_push_path_constraint_with_loc z expr taken site file line slot)"
proof -
  let ?body = "\<lambda>c nc. if strstr file ''symros_string.hpp'' then string_constraint z c nc taken file line slot
    else log_and_pop (if taken \<noteq> 0 then c else nc) slot taken file line"
  have body: "growing (rt_bind (z3_call Solver_push) (\<lambda>_. ?body c nc))" for c nc
    by (intro growing_rules)
  have fin: "rt_post (rt_bind (inc_ref r') (\<lambda>_. rt_bind (z3_call Solver_push) (\<lambda>_. rt_bind (?body c nc) (\<lambda>_.
      rt_bind (dec_ref r) (\<lambda>_. dec_ref r'))))) (s\<lparr>calls := Inc_ref r # calls s\<rparr>) (\<lambda>_. grows s)" for r r' s c nc
  proof -
    have "rt_post (rt_bind (rt_bind (z3_call Solver_push) (\<lambda>_. ?body c nc)) (\<lambda>_.
      rt_bind (dec_ref r) (\<lambda>_. dec_ref r'))) (s\<lparr>calls := Inc_ref r' # Inc_ref r # calls s\<rparr>) (\<lambda>_. grows s)"
      unfolding rt_post_bind [of "rt_bind (z3_call Solver_push) (\<lambda>_. ?body c nc)"]
    proof (rule growing_post [OF body])
      fix s' assume "grows (s\<lparr>calls := Inc_ref r' # Inc_ref r # calls s\<rparr>) s'"
      then have "grows s (s'\<lparr>calls := Dec_ref r # Dec_ref r' # calls s'\<rparr>)"
        using grows_bracket [where s = "s\<lparr>calls := Inc_ref r # calls s\<rparr>" and r = r' and s' = s']
          grows_bracket [where s = s and r = r and s' = "s'\<lparr>calls := Dec_ref r' # calls s'\<rparr>"] by simp
      then show "rt_post (rt_bind (dec_ref r) (\<lambda>_. dec_ref r')) s' (\<lambda>_. grows s)"
        by (simp add: post_simps dec_ref_def grows_def algebra_simps)
    qed
    then show ?thesis by (simp add: post_simps inc_ref_def)
  qed
  have easy: "rt_post (rt_bind (rt_assert msg p) (\<lambda>_. dec_ref r)) (s\<lparr>calls := Inc_ref r # calls s\<rparr>) (\<lambda>_. grows s)"
    for msg p r s by (simp add: post_simps dec_ref_def grows_def)
  show ?thesis
  proof (cases expr)
    case None
    then show ?thesis by (simp add: sym_push_path_constraint_with_loc_def growing_rules)
  next
    case (Some e)
    show ?thesis
      unfolding growing_def sym_push_path_constraint_with_loc_def Some option.case Let_def
    proof (intro allI, subst rt_post_bind, subst inc_ref_def, subst rt_post_calls, subst rt_post_bind,
        subst rt_post_basic(3))
      fix s :: "'a simple_state"
      let ?c = "z3_simplify z e"
      let ?s = "s\<lparr>calls := Inc_ref (Ast_ref ?c) # calls s\<rparr>"
      show "rt_post (if g_true (id ?s) = Some ?c
          then rt_bind (rt_assert ''We have taken an impossible branch'' (taken \<noteq> 0)) (\<lambda>_. dec_ref (Ast_ref ?c))
          else if g_false (id ?s) = Some ?c
          then rt_bind (rt_assert ''We have taken an impossible branch'' (taken = 0)) (\<lambda>_. dec_ref (Ast_ref ?c))
          else rt_bind (z3_mk z Z_not [Some ?c]) (\<lambda>negation.
            rt_bind (inc_ref (Ast_ref (z3_simplify z negation))) (\<lambda>_.
            rt_bind (z3_call Solver_push) (\<lambda>_.
            rt_bind (?body ?c (z3_simplify z negation)) (\<lambda>_.
            rt_bind (dec_ref (Ast_ref ?c)) (\<lambda>_. dec_ref (Ast_ref (z3_simplify z negation))))))))
          ?s (\<lambda>_. grows s)"
        using easy fin by (auto simp: rt_post_bind [of "z3_mk z Z_not [Some ?c]"] intro!: post_z3_mk)
    qed
  qed
qed

lemma growing_feasible [growing_rules]: "growing (sym_feasible z e)"
  unfolding sym_feasible_def Let_def inc_ref_def dec_ref_def growing_def
  by (simp add: post_simps grows_def)

lemma growing_collect [growing_rules]: "growing (sym_collect_garbage k R)"
  unfolding sym_collect_garbage_def by (intro growing_rules) auto

lemma growing_initialize [growing_rules]: "growing (sym_initialize z)"
  unfolding sym_initialize_def by (intro growing_rules) simp_all

lemma growing_bits [growing_rules]: "growing (sym_bits_helper z a)"
  unfolding sym_bits_helper_def by (intro growing_rules)

lemma growing_inputs [growing_rules]:
  "growing (sym_get_input_byte z off v)" "growing (sym_get_input_byte_with_prefix z prefix off v)"
  unfolding sym_get_input_byte_def sym_get_input_byte_with_prefix_def
  by (intro growing_rules; simp)+

lemmas simple_builder_defs =
  sym_build_integer_def sym_build_integer128_def sym_build_float_def sym_get_integer_def
  sym_build_null_pointer_def sym_build_bool_def sym_build_neg_def sym_build_not_def
  sym_build_binary_def sym_build_int_def sym_build_ite_def sym_build_fp_add_def
  sym_build_fp_sub_def sym_build_fp_mul_def sym_build_fp_div_def sym_build_fp_rem_def
  sym_build_fp_abs_def sym_build_fp_neg_def sym_build_float_ordered_not_equal_def
  sym_build_float_ordered_def sym_build_float_unordered_greater_than_def
  sym_build_float_unordered_greater_equal_def sym_build_float_unordered_less_than_def
  sym_build_float_unordered_less_equal_def sym_build_float_unordered_equal_def
  sym_build_float_unordered_not_equal_def sym_build_sext_def sym_build_zext_def
  sym_build_trunc_def sym_build_int_to_float_def sym_build_float_to_float_def
  sym_build_bits_to_float_def sym_build_float_to_bits_def sym_build_float_to_signed_integer_def
  sym_build_float_to_unsigned_integer_def sym_build_bool_to_bit_def sym_build_bits_to_int_def
  sym_concat_helper_def sym_extract_helper_def sym_localize_branch_instruction_def
  symcc_reset_constraints_def symcc_set_test_case_handler_def sym_build_not_equal_def
  int_builder_def

inductive simple_step :: "'e z3 \<Rightarrow> 'e simple_state \<Rightarrow> 'e simple_state \<Rightarrow> bool" for z where
  step_initialize: "sym_initialize z s = Inr (u, s') \<Longrightarrow> simple_step z s s'"
| step_integer: "sym_build_integer z v w s = Inr (x, s') \<Longrightarrow> simple_step z s s'"
| step_integer128: "sym_build_integer128 z h l s = Inr (x, s') \<Longrightarrow> simple_step z s s'"
| step_float: "sym_build_float z v d s = Inr (x, s') \<Longrightarrow> simple_step z s s'"
| step_input: "sym_get_input_byte z off v s = Inr (x, s') \<Longrightarrow> simple_step z s s'"
| step_integer_var: "sym_get_integer z name s = Inr (x, s') \<Longrightarrow> simple_step z s s'"
| step_input_prefix: "sym_get_input_byte_with_prefix z prefix off v s = Inr (x, s') \<Longrightarrow> simple_step z s s'"
| step_null_pointer: "sym_build_null_pointer s = Inr (x, s') \<Longrightarrow> simple_step z s s'"
| step_bool: "sym_build_bool b s = Inr (x, s') \<Longrightarrow> simple_step z s s'"
| step_neg: "sym_build_neg z a s = Inr (x, s') \<Longrightarrow> simple_step z s s'"
| step_bitnot: "sym_build_not z a s = Inr (x, s') \<Longrightarrow> simple_step z s s'"
| step_binary: "sym_build_binary z bop a b s = Inr (x, s') \<Longrightarrow> simple_step z s s'"
| step_int: "sym_build_int z iop a b s = Inr (x, s') \<Longrightarrow> simple_step z s s'"
| step_ite: "sym_build_ite z c a b s = Inr (x, s') \<Longrightarrow> simple_step z s s'"
| step_fp_add: "sym_build_fp_add z a b s = Inr (x, s') \<Longrightarrow> simple_step z s s'"
| step_fp_sub: "sym_build_fp_sub z a b s = Inr (x, s') \<Longrightarrow> simple_step z s s'"
| step_fp_mul: "sym_build_fp_mul z a b s = Inr (x, s') \<Longrightarrow> simple_step z s s'"
| step_fp_div: "sym_build_fp_div z a b s = Inr (x, s') \<Longrightarrow> simple_step z s s'"
| step_fp_rem: "sym_build_fp_rem z a b s = Inr (x, s') \<Longrightarrow> simple_step z s s'"
| step_fp_abs: "sym_build_fp_abs z a s = Inr (x, s') \<Longrightarrow> simple_step z s s'"
| step_fp_neg: "sym_build_fp_neg z a s = Inr (x, s') \<Longrightarrow> simple_step z s s'"
| step_ordered_ne: "sym_build_float_ordered_not_equal z a b s = Inr (x, s') \<Longrightarrow> simple_step z s s'"
| step_ordered: "sym_build_float_ordered z a b s = Inr (x, s') \<Longrightarrow> simple_step z s s'"
| step_unordered: "sym_build_float_unordered z a b s = Inr (x, s') \<Longrightarrow> simple_step z s s'"
| step_unordered_gt: "sym_build_float_unordered_greater_than z a b s = Inr (x, s') \<Longrightarrow> simple_step z s s'"
| step_unordered_ge: "sym_build_float_unordered_greater_equal z a b s = Inr (x, s') \<Longrightarrow> simple_step z s s'"
| step_unordered_lt: "sym_build_float_unordered_less_than z a b s = Inr (x, s') \<Longrightarrow> simple_step z s s'"
| step_unordered_le: "sym_build_float_unordered_less_equal z a b s = Inr (x, s') \<Longrightarrow> simple_step z s s'"
| step_unordered_eq: "sym_build_float_unordered_equal z a b s = Inr (x, s') \<Longrightarrow> simple_step z s s'"
| step_unordered_ne: "sym_build_float_unordered_not_equal z a b s = Inr (x, s') \<Longrightarrow> simple_step z s s'"
| step_sext: "sym_build_sext z a w s = Inr (x, s') \<Longrightarrow> simple_step z s s'"
| step_zext: "sym_build_zext z a w s = Inr (x, s') \<Longrightarrow> simple_step z s s'"
| step_trunc: "sym_build_trunc z a w s = Inr (x, s') \<Longrightarrow> simple_step z s s'"
| step_int_to_float: "sym_build_int_to_float z a d g s = Inr (x, s') \<Longrightarrow> simple_step z s s'"
| step_float_to_float: "sym_build_float_to_float z a d s = Inr (x, s') \<Longrightarrow> simple_step z s s'"
| step_bits_to_float: "sym_build_bits_to_float z a d s = Inr (x, s') \<Longrightarrow> simple_step z s s'"
| step_float_to_bits: "sym_build_float_to_bits z a s = Inr (x, s') \<Longrightarrow> simple_step z s s'"
| step_float_to_sint: "sym_build_float_to_signed_integer z a w s = Inr (x, s') \<Longrightarrow> simple_step z s s'"
| step_float_to_uint: "sym_build_float_to_unsigned_integer z a w s = Inr (x, s') \<Longrightarrow> simple_step z s s'"
| step_bool_to_bit: "sym_build_bool_to_bit z a s = Inr (x, s') \<Longrightarrow> simple_step z s s'"
| step_bits_to_int: "sym_build_bits_to_int z a g s = Inr (x, s') \<Longrightarrow> simple_step z s s'"
| step_concat: "sym_concat_helper z a b s = Inr (x, s') \<Longrightarrow> simple_step z s s'"
| step_extract: "sym_extract_helper z a hi lo s = Inr (x, s') \<Longrightarrow> simple_step z s s'"
| step_bits: "sym_bits_helper z a s = Inr (n, s') \<Longrightarrow> simple_step z s s'"
| step_push_loc: "sym_push_path_constraint_with_loc z a t site file line slot s = Inr (u, s') \<Longrightarrow> simple_step z s s'"
| step_push: "sym_push_path_constraint a tk site s = Inr (u, s') \<Longrightarrow> simple_step z s s'"
| step_localize: "sym_localize_branch_instruction file line s = Inr (u, s') \<Longrightarrow> simple_step z s s'"
| step_feasible: "sym_feasible z e s = Inr (r, s') \<Longrightarrow> simple_step z s s'"
| step_reset: "symcc_reset_constraints s = Inr (u, s') \<Longrightarrow> simple_step z s s'"
| step_collect: "sym_collect_garbage k R s = Inr (u, s') \<Longrightarrow> simple_step z s s'"
| step_handler: "symcc_set_test_case_handler s = Inr (u, s') \<Longrightarrow> simple_step z s s'"

inductive simple_reachable :: "'e z3 \<Rightarrow> 'e simple_state \<Rightarrow> bool" for z where
  reach_init: "simple_reachable z initial_state"
| reach_step: "simple_reachable z s \<Longrightarrow> simple_step z s s' \<Longrightarrow> simple_reachable z s'"

lemma growingD: "growing m \<Longrightarrow> m s = Inr (x, s') \<Longrightarrow> grows s s'"
  by (auto simp: growing_def rt_post_def)

lemma growing_prod [growing_rules]: "(\<And>x y. growing (f x y)) \<Longrightarrow> growing (case p of (x, y) \<Rightarrow> f x y)"
  by (cases p) simp

lemma simple_step_grows:
  assumes "simple_step z s s'"
  shows "grows s s'"
  using assms
  by (cases, unfold simple_builder_defs)
    ((erule growingD [rotated],
      (rule growing_rules | (simp add: sym_push_path_constraint_def growing_rules; fail))+)[1])+

lemma simple_reachable_refs_ok: "simple_reachable z s \<Longrightarrow> refs_ok s"
proof (induction rule: simple_reachable.induct)
  case reach_init
  then show ?case by (simp add: refs_ok_def initial_state_def)
next
  case (reach_step s s')
  then show ?case using simple_step_grows grows_refs_ok by blast
qed

text \<open>In a reachable state the live expressions are exactly the referenced ones.\<close>

lemma refs_ok_live: "refs_ok s \<Longrightarrow> live_exprs s = {e. 0 < refs (calls s) (Ast_ref e)}"
  by (auto simp: refs_ok_def live_exprs_def)

lemma grows_live: "grows s s' \<Longrightarrow> refs_ok s \<Longrightarrow> live_exprs s \<subseteq> live_exprs s'"
  using refs_ok_live [of s] by (auto simp: live_exprs_def grows_def intro: order_less_le_trans)

end
