(* ===== verification/Libc_Laws.thy ===== *)
theory Libc_Laws
  imports Libc_Wrappers Simple_Inputs
begin

text \<open>
  What the wrappers of \<open>LibcWrappers.cpp\<close> do to the values of memory. The locale \<open>constraint_backend\<close>
  extends the contract of the expression builders by what the wrappers need of
  \<open>_sym_push_path_constraint\<close>: it accepts Boolean expressions and keeps expressions alive. The simple
  backend provides it.
\<close>

locale constraint_backend = expr_backend B live sem
  for B :: "('b, 'e) backend" and live :: "'b \<Rightarrow> 'e set" and sem :: "'m \<Rightarrow> 'e \<Rightarrow> smt_value" +
  assumes law_push: "c \<in> live s \<Longrightarrow> (\<And>\<sigma>. sem \<sigma> c = BoolV (p \<sigma>)) \<Longrightarrow>
    \<exists>s'. push_path_constraint B (Some c) taken site s = Inr ((), s') \<and> live s \<subseteq> live s'"

sublocale z3_laws \<subseteq> pushes: constraint_backend "simple_backend z" live_exprs sem
  by unfold_locales (simp add: simple_backend_def sym_push_path_constraint_def rt_return_def)

context z3_laws
begin

lemma pushes_constraint_backend: "constraint_backend (simple_backend z) live_exprs sem"
  by (rule pushes.constraint_backend_axioms)

end

subsection \<open>Steps that only touch the backend\<close>

definition backend_step :: "('b \<Rightarrow> 'e set) \<Rightarrow> ('b, 'e, 'w) process \<Rightarrow> ('b, 'e, 'w) process \<Rightarrow> bool" where
  "backend_step live s s' \<longleftrightarrow>
     (\<exists>b. s' = s\<lparr>rtl := (rtl s)\<lparr>backend_state := b\<rparr>\<rparr> \<and> live (backend_state (rtl s)) \<subseteq> live b)"

lemma backend_step_refl [simp]: "backend_step live s s"
  unfolding backend_step_def by (rule exI [of _ "backend_state (rtl s)"]) simp

lemma backend_step_trans: "backend_step live s1 s2 \<Longrightarrow> backend_step live s2 s3 \<Longrightarrow> backend_step live s1 s3"
  unfolding backend_step_def by fastforce

lemma backend_step_fields:
  assumes "backend_step live s s'"
  shows "g_shadow_pages (rtl s') = g_shadow_pages (rtl s)" "memory (rtl s') = memory (rtl s)"
    "g_function_arguments (rtl s') = g_function_arguments (rtl s)"
    "g_return_value (rtl s') = g_return_value (rtl s)"
    "inputFileDescriptor s' = inputFileDescriptor s" "inputOffset s' = inputOffset s"
    "world s' = world s" "g_config s' = g_config s"
    "live (backend_state (rtl s)) \<subseteq> live (backend_state (rtl s'))"
  using assms by (auto simp: backend_step_def)

text \<open>An argument's expression is null, or a live bit vector of the argument's width.\<close>

definition arg_ok ::
    "('b \<Rightarrow> 'e set) \<Rightarrow> ('m \<Rightarrow> 'e \<Rightarrow> smt_value) \<Rightarrow> ('b, 'e) runtime \<Rightarrow> u8 \<times> nat \<Rightarrow> bool" where
  "arg_ok live sem r iw \<longleftrightarrow>
     (\<forall>e. g_function_arguments r ! unat (fst iw) = Some e \<longrightarrow>
        e \<in> live (backend_state r) \<and> (\<forall>\<sigma>. \<exists>i. sem \<sigma> e = BVV (snd iw) i))"

lemma arg_ok_step: "backend_step live s s' \<Longrightarrow> arg_ok live sem (rtl s) iw \<Longrightarrow> arg_ok live sem (rtl s') iw"
  by (auto simp: arg_ok_def backend_step_def)

lemma arg_ok_null: "g_function_arguments r ! unat (fst iw) = None \<Longrightarrow> arg_ok live sem r iw"
  by (simp add: arg_ok_def)

lemma rt_ok_param [rt_simps]:
  "rt_ok (param i) s Q \<longleftrightarrow> Q (g_function_arguments (rtl s) ! unat i) s"
  by (simp add: param_def rt_simps sym_get_parameter_expression_def)

lemma rt_ok_set_return [rt_simps]:
  "rt_ok (set_return e) s Q \<longleftrightarrow> Q () (s\<lparr>rtl := (rtl s)\<lparr>g_return_value := e\<rparr>\<rparr>)"
  by (simp add: set_return_def rt_simps sym_set_return_expression_def)

context constraint_backend
begin

lemma tryAlternative_ok:
  assumes "e = None \<or> (\<exists>x. e = Some x \<and> x \<in> live (backend_state (rtl s)) \<and> (\<forall>\<sigma>. \<exists>i. sem \<sigma> x = BVV (unat bits) i))"
    and "0 < unat bits" "unat bits \<le> 64"
  shows "rt_ok (tryAlternative B v bits e caller) s (\<lambda>_ s'. backend_step live s s')"
proof (cases e)
  case None
  then show ?thesis by (simp add: tryAlternative_def rt_simps)
next
  case (Some x)
  have "\<forall>\<sigma>. \<exists>i. sem \<sigma> x = BVV (unat bits) i" using assms(1) Some by auto
  then obtain f where f: "\<And>\<sigma>. sem \<sigma> x = BVV (unat bits) (f \<sigma>)" by metis
  let ?s = "backend_state (rtl s)"
  have x: "x \<in> live ?s" using assms(1) Some by auto
  obtain k s1 where k: "build_integer B v bits ?s = Inr (Some k, s1)" "k \<in> live s1" "live ?s \<subseteq> live s1"
    "\<And>\<sigma>. sem \<sigma> k = BVV (unat bits) (take_bit (unat bits) (uint v))"
    using denotesE [OF law_integer [OF assms(2,3), of v ?s]] by blast
  have "denotes live sem (build_binary B SEqual (Some x) (Some k)) s1
      (\<lambda>\<sigma>. BoolV (f \<sigma> = take_bit (unat bits) (uint v)))"
    by (rule law_binary) (use x k f in auto)
  then obtain c s2 where c: "build_binary B SEqual (Some x) (Some k) s1 = Inr (Some c, s2)" "c \<in> live s2"
    "live s1 \<subseteq> live s2" "\<And>\<sigma>. sem \<sigma> c = BoolV (f \<sigma> = take_bit (unat bits) (uint v))"
    by (rule denotesE) blast
  obtain s3 where s3: "push_path_constraint B (Some c) True caller s2 = Inr ((), s3)" "live s2 \<subseteq> live s3"
    using law_push [OF c(2,4)] by blast
  have "rt_ok (rt_bind (build_integer B v bits) (\<lambda>v. rt_bind (build_binary B SEqual (Some x) v)
      (\<lambda>c. push_path_constraint B c True caller))) ?s (\<lambda>_ b. live ?s \<subseteq> live b)"
    using k(1,3) c(1,3) s3 by (auto simp: rt_ok_def rt_bind_def)
  then show ?thesis
    using Some unfolding tryAlternative_def
    by (auto simp: rt_ok_on_runtime rt_ok_on_backend backend_step_def elim: rt_ok_mono)
qed

lemma try_param_ok:
  assumes "arg_ok live sem (rtl s) (i, unat bits)" "0 < unat bits" "unat bits \<le> 64"
  shows "rt_ok (try_param B v bits i caller) s (\<lambda>_ s'. backend_step live s s')"
proof -
  let ?e = "g_function_arguments (rtl s) ! unat i"
  have "?e = None \<or> (\<exists>x. ?e = Some x \<and> x \<in> live (backend_state (rtl s)) \<and> (\<forall>\<sigma>. \<exists>i. sem \<sigma> x = BVV (unat bits) i))"
    using assms(1) by (cases ?e) (simp_all add: arg_ok_def)
  from tryAlternative_ok [OF this assms(2,3)] show ?thesis by (simp add: try_param_def rt_simps)
qed

text \<open>The rule for a wrapper's calls of \<open>tryAlternative\<close>: they are steps of the backend.\<close>

lemma try_param_rule:
  assumes "backend_step live s0 s" "arg_ok live sem (rtl s0) (i, unat bits)" "0 < unat bits" "unat bits \<le> 64"
    and "\<And>s'. backend_step live s0 s' \<Longrightarrow> rt_ok m s' Q"
  shows "rt_ok (rt_bind (try_param B v bits i caller) (\<lambda>_. m)) s Q"
  unfolding rt_ok_bind
  by (rule rt_ok_mono [OF try_param_ok [OF arg_ok_step [OF assms(1,2)] assms(3,4)]])
    (blast intro: assms(5) backend_step_trans [OF assms(1)])

end

subsection \<open>Moving bytes\<close>

text \<open>Concrete memory and shadow memory move together, hence the values of bytes do.\<close>

lemma byte_value_cong:
  assumes "shadow_at (g_shadow_pages r') a' = shadow_at (g_shadow_pages r) a" "memory r' a' = memory r a"
  shows "byte_value sem r' a' \<sigma> = byte_value sem r a \<sigma>"
  by (simp only: byte_value_def assms)

lemma byte_value_return [simp]: "byte_value sem (r\<lparr>g_return_value := e\<rparr>) = byte_value sem r"
  by (auto simp: fun_eq_iff intro!: byte_value_cong)

definition moved ::
    "('m \<Rightarrow> 'e \<Rightarrow> smt_value) \<Rightarrow> u64 \<Rightarrow> u64 \<Rightarrow> u64 \<Rightarrow> ('b, 'e) runtime \<Rightarrow> ('b, 'e) runtime \<Rightarrow> bool" where
  "moved sem dest src n r r' \<longleftrightarrow>
     (\<forall>a \<sigma>. byte_value sem r' a \<sigma> =
        (if a - dest < n then byte_value sem r (src + (a - dest)) \<sigma> else byte_value sem r a \<sigma>))"

lemma memmove_moves:
  assumes "unat src + unat n < 2 ^ 64" "unat dest + unat n < 2 ^ 64"
  shows "rt_ok (sym_memmove dest src n) (r\<lparr>memory := c_memcpy (memory r) dest src n\<rparr>)
    (\<lambda>_ r'. moved sem dest src n r r' \<and> g_function_arguments r' = g_function_arguments r)"
proof -
  obtain sh' where "sym_memmove dest src n (r\<lparr>memory := c_memcpy (memory r) dest src n\<rparr>) =
      Inr ((), r\<lparr>memory := c_memcpy (memory r) dest src n, g_shadow_pages := sh'\<rparr>)"
    "\<And>b. shadow_at sh' b = (if b - dest < n then shadow_at (g_shadow_pages r) (src + (b - dest))
      else shadow_at (g_shadow_pages r) b)"
    by (rule memmove_run [OF assms, of "r\<lparr>memory := c_memcpy (memory r) dest src n\<rparr>"]) auto
  then show ?thesis
    by (auto simp: rt_ok_def moved_def c_memcpy_def intro!: byte_value_cong)
qed

lemma memcpy_moves:
  assumes "unat src + unat n < 2 ^ 64" "unat dest + unat n < 2 ^ 64" "dest = src \<or> n \<le> dest - src"
  shows "rt_ok (sym_memcpy dest src n) (r\<lparr>memory := c_memcpy (memory r) dest src n\<rparr>)
    (\<lambda>_ r'. moved sem dest src n r r' \<and> g_function_arguments r' = g_function_arguments r)"
proof -
  obtain sh' where "sym_memcpy dest src n (r\<lparr>memory := c_memcpy (memory r) dest src n\<rparr>) =
      Inr ((), r\<lparr>memory := c_memcpy (memory r) dest src n, g_shadow_pages := sh'\<rparr>)"
    "\<And>b. shadow_at sh' b = (if b - dest < n then shadow_at (g_shadow_pages r) (src + (b - dest))
      else shadow_at (g_shadow_pages r) b)"
    by (rule memcpy_run [OF assms, of "r\<lparr>memory := c_memcpy (memory r) dest src n\<rparr>"]) auto
  then show ?thesis
    by (auto simp: rt_ok_def moved_def c_memcpy_def intro!: byte_value_cong)
qed

lemma moved_step:
  "backend_step live s s' \<Longrightarrow> moved sem dest src n (rtl s') r \<Longrightarrow> moved sem dest src n (rtl s) r"
  by (auto simp: moved_def backend_step_def)

lemma moved_return: "moved sem dest src n r r' \<Longrightarrow> moved sem dest src n r (r'\<lparr>g_return_value := e\<rparr>)"
  by (simp add: moved_def)

context constraint_backend
begin

lemma SYM_memmove_moves:
  assumes "unat src + unat n < 2 ^ 64" "unat dest + unat n < 2 ^ 64"
    and "arg_ok live sem (rtl s) (0, 64)" "arg_ok live sem (rtl s) (1, 64)" "arg_ok live sem (rtl s) (2, 64)"
  shows "rt_ok (SYM_memmove B L dest src n) s (\<lambda>result s'. result = dest \<and>
    moved sem dest src n (rtl s) (rtl s') \<and> g_return_value (rtl s') = g_function_arguments (rtl s) ! 0)"
  unfolding SYM_memmove_def
  apply (rule try_param_rule [where ?s0.0 = s], simp, simp add: assms(3), simp, simp)
  apply (rule try_param_rule [where ?s0.0 = s], assumption, simp add: assms(4), simp, simp)
  apply (rule try_param_rule [where ?s0.0 = s], assumption, simp add: assms(5), simp, simp)
  subgoal for s1 s2 s'
    apply (simp add: rt_simps)
    apply (rule rt_ok_mono [OF memmove_moves [OF assms(1,2), of "rtl s'" sem]])
    apply (auto simp: backend_step_fields(3) intro: moved_return moved_step)
    done
  done

end

subsection \<open>Copying strings\<close>

lemma c_strnlen_cong:
  assumes "\<And>i. i < n \<Longrightarrow> m' (s + of_nat i) = m (s + of_nat i)"
  shows "c_strnlen m' s n = c_strnlen m s n"
  using assms
proof (induction n arbitrary: s)
  case 0
  show ?case by (simp add: c_strnlen.simps [of _ s 0])
next
  case (Suc n)
  have "c_strnlen m' (s + 1) n = c_strnlen m (s + 1) n"
    using Suc.prems [of "Suc _"] by (intro Suc.IH) (simp add: ac_simps)
  then show ?case using Suc.prems [of 0] by (simp add: c_strnlen.simps [of _ s "Suc n"])
qed

lemma tail_region: "c \<le> n \<Longrightarrow> x - c < n - c \<longleftrightarrow> c \<le> x \<and> x < (n::u64)"
  by uint_arith

lemma copy_padded_shadow:
  assumes "unat src + unat n < 2 ^ 64" "unat dest + unat n < 2 ^ 64" "copied \<le> n"
    and "copied = 0 \<or> copied \<le> dest - src"
  shows "rt_ok (copy_padded dest src copied n) r
    (\<lambda>_ r'. \<exists>sh'. r' = r\<lparr>g_shadow_pages := sh'\<rparr> \<and> (\<forall>a. shadow_at sh' a =
       (if a - dest < n
        then (if a - dest < copied then shadow_at (g_shadow_pages r) (src + (a - dest)) else None)
        else shadow_at (g_shadow_pages r) a)))"
proof (cases "isConcrete (g_shadow_pages r) src copied \<and> isConcrete (g_shadow_pages r) dest n")
  case True
  have "unat src + unat copied < 2 ^ 64" using assms(1,3) by (simp add: word_le_nat_alt)
  from isConcrete_iff [OF this] True
  have "\<forall>b. b - src < copied \<longrightarrow> shadow_at (g_shadow_pages r) b = None" by blast
  then have "shadow_at (g_shadow_pages r) (src + x) = None" if "x < copied" for x
    using that by simp
  moreover have "shadow_at (g_shadow_pages r) a = None" if "a - dest < n" for a
    using that True isConcrete_iff [OF assms(2)] by blast
  ultimately show ?thesis
    using True by (simp add: copy_padded_def rt_simps) (rule exI [of _ "g_shadow_pages r"], simp)
next
  case False
  have copy: "shadow_at (copy_shadow (g_shadow_pages r) dest src copied) a =
      (if a - dest < copied then shadow_at (g_shadow_pages r) (src + (a - dest)) else shadow_at (g_shadow_pages r) a)" for a
  proof (cases "copied = 0")
    case True
    then have "dest = src \<or> copied \<le> dest - src" by simp
    then show ?thesis by (rule copy_shadow_at)
  next
    case False
    then show ?thesis using assms(4) by (intro copy_shadow_at) simp
  qed
  let ?sh = "copy_shadow (g_shadow_pages r) dest src copied"
  have fill: "shadow_at (fill_shadow ?sh (dest + copied) (n - copied) None) a =
      (if copied \<le> a - dest \<and> a - dest < n then None else shadow_at ?sh a)" for a
    using tail_region [OF assms(3), of "a - dest"] by (simp add: fill_shadow_at algebra_simps)
  show ?thesis
  proof (cases "copied < n")
    case True
    then show ?thesis
      using False by (auto simp: copy_padded_def rt_simps on_shadow_def copy fill not_less intro!: exI)
  next
    case False': False
    then have n: "n = copied" using assms(3) by simp
    show ?thesis
      using False unfolding n by (auto simp: copy_padded_def rt_simps on_shadow_def copy intro!: exI)
  qed
qed

definition padded_copy ::
    "('m \<Rightarrow> 'e \<Rightarrow> smt_value) \<Rightarrow> u64 \<Rightarrow> u64 \<Rightarrow> u64 \<Rightarrow> ('b, 'e) runtime \<Rightarrow> ('b, 'e) runtime \<Rightarrow> bool" where
  "padded_copy sem dest src n r r' \<longleftrightarrow>
     (\<forall>a \<sigma>. byte_value sem r' a \<sigma> =
        (if a - dest < n
         then (if unat (a - dest) < c_strnlen (memory r) src (unat n)
               then byte_value sem r (src + (a - dest)) \<sigma> else 0)
         else byte_value sem r a \<sigma>))"

lemma padded_copy_step:
  "backend_step live s s' \<Longrightarrow> padded_copy sem dest src n (rtl s') r \<Longrightarrow> padded_copy sem dest src n (rtl s) r"
  by (auto simp: padded_copy_def backend_step_def)

lemma padded_copyI:
  assumes "memory r' = c_strncpy (memory r) dest src n" "k = c_strnlen (memory r) src (unat n)"
    and "\<And>a. shadow_at (g_shadow_pages r') a =
       (if a - dest < n
        then (if unat (a - dest) < k then shadow_at (g_shadow_pages r) (src + (a - dest)) else None)
        else shadow_at (g_shadow_pages r) a)"
  shows "padded_copy sem dest src n r r'"
  unfolding padded_copy_def
proof (intro allI)
  fix a \<sigma>
  have "byte_value sem r' a \<sigma> = 0" if "a - dest < n" "\<not> unat (a - dest) < k"
    using that assms by (simp add: byte_value_def c_strncpy_def)
  moreover have "byte_value sem r' a \<sigma> = byte_value sem r (src + (a - dest)) \<sigma>"
    if "a - dest < n" "unat (a - dest) < k"
    using that assms by (intro byte_value_cong) (simp_all add: c_strncpy_def)
  moreover have "byte_value sem r' a \<sigma> = byte_value sem r a \<sigma>" if "\<not> a - dest < n"
    using that assms by (intro byte_value_cong) (simp_all add: c_strncpy_def)
  ultimately show "byte_value sem r' a \<sigma> = (if a - dest < n
      then (if unat (a - dest) < c_strnlen (memory r) src (unat n)
            then byte_value sem r (src + (a - dest)) \<sigma> else 0)
      else byte_value sem r a \<sigma>)"
    using assms(2) by simp
qed

lemma strncpy_length:
  assumes "\<And>i. i < n \<Longrightarrow> \<not> src + i - dest < (n::u64)"
  shows "c_strnlen (c_strncpy m dest src n) src (unat n) = c_strnlen m src (unat n)"
  by (rule c_strnlen_cong) (use assms [of "of_nat _"] in \<open>auto simp: c_strncpy_def word_less_nat_alt unat_of_nat\<close>)

lemma copied_length:
  fixes n :: u64 and m src
  defines "k \<equiv> c_strnlen m src (unat n)"
  shows "min n (of_nat k) = of_nat k" "(of_nat k :: u64) \<le> n" "x < (of_nat k :: u64) \<longleftrightarrow> unat x < k"
proof -
  have k: "k \<le> unat n" by (simp add: k_def c_strnlen_le)
  moreover have "unat n < 2 ^ 64" using unsigned_less [of n] by simp
  ultimately have lt: "k < 2 ^ 64" by simp
  with k show le: "(of_nat k :: u64) \<le> n" by (simp add: word_le_nat_alt unat_of_nat)
  then show "min n (of_nat k) = of_nat k" by (simp add: min_def)
  show "x < (of_nat k :: u64) \<longleftrightarrow> unat x < k" by (rule less_of_nat_u64 [OF lt])
qed

context constraint_backend
begin

lemma SYM_strncpy_copies:
  assumes "unat src + unat n < 2 ^ 64" "unat dest + unat n < 2 ^ 64"
    and "\<And>i. i < n \<Longrightarrow> \<not> src + i - dest < n"
    and "arg_ok live sem (rtl s) (0, 64)" "arg_ok live sem (rtl s) (1, 64)" "arg_ok live sem (rtl s) (2, 64)"
  shows "rt_ok (SYM_strncpy B L dest src n) s (\<lambda>result s'. result = dest \<and>
    padded_copy sem dest src n (rtl s) (rtl s') \<and> g_return_value (rtl s') = None)"
  unfolding SYM_strncpy_def
  apply (rule try_param_rule [where ?s0.0 = s], simp, simp add: assms(4), simp, simp)
  apply (rule try_param_rule [where ?s0.0 = s], assumption, simp add: assms(5), simp, simp)
  apply (rule try_param_rule [where ?s0.0 = s], assumption, simp add: assms(6), simp, simp)
  subgoal for s1 s2 s'
  proof -
    assume step: "backend_step live s s'"
    let ?m = "memory (rtl s')"
    let ?k = "c_strnlen ?m src (unat n)"
    let ?r = "(rtl s')\<lparr>memory := c_strncpy ?m dest src n, g_return_value := None\<rparr>"
    have apart: "of_nat ?k = (0::u64) \<or> of_nat ?k \<le> dest - src"
    proof (rule ccontr)
      assume "\<not> ?thesis"
      then have "dest - src < n" using copied_length(2) [of ?m src n] by (meson not_le order_less_le_trans)
      then show False using assms(3) [of "dest - src"] by (simp add: word_neq_0_conv [symmetric])
    qed
    have "rt_ok (copy_padded dest src (of_nat ?k) n) ?r
        (\<lambda>_ r'. padded_copy sem dest src n (rtl s') r' \<and> g_return_value r' = None)"
      by (rule rt_ok_mono [OF copy_padded_shadow [OF assms(1,2) copied_length(2) apart]])
        (auto simp: copied_length(3) intro!: padded_copyI [where k = ?k])
    then show ?thesis
      by (simp add: rt_simps Let_def strncpy_length [OF assms(3)] copied_length(1))
        (erule rt_ok_mono, auto intro: padded_copy_step [OF step])
  qed
  done

subsection \<open>Comparisons\<close>

lemma compare_bytes_denotes:
  assumes "iter_view (g_shadow_pages r) (g_shadow_pages r) itA" "byte_ok live sem r (it_address itA)"
    and "iter_view (g_shadow_pages r) (g_shadow_pages r) itB" "byte_ok live sem r (it_address itB)"
  shows "mem_denotes live sem (compare_bytes B itA itB) r
    (\<lambda>\<sigma>. BoolV (byte_value sem r (it_address itA) \<sigma> = byte_value sem r (it_address itB) \<sigma>))"
proof -
  obtain x b1 where x: "nonnull_deref B itA r = Inr (Some x, r\<lparr>backend_state := b1\<rparr>)" "x \<in> live b1"
    "live (backend_state r) \<subseteq> live b1" "\<And>\<sigma>. sem \<sigma> x = BVV 8 (byte_value sem r (it_address itA) \<sigma>)"
    using mem_denotesE [OF nonnull_deref_denotes [OF assms(1,2)]] by blast
  let ?r1 = "r\<lparr>backend_state := b1\<rparr>"
  have "mem_denotes live sem (nonnull_deref B itB) ?r1 (\<lambda>\<sigma>. BVV 8 (byte_value sem ?r1 (it_address itB) \<sigma>))"
    by (rule nonnull_deref_denotes) (use assms(3,4) x(3) byte_ok_backend in auto)
  then obtain y b2 where y: "nonnull_deref B itB ?r1 = Inr (Some y, r\<lparr>backend_state := b2\<rparr>)" "y \<in> live b2"
    "live b1 \<subseteq> live b2" "\<And>\<sigma>. sem \<sigma> y = BVV 8 (byte_value sem r (it_address itB) \<sigma>)"
    by (rule mem_denotesE) auto
  have "denotes live sem (build_binary B SEqual (Some x) (Some y)) b2
      (\<lambda>\<sigma>. BoolV (byte_value sem r (it_address itA) \<sigma> = byte_value sem r (it_address itB) \<sigma>))"
    by (rule law_binary) (use x y in auto)
  then obtain e b3 where "build_binary B SEqual (Some x) (Some y) b2 = Inr (Some e, b3)" "e \<in> live b3"
    "live b2 \<subseteq> live b3" "\<And>\<sigma>. sem \<sigma> e = BoolV (byte_value sem r (it_address itA) \<sigma> = byte_value sem r (it_address itB) \<sigma>)"
    by (rule denotesE) blast
  then show ?thesis
    using x(1,3) y(1,3)
    by (intro mem_denotesI [where e = e and b = b3]) (auto simp: compare_bytes_def rt_bind_def on_backend_def)
qed

lemma compare_loop_denotes:
  assumes "iter_view (g_shadow_pages r) (g_shadow_pages r) itA" "iter_view (g_shadow_pages r) (g_shadow_pages r) itB"
    and "\<And>j. j < k \<Longrightarrow> byte_ok live sem r (it_address itA + 1 + of_nat j)"
    and "\<And>j. j < k \<Longrightarrow> byte_ok live sem r (it_address itB + 1 + of_nat j)"
    and "e \<in> live (backend_state r)" "\<And>\<sigma>. sem \<sigma> e = BoolV (p \<sigma>)"
  shows "mem_denotes live sem (compare_loop B k itA itB (Some e)) r
    (\<lambda>\<sigma>. BoolV (p \<sigma> \<and> region_bytes sem r (it_address itA + 1) k \<sigma> = region_bytes sem r (it_address itB + 1) k \<sigma>))"
  using assms
proof (induction k arbitrary: r itA itB e p)
  case 0
  then show ?case
    by (intro mem_denotesI [where e = e and b = "backend_state r"]) (auto simp: rt_return_def region_bytes_def)
next
  case (Suc k)
  let ?sh = "g_shadow_pages r" and ?a = "it_address itA + 1" and ?b = "it_address itB + 1"
  let ?A = "read_next ?sh itA" and ?B = "read_next ?sh itB"
  have view: "iter_view ?sh ?sh ?A" "iter_view ?sh ?sh ?B"
    using read_next_view [OF Suc.prems(1)] read_next_view [OF Suc.prems(2)] by simp_all
  have "byte_ok live sem r ?a" "byte_ok live sem r ?b" using Suc.prems(3,4) [of 0] by simp_all
  then have "mem_denotes live sem (compare_bytes B ?A ?B) r
      (\<lambda>\<sigma>. BoolV (byte_value sem r ?a \<sigma> = byte_value sem r ?b \<sigma>))"
    using compare_bytes_denotes [OF view(1) _ view(2)] by simp
  then obtain c b1 where c: "compare_bytes B ?A ?B r = Inr (Some c, r\<lparr>backend_state := b1\<rparr>)" "c \<in> live b1"
    "live (backend_state r) \<subseteq> live b1" "\<And>\<sigma>. sem \<sigma> c = BoolV (byte_value sem r ?a \<sigma> = byte_value sem r ?b \<sigma>)"
    by (rule mem_denotesE) blast
  have "denotes live sem (build_binary B SBool_and (Some e) (Some c)) b1
      (\<lambda>\<sigma>. BoolV (p \<sigma> \<and> byte_value sem r ?a \<sigma> = byte_value sem r ?b \<sigma>))"
    by (rule law_binary) (use Suc.prems(5,6) c in auto)
  then obtain d b2 where d: "build_binary B SBool_and (Some e) (Some c) b1 = Inr (Some d, b2)" "d \<in> live b2"
    "live b1 \<subseteq> live b2" "\<And>\<sigma>. sem \<sigma> d = BoolV (p \<sigma> \<and> byte_value sem r ?a \<sigma> = byte_value sem r ?b \<sigma>)"
    by (rule denotesE) blast
  let ?r2 = "r\<lparr>backend_state := b2\<rparr>"
  have live: "live (backend_state r) \<subseteq> live b2" using c(3) d(3) by blast
  have ok: "byte_ok live sem ?r2 (x + 1 + 1 + of_nat j)" if "byte_ok live sem r (x + 1 + of_nat (Suc j))" for x j
    using byte_ok_backend [OF that live] by (simp add: ac_simps)
  have "mem_denotes live sem (compare_loop B k ?A ?B (Some d)) ?r2
      (\<lambda>\<sigma>. BoolV ((p \<sigma> \<and> byte_value sem r ?a \<sigma> = byte_value sem r ?b \<sigma>) \<and>
         region_bytes sem ?r2 (it_address ?A + 1) k \<sigma> = region_bytes sem ?r2 (it_address ?B + 1) k \<sigma>))"
    by (rule Suc.IH) (use view d Suc.prems(3,4) [of "Suc _"] ok in auto)
  then obtain x b3 where x: "compare_loop B k ?A ?B (Some d) ?r2 = Inr (Some x, r\<lparr>backend_state := b3\<rparr>)" "x \<in> live b3"
    "live b2 \<subseteq> live b3"
    "\<And>\<sigma>. sem \<sigma> x = BoolV ((p \<sigma> \<and> byte_value sem r ?a \<sigma> = byte_value sem r ?b \<sigma>) \<and>
       region_bytes sem r (?a + 1) k \<sigma> = region_bytes sem r (?b + 1) k \<sigma>)"
    by (rule mem_denotesE) auto
  show ?case
  proof (rule mem_denotesI)
    show "compare_loop B (Suc k) itA itB (Some e) r = Inr (Some x, r\<lparr>backend_state := b3\<rparr>)"
      using c(1) d(1) x(1) by (simp add: rt_bind_def rt_get_def Let_def on_backend_def)
    show "sem \<sigma> x = BoolV (p \<sigma> \<and> region_bytes sem r ?a (Suc k) \<sigma> = region_bytes sem r ?b (Suc k) \<sigma>)" for \<sigma>
      using x(4) by (simp add: region_bytes_Suc)
  qed (use x live in auto)
qed

lemma compare_constraint_denotes:
  assumes "n \<noteq> 0" "\<And>b. b - x < n \<Longrightarrow> byte_ok live sem r b" "\<And>b. b - y < n \<Longrightarrow> byte_ok live sem r b"
  shows "mem_denotes live sem (compare_constraint B x y n) r
    (\<lambda>\<sigma>. BoolV (region_bytes sem r x (unat n) \<sigma> = region_bytes sem r y (unat n) \<sigma>))"
proof -
  let ?sh = "g_shadow_pages r"
  obtain k where k: "unat n = Suc k" using assms(1) by (metis not0_implies_Suc unat_eq_zero)
  have "unat n < 2 ^ 64" using unsigned_less [of n] by simp
  then have lt: "k < 2 ^ 64" "Suc k < 2 ^ 64" using k by simp_all
  have j: "(1::u64) + of_nat j < n" if "j < k" for j
    using that lt k by (simp add: word_less_nat_alt unat_word_ariths unat_of_nat)
  have ok: "byte_ok live sem r (x + 1 + of_nat j)" "byte_ok live sem r (y + 1 + of_nat j)" if "j < k" for j
    using assms(2) [of "x + (1 + of_nat j)"] assms(3) [of "y + (1 + of_nat j)"] j [OF that] by (simp_all add: ac_simps)
  have "0 < n" using assms(1) by (simp add: word_neq_0_conv)
  then have "byte_ok live sem r x" "byte_ok live sem r y" using assms(2) [of x] assms(3) [of y] by simp_all
  then have "mem_denotes live sem (compare_bytes B (read_iter ?sh x) (read_iter ?sh y)) r
      (\<lambda>\<sigma>. BoolV (byte_value sem r x \<sigma> = byte_value sem r y \<sigma>))"
    using compare_bytes_denotes [of r "read_iter ?sh x" "read_iter ?sh y"] by (simp add: read_iter_view)
  then obtain e b where e: "compare_bytes B (read_iter ?sh x) (read_iter ?sh y) r = Inr (Some e, r\<lparr>backend_state := b\<rparr>)"
    "e \<in> live b" "live (backend_state r) \<subseteq> live b" "\<And>\<sigma>. sem \<sigma> e = BoolV (byte_value sem r x \<sigma> = byte_value sem r y \<sigma>)"
    by (rule mem_denotesE) blast
  let ?r = "r\<lparr>backend_state := b\<rparr>"
  have "mem_denotes live sem (compare_loop B k (read_iter ?sh x) (read_iter ?sh y) (Some e)) ?r
      (\<lambda>\<sigma>. BoolV (byte_value sem r x \<sigma> = byte_value sem r y \<sigma> \<and>
         region_bytes sem ?r (it_address (read_iter ?sh x) + 1) k \<sigma> = region_bytes sem ?r (it_address (read_iter ?sh y) + 1) k \<sigma>))"
    by (rule compare_loop_denotes) (use e ok [THEN byte_ok_backend, OF _ e(3)] in \<open>simp_all add: read_iter_view\<close>)
  then obtain d b' where "compare_loop B k (read_iter ?sh x) (read_iter ?sh y) (Some e) ?r = Inr (Some d, r\<lparr>backend_state := b'\<rparr>)"
    "d \<in> live b'" "live b \<subseteq> live b'"
    "\<And>\<sigma>. sem \<sigma> d = BoolV (byte_value sem r x \<sigma> = byte_value sem r y \<sigma> \<and>
       region_bytes sem r (x + 1) k \<sigma> = region_bytes sem r (y + 1) k \<sigma>)"
    by (rule mem_denotesE) auto
  then show ?thesis
    using e k by (intro mem_denotesI [where e = d and b = b'])
      (auto simp: compare_constraint_def rt_bind_def rt_get_def region_bytes_Suc)
qed

end

end
