(* ===== verification/Libc_Inputs.thy ===== *)
theory Libc_Inputs
  imports Libc_Laws
begin

text \<open>
  The wrappers that read the symbolic input, over the simple backend: which variable each byte of the
  buffer is shadowed by, and how the position in the input moves.
\<close>

subsection \<open>The input variables survive the search for alternatives\<close>

definition stdin_of :: "('e simple_state, 'e, 'w) process \<Rightarrow> 'e option list" where
  "stdin_of s = stdinBytes (backend_state (rtl s))"

definition input_step ::
    "('e simple_state, 'e, 'w) process \<Rightarrow> ('e simple_state, 'e, 'w) process \<Rightarrow> bool" where
  "input_step s s' \<longleftrightarrow> backend_step live_exprs s s' \<and> stdin_of s' = stdin_of s"

lemma input_step_refl [simp]: "input_step s s"
  by (simp add: input_step_def)

lemma input_step_trans: "input_step s1 s2 \<Longrightarrow> input_step s2 s3 \<Longrightarrow> input_step s1 s3"
  by (auto simp: input_step_def intro: backend_step_trans)

lemma keeps_stdin_register: "rt_post (registerExpression e) s (\<lambda>_ s'. stdinBytes s' = stdinBytes s)"
  by (simp add: registerExpression_def post_simps inc_ref_def)

lemma keeps_stdin_build: "rt_post (build z op xs) s (\<lambda>_ s'. stdinBytes s' = stdinBytes s)"
  by (simp add: build_def post_simps keeps_stdin_register post_z3_mk)

lemma post_of_z3: "(\<And>e. Q e s) \<Longrightarrow> rt_post (of_z3 x) s Q"
  by (cases x) (simp_all add: of_z3_def post_simps)

lemma keeps_stdin_integer: "rt_post (sym_build_integer z v w) s (\<lambda>_ s'. stdinBytes s' = stdinBytes s)"
  unfolding sym_build_integer_def with_sort_def inc_ref_def dec_ref_def post_simps
  by (rule post_of_z3, rule rt_post_mono [OF keeps_stdin_register]) simp

lemma rt_post_lift [post_simps]:
  "rt_post (on_runtime m) s Q \<longleftrightarrow> rt_post m (rtl s) (\<lambda>x r. Q x (s\<lparr>rtl := r\<rparr>))"
  "rt_post (on_backend m') r Q' \<longleftrightarrow> rt_post m' (backend_state r) (\<lambda>x b. Q' x (r\<lparr>backend_state := b\<rparr>))"
  by (auto simp: rt_post_def on_runtime_def on_backend_def split: sum.splits)

lemma keeps_stdin_alternative:
  "rt_post (rt_bind (build_integer (simple_backend z) v bits) (\<lambda>k.
     rt_bind (build_binary (simple_backend z) SEqual e k) (\<lambda>c.
     push_path_constraint (simple_backend z) c True caller))) s (\<lambda>_ s'. stdinBytes s' = stdinBytes s)"
  unfolding post_simps simple_backend_def sym_build_binary_def sym_push_path_constraint_def
  by (auto simp: post_simps intro!: rt_post_mono [OF keeps_stdin_integer] rt_post_mono [OF keeps_stdin_build])

lemma rt_ok_post: "rt_ok m s Q \<Longrightarrow> rt_post m s R \<Longrightarrow> rt_ok m s (\<lambda>x s'. Q x s' \<and> R x s')"
  by (auto simp: rt_ok_def rt_post_def)

lemma tryAlternative_keeps_stdin:
  "rt_post (tryAlternative (simple_backend z) v bits e caller) s (\<lambda>_ s'. stdin_of s' = stdin_of s)"
proof (cases e)
  case None
  then show ?thesis by (simp add: tryAlternative_def post_simps)
next
  case (Some x)
  then show ?thesis
    unfolding tryAlternative_def stdin_of_def
    by (simp add: rt_post_lift keeps_stdin_alternative)
qed

context z3_laws
begin

lemma try_param_input_rule:
  assumes "input_step s0 s" "arg_ok live_exprs sem (rtl s0) (i, unat bits)" "0 < unat bits" "unat bits \<le> 64"
    and "\<And>s'. input_step s0 s' \<Longrightarrow> rt_ok m s' Q"
  shows "rt_ok (rt_bind (try_param (simple_backend z) v bits i caller) (\<lambda>_. m)) s Q"
proof -
  have "arg_ok live_exprs sem (rtl s) (i, unat bits)"
    using assms(1,2) by (auto simp: input_step_def intro: arg_ok_step)
  note ok = pushes.try_param_ok [OF this assms(3,4), of v caller]
  moreover have "rt_post (try_param (simple_backend z) v bits i caller) s (\<lambda>_ s'. stdin_of s' = stdin_of s)"
    by (simp add: try_param_def post_simps param_def sym_get_parameter_expression_def tryAlternative_keeps_stdin)
  ultimately have "rt_ok (try_param (simple_backend z) v bits i caller) s
      (\<lambda>_ s'. backend_step live_exprs s s' \<and> stdin_of s' = stdin_of s)"
    by (rule rt_ok_post)
  then show ?thesis
    unfolding rt_ok_bind
    by (rule rt_ok_mono) (use assms(5) input_step_trans [OF assms(1)] in \<open>auto simp: input_step_def\<close>)
qed

end

subsection \<open>Reading the input\<close>

text \<open>
  Where the position in the input is \<open>off\<close>: the variables of the first bytes exist, at least up to \<open>off\<close>.
\<close>

definition position_ok :: "'e z3 \<Rightarrow> ('e simple_state, 'e, 'w) process \<Rightarrow> bool" where
  "position_ok z s \<longleftrightarrow> stdin_table z (stdin_of s) \<and> unat (inputOffset s) \<le> length (stdin_of s)"

definition input_variable :: "'e z3 \<Rightarrow> nat \<Rightarrow> 'e option" where
  "input_variable z i = mk_const z (''stdin'' @ to_string i) (BV_sort 8)"

text \<open>The bytes \<open>[buf, buf + n)\<close> of \<open>s'\<close> are the input bytes from \<open>off\<close> on; all others are as in \<open>s\<close>.\<close>

definition input_bytes_at ::
    "'e z3 \<Rightarrow> u64 \<Rightarrow> u64 \<Rightarrow> u64 \<Rightarrow> ('e simple_state, 'e, 'w) process \<Rightarrow> ('e simple_state, 'e, 'w) process \<Rightarrow> bool"
  where
  "input_bytes_at z buf n off s s' \<longleftrightarrow>
     (\<forall>a. shadow_at (g_shadow_pages (rtl s')) a =
        (if a - buf < n then input_variable z (unat off + unat (a - buf))
         else shadow_at (g_shadow_pages (rtl s)) a))"

context z3_laws
begin

lemma make_symbolic_generates:
  assumes "unat off + n \<le> 2 ^ 64"
  shows "generates (\<lambda>i. rt_bind (rt_get (\<lambda>s. memory s (buf + of_nat i))) (\<lambda>byte.
       on_backend (get_input_byte (simple_backend z) (off + of_nat i) byte)))
     (\<lambda>i b. stdin_table z (stdinBytes b) \<and> unat off + i \<le> length (stdinBytes b)) (\<lambda>_ _. True)
     (\<lambda>i x _. x = input_variable z (unat off + i)) n m"
  unfolding generates_def
proof (intro conjI allI impI)
  fix i :: nat and s :: "('e simple_state, 'e) runtime"
  assume i: "i < n" and I: "stdin_table z (stdinBytes (backend_state s)) \<and> unat off + i \<le> length (stdinBytes (backend_state s))"
  have off: "unat (off + of_nat i) = unat off + i"
    using i assms by (simp add: unat_word_ariths unat_of_nat)
  obtain e b where "mk_const z (''stdin'' @ to_string (unat off + i)) (BV_sort 8) = Some e"
    "sym_get_input_byte z (off + of_nat i) (memory s (buf + of_nat i)) (backend_state s) = Inr (Some e, b)"
    "stdin_table z (stdinBytes b)" "length (stdinBytes b) = max (length (stdinBytes (backend_state s))) (unat off + i + 1)"
    using get_input_byte_in_order [OF z3_laws_axioms, of "backend_state s" "off + of_nat i"
      "memory s (buf + of_nat i)" 0] I off by auto
  then show "rt_ok (rt_bind (rt_get (\<lambda>s. memory s (buf + of_nat i))) (\<lambda>byte.
       on_backend (get_input_byte (simple_backend z) (off + of_nat i) byte))) s
     (\<lambda>x s'. \<exists>b. s' = s\<lparr>backend_state := b\<rparr> \<and> True \<and>
        (stdin_table z (stdinBytes b) \<and> unat off + Suc i \<le> length (stdinBytes b)) \<and>
        x = input_variable z (unat off + i))"
    by (auto simp: rt_ok_def rt_bind_def rt_get_def on_backend_def simple_backend_def input_variable_def)
qed (simp_all add: reflp_def transp_def)

lemma input_read_symbolic:
  assumes "fd = inputFileDescriptor s" "position_ok z s" "unat (inputOffset s) + unat n < 2 ^ 64"
  shows "rt_ok (input_read (simple_backend z) fd buf n) s (\<lambda>_ s'.
    inputOffset s' = inputOffset s + n \<and> position_ok z s' \<and> input_bytes_at z buf n (inputOffset s) s s' \<and>
    memory (rtl s') = memory (rtl s) \<and> g_return_value (rtl s') = g_return_value (rtl s))"
proof -
  let ?gen = "\<lambda>i. rt_bind (rt_get (\<lambda>s. memory s (buf + of_nat i))) (\<lambda>byte.
    on_backend (get_input_byte (simple_backend z) (inputOffset s + of_nat i) byte))"
  have "generates ?gen (\<lambda>i b. stdin_table z (stdinBytes b) \<and> unat (inputOffset s) + i \<le> length (stdinBytes b))
      (\<lambda>_ _. True) (\<lambda>i x _. x = input_variable z (unat (inputOffset s) + i)) (unat n) (memory (rtl s))"
    by (rule make_symbolic_generates) (use assms(3) in simp)
  then obtain sh b where run: "store_all ?gen buf n (rtl s) = Inr ((), (rtl s)\<lparr>g_shadow_pages := sh, backend_state := b\<rparr>)"
    "stdin_table z (stdinBytes b)" "unat (inputOffset s) + unat n \<le> length (stdinBytes b)"
    "\<And>j. j < unat n \<Longrightarrow> shadow_at sh (buf + of_nat j) = input_variable z (unat (inputOffset s) + j)"
    "\<And>a. \<not> a - buf < n \<Longrightarrow> shadow_at sh a = shadow_at (g_shadow_pages (rtl s)) a"
    by (rule store_all_generates [where s = "rtl s" and addr = buf])
      (use assms(2) in \<open>auto simp: position_ok_def stdin_of_def\<close>)
  have "shadow_at sh a = input_variable z (unat (inputOffset s) + unat (a - buf))" if "a - buf < n" for a
    using run(4) [of "unat (a - buf)"] that by (simp add: word_less_nat_alt)
  moreover have "unat (inputOffset s + n) = unat (inputOffset s) + unat n"
    using assms(3) by (simp add: unat_word_ariths)
  moreover have "rt_ok (sym_make_symbolic (simple_backend z) buf n (inputOffset s)) (rtl s)
      (\<lambda>_ r. r = (rtl s)\<lparr>g_shadow_pages := sh, backend_state := b\<rparr>)"
    using run(1) by (simp add: sym_make_symbolic_def rt_ok_def)
  ultimately show ?thesis
    using assms(1) run(2,3,5)
    by (auto simp: input_read_def rt_simps input_bytes_at_def position_ok_def stdin_of_def elim!: rt_ok_mono)
qed

lemma SYM_read_symbolic:
  assumes "arg_ok live_exprs sem (rtl s) (1, 64)" "arg_ok live_exprs sem (rtl s) (2, 64)"
    and "c_read L fildes buf nbyte (memory (rtl s), world s) = (result, m', w')" "0 \<le> sint result"
    and "fildes = inputFileDescriptor s" "position_ok z s" "unat (inputOffset s) + unat result < 2 ^ 64"
  shows "rt_ok (SYM_read (simple_backend z) L fildes buf nbyte) s (\<lambda>x s'. x = result \<and>
    inputOffset s' = inputOffset s + result \<and> position_ok z s' \<and>
    input_bytes_at z buf result (inputOffset s) s s' \<and> memory (rtl s') = m' \<and> g_return_value (rtl s') = None)"
  unfolding SYM_read_def
  apply (rule try_param_input_rule [where ?s0.0 = s], simp, simp add: assms(1), simp, simp)
  apply (rule try_param_input_rule [where ?s0.0 = s], assumption, simp add: assms(2), simp, simp)
  subgoal for s1 s'
  proof -
    assume step: "input_step s s'"
    then have b: "backend_step live_exprs s s'" "stdin_of s' = stdin_of s" by (simp_all add: input_step_def)
    note f = backend_step_fields [OF b(1)]
    let ?s = "s'\<lparr>world := w', rtl := (rtl s')\<lparr>memory := m', g_return_value := None\<rparr>\<rparr>"
    have "rt_ok (input_read (simple_backend z) fildes buf result) ?s (\<lambda>_ s''.
        inputOffset s'' = inputOffset ?s + result \<and> position_ok z s'' \<and>
        input_bytes_at z buf result (inputOffset ?s) ?s s'' \<and>
        memory (rtl s'') = memory (rtl ?s) \<and> g_return_value (rtl s'') = g_return_value (rtl ?s))"
      by (rule input_read_symbolic) (use assms(5-7) b(2) f in \<open>simp_all add: position_ok_def stdin_of_def\<close>)
    then show ?thesis
      using assms(3,4) f
      by (simp add: rt_simps not_less) (erule rt_ok_mono, simp add: input_bytes_at_def)
  qed
  done

subsection \<open>A null result of fgets\<close>

text \<open>
  \<open>fgets\<close> returns null at the end of the file and leaves the buffer alone; the wrapper still treats
  the string in the buffer as input.
\<close>

lemma SYM_fgets_end_of_file:
  assumes "arg_ok live_exprs sem (rtl s) (0, 64)" "arg_ok live_exprs sem (rtl s) (1, 32)"
    and "c_fgets L str n stream (memory (rtl s), world s) = (0, memory (rtl s), w')"
    and "c_fileno L stream w' = inputFileDescriptor s" "position_ok z s"
    and "unat (inputOffset s) + c_strlen (memory (rtl s)) str < 2 ^ 64"
  shows "rt_ok (SYM_fgets (simple_backend z) L str n stream) s (\<lambda>x s'. x = 0 \<and>
    inputOffset s' = inputOffset s + of_nat (c_strlen (memory (rtl s)) str) \<and>
    input_bytes_at z str (of_nat (c_strlen (memory (rtl s)) str)) (inputOffset s) s s')"
  unfolding SYM_fgets_def
  apply (rule try_param_input_rule [where ?s0.0 = s], simp, simp add: assms(1), simp, simp)
  apply (rule try_param_input_rule [where ?s0.0 = s], assumption, simp add: assms(2), simp, simp)
  subgoal for s1 s'
  proof -
    assume step: "input_step s s'"
    then have b: "backend_step live_exprs s s'" "stdin_of s' = stdin_of s" by (simp_all add: input_step_def)
    note f = backend_step_fields [OF b(1)]
    let ?len = "of_nat (c_strlen (memory (rtl s)) str) :: u64"
    let ?s = "s'\<lparr>world := w', rtl := (rtl s')\<lparr>memory := memory (rtl s), g_return_value := g_function_arguments (rtl s) ! 0\<rparr>\<rparr>"
    have "unat ?len = c_strlen (memory (rtl s)) str" using assms(6) by (simp add: unat_of_nat)
    then have "rt_ok (input_read (simple_backend z) (inputFileDescriptor s) str ?len) ?s (\<lambda>_ s''.
        inputOffset s'' = inputOffset ?s + ?len \<and> position_ok z s'' \<and>
        input_bytes_at z str ?len (inputOffset ?s) ?s s'' \<and>
        memory (rtl s'') = memory (rtl ?s) \<and> g_return_value (rtl s'') = g_return_value (rtl ?s))"
      by (intro input_read_symbolic) (use assms(5,6) b(2) f in \<open>simp_all add: position_ok_def stdin_of_def\<close>)
    then show ?thesis
      using assms(3,4) f
      by (simp add: rt_simps) (erule rt_ok_mono, simp add: input_bytes_at_def)
  qed
  done

subsection \<open>Mapped input\<close>

text \<open>Every byte of a mapping is asked for at the same offset, so that all of them share one variable.\<close>

lemma map_input_generates:
  assumes "length bytes \<le> unat off"
  shows "generates (\<lambda>i. rt_bind (rt_get (\<lambda>s. memory s (buf + of_nat i))) (\<lambda>byte.
       on_backend (get_input_byte (simple_backend z) off byte)))
     (\<lambda>i b. if i = 0 then stdinBytes b = bytes
            else unat off < length (stdinBytes b) \<and> stdinBytes b ! unat off = input_variable z (length bytes))
     (\<lambda>_ _. True) (\<lambda>i x _. x = input_variable z (length bytes)) n m"
  unfolding generates_def
proof (intro conjI allI impI)
  fix i :: nat and s :: "('e simple_state, 'e) runtime"
  let ?b = "backend_state s" and ?v = "memory s (buf + of_nat i)"
  assume I: "if i = 0 then stdinBytes ?b = bytes
    else unat off < length (stdinBytes ?b) \<and> stdinBytes ?b ! unat off = input_variable z (length bytes)"
  obtain e where e: "mk_const z (''stdin'' @ to_string (length bytes)) (BV_sort 8) = Some e"
    using z3_const [of 8] by auto
  have "\<exists>b. sym_get_input_byte z off ?v ?b = Inr (Some e, b) \<and>
      unat off < length (stdinBytes b) \<and> stdinBytes b ! unat off = Some e"
  proof (cases "i = 0")
    case True
    with I assms have "length (stdinBytes ?b) \<le> unat off" by simp
    then show ?thesis
      using True I e assms build_variable_run [OF e, of ?b]
      by (auto simp: sym_get_input_byte_def rt_bind_def rt_get_def rt_modify_def rt_return_def resize_def nth_append)
  next
    case False
    then show ?thesis
      using I e by (auto simp: sym_get_input_byte_def rt_bind_def rt_get_def rt_return_def input_variable_def)
  qed
  then show "rt_ok (rt_bind (rt_get (\<lambda>s. memory s (buf + of_nat i))) (\<lambda>byte.
       on_backend (get_input_byte (simple_backend z) off byte))) s
     (\<lambda>x s'. \<exists>b. s' = s\<lparr>backend_state := b\<rparr> \<and> True \<and>
        (if Suc i = 0 then stdinBytes b = bytes
         else unat off < length (stdinBytes b) \<and> stdinBytes b ! unat off = input_variable z (length bytes)) \<and>
        x = input_variable z (length bytes))"
    using e by (auto simp: rt_ok_def rt_bind_def rt_get_def on_backend_def simple_backend_def input_variable_def)
qed (simp_all add: reflp_def transp_def)

lemma SYM_mmap64_one_variable:
  assumes "c_mmap64 L addr len prot flags fildes off (memory (rtl s), world s) = (result, m', w')"
    and "result \<noteq> MAP_FAILED" "fildes = inputFileDescriptor s" "g_function_arguments (rtl s) ! 1 = None"
    and "length (stdin_of s) \<le> unat (off + len)"
  shows "rt_ok (SYM_mmap64 (simple_backend z) L addr len prot flags fildes off) s (\<lambda>x s'. x = result \<and>
    (\<forall>a. a - result < len \<longrightarrow> shadow_at (g_shadow_pages (rtl s')) a = input_variable z (length (stdin_of s))))"
proof -
  let ?s = "(rtl s)\<lparr>memory := m', g_return_value := None\<rparr>"
  let ?gen = "\<lambda>i. rt_bind (rt_get (\<lambda>s. memory s (result + of_nat i))) (\<lambda>byte.
    on_backend (get_input_byte (simple_backend z) (off + len) byte))"
  obtain sh b where run: "store_all ?gen result len ?s = Inr ((), ?s\<lparr>g_shadow_pages := sh, backend_state := b\<rparr>)"
    "\<And>j. j < unat len \<Longrightarrow> shadow_at sh (result + of_nat j) = input_variable z (length (stdin_of s))"
    by (rule store_all_generates [OF map_input_generates [OF assms(5)], where s = ?s and addr = result])
      (auto simp: stdin_of_def)
  have "shadow_at sh a = input_variable z (length (stdin_of s))" if "a - result < len" for a
    using run(2) [of "unat (a - result)"] that by (simp add: word_less_nat_alt)
  moreover have "rt_ok (map_input (simple_backend z) result len (off + len)) ?s
      (\<lambda>_ r. r = ?s\<lparr>g_shadow_pages := sh, backend_state := b\<rparr>)"
    using run(1) by (simp add: map_input_def rt_ok_def)
  ultimately show ?thesis
    using assms(1-4)
    by (simp add: SYM_mmap64_def rt_simps try_param_def tryAlternative_def) (erule rt_ok_mono, simp)
qed

subsection \<open>Characters\<close>

lemma SYM_getc_symbolic:
  assumes "c_getc L stream (memory (rtl s), world s) = (result, m', w')" "result \<noteq> EOF"
    and "c_fileno L stream w' = inputFileDescriptor s" "position_ok z s"
  shows "rt_ok (SYM_getc (simple_backend z) L stream) s (\<lambda>x s'. x = result \<and>
    inputOffset s' = inputOffset s + 1 \<and> inputFileDescriptor s' = inputFileDescriptor s \<and>
    (\<exists>v e. input_variable z (unat (inputOffset s)) = Some v \<and> g_return_value (rtl s') = Some e \<and>
       (\<forall>\<sigma>. \<exists>i. sem \<sigma> v = BVV 8 i \<and> sem \<sigma> e = BVV 32 i)))"
proof -
  let ?b = "backend_state (rtl s)"
  obtain v b1 where v: "mk_const z (''stdin'' @ to_string (unat (inputOffset s))) (BV_sort 8) = Some v"
    "sym_get_input_byte z (inputOffset s) (ucast result) ?b = Inr (Some v, b1)"
    using get_input_byte_in_order [OF z3_laws_axioms, of ?b "inputOffset s" "ucast result" 0] assms(4)
    by (auto simp: position_ok_def stdin_of_def)
  have "\<forall>\<sigma>. \<exists>i. sem \<sigma> v = BVV 8 i" using z3_const [of 8 "''stdin'' @ to_string (unat (inputOffset s))"] v(1) by simp
  then obtain f where f: "\<And>\<sigma>. sem \<sigma> v = BVV 8 (f \<sigma>)" by metis
  have "denotes live_exprs sem (sym_build_zext z (Some v) 24) b1 (\<lambda>\<sigma>. BVV (8 + unat (24::u8)) (f \<sigma>))"
    by (rule denotes_ext(2) [OF f])
  then obtain e b2 where e: "sym_build_zext z (Some v) 24 b1 = Inr (Some e, b2)" "\<And>\<sigma>. sem \<sigma> e = BVV 32 (f \<sigma>)"
    by (rule denotesE) auto
  have "rt_ok (rt_bind (get_input_byte (simple_backend z) (inputOffset s) (ucast result))
      (\<lambda>byte. build_zext (simple_backend z) byte 24)) ?b (\<lambda>x b. x = Some e)"
    using v(2) e(1) by (simp add: rt_ok_def rt_bind_def simple_backend_def)
  then show ?thesis
    using assms(1-3) v(1) e(2) f
    by (simp add: SYM_getc_def SYM_get_char_def rt_ok_bind rt_ok_on_os rt_ok_fileno rt_ok_get rt_ok_modify
        rt_ok_on_runtime rt_ok_on_backend rt_ok_set_return rt_ok_return input_variable_def)
      (erule rt_ok_mono, erule rt_ok_mono, simp)
qed

text \<open>Pushing a character back moves the position to where it was before the character was read.\<close>

lemma ungetc_position:
  assumes "c_ungetc L c stream (memory (rtl s), world s) = (result, m', w')" "result \<noteq> EOF"
    and "c_fileno L stream w' = inputFileDescriptor s"
  shows "rt_ok (SYM_ungetc L c stream) s (\<lambda>x s'. x = result \<and> inputOffset s' = inputOffset s - 1)"
  using assms by (simp add: SYM_ungetc_def rt_simps)

subsection \<open>Filling memory with a symbolic character\<close>

text \<open>
  \<open>memset\<close> takes its character as an \<open>int\<close>: the expression that ends up in the shadow of every byte has
  32 bits, and the next load of such a byte fails the assertion of the shadow iterator.
\<close>

lemma SYM_memset_then_read:
  assumes "arg_ok live_exprs sem (rtl s) (0, 64)" "arg_ok live_exprs sem (rtl s) (2, 64)"
    and "g_function_arguments (rtl s) ! 1 = Some e" "\<And>\<sigma>. \<exists>i. sem \<sigma> e = BVV 32 i"
    and "n \<noteq> 0" "unat a + unat n < 2 ^ 64"
  shows "rt_ok (SYM_memset (simple_backend z) L a c n) s (\<lambda>_ s'.
    sym_read_memory (simple_backend z) a n le (rtl s') =
      Inl (Assertion_failed ''Shadow memory always represents bytes''))"
proof -
  have fails: "sym_read_memory (simple_backend z) a n le r = Inl (Assertion_failed ''Shadow memory always represents bytes'')"
    if sh: "\<And>b. shadow_at (g_shadow_pages r) b = (if b - a < n then Some e else shadow_at sh b)" for r sh
  proof -
    have a: "shadow_at (g_shadow_pages r) a = Some e" using sh [of a] assms(5) by (simp add: word_neq_0_conv)
    then have "\<not> isConcrete (g_shadow_pages r) a n"
      unfolding isConcrete_iff [OF assms(6)] using assms(5) by (auto simp: word_neq_0_conv intro!: exI [of _ a])
    moreover have "read_deref (g_shadow_pages r) (read_iter (g_shadow_pages r) a) = Some e"
      using read_deref_view [of "g_shadow_pages r" "g_shadow_pages r" "read_iter (g_shadow_pages r) a"] a
      by (simp add: read_iter_view)
    moreover obtain b where "sym_bits_helper z (Some e) (backend_state r) = Inr (32, b)"
      using bits_helper_ok [OF assms(4)] by blast
    ultimately show ?thesis
      using assms(5) by (simp add: sym_read_memory_def read_loop.simps [of _ _ "read_iter (g_shadow_pages r) a"]
          nonnull_deref_def rt_bind_def rt_get_def rt_assert_def rt_return_def rt_raise_def on_backend_def simple_backend_def)
  qed
  let ?s0 = "s\<lparr>rtl := (rtl s)\<lparr>memory := c_memset (memory (rtl s)) a c n\<rparr>\<rparr>"
  have arg: "arg_ok live_exprs sem (rtl ?s0) iw = arg_ok live_exprs sem (rtl s) iw" for iw
    by (simp add: arg_ok_def)
  show ?thesis
    unfolding SYM_memset_def rt_ok_bind [of "on_memory _"] rt_ok_on_memory
    apply (rule pushes.try_param_rule [where ?s0.0 = ?s0], simp, simp only: arg, simp add: assms(1), simp, simp)
    apply (rule pushes.try_param_rule [where ?s0.0 = ?s0], assumption, simp only: arg, simp add: assms(2), simp, simp)
    subgoal for s1 s'
    proof -
      assume "backend_step live_exprs ?s0 s'"
      then have f: "g_function_arguments (rtl s') ! 1 = Some e"
        using backend_step_fields(3) assms(3) by fastforce
      obtain sh' where "sym_memset a (Some e) n (rtl s') = Inr ((), (rtl s')\<lparr>g_shadow_pages := sh'\<rparr>)"
        "\<And>b. shadow_at sh' b = (if b - a < n then Some e else shadow_at (g_shadow_pages (rtl s')) b)"
        using memset_run [OF assms(6), of "Some e" "rtl s'"] by blast
      then have "rt_ok (sym_memset a (Some e) n) (rtl s')
          (\<lambda>_ r. sym_read_memory (simple_backend z) a n le (r\<lparr>g_return_value := g_function_arguments (rtl s') ! 0\<rparr>) =
            Inl (Assertion_failed ''Shadow memory always represents bytes'') \<and> g_function_arguments r = g_function_arguments (rtl s'))"
        by (auto simp: rt_ok_def intro!: fails [where sh = "g_shadow_pages (rtl s')"])
      then show ?thesis
        using f by (simp add: rt_simps) (erule rt_ok_mono, simp)
    qed
    done
qed

end

end
