(* ===== verification/Simple_Paths.thy ===== *)
theory Simple_Paths
  imports Simple_Inputs
begin

text \<open>
  Path constraints in the simple backend: what \<open>_sym_push_path_constraint_with_loc\<close> sends to the solver
  and to the log, for ordinary branches and for the collected comparison of strings, and what
  \<open>_sym_feasible\<close> answers.
\<close>

subsection \<open>Queries\<close>

text \<open>The queries written to the log, newest first: the assertions in force when each was written.\<close>

fun logged_queries :: "'e z3_call list \<Rightarrow> 'e list list" where
  "logged_queries [] = []"
| "logged_queries (Log_query slot taken file line # cs) = asserted cs # logged_queries cs"
| "logged_queries (_ # cs) = logged_queries cs"

lemma solver_frames_nonempty: "solver_frames cs \<noteq> [] \<Longrightarrow>
    asserted (Solver_assert e # cs) = e # asserted cs"
  by (cases "solver_frames cs") (simp_all add: asserted_def)

text \<open>The state that \<open>_sym_initialize\<close> leaves: the Boolean constants are known.\<close>

definition bools_ready :: "'e z3 \<Rightarrow> 'e simple_state \<Rightarrow> bool" where
  "bools_ready z s \<longleftrightarrow> g_true s = Some (mk_true z) \<and> g_false s = Some (mk_false z)"

lemma initialize_ready:
  assumes "z3_laws z sem" "\<not> g_initialized s"
  shows "rt_ok (sym_initialize z) s (\<lambda>_ s'. bools_ready z s' \<and> g_initialized s' \<and> grows s s')"
proof -
  obtain n where n: "mk_int z 0 (BV_sort (8 * 8)) = Some n"
    using z3_laws.z3_int [OF assms(1), of "8 * 8" 0] by auto
  have "\<exists>s'. sym_initialize z s = Inr ((), s') \<and> bools_ready z s' \<and> g_initialized s'"
    using assms(2) n
    by (simp add: sym_initialize_def bools_ready_def rt_bind_def rt_get_def rt_modify_def inc_ref_def
        dec_ref_def z3_call_def of_z3_def rt_return_def)
  then show ?thesis
    using growingD [OF growing_initialize] by (auto simp: rt_ok_def)
qed

lemma initialize_once: "g_initialized s \<Longrightarrow> sym_initialize z s = Inr ((), s)"
  by (simp add: sym_initialize_def rt_bind_def rt_get_def rt_return_def)

lemmas run_defs = rt_bind_def rt_get_def rt_modify_def rt_return_def inc_ref_def dec_ref_def z3_call_def
  rt_assert_def rt_raise_def of_z3_def z3_mk_def

text \<open>The trace of a call on an ordinary branch whose constraint does not simplify to a constant.\<close>

lemma push_loc_run:
  assumes "mk_app z Z_not [c] = Some n" "c = z3_simplify z e" "nc = z3_simplify z n"
    and "g_true s \<noteq> Some c" "g_false s \<noteq> Some c" "\<not> strstr file ''symros_string.hpp''"
  shows "sym_push_path_constraint_with_loc z (Some e) taken site file line slot s =
    Inr ((), s\<lparr>calls := [Dec_ref (Ast_ref nc), Dec_ref (Ast_ref c), Solver_pop,
      Log_query slot taken file line, Solver_assert (if taken \<noteq> 0 then c else nc), Solver_push,
      Inc_ref (Ast_ref nc), Inc_ref (Ast_ref c)] @ calls s\<rparr>)"
  using assms
  by (simp add: sym_push_path_constraint_with_loc_def Let_def log_and_pop_def run_defs)

context z3_laws
begin

lemma negation:
  assumes "\<And>\<sigma>. sem \<sigma> c = BoolV (p \<sigma>)"
  obtains n where "mk_app z Z_not [c] = Some n" "\<And>\<sigma>. sem \<sigma> n = BoolV (\<not> p \<sigma>)"
  using z3_app [of Z_not "[c]" "\<lambda>\<sigma>. BoolV (\<not> p \<sigma>)"] assms by (auto simp: z3_sem_def unary_sem_def)

lemma push_loc_query:
  assumes "\<And>\<sigma>. sem \<sigma> e = BoolV (p \<sigma>)" "bools_ready z s"
    and "z3_simplify z e \<noteq> mk_true z" "z3_simplify z e \<noteq> mk_false z"
    and "\<not> strstr file ''symros_string.hpp''"
  obtains q s' where
    "sym_push_path_constraint_with_loc z (Some e) taken site file line slot s = Inr ((), s')"
    "logged_queries (calls s') = (q # asserted (calls s)) # logged_queries (calls s)"
    "\<And>\<sigma>. sem \<sigma> q = BoolV (p \<sigma> = (taken \<noteq> 0))"
    "solver_frames (calls s') = solver_frames (calls s)" "refs (calls s') = refs (calls s)"
    "allocatedExpressions s' = allocatedExpressions s"
proof -
  let ?c = "z3_simplify z e"
  have c: "sem \<sigma> ?c = BoolV (p \<sigma>)" for \<sigma> using assms(1) z3_simplifies by simp
  obtain n where n: "mk_app z Z_not [?c] = Some n" "\<And>\<sigma>. sem \<sigma> n = BoolV (\<not> p \<sigma>)"
    using negation [of ?c p] c by blast
  let ?q = "if taken \<noteq> 0 then ?c else z3_simplify z n"
  have q: "sem \<sigma> ?q = BoolV (p \<sigma> = (taken \<noteq> 0))" for \<sigma>
    using c n(2) z3_simplifies by auto
  have ne: "g_true s \<noteq> Some ?c" "g_false s \<noteq> Some ?c"
    using assms(2-4) by (auto simp: bools_ready_def)
  show thesis
    by (rule that [OF push_loc_run [OF n(1) refl refl ne assms(5)] _ q])
      (auto simp: asserted_def fun_eq_iff)
qed

end

text \<open>A constraint that simplifies to a constant never reaches the solver.\<close>

lemma push_loc_constant:
  assumes "bools_ready z s" "z3_simplify z e = (if b then mk_true z else mk_false z)" "mk_true z \<noteq> mk_false z"
  shows "sym_push_path_constraint_with_loc z (Some e) taken site file line slot s =
    (if b = (taken \<noteq> 0)
     then Inr ((), s\<lparr>calls := [Dec_ref (Ast_ref (z3_simplify z e)), Inc_ref (Ast_ref (z3_simplify z e))] @ calls s\<rparr>)
     else Inl (Assertion_failed ''We have taken an impossible branch''))"
  using assms
  by (auto simp: sym_push_path_constraint_with_loc_def Let_def run_defs bools_ready_def)

subsection \<open>Strings\<close>

lemma string_step_run:
  assumes "mk_app z Z_not [c] = Some n" "c = z3_simplify z e" "nc = z3_simplify z n"
    and "g_true s \<noteq> Some c" "g_false s \<noteq> Some c" "strstr file ''symros_string.hpp''"
    and "line \<noteq> string_size_check_line \<Longrightarrow>
      int (length (string_eq_constraints s)) + 1 \<noteq> (line - strcmp_start_line + 1) mod 2 ^ 64"
  shows "\<exists>s'. sym_push_path_constraint_with_loc z (Some e) taken site file line slot s = Inr ((), s') \<and>
    calls s' = [Dec_ref (Ast_ref nc), Dec_ref (Ast_ref c), Solver_push, Inc_ref (Ast_ref nc), Inc_ref (Ast_ref c)] @ calls s \<and>
    string_eq_constraints s' = (if line = string_size_check_line then [] else string_eq_constraints s) @ [nc] \<and>
    string_not_eq_constraints s' = (if line = string_size_check_line then [] else string_not_eq_constraints s) @ [c] \<and>
    string_taken s' = (taken \<noteq> 1 \<and> (line = string_size_check_line \<or> string_taken s))"
proof -
  have "line \<noteq> string_size_check_line \<Longrightarrow>
      Suc (length (string_eq_constraints s)) \<noteq> nat ((line - strcmp_start_line + 1) mod 2 ^ 64)"
    using assms(7) by auto
  then show ?thesis
    using assms(1-6)
    by (auto simp: sym_push_path_constraint_with_loc_def Let_def string_constraint_def run_defs)
qed

lemma bools_of_map: "bools_of (map (\<lambda>p. BoolV (p \<sigma>)) ps) = Some (map (\<lambda>p. p \<sigma>) ps)"
  by (induction ps) simp_all

lemma final_step_run:
  assumes "mk_app z Z_not [c] = Some n" "c = z3_simplify z e" "nc = z3_simplify z n"
    and "g_true s \<noteq> Some c" "g_false s \<noteq> Some c" "strstr file ''symros_string.hpp''"
    and "line \<noteq> string_size_check_line"
    and "int (length (string_eq_constraints s)) + 1 = (line - strcmp_start_line + 1) mod 2 ^ 64"
    and "t' = (taken \<noteq> 1 \<and> string_taken s)"
    and "mk_app z (if t' then Z_and else Z_or)
      (if t' then string_eq_constraints s @ [nc] else string_not_eq_constraints s @ [c]) = Some q"
  shows "\<exists>s'. sym_push_path_constraint_with_loc z (Some e) taken site file line slot s = Inr ((), s') \<and>
    calls s' = [Dec_ref (Ast_ref nc), Dec_ref (Ast_ref c), Dec_ref (Ast_ref q), Solver_pop,
      Log_query slot (of_bool t') file line, Solver_assert q, Inc_ref (Ast_ref q), Solver_push,
      Inc_ref (Ast_ref nc), Inc_ref (Ast_ref c)] @ calls s"
proof -
  have len: "Suc (length (string_eq_constraints s)) = nat ((line - strcmp_start_line + 1) mod 2 ^ 64)"
    using assms(8) by simp
  have the_Some: "map (the \<circ> Some) xs = xs" for xs :: "'a list" by (simp add: comp_def)
  show ?thesis
    using assms(1-7,9,10) len
    by (cases t') (auto simp: sym_push_path_constraint_with_loc_def Let_def string_constraint_def
        final_string_constraint_def log_and_pop_def run_defs the_Some)
qed

text \<open>What the collected constraints mean: one predicate per call, its negation in the first list.\<close>

definition string_lists ::
    "('m \<Rightarrow> 'e \<Rightarrow> smt_value) \<Rightarrow> 'e simple_state \<Rightarrow> ('m \<Rightarrow> bool) list \<Rightarrow> bool" where
  "string_lists sem s ps \<longleftrightarrow>
     (\<forall>\<sigma>. map (sem \<sigma>) (string_eq_constraints s) = map (\<lambda>p. BoolV (\<not> p \<sigma>)) ps) \<and>
     (\<forall>\<sigma>. map (sem \<sigma>) (string_not_eq_constraints s) = map (\<lambda>p. BoolV (p \<sigma>)) ps)"

context z3_laws
begin

lemma final_formula:
  assumes "\<And>\<sigma>. map (sem \<sigma>) xs = map (\<lambda>p. BoolV (p \<sigma>)) ps" "ps \<noteq> []"
  obtains q where "mk_app z (if b then Z_and else Z_or) xs = Some q"
    "\<And>\<sigma>. sem \<sigma> q = BoolV (if b then \<forall>p \<in> set ps. p \<sigma> else \<exists>p \<in> set ps. p \<sigma>)"
proof -
  have "z3_sem (if b then Z_and else Z_or) (map (sem \<sigma>) xs) =
      Some (BoolV (if b then \<forall>p \<in> set ps. p \<sigma> else \<exists>p \<in> set ps. p \<sigma>))" for \<sigma>
    unfolding assms(1) by (simp add: z3_sem_def bools_of_map list_all_iff list_ex_iff)
  from z3_app [OF this] that show thesis by blast
qed

lemma final_step_query:
  assumes "\<And>\<sigma>. sem \<sigma> e = BoolV (p \<sigma>)" "bools_ready z s" "string_lists sem s ps"
    and "z3_simplify z e \<noteq> mk_true z" "z3_simplify z e \<noteq> mk_false z"
    and "strstr file ''symros_string.hpp''" "line \<noteq> string_size_check_line"
    and "int (length ps) + 1 = (line - strcmp_start_line + 1) mod 2 ^ 64"
  obtains q s' where
    "sym_push_path_constraint_with_loc z (Some e) taken site file line slot s = Inr ((), s')"
    "logged_queries (calls s') = (q # asserted (calls s)) # logged_queries (calls s)"
    "\<And>\<sigma>. sem \<sigma> q = BoolV (if taken \<noteq> 1 \<and> string_taken s then \<forall>p \<in> set (ps @ [p]). \<not> p \<sigma>
       else \<exists>p \<in> set (ps @ [p]). p \<sigma>)"
    "solver_frames (calls s') = solver_frames (calls s)"
proof -
  let ?c = "z3_simplify z e" and ?t = "taken \<noteq> 1 \<and> string_taken s"
  have c: "sem \<sigma> ?c = BoolV (p \<sigma>)" for \<sigma> using assms(1) z3_simplifies by simp
  obtain n where n: "mk_app z Z_not [?c] = Some n" "\<And>\<sigma>. sem \<sigma> n = BoolV (\<not> p \<sigma>)"
    using negation [of ?c p] c by blast
  let ?nc = "z3_simplify z n"
  have nc: "sem \<sigma> ?nc = BoolV (\<not> p \<sigma>)" for \<sigma> using n(2) z3_simplifies by simp
  have ne: "g_true s \<noteq> Some ?c" "g_false s \<noteq> Some ?c"
    using assms(2,4,5) by (auto simp: bools_ready_def)
  have "map (sem undefined) (string_eq_constraints s) = map (\<lambda>p. BoolV (\<not> p undefined)) ps"
    using assms(3) by (simp add: string_lists_def)
  then have len: "length (string_eq_constraints s) = length ps"
    using map_eq_imp_length_eq by blast
  let ?ps = "map (\<lambda>p \<sigma>. if ?t then \<not> p \<sigma> else p \<sigma>) (ps @ [p])"
  have "map (sem \<sigma>) (if ?t then string_eq_constraints s @ [?nc] else string_not_eq_constraints s @ [?c]) =
      map (\<lambda>p. BoolV (p \<sigma>)) ?ps" for \<sigma>
    using assms(3) c nc by (simp add: string_lists_def)
  then obtain q where q: "mk_app z (if ?t then Z_and else Z_or)
      (if ?t then string_eq_constraints s @ [?nc] else string_not_eq_constraints s @ [?c]) = Some q"
    "\<And>\<sigma>. sem \<sigma> q = BoolV (if ?t then \<forall>p \<in> set ?ps. p \<sigma> else \<exists>p \<in> set ?ps. p \<sigma>)"
    by (rule final_formula [where b = ?t], simp) blast
  have "\<exists>s'. sym_push_path_constraint_with_loc z (Some e) taken site file line slot s = Inr ((), s') \<and>
    calls s' = [Dec_ref (Ast_ref ?nc), Dec_ref (Ast_ref ?c), Dec_ref (Ast_ref q), Solver_pop,
      Log_query slot (of_bool ?t) file line, Solver_assert q, Inc_ref (Ast_ref q), Solver_push,
      Inc_ref (Ast_ref ?nc), Inc_ref (Ast_ref ?c)] @ calls s"
    by (rule final_step_run [OF n(1) refl refl ne assms(6,7) _ refl q(1)]) (use assms(8) len in simp)
  then obtain s' where "sym_push_path_constraint_with_loc z (Some e) taken site file line slot s = Inr ((), s')"
    "calls s' = [Dec_ref (Ast_ref ?nc), Dec_ref (Ast_ref ?c), Dec_ref (Ast_ref q), Solver_pop,
      Log_query slot (of_bool ?t) file line, Solver_assert q, Inc_ref (Ast_ref q), Solver_push,
      Inc_ref (Ast_ref ?nc), Inc_ref (Ast_ref ?c)] @ calls s" by blast
  then show thesis
    using that [of s' q] q(2) by (simp add: asserted_def)
qed

end

subsection \<open>Feasibility\<close>

lemma feasible_run:
  "sym_feasible z expr s = Inr (solver_check z (z3_simplify z expr # asserted (calls s)) = Z3_L_TRUE,
     s\<lparr>calls := [Dec_ref (Ast_ref (z3_simplify z expr)), Solver_pop, Solver_assert (z3_simplify z expr),
        Solver_push, Inc_ref (Ast_ref (z3_simplify z expr))] @ calls s\<rparr>)"
  by (simp add: sym_feasible_def Let_def run_defs asserted_def)

end
