(* ===== verification/Simple_Refusals.thy ===== *)
theory Simple_Refusals
  imports Simple_Paths
begin

text \<open>
  Calls that never yield an expression: the funnel shifts of \<open>RuntimeCommon.cpp\<close> combine operands of
  different widths, which the solver library refuses.
\<close>

context z3_laws
begin

lemma build_refused:
  assumes "bv_op op" "\<And>\<sigma>. z3_sem op (map (sem \<sigma>) xs) = None"
  shows "build z op (map Some xs) s = Inl Solver_error"
proof -
  have "mk_app z op xs = None" using assms by (rule z3_refuses)
  moreover have "map (the \<circ> Some) xs = xs" by (simp add: comp_def)
  ultimately show ?thesis
    by (simp add: build_def z3_mk_def of_z3_def rt_bind_def rt_raise_def)
qed

lemma shift_refused:
  assumes "\<And>\<sigma>. sem \<sigma> x = BVV n (f \<sigma>)" "\<And>\<sigma>. sem \<sigma> y = BVV m (g \<sigma>)" "n \<noteq> m"
    and "op = SShift_left \<or> op = SLogical_shift_right"
  shows "build_binary (simple_backend z) op (Some x) (Some y) s = Inl Solver_error"
proof -
  have "z3_sem (z3_name op) (map (sem \<sigma>) [x, y]) = None" for \<sigma>
    using assms by (auto simp: z3_sem_def binary_sem_def)
  moreover have "bv_op (z3_name op)" using assms(4) by auto
  ultimately have "build z (z3_name op) [Some x, Some y] s = Inl Solver_error"
    using build_refused [of "z3_name op" "[x, y]" s] by simp
  then show ?thesis using assms(4) by (auto simp: simple_backend_def sym_build_binary_def)
qed

text \<open>Concatenation doubles the width; the shift amount keeps the width of one operand.\<close>

lemma funnel_refused:
  assumes "\<And>\<sigma>. sem \<sigma> a = BVV n (f \<sigma>)" "\<And>\<sigma>. sem \<sigma> b = BVV n (g \<sigma>)" "\<And>\<sigma>. sem \<sigma> c = BVV n (h \<sigma>)"
    and "n \<le> 64" "{a, b, c} \<subseteq> live_exprs s"
  shows "sym_build_funnel_shift_left (simple_backend z) (Some a) (Some b) (Some c) s = Inl Solver_error"
    "sym_build_funnel_shift_right (simple_backend z) (Some a) (Some b) (Some c) s = Inl Solver_error"
proof -
  let ?B = "simple_backend z"
  have n: "0 < n" using simple.sem_bounds(1) [OF assms(1)] .
  have "\<exists>s'. bits_helper ?B (Some c) s = Inr (n, s') \<and> live_exprs s \<subseteq> live_exprs s'"
    by (rule simple.law_bits) (use assms(3) in blast)
  then obtain s1 where s1: "bits_helper ?B (Some c) s = Inr (n, s1)" "live_exprs s \<subseteq> live_exprs s1" by blast
  have "denotes live_exprs sem (concat_helper ?B (Some a) (Some b)) s1
      (\<lambda>\<sigma>. BVV (n + n) (bv_concat n (f \<sigma>) (g \<sigma>)))"
    by (rule simple.law_concat) (use assms s1(2) in auto)
  then obtain cat s2 where cat: "concat_helper ?B (Some a) (Some b) s1 = Inr (Some cat, s2)"
    "live_exprs s1 \<subseteq> live_exprs s2" "\<And>\<sigma>. sem \<sigma> cat = BVV (n + n) (bv_concat n (f \<sigma>) (g \<sigma>))"
    by (rule denotesE) blast
  have small: "int n < 2 ^ n" "uint (of_nat n :: u64) = int n"
    using assms(4) less_exp [of n]
    by (metis of_nat_less_iff of_nat_numeral of_nat_power, simp add: unsigned_of_nat take_bit_nat_eq_self)
  have "comp live_exprs sem {c} (rt_call2 (build_binary ?B SUnsigned_rem) (rt_return (Some c))
      (build_integer ?B (of_nat n) (of_nat n))) (\<lambda>\<sigma>. BVV n (h \<sigma> mod int n))"
  proof (rule simple.comp_binary)
    show "comp live_exprs sem {c} (rt_return (Some c)) (\<lambda>\<sigma>. BVV n (h \<sigma>))"
      using assms(3) by (intro comp_return) auto
    show "comp live_exprs sem {c} (build_integer ?B (of_nat n) (of_nat n)) (\<lambda>_. BVV n (int n))"
      using simple.comp_const [of n "of_nat n" "{c}"] n assms(4) small by simp
  qed (use n in simp)
  from comp_denotes [OF this, of s2] obtain sft s3 where
    sft: "rt_call2 (build_binary ?B SUnsigned_rem) (rt_return (Some c))
      (build_integer ?B (of_nat n) (of_nat n)) s2 = Inr (Some sft, s3)" "\<And>\<sigma>. sem \<sigma> sft = BVV n (h \<sigma> mod int n)"
    using assms(5) s1(2) cat(2) by (auto elim!: denotesE)
  have ref: "build_binary ?B op (Some cat) (Some sft) s3 = Inl Solver_error"
    if "op = SShift_left \<or> op = SLogical_shift_right" for op
    by (rule shift_refused [OF cat(3) sft(2) _ that]) (use n in simp)
  show "sym_build_funnel_shift_left ?B (Some a) (Some b) (Some c) s = Inl Solver_error"
    "sym_build_funnel_shift_right ?B (Some a) (Some b) (Some c) s = Inl Solver_error"
    unfolding sym_build_funnel_shift_left_def sym_build_funnel_shift_right_def
    by (simp_all add: rt_bind_def rt_call1_def s1(1) cat(1) sft(1) ref)
qed

end

end
