(* ===== verification/Examples.thy ===== *)
theory Examples
  imports Libc_Inputs Simple_Paths Simple_Refusals
begin

text \<open>
  Concrete states at which the properties of the development are instantiated: a run-time library with
  one symbolic byte at address 8, and a process over a small C library.
\<close>

subsection \<open>The run-time library\<close>

text \<open>Symbolic inputs of 8, 16 and 32 bits, and a state in which they are registered.\<close>

definition x8 :: z3_term where "x8 = T_const ''x'' (BV_sort 8)"
definition y8 :: z3_term where "y8 = T_const ''y'' (BV_sort 8)"
definition x16 :: z3_term where "x16 = T_const ''u'' (BV_sort 16)"
definition y16 :: z3_term where "y16 = T_const ''v'' (BV_sort 16)"

definition example_backend :: "z3_term simple_state" where
  "example_backend = initial_state\<lparr>g_true := Some (T_bool True), g_false := Some (T_bool False),
     allocatedExpressions := {x8, y8, x16, y16}\<rparr>"

definition example_state :: "(z3_term simple_state, z3_term) runtime" where
  "example_state = \<lparr>g_shadow_pages = Map.empty(0 \<mapsto> (\<lambda>_. None)(8 := Some x8)), memory = (\<lambda>a. ucast a),
     expr_cells = (\<lambda>_. None), g_return_value = None, g_function_arguments = replicate 256 None,
     expressionRegions = [], memory_input = True, inputOffset_plain = 0, inputOffset_type = 0,
     inputOffset_prefix = 0, backend_state = example_backend\<rparr>"

lemma example_live: "{x8, y8, x16, y16} \<subseteq> live_exprs example_backend"
  by (simp add: live_exprs_def example_backend_def)

lemma example_sem:
  "term_sem \<sigma> x8 = BVV 8 (take_bit 8 (\<sigma> ''x''))" "term_sem \<sigma> y8 = BVV 8 (take_bit 8 (\<sigma> ''y''))"
  "term_sem \<sigma> x16 = BVV 16 (take_bit 16 (\<sigma> ''u''))" "term_sem \<sigma> y16 = BVV 16 (take_bit 16 (\<sigma> ''v''))"
  by (simp_all add: x8_def y8_def x16_def y16_def)

lemma example_fields: "backend_state example_state = example_backend" "memory example_state a = ucast a"
  by (simp_all add: example_state_def)

lemma example_shadow: "shadow_at (g_shadow_pages example_state) a = (if a = 8 then Some x8 else None)"
proof -
  have p8: "pageStart 8 = 0" "uint (pageOffset 8) = 8"
    by (simp_all add: pageStart_def pageOffset_def kPageSize_def)
  show ?thesis
  proof (cases "a = 8")
    case True
    then show ?thesis by (simp add: shadow_at_def example_state_def p8)
  next
    case False
    then have "\<not> (pageStart a = 0 \<and> uint (pageOffset a) = 8)" using page_inj [of a 8] p8 by auto
    then show ?thesis using False by (auto simp: shadow_at_def example_state_def)
  qed
qed

subsection \<open>A process\<close>

text \<open>
  A C library whose files have the descriptor 0: \<open>read\<close> and \<open>fread\<close> deliver two bytes, \<open>getc\<close> a
  letter, \<open>fgets\<close> is at the end of the file, \<open>mmap\<close> maps at 4096.
\<close>

definition two_bytes :: "u64 \<Rightarrow> mem \<times> unit \<Rightarrow> u64 \<times> mem \<times> unit" where
  "two_bytes buf mw = (2, (\<lambda>a. if a - buf < 2 then 65 else fst mw a), snd mw)"

definition unchanged :: "'a \<Rightarrow> mem \<times> unit \<Rightarrow> 'a \<times> mem \<times> unit" where
  "unchanged x mw = (x, mw)"

definition example_libc :: "unit libc" where
  "example_libc = \<lparr>c_malloc = (\<lambda>_. unchanged 65536), c_calloc = (\<lambda>_ _. unchanged 65536),
     c_mmap64 = (\<lambda>_ _ _ _ _ _. unchanged 4096), c_open = (\<lambda>_ _ _. unchanged 0),
     c_read = (\<lambda>fd buf n. two_bytes buf), c_lseek64 = (\<lambda>_ off _. unchanged off),
     c_fopen = (\<lambda>_ _. unchanged 512), c_fopen64 = (\<lambda>_ _. unchanged 512), c_fileno = (\<lambda>_ _. 0),
     c_fread = (\<lambda>buf sz n stream. two_bytes buf), c_fgets = (\<lambda>_ _ _. unchanged 0),
     c_rewind = (\<lambda>_. unchanged ()), c_fseek = (\<lambda>_ _ _. unchanged 0), c_fseeko = (\<lambda>_ _ _. unchanged 0),
     c_fseeko64 = (\<lambda>_ _ _. unchanged 0), c_ftell = (\<lambda>_. unchanged 0), c_ftello = (\<lambda>_. unchanged 0),
     c_ftello64 = (\<lambda>_. unchanged 0), c_getc = (\<lambda>_. unchanged 65), c_fgetc = (\<lambda>_. unchanged 65),
     c_ungetc = (\<lambda>c _. unchanged c), c_stdin = 512, set_errno = (\<lambda>_ w. w), symbol_address = (\<lambda>_. 0),
     little_endian_host = True\<rparr>"

definition example_process :: "(z3_term simple_state, z3_term, unit) process" where
  "example_process = \<lparr>rtl = example_state, inputFileDescriptor = 0, inputOffset = 0,
     g_config = default_config, world = (), warnings = []\<rparr>"

lemma example_process_fields:
  "rtl example_process = example_state" "inputFileDescriptor example_process = 0"
  "inputOffset example_process = 0" "world example_process = ()"
  by (simp_all add: example_process_def)

lemma example_arg: "unat (fst iw) < 256 \<Longrightarrow> arg_ok live sem example_state iw"
  by (simp add: arg_ok_def example_state_def)

lemma example_position: "position_ok term_z3 example_process"
  by (simp add: position_ok_def stdin_of_def example_process_def example_state_def example_backend_def
      initial_state_def stdin_table_def)

lemma example_stdin: "stdin_of example_process = []"
  by (simp add: stdin_of_def example_process_def example_state_def example_backend_def initial_state_def)

end
