(* ===== verification/Process_Properties.thy ===== *)
theory Process_Properties
  imports Examples
begin

text \<open>
  Properties of the configuration and of the C library wrappers, over the simple backend, each with an
  instance at the states of \<open>Examples\<close>.
\<close>

section \<open>Configuration\<close>


text \<open>The garbage collection threshold: the decimal digits of \<open>n\<close> are read back as \<open>n\<close>, up to the
  greatest \<open>size_t\<close>, and refused above it. A leading minus sign is accepted, and negates the value modulo
  \<open>2 ^ 64\<close>.\<close>

definition threshold_only :: "string \<Rightarrow> environment" where
  "threshold_only v name = (if name = ''SYMCC_GC_THRESHOLD'' then Some v else None)"

lemma load_threshold_only: "loadConfig (threshold_only v) c = set_threshold v c"
  by (simp add: loadConfig_def when_set_def threshold_only_def)

theorem gc_threshold_digits:
  "loadConfig (threshold_only (to_string n)) default_config =
     (if n < 2 ^ 64 then Inr ((), default_config\<lparr>garbageCollectionThreshold := of_nat n\<rparr>)
      else Inl (Runtime_error (''The GC threshold must be between 0 and '' @ to_string (2 ^ 64 - 1)))) \<and>
   loadConfig (threshold_only (CHR ''-'' # to_string n)) default_config =
     (if n < 2 ^ 64 then Inr ((), default_config\<lparr>garbageCollectionThreshold := - of_nat n\<rparr>)
      else Inl (Runtime_error (''The GC threshold must be between 0 and '' @ to_string (2 ^ 64 - 1))))"
  using stoul_digits [OF to_string_digits to_string_nonempty, of "[]" n]
    stoul_negative [OF to_string_digits to_string_nonempty, of n]
  by (simp add: load_threshold_only set_threshold_def to_string_value rt_modify_def rt_raise_def)

section \<open>Wrappers that move memory\<close>






text \<open>C26. The constraint that the wrappers of \<open>memcmp\<close> and \<open>bcmp\<close> push denotes, under every input, that the two
  regions have the same values; and the direction they push it with is whether the concrete regions
  are equal.\<close>

theorem comparison_constraint:
  assumes "z3_laws z sem" "n \<noteq> 0"
    and "\<And>b. b - x < n \<Longrightarrow> byte_ok live_exprs sem r b" "\<And>b. b - y < n \<Longrightarrow> byte_ok live_exprs sem r b"
  shows "mem_denotes live_exprs sem (compare_constraint (simple_backend z) x y n) r
      (\<lambda>\<sigma>. BoolV (region_bytes sem r x (unat n) \<sigma> = region_bytes sem r y (unat n) \<sigma>)) \<and>
    (c_memcmp (memory r) x y (unat n) = 0 \<longleftrightarrow>
      (\<forall>i < unat n. memory r (x + of_nat i) = memory r (y + of_nat i)))"
proof
  show "mem_denotes live_exprs sem (compare_constraint (simple_backend z) x y n) r
      (\<lambda>\<sigma>. BoolV (region_bytes sem r x (unat n) \<sigma> = region_bytes sem r y (unat n) \<sigma>))"
    by (rule constraint_backend.compare_constraint_denotes
        [OF z3_laws.pushes_constraint_backend [OF assms(1)] assms(2-4)])
  have "unat n < 2 ^ 64" using unsigned_less [of n] by simp
  then show "c_memcmp (memory r) x y (unat n) = 0 \<longleftrightarrow>
      (\<forall>i < unat n. memory r (x + of_nat i) = memory r (y + of_nat i))"
    by (rule c_memcmp_zero_iff)
qed

lemma example_byte_ok: "byte_ok live_exprs term_sem example_state a"
  using example_live by (auto simp: byte_ok_def example_shadow example_fields example_sem)

theorem comparison_constraint_witness:
  "mem_denotes live_exprs term_sem (compare_constraint (simple_backend term_z3) 8 16 2) example_state
      (\<lambda>\<sigma>. BoolV (region_bytes term_sem example_state 8 (unat (2::u64)) \<sigma> =
        region_bytes term_sem example_state 16 (unat (2::u64)) \<sigma>)) \<and>
    (c_memcmp (memory example_state) 8 16 (unat (2::u64)) = 0 \<longleftrightarrow>
      (\<forall>i < unat (2::u64). memory example_state (8 + of_nat i) = memory example_state (16 + of_nat i)))"
  by (rule comparison_constraint [OF term_lib.z3_laws_axioms]) (simp_all add: example_byte_ok)

section \<open>Wrappers that read the input\<close>

text \<open>C27. The wrapper of \<open>read\<close> on the symbolic input: byte \<open>i\<close> of what was read is shadowed by the variable of
  input byte \<open>inputOffset + i\<close>, the offset moves by the number of bytes read, the variables created so
  far stay in order (so that the next read continues where this one ended), and no other byte's
  expression changes.\<close>

theorem read_wrapper_symbolic:
  assumes "z3_laws z sem" "arg_ok live_exprs sem (rtl s) (1, 64)" "arg_ok live_exprs sem (rtl s) (2, 64)"
    and "c_read L fildes buf nbyte (memory (rtl s), world s) = (result, m', w')" "0 \<le> sint result"
    and "fildes = inputFileDescriptor s" "position_ok z s" "unat (inputOffset s) + unat result < 2 ^ 64"
  shows "rt_ok (SYM_read (simple_backend z) L fildes buf nbyte) s (\<lambda>x s'. x = result \<and>
    inputOffset s' = inputOffset s + result \<and> position_ok z s' \<and>
    input_bytes_at z buf result (inputOffset s) s s' \<and> memory (rtl s') = m' \<and> g_return_value (rtl s') = None)"
  by (rule z3_laws.SYM_read_symbolic [OF assms])

theorem read_wrapper_symbolic_witness:
  "rt_ok (SYM_read (simple_backend term_z3) example_libc 0 4095 2) example_process (\<lambda>x s'. x = 2 \<and>
    inputOffset s' = inputOffset example_process + 2 \<and> position_ok term_z3 s' \<and>
    input_bytes_at term_z3 4095 2 (inputOffset example_process) example_process s' \<and>
    memory (rtl s') = (\<lambda>a. if a - 4095 < 2 then 65 else memory example_state a) \<and> g_return_value (rtl s') = None)"
  by (rule read_wrapper_symbolic [OF term_lib.z3_laws_axioms])
    (simp_all add: example_process_fields example_arg example_position example_libc_def two_bytes_def cong: if_cong)

text \<open>The wrapper of \<open>mmap\<close> on the symbolic input gives every byte of the mapping one and the same variable:
  the offset it asks for is not advanced from byte to byte.\<close>

theorem mmap_wrapper_one_variable:
  assumes "z3_laws z sem"
    and "c_mmap64 L addr len prot flags fildes off (memory (rtl s), world s) = (result, m', w')"
    and "result \<noteq> MAP_FAILED" "fildes = inputFileDescriptor s" "g_function_arguments (rtl s) ! 1 = None"
    and "length (stdin_of s) \<le> unat (off + len)"
  shows "rt_ok (SYM_mmap64 (simple_backend z) L addr len prot flags fildes off) s (\<lambda>x s'. x = result \<and>
    (\<forall>a. a - result < len \<longrightarrow> shadow_at (g_shadow_pages (rtl s')) a = input_variable z (length (stdin_of s))))"
  by (rule z3_laws.SYM_mmap64_one_variable [OF assms])

theorem mmap_wrapper_one_variable_witness:
  "rt_ok (SYM_mmap64 (simple_backend term_z3) example_libc 0 100 1 2 0 0) example_process (\<lambda>x s'. x = 4096 \<and>
    (\<forall>a. a - 4096 < 100 \<longrightarrow> shadow_at (g_shadow_pages (rtl s')) a =
       input_variable term_z3 (length (stdin_of example_process))))"
  by (rule mmap_wrapper_one_variable [OF term_lib.z3_laws_axioms])
    (simp_all add: example_process_fields example_stdin example_libc_def unchanged_def MAP_FAILED_def,
     simp add: example_state_def)

text \<open>The wrapper of \<open>memset\<close> stores the expression of its character argument, which has 32 bits, in the
  shadow of every byte: the next load from the region ends in the assertion that shadow memory
  represents bytes.\<close>

theorem memset_wrapper_breaks_loads:
  assumes "z3_laws z sem" "arg_ok live_exprs sem (rtl s) (0, 64)" "arg_ok live_exprs sem (rtl s) (2, 64)"
    and "g_function_arguments (rtl s) ! 1 = Some e" "\<And>\<sigma>. \<exists>i. sem \<sigma> e = BVV 32 i"
    and "n \<noteq> 0" "unat a + unat n < 2 ^ 64"
  shows "rt_ok (SYM_memset (simple_backend z) L a c n) s (\<lambda>_ s'.
    sym_read_memory (simple_backend z) a n le (rtl s') =
      Inl (Assertion_failed ''Shadow memory always represents bytes''))"
  by (rule z3_laws.SYM_memset_then_read [OF assms])

definition symbolic_char :: "(z3_term simple_state, z3_term, unit) process" where
  "symbolic_char = example_process\<lparr>rtl := example_state\<lparr>g_function_arguments :=
     (replicate 256 None)[1 := Some (T_const ''c'' (BV_sort 32))]\<rparr>\<rparr>"

theorem memset_wrapper_breaks_loads_witness:
  "rt_ok (SYM_memset (simple_backend term_z3) example_libc 4096 65 16) symbolic_char (\<lambda>_ s'.
    sym_read_memory (simple_backend term_z3) 4096 16 True (rtl s') =
      Inl (Assertion_failed ''Shadow memory always represents bytes''))"
  by (rule memset_wrapper_breaks_loads [OF term_lib.z3_laws_axioms, where e = "T_const ''c'' (BV_sort 32)"])
    (simp_all add: symbolic_char_def arg_ok_def)

text \<open>
  At the end of the file \<open>fgets\<close> returns null and leaves the buffer alone; the wrapper marks the old
  string in the buffer as the next bytes of the input all the same, and moves the offset by its length.
\<close>

lemma fgets_wrapper_end_of_file:
  assumes "z3_laws z sem" "arg_ok live_exprs sem (rtl s) (0, 64)" "arg_ok live_exprs sem (rtl s) (1, 32)"
    and "c_fgets L str n stream (memory (rtl s), world s) = (0, memory (rtl s), w')"
    and "c_fileno L stream w' = inputFileDescriptor s" "position_ok z s"
    and "unat (inputOffset s) + c_strlen (memory (rtl s)) str < 2 ^ 64"
  shows "rt_ok (SYM_fgets (simple_backend z) L str n stream) s (\<lambda>x s'. x = 0 \<and>
    inputOffset s' = inputOffset s + of_nat (c_strlen (memory (rtl s)) str) \<and>
    input_bytes_at z str (of_nat (c_strlen (memory (rtl s)) str)) (inputOffset s) s s')"
  by (rule z3_laws.SYM_fgets_end_of_file [OF assms])

end
