(* ===== verification/Check_Blocks.thy ===== *)
theory Check_Blocks
  imports Prelude
begin

text \<open>
  Functions as the two numeric checkers see them (\<open>compiler/Overflow.cpp\<close>, \<open>compiler/FPOverflow.cpp\<close>): labelled
  basic blocks whose instructions and program terminators are opaque, the operations of LLVM on them that the
  checkers use, and the drivers of \<open>compiler/Pass.cpp\<close> that visit every instruction. The locale states what one
  visit does; the effect of a whole pass follows for both checkers.
\<close>

subsection \<open>Blocks\<close>

text \<open>A check is a conditional branch with its \<open>symros.check\<close> metadata and its location.\<close>

datatype ('c, 't) terminator =
    Branch nat
  | Check 'c nat nat string nat
  | Program 't

record ('i, 'c, 't) basic_block =
  instructions :: "'i list"
  getTerminator :: "('c, 't) terminator option"

record ('i, 'c, 't) ir_function =
  blocks :: "nat \<Rightarrow> ('i, 'c, 't) basic_block option"
  next_label :: nat

definition set_block :: "nat \<Rightarrow> ('i, 'c, 't) basic_block \<Rightarrow> ('i, 'c, 't) ir_function \<Rightarrow> ('i, 'c, 't) ir_function" where
  "set_block l bb F = F\<lparr>blocks := (blocks F)(l \<mapsto> bb)\<rparr>"

text \<open>\<open>BasicBlock::Create\<close>, and the branch that an \<open>IRBuilder\<close> puts at the end of a block.\<close>

definition add_block :: "('i, 'c, 't) basic_block \<Rightarrow> ('i, 'c, 't) ir_function \<Rightarrow> ('i, 'c, 't) ir_function" where
  "add_block bb F = (set_block (next_label F) bb F)\<lparr>next_label := next_label F + 1\<rparr>"

definition create_block :: "('i, 'c, 't) basic_block \<Rightarrow> ('i, 'c, 't) ir_function \<Rightarrow> nat \<times> ('i, 'c, 't) ir_function" where
  "create_block bb F = (next_label F, add_block bb F)"

definition set_terminator :: "nat \<Rightarrow> ('c, 't) terminator \<Rightarrow> ('i, 'c, 't) ir_function \<Rightarrow> ('i, 'c, 't) ir_function" where
  "set_terminator l t F =
     (case blocks F l of None \<Rightarrow> F | Some bb \<Rightarrow> set_block l (bb\<lparr>getTerminator := Some t\<rparr>) F)"

definition empty_block :: "('i, 'c, 't) basic_block" where
  "empty_block = \<lparr>instructions = [], getTerminator = None\<rparr>"

definition check_block :: "nat \<Rightarrow> 'c \<Rightarrow> nat \<Rightarrow> string \<Rightarrow> ('i, 'c, 't) basic_block" where
  "check_block loc cond target tag =
     \<lparr>instructions = [], getTerminator = Some (Check cond target target tag loc)\<rparr>"

definition fresh_labels :: "('i, 'c, 't) ir_function \<Rightarrow> bool" where
  "fresh_labels F \<longleftrightarrow> (\<forall>l. blocks F l \<noteq> None \<longrightarrow> l < next_label F)"

lemma blocks_set [simp]:
  "blocks (set_terminator k t F) x =
     (if x = k then map_option (\<lambda>bb. bb\<lparr>getTerminator := Some t\<rparr>) (blocks F k) else blocks F x)"
  "blocks (set_block k bb F) x = (if x = k then Some bb else blocks F x)"
  "next_label (set_block k bb F) = next_label F" "next_label (set_terminator k t F) = next_label F"
  "blocks (add_block bb F) x = (if x = next_label F then Some bb else blocks F x)"
  "next_label (add_block bb F) = next_label F + 1"
  by (simp_all add: set_terminator_def set_block_def add_block_def split: option.split)

lemma fresh_label:
  assumes "fresh_labels F"
  shows "blocks F l = Some bb \<Longrightarrow> l < next_label F" "next_label F \<le> l \<Longrightarrow> blocks F l = None"
  using assms by (auto simp: fresh_labels_def not_le [symmetric])

subsection \<open>Visiting all instructions\<close>

text \<open>
  The drivers collect all instructions before they visit the first one. A visit that inserts checks cuts the
  block behind the instruction, and the instructions that follow move to the first of the new blocks;
  \<open>visit_block_from\<close> follows them there.
\<close>

fun visit_block_from ::
    "(nat \<Rightarrow> nat \<Rightarrow> ('i, 'c, 't) ir_function \<Rightarrow> ('i, 'c, 't) ir_function) \<Rightarrow> nat \<Rightarrow> nat \<Rightarrow> nat \<Rightarrow>
     ('i, 'c, 't) ir_function \<Rightarrow> ('i, 'c, 't) ir_function" where
  "visit_block_from v 0 l i F = F"
| "visit_block_from v (Suc left) l i F =
     (let F' = v l i F
      in if next_label F' = next_label F then visit_block_from v left l (i + 1) F'
         else visit_block_from v left (next_label F) 0 F')"

definition visit_block ::
    "(nat \<Rightarrow> nat \<Rightarrow> ('i, 'c, 't) ir_function \<Rightarrow> ('i, 'c, 't) ir_function) \<Rightarrow> nat \<Rightarrow>
     ('i, 'c, 't) ir_function \<Rightarrow> ('i, 'c, 't) ir_function" where
  "visit_block v l F =
     (case blocks F l of None \<Rightarrow> F | Some bb \<Rightarrow> visit_block_from v (length (instructions bb)) l 0 F)"

definition visit_function ::
    "(nat \<Rightarrow> nat \<Rightarrow> ('i, 'c, 't) ir_function \<Rightarrow> ('i, 'c, 't) ir_function) \<Rightarrow> nat list \<Rightarrow>
     ('i, 'c, 't) ir_function \<Rightarrow> ('i, 'c, 't) ir_function" where
  "visit_function v ls F = fold (visit_block v) ls F"

subsection \<open>What a run from a block does\<close>

text \<open>
  The instructions and the checks on the way from a block to a terminator of the program. The outcome of a check
  does not matter: a check has a single target.
\<close>

datatype ('i, 'c) event = Step 'i | Tested 'c string nat

inductive trace :: "('i, 'c, 't) ir_function \<Rightarrow> nat \<Rightarrow> ('i, 'c) event list \<Rightarrow> 't \<Rightarrow> bool" where
  trace_end: "blocks F l = Some \<lparr>instructions = is, getTerminator = Some (Program t)\<rparr> \<Longrightarrow> trace F l (map Step is) t"
| trace_branch: "blocks F l = Some \<lparr>instructions = is, getTerminator = Some (Branch l')\<rparr> \<Longrightarrow> trace F l' es t \<Longrightarrow>
    trace F l (map Step is @ es) t"
| trace_check: "blocks F l = Some \<lparr>instructions = is, getTerminator = Some (Check cond l' l' tag loc)\<rparr> \<Longrightarrow>
    trace F l' es t \<Longrightarrow> trace F l (map Step is @ Tested cond tag loc # es) t"

inductive_cases trace_cases: "trace F l es t"

lemma trace_deterministic: "trace F l es t \<Longrightarrow> trace F l es' t' \<Longrightarrow> es = es' \<and> t = t'"
proof (induction arbitrary: es' t' rule: trace.induct)
  case trace_end
  from trace_end(2,1) show ?case by cases auto
next
  case trace_branch
  from trace_branch(4,1,3) show ?case by cases auto
next
  case trace_check
  from trace_check(4,1,3) show ?case by cases auto
qed

text \<open>A chain of empty blocks with checks, with labels above \<open>n\<close>.\<close>

fun check_chain :: "('i, 'c, 't) ir_function \<Rightarrow> nat \<Rightarrow> nat \<Rightarrow> ('c \<times> string \<times> nat) list \<Rightarrow> nat \<Rightarrow> bool" where
  "check_chain F n m [] stop = (m = stop)"
| "check_chain F n m ((cond, tag, loc) # cs) stop =
     (n < m \<and> m < next_label F \<and> (\<exists>m'. blocks F m = Some (check_block loc cond m' tag) \<and> check_chain F n m' cs stop))"

lemma check_chainI:
  "n < m \<Longrightarrow> m < next_label F \<Longrightarrow> blocks F m = Some (check_block loc cond m' tag) \<Longrightarrow> check_chain F n m' cs stop \<Longrightarrow>
   check_chain F n m ((cond, tag, loc) # cs) stop"
  by auto

definition tests :: "('c \<times> string \<times> nat) list \<Rightarrow> ('i, 'c) event list" where
  "tests cs = map (\<lambda>(cond, tag, loc). Tested cond tag loc) cs"

lemma trace_chain:
  assumes "check_chain F n m cs stop" "\<And>x. n < x \<Longrightarrow> x < next_label F \<Longrightarrow> blocks G x = blocks F x" "trace G stop es t"
  shows "trace G m (tests cs @ es) t"
  using assms
proof (induction F n m cs stop rule: check_chain.induct)
  case (2 F n m cond tag loc cs stop)
  then obtain m' where m': "blocks G m = Some (check_block loc cond m' tag)" "check_chain F n m' cs stop" by auto
  have "trace G m (map Step [] @ Tested cond tag loc # tests cs @ es) t"
    using m' 2 by (intro trace_check) (auto simp: check_block_def)
  then show ?case by (simp add: tests_def)
qed (simp add: tests_def)

definition program_block :: "('i, 'c, 't) ir_function \<Rightarrow> nat \<Rightarrow> bool" where
  "program_block F l \<longleftrightarrow> (\<exists>is t. blocks F l = Some \<lparr>instructions = is, getTerminator = Some (Program t)\<rparr>)"

subsection \<open>The contract of a checker\<close>

text \<open>
  One visit leaves an instruction alone, or cuts the block behind it and puts a chain of checks in between;
  all other blocks stay.
\<close>

locale block_checker =
  fixes v :: "nat \<Rightarrow> nat \<Rightarrow> ('i, 'c, 't) ir_function \<Rightarrow> ('i, 'c, 't) ir_function"
    and checked :: "'i \<Rightarrow> bool"
    and checks :: "'i \<Rightarrow> ('c \<times> string \<times> nat) list"
  assumes skips: "\<And>F l i bb. blocks F l = Some bb \<Longrightarrow> i < length (instructions bb) \<Longrightarrow> \<not> checked (instructions bb ! i) \<Longrightarrow> v l i F = F"
    and cuts: "\<And>F l i bb t. fresh_labels F \<Longrightarrow> blocks F l = Some bb \<Longrightarrow> i < length (instructions bb) \<Longrightarrow>
      checked (instructions bb ! i) \<Longrightarrow> getTerminator bb = Some t \<Longrightarrow>
      (\<exists>m. blocks (v l i F) l = Some \<lparr>instructions = take (Suc i) (instructions bb), getTerminator = Some (Branch m)\<rparr> \<and>
        check_chain (v l i F) (next_label F) m (checks (instructions bb ! i)) (next_label F)) \<and>
      blocks (v l i F) (next_label F) = Some \<lparr>instructions = drop (Suc i) (instructions bb), getTerminator = Some t\<rparr> \<and>
      (\<forall>x. x < next_label F \<longrightarrow> x \<noteq> l \<longrightarrow> blocks (v l i F) x = blocks F x) \<and>
      fresh_labels (v l i F) \<and> next_label F < next_label (v l i F)"
begin

definition instrumented :: "'i \<Rightarrow> ('i, 'c) event list" where
  "instrumented I = Step I # (if checked I then tests (checks I) else [])"

text \<open>Blocks of the function and new blocks are kept; the visited block is traced in every function that agrees with the result on it and on the new blocks.\<close>

lemma visit_block_from_trace:
  assumes "fresh_labels F" "blocks F l = Some \<lparr>instructions = is, getTerminator = Some (Program t)\<rparr>" "i + left = length is"
  shows "fresh_labels (visit_block_from v left l i F) \<and> next_label F \<le> next_label (visit_block_from v left l i F) \<and>
    (\<forall>x. x < next_label F \<longrightarrow> x \<noteq> l \<longrightarrow> blocks (visit_block_from v left l i F) x = blocks F x) \<and>
    (\<forall>G. (\<forall>x. x = l \<or> next_label F \<le> x \<and> x < next_label (visit_block_from v left l i F) \<longrightarrow>
        blocks G x = blocks (visit_block_from v left l i F) x) \<longrightarrow>
      trace G l (map Step (take i is) @ concat (map instrumented (drop i is))) t)"
  using assms
proof (induction left arbitrary: F l "is" i)
  case 0
  then show ?case by (auto intro: trace_end)
next
  case (Suc left)
  let ?F = "v l i F" and ?n = "next_label F"
  have i: "i < length is" and drop: "drop i is = is ! i # drop (Suc i) is" "take (Suc i) is = take i is @ [is ! i]"
    using Suc.prems(3) by (auto simp: Cons_nth_drop_Suc take_Suc_conv_app_nth)
  show ?case
  proof (cases "checked (is ! i)")
    case False
    then have "?F = F" using skips Suc.prems(2) i by fastforce
    moreover have "map Step (take (Suc i) is) @ concat (map instrumented (drop (Suc i) is)) =
      map Step (take i is) @ concat (map instrumented (drop i is))"
      using False by (simp add: drop instrumented_def)
    ultimately show ?thesis
      using Suc.IH [OF Suc.prems(1,2), of "Suc i"] Suc.prems(3) by simp
  next
    case True
    let ?G = "visit_block_from v left ?n 0 ?F"
    note cut = cuts [OF Suc.prems(1,2), of i "Program t"]
    have cut: "(\<exists>m. blocks ?F l = Some \<lparr>instructions = take (Suc i) is, getTerminator = Some (Branch m)\<rparr> \<and>
        check_chain ?F ?n m (checks (is ! i)) ?n)"
      and F': "blocks ?F ?n = Some \<lparr>instructions = drop (Suc i) is, getTerminator = Some (Program t)\<rparr>"
        "\<And>x. x < ?n \<Longrightarrow> x \<noteq> l \<Longrightarrow> blocks ?F x = blocks F x" "fresh_labels ?F" "?n < next_label ?F"
      using cut i True by simp_all
    obtain m where m: "blocks ?F l = Some \<lparr>instructions = take (Suc i) is, getTerminator = Some (Branch m)\<rparr>"
        "check_chain ?F ?n m (checks (is ! i)) ?n"
      using cut by blast
    have l: "l < ?n" using Suc.prems(1,2) by (rule fresh_label(1))
    have "0 + left = length (drop (Suc i) is)" using Suc.prems(3) by simp
    note IH = Suc.IH [OF F'(3,1) this]
    have G: "fresh_labels ?G" "next_label ?F \<le> next_label ?G"
      "\<And>x. x < next_label ?F \<Longrightarrow> x \<noteq> ?n \<Longrightarrow> blocks ?G x = blocks ?F x"
      using IH by simp_all
    have eq: "visit_block_from v (Suc left) l i F = ?G" using F'(4) by simp
    have "trace H l (map Step (take i is) @ concat (map instrumented (drop i is))) t"
      if H: "\<forall>x. x = l \<or> ?n \<le> x \<and> x < next_label ?G \<longrightarrow> blocks H x = blocks ?G x" for H
    proof -
      have rest: "trace H ?n (concat (map instrumented (drop (Suc i) is))) t"
        using IH H F'(4) by simp
      have "trace H m (tests (checks (is ! i)) @ concat (map instrumented (drop (Suc i) is))) t"
        by (rule trace_chain [OF m(2) _ rest]) (use H G in auto)
      moreover have "blocks H l = Some \<lparr>instructions = take (Suc i) is, getTerminator = Some (Branch m)\<rparr>"
        using H G(3) [of l] l m(1) F'(4) by simp
      ultimately have "trace H l (map Step (take (Suc i) is) @ tests (checks (is ! i)) @ concat (map instrumented (drop (Suc i) is))) t"
        by (rule trace_branch [rotated])
      then show ?thesis using True by (simp add: drop instrumented_def)
    qed
    then show ?thesis unfolding eq using G F' by auto
  qed
qed

lemma visit_block_trace:
  assumes "fresh_labels F" "blocks F l = Some \<lparr>instructions = is, getTerminator = Some (Program t)\<rparr>"
  shows "fresh_labels (visit_block v l F)" "next_label F \<le> next_label (visit_block v l F)"
    "\<And>x. x < next_label F \<Longrightarrow> x \<noteq> l \<Longrightarrow> blocks (visit_block v l F) x = blocks F x"
    "\<And>G. (\<And>x. x = l \<or> next_label F \<le> x \<and> x < next_label (visit_block v l F) \<Longrightarrow> blocks G x = blocks (visit_block v l F) x) \<Longrightarrow>
      trace G l (concat (map instrumented is)) t"
  using visit_block_from_trace [OF assms, of 0] assms(2) by (simp_all add: visit_block_def)

text \<open>A pass over a function whose blocks end in terminators of the program.\<close>

lemma visit_block_others:
  assumes "fresh_labels F" "program_block F a" "distinct (a # ls)" "\<And>l. l \<in> set ls \<Longrightarrow> program_block F l" "l \<in> set ls"
  shows "program_block (visit_block v a F) l" "blocks (visit_block v a F) l = blocks F l"
proof -
  obtain js u where "blocks F a = Some \<lparr>instructions = js, getTerminator = Some (Program u)\<rparr>"
    using assms(2) by (auto simp: program_block_def)
  from visit_block_trace(3) [OF assms(1) this, of l]
  show eq: "blocks (visit_block v a F) l = blocks F l"
    using assms(3-5) fresh_label(1) [OF assms(1)] by (fastforce simp: program_block_def)
  then show "program_block (visit_block v a F) l" using assms(4,5) by (simp add: program_block_def)
qed

lemma visit_function_keeps:
  assumes "fresh_labels F" "distinct ls" "\<And>l. l \<in> set ls \<Longrightarrow> program_block F l"
  shows "next_label F \<le> next_label (visit_function v ls F) \<and>
    (\<forall>x. x < next_label F \<longrightarrow> x \<notin> set ls \<longrightarrow> blocks (visit_function v ls F) x = blocks F x)"
  using assms
proof (induction ls arbitrary: F)
  case (Cons a ls)
  obtain js u where a: "blocks F a = Some \<lparr>instructions = js, getTerminator = Some (Program u)\<rparr>"
    using Cons.prems(3) [of a] by (auto simp: program_block_def)
  note F1 = visit_block_trace [OF Cons.prems(1) a]
  have eq: "visit_function v (a # ls) F = visit_function v ls (visit_block v a F)" by (simp add: visit_function_def)
  have others: "program_block (visit_block v a F) l" if "l \<in> set ls" for l
    using visit_block_others(1) [OF Cons.prems(1) _ Cons.prems(2)] Cons.prems(3) that by simp
  have IH: "next_label (visit_block v a F) \<le> next_label (visit_function v ls (visit_block v a F))"
    "x < next_label (visit_block v a F) \<Longrightarrow> x \<notin> set ls \<Longrightarrow>
      blocks (visit_function v ls (visit_block v a F)) x = blocks (visit_block v a F) x" for x
    using Cons.IH [OF F1(1) _ others] Cons.prems(2) by simp_all
  show ?case unfolding eq using IH F1(2,3) by (auto intro: order_trans)
qed (simp add: visit_function_def)

lemma visit_function_trace:
  assumes "fresh_labels F" "distinct ls" "\<And>l. l \<in> set ls \<Longrightarrow> program_block F l" "l \<in> set ls"
    and "blocks F l = Some \<lparr>instructions = is, getTerminator = Some (Program t)\<rparr>"
  shows "trace (visit_function v ls F) l (concat (map instrumented is)) t"
  using assms
proof (induction ls arbitrary: F)
  case (Cons a ls)
  let ?F = "visit_block v a F"
  have pa: "program_block F a" using Cons.prems(3) by simp
  then obtain js u where a: "blocks F a = Some \<lparr>instructions = js, getTerminator = Some (Program u)\<rparr>"
    by (auto simp: program_block_def)
  note F1 = visit_block_trace [OF Cons.prems(1) a]
  have eq: "visit_function v (a # ls) F = visit_function v ls ?F" by (simp add: visit_function_def)
  have ls: "\<And>l. l \<in> set ls \<Longrightarrow> program_block F l" "distinct ls" "a \<notin> set ls" using Cons.prems(2,3) by simp_all
  note others = visit_block_others [OF Cons.prems(1) pa Cons.prems(2) ls(1)]
  have keeps: "blocks (visit_function v ls ?F) x = blocks ?F x" if "x < next_label ?F" "x \<notin> set ls" for x
    using visit_function_keeps [OF F1(1) ls(2) others(1)] that by simp
  show ?case
  proof (cases "l = a")
    case True
    have old: "x < next_label F" if "x \<in> set (a # ls)" for x
      using Cons.prems(3) [OF that] fresh_label(1) [OF Cons.prems(1)] by (auto simp: program_block_def)
    have "trace (visit_function v ls ?F) a (concat (map instrumented js)) u"
    proof (rule F1(4))
      fix x assume "x = a \<or> next_label F \<le> x \<and> x < next_label ?F"
      then show "blocks (visit_function v ls ?F) x = blocks ?F x"
        using keeps [of x] old [of a] old [of x] F1(2) ls(3) by (cases "x \<in> set ls") auto
    qed
    then show ?thesis using a Cons.prems(5) True eq by simp
  next
    case False
    then show ?thesis
      unfolding eq using Cons.IH [OF F1(1) ls(2) others(1)] others(2) Cons.prems(4,5) by simp
  qed
qed simp

end

end
