(* ===== verification/Overflow_Checker.thy ===== *)
theory Overflow_Checker
  imports Check_Blocks "HOL-Library.Signed_Division"
begin

text \<open>
  \<open>compiler/Overflow.cpp\<close>: the pass that puts checks behind every 32-bit integer operation. A check is a
  conditional branch whose two targets are the same block, so that it only becomes a path constraint
  of the symbolized program. The conditions are the expressions that the pass builds with LLVM's
  \<open>IRBuilder\<close>; \<open>ir_eval\<close> is their meaning in LLVM, with \<open>None\<close> for undefined behaviour. A function is a map
  from labels to basic blocks; the terminators and other instructions of the program under test are
  opaque.
\<close>

subsection \<open>Conditions\<close>

datatype ir_pred = P_SGT | P_SLT | P_UGT | P_ULT | P_EQ | P_NE
datatype ir_arith = A_Add | A_Sub | A_Mul | A_SDiv | A_UDiv

datatype ir =
    Operand nat
  | Result
  | Const_int "32 word"
  | ICmp ir_pred ir ir
  | Arith ir_arith ir ir
  | And ir ir
  | Or ir ir
  | Select ir ir ir

datatype ir_value = V_int "32 word" | V_bit bool

fun icmp :: "ir_pred \<Rightarrow> 32 word \<Rightarrow> 32 word \<Rightarrow> bool" where
  "icmp P_SGT x y = (sint x > sint y)"
| "icmp P_SLT x y = (sint x < sint y)"
| "icmp P_UGT x y = (x > y)"
| "icmp P_ULT x y = (x < y)"
| "icmp P_EQ x y = (x = y)"
| "icmp P_NE x y = (x \<noteq> y)"

text \<open>Division by zero and the signed overflow of division are undefined behaviour in LLVM.\<close>

fun arith :: "ir_arith \<Rightarrow> 32 word \<Rightarrow> 32 word \<Rightarrow> (32 word) option" where
  "arith A_Add x y = Some (x + y)"
| "arith A_Sub x y = Some (x - y)"
| "arith A_Mul x y = Some (x * y)"
| "arith A_SDiv x y =
     (if y = 0 \<or> (sint x = - (2 ^ 31) \<and> sint y = - 1) then None
      else Some (word_of_int (signed_divide (sint x) (sint y))))"
| "arith A_UDiv x y = (if y = 0 then None else Some (x div y))"

fun ir_eval :: "32 word \<Rightarrow> 32 word \<Rightarrow> 32 word \<Rightarrow> ir \<Rightarrow> ir_value option" where
  "ir_eval a b r (Operand n) = Some (V_int (if n = 0 then a else b))"
| "ir_eval a b r Result = Some (V_int r)"
| "ir_eval a b r (Const_int k) = Some (V_int k)"
| "ir_eval a b r (ICmp p x y) =
     (case (ir_eval a b r x, ir_eval a b r y) of
        (Some (V_int u), Some (V_int v)) \<Rightarrow> Some (V_bit (icmp p u v)) | _ \<Rightarrow> None)"
| "ir_eval a b r (Arith f x y) =
     (case (ir_eval a b r x, ir_eval a b r y) of
        (Some (V_int u), Some (V_int v)) \<Rightarrow> map_option V_int (arith f u v) | _ \<Rightarrow> None)"
| "ir_eval a b r (And x y) =
     (case (ir_eval a b r x, ir_eval a b r y) of
        (Some (V_bit u), Some (V_bit v)) \<Rightarrow> Some (V_bit (u \<and> v)) | _ \<Rightarrow> None)"
| "ir_eval a b r (Or x y) =
     (case (ir_eval a b r x, ir_eval a b r y) of
        (Some (V_bit u), Some (V_bit v)) \<Rightarrow> Some (V_bit (u \<or> v)) | _ \<Rightarrow> None)"
| "ir_eval a b r (Select c x y) =
     (case (ir_eval a b r c, ir_eval a b r x, ir_eval a b r y) of
        (Some (V_bit t), Some u, Some v) \<Rightarrow> Some (if t then u else v) | _ \<Rightarrow> None)"

subsection \<open>The conditions of the checks\<close>

definition getAddOverflowCondition :: ir where
  "getAddOverflowCondition =
     (let a = Operand 0; b = Operand 1; INT_MAX_V = Const_int (2 ^ 31 - 1); INT_MIN_V = Const_int (- (2 ^ 31)); ZERO = Const_int 0;
          b_gt_0 = ICmp P_SGT b ZERO;
          intmax_minus_b = Arith A_Sub INT_MAX_V b;
          a_gt_intmax_minus_b = ICmp P_SGT a intmax_minus_b;
          pos_overflow = And b_gt_0 a_gt_intmax_minus_b;
          b_lt_0 = ICmp P_SLT b ZERO;
          intmin_minus_b = Arith A_Sub INT_MIN_V b;
          a_lt_intmin_minus_b = ICmp P_SLT a intmin_minus_b;
          neg_overflow = And b_lt_0 a_lt_intmin_minus_b;
          signed_overflow = Or pos_overflow neg_overflow;
          unsigned_sum = Arith A_Add a b;
          unsigned_overflow = ICmp P_ULT unsigned_sum a
      in Or signed_overflow unsigned_overflow)"

definition getSubOverflowCondition :: ir where
  "getSubOverflowCondition =
     (let a = Operand 0; b = Operand 1; INT_MAX_V = Const_int (2 ^ 31 - 1); INT_MIN_V = Const_int (- (2 ^ 31)); ZERO = Const_int 0;
          b_lt_0 = ICmp P_SLT b ZERO;
          intmax_plus_b = Arith A_Add INT_MAX_V b;
          a_gt_intmax_plus_b = ICmp P_SGT a intmax_plus_b;
          pos_overflow = And b_lt_0 a_gt_intmax_plus_b;
          b_gt_0 = ICmp P_SGT b ZERO;
          intmin_plus_b = Arith A_Add INT_MIN_V b;
          a_lt_intmin_plus_b = ICmp P_SLT a intmin_plus_b;
          neg_overflow = And b_gt_0 a_lt_intmin_plus_b;
          signed_overflow = Or pos_overflow neg_overflow;
          unsigned_overflow = ICmp P_ULT a b
      in Or signed_overflow unsigned_overflow)"

definition getMulOverflowCondition :: ir where
  "getMulOverflowCondition =
     (let a = Operand 0; b = Operand 1; ZERO = Const_int 0;
          a_ne_0 = ICmp P_NE a ZERO;
          prod = Arith A_Mul a b;
          safe_a = Select a_ne_0 a (Const_int 1);
          quotient = Arith A_SDiv prod safe_a;
          div_ne_b = ICmp P_NE quotient b;
          signed_overflow = And a_ne_0 div_ne_b;
          UINT_MAX_V = Const_int (- 1);
          b_ne_0 = ICmp P_NE b ZERO;
          safe_b = Select b_ne_0 b (Const_int 1);
          umax_div_b = Arith A_UDiv UINT_MAX_V safe_b;
          unsigned_overflow = And b_ne_0 (ICmp P_UGT a umax_div_b)
      in Or signed_overflow unsigned_overflow)"

definition getDividedByZeroCondition :: ir where
  "getDividedByZeroCondition = ICmp P_EQ (Operand 1) (Const_int 0)"

text \<open>The two members of the checker, as 32-bit integers; \<open>setSementicTolerance\<close> writes the threshold.\<close>

record checker =
  sementic_threshold :: "32 word"
  sementic_tolerance :: "32 word"

definition setSementicThreshold :: "32 word \<Rightarrow> checker \<Rightarrow> checker" where
  "setSementicThreshold v c = c\<lparr>sementic_threshold := v\<rparr>"

definition setSementicTolerance :: "32 word \<Rightarrow> checker \<Rightarrow> checker" where
  "setSementicTolerance v c = c\<lparr>sementic_threshold := v\<rparr>"

definition getSementicSignedBoundCondition :: "checker \<Rightarrow> ir" where
  "getSementicSignedBoundCondition c = ICmp P_SGT Result (Const_int (sementic_threshold c))"

definition getSementicUnsignedBoundCondition :: "checker \<Rightarrow> ir" where
  "getSementicUnsignedBoundCondition c = ICmp P_UGT Result (Const_int (sementic_threshold c))"

definition getSementicSignedMinusBoundCondition :: "checker \<Rightarrow> ir" where
  "getSementicSignedMinusBoundCondition c = ICmp P_SLT Result (Const_int (- sementic_threshold c))"

definition getSementicMaxBoundCondition :: "checker \<Rightarrow> ir" where
  "getSementicMaxBoundCondition c = ICmp P_UGT Result (Const_int (4294967294 - sementic_tolerance c))"

definition getSementicMinBoundCondition :: "checker \<Rightarrow> ir" where
  "getSementicMinBoundCondition c = ICmp P_ULT Result (Const_int (sementic_tolerance c))"

definition getSementicSignedMaxBoundCondition :: "checker \<Rightarrow> ir" where
  "getSementicSignedMaxBoundCondition c = ICmp P_SGT Result (Const_int (2147483646 - sementic_tolerance c))"

definition getSementicSignedMinBoundCondition :: "checker \<Rightarrow> ir" where
  "getSementicSignedMinBoundCondition c = ICmp P_SLT Result (Const_int (- 2147483647 + sementic_tolerance c))"

subsection \<open>Functions\<close>

datatype ir_type = Integer_type nat | Other_type
datatype opcode = Op_Add | Op_Sub | Op_Mul | Op_UDiv | Op_SDiv | Op_other string

record instruction =
  opcode :: opcode
  operand_type :: "nat \<Rightarrow> ir_type"
  debug_loc :: nat

subsection \<open>Inserting the checks\<close>

definition overflow_tag :: "opcode \<Rightarrow> string" where
  "overflow_tag op = (if op = Op_SDiv \<or> op = Op_UDiv then ''int_divided_by_zero'' else ''int_overflow'')"

fun overflow_condition :: "opcode \<Rightarrow> ir option" where
  "overflow_condition Op_Add = Some getAddOverflowCondition"
| "overflow_condition Op_Sub = Some getSubOverflowCondition"
| "overflow_condition Op_Mul = Some getMulOverflowCondition"
| "overflow_condition Op_SDiv = Some getDividedByZeroCondition"
| "overflow_condition Op_UDiv = Some getDividedByZeroCondition"
| "overflow_condition (Op_other _) = None"

definition is_checked :: "instruction \<Rightarrow> bool" where
  "is_checked I \<longleftrightarrow>
     operand_type I 0 = Integer_type 32 \<and> operand_type I 1 = Integer_type 32 \<and>
     (opcode I = Op_Add \<or> opcode I = Op_Sub \<or> opcode I = Op_Mul \<or> opcode I = Op_UDiv \<or> opcode I = Op_SDiv)"

text \<open>Visit the instruction at position \<open>i\<close> of block \<open>l\<close>.\<close>

definition visitBinaryOperator :: "checker \<Rightarrow> nat \<Rightarrow> nat \<Rightarrow> (instruction, ir, 't) ir_function \<Rightarrow> (instruction, ir, 't) ir_function" where
  "visitBinaryOperator c l i F =
     (case blocks F l of
        None \<Rightarrow> F
      | Some bb \<Rightarrow>
          if i \<ge> length (instructions bb) then F
          else let I = instructions bb ! i in
          if \<not> is_checked I then F
          else if i + 1 = length (instructions bb) \<and> getTerminator bb = None then F
          else
            let (ContBB, F) = create_block (bb\<lparr>instructions := drop (i + 1) (instructions bb)\<rparr>) F;
                F = set_block l \<lparr>instructions = take (i + 1) (instructions bb), getTerminator = None\<rparr> F;
                (OverflowCheckBB, F) = create_block empty_block F;
                (SignedBoundCheckBB, F) = create_block empty_block F;
                (UnsignedBoundCheckBB, F) = create_block empty_block F;
                (SignedMinusBoundCheckBB, F) = create_block empty_block F;
                (MaxBoundCheckBB, F) = create_block empty_block F;
                (MinBoundCheckBB, F) = create_block empty_block F;
                (SignedMaxBoundCheckBB, F) = create_block empty_block F;
                (SignedMinBoundCheckBB, F) = create_block empty_block F;
                F = set_terminator l (Branch OverflowCheckBB) F;
                check = (\<lambda>BB cond target tag. set_terminator BB (Check cond target target tag (debug_loc I)))
            in case overflow_condition (opcode I) of
                 None \<Rightarrow> F
               | Some OverflowCond \<Rightarrow>
                   (check SignedMinBoundCheckBB (getSementicSignedMinBoundCondition c) ContBB
                      ''int_exceptional_signed_min_value'' \<circ>
                    check SignedMaxBoundCheckBB (getSementicSignedMaxBoundCondition c) SignedMinBoundCheckBB
                      ''int_exceptional_signed_max_value'' \<circ>
                    check MinBoundCheckBB (getSementicMinBoundCondition c) SignedMaxBoundCheckBB
                      ''int_exceptional_min_value'' \<circ>
                    check MaxBoundCheckBB (getSementicMaxBoundCondition c) SignedMaxBoundCheckBB
                      ''int_exceptional_max_value'' \<circ>
                    check SignedMinusBoundCheckBB (getSementicSignedMinusBoundCondition c) MaxBoundCheckBB
                      ''int_exceptional_signed_minus_value'' \<circ>
                    check UnsignedBoundCheckBB (getSementicUnsignedBoundCondition c) SignedMinusBoundCheckBB
                      ''int_exceptional_unsigned_value'' \<circ>
                    check SignedBoundCheckBB (getSementicSignedBoundCondition c) UnsignedBoundCheckBB
                      ''int_exceptional_signed_value'' \<circ>
                    check OverflowCheckBB OverflowCond SignedBoundCheckBB (overflow_tag (opcode I))) F)"

text \<open>
  Running the inserted blocks, from \<open>l\<close> to the first block that is not a check, with the outcomes of
  the checks on the way; \<open>a\<close>, \<open>b\<close> and \<open>r\<close> are the operands and the result of the checked instruction.
  \<open>None\<close>: undefined behaviour, or no terminator, or not enough fuel.
\<close>

fun run_checks ::
    "(instruction, ir, 't) ir_function \<Rightarrow> 32 word \<Rightarrow> 32 word \<Rightarrow> 32 word \<Rightarrow> nat \<Rightarrow> nat \<Rightarrow> nat \<Rightarrow> (string \<times> bool) list option" where
  "run_checks F a b r stop 0 l = None"
| "run_checks F a b r stop (Suc fuel) l =
     (if l = stop then Some []
      else case blocks F l of
        None \<Rightarrow> None
      | Some bb \<Rightarrow> (case getTerminator bb of
            Some (Branch l') \<Rightarrow> run_checks F a b r stop fuel l'
          | Some (Check cond t f tag loc) \<Rightarrow>
              (case ir_eval a b r cond of
                 Some (V_bit v) \<Rightarrow>
                   map_option (Cons (tag, v)) (run_checks F a b r stop fuel (if v then t else f))
               | _ \<Rightarrow> None)
          | _ \<Rightarrow> None))"

subsection \<open>The conditions are exact\<close>

definition in_signed :: "int \<Rightarrow> bool" where
  "in_signed x \<longleftrightarrow> - (2 ^ 31) \<le> x \<and> x < 2 ^ 31"

definition in_unsigned :: "int \<Rightarrow> bool" where
  "in_unsigned x \<longleftrightarrow> 0 \<le> x \<and> x < 2 ^ 32"

lemma sint_i32: "- (2 ^ 31) \<le> sint (x :: 32 word)" "sint (x :: 32 word) < 2 ^ 31"
  using sint_ge [of x] sint_lt [of x] by simp_all

lemma uint_i32: "0 \<le> uint (x :: 32 word)" "uint (x :: 32 word) < 2 ^ 32"
  using uint_lt2p [of x] by simp_all

lemma sint_wrap: "in_signed (sint x + sint y) \<Longrightarrow> sint (x + y :: 32 word) = sint x + sint y"
  "in_signed (sint x - sint y) \<Longrightarrow> sint (x - y :: 32 word) = sint x - sint y"
  by (simp_all add: in_signed_def sint_word_ariths signed_take_bit_int_eq_self)

lemma int_bounds: "sint (2 ^ 31 - 1 :: 32 word) = 2 ^ 31 - 1" "sint (- (2 ^ 31) :: 32 word) = - (2 ^ 31)"
  by simp_all

lemma add_condition_exact:
  "ir_eval a b r getAddOverflowCondition =
     Some (V_bit (\<not> in_signed (sint a + sint b) \<or> \<not> in_unsigned (uint a + uint b)))"
proof -
  have "(sint b > 0 \<and> sint a > sint (2 ^ 31 - 1 - b)) \<longleftrightarrow> sint a + sint b \<ge> 2 ^ 31"
  proof (cases "sint b > 0")
    case True
    then have "in_signed (sint (2 ^ 31 - 1 :: 32 word) - sint b)"
      using sint_i32 [of b] unfolding int_bounds in_signed_def by simp
    then show ?thesis using True sint_wrap(2) [of "2 ^ 31 - 1" b] unfolding int_bounds by auto
  qed (use sint_i32 [of a] in auto)
  moreover have "(sint b < 0 \<and> sint a < sint (- (2 ^ 31) - b)) \<longleftrightarrow> sint a + sint b < - (2 ^ 31)"
  proof (cases "sint b < 0")
    case True
    then have "in_signed (sint (- (2 ^ 31) :: 32 word) - sint b)"
      using sint_i32 [of b] unfolding int_bounds in_signed_def by simp
    then show ?thesis using True sint_wrap(2) [of "- (2 ^ 31)" b] unfolding int_bounds by auto
  qed (use sint_i32 [of a] in auto)
  moreover have "a + b < a \<longleftrightarrow> \<not> in_unsigned (uint a + uint b)"
    using uint_i32 [of a] uint_i32 [of b] by (auto simp: word_less_def in_unsigned_def uint_plus_if')
  ultimately show ?thesis
    by (auto simp: getAddOverflowCondition_def Let_def in_signed_def not_le not_less)
qed

lemma sub_condition_exact:
  "ir_eval a b r getSubOverflowCondition =
     Some (V_bit (\<not> in_signed (sint a - sint b) \<or> \<not> in_unsigned (uint a - uint b)))"
proof -
  have "(sint b < 0 \<and> sint a > sint (2 ^ 31 - 1 + b)) \<longleftrightarrow> sint a - sint b \<ge> 2 ^ 31"
  proof (cases "sint b < 0")
    case True
    then have "in_signed (sint (2 ^ 31 - 1 :: 32 word) + sint b)"
      using sint_i32 [of b] unfolding int_bounds in_signed_def by simp
    then show ?thesis using True sint_wrap(1) [of "2 ^ 31 - 1" b] unfolding int_bounds by auto
  qed (use sint_i32 [of a] in auto)
  moreover have "(sint b > 0 \<and> sint a < sint (- (2 ^ 31) + b)) \<longleftrightarrow> sint a - sint b < - (2 ^ 31)"
  proof (cases "sint b > 0")
    case True
    then have "in_signed (sint (- (2 ^ 31) :: 32 word) + sint b)"
      using sint_i32 [of b] unfolding int_bounds in_signed_def by simp
    then show ?thesis using True sint_wrap(1) [of "- (2 ^ 31)" b] unfolding int_bounds by auto
  qed (use sint_i32 [of a] in auto)
  moreover have "a < b \<longleftrightarrow> \<not> in_unsigned (uint a - uint b)"
    using uint_i32 [of a] uint_i32 [of b] unfolding word_less_def in_unsigned_def by linarith
  ultimately show ?thesis
    by (auto simp: getSubOverflowCondition_def Let_def in_signed_def not_le not_less)
qed

text \<open>Dividing the wrapped product by one factor gives the other exactly when the product did not wrap.\<close>

lemma sint_eq_iff: "sint (x :: 32 word) = sint y \<longleftrightarrow> x = y"
  by (auto intro: signed_word_eqI)

lemma le_div_iff_mult_le: "0 < (y::int) \<Longrightarrow> x \<le> c div y \<longleftrightarrow> x * y \<le> c"
proof -
  assume y: "0 < y"
  have c: "c = c div y * y + c mod y" "0 \<le> c mod y" "c mod y < y" using y by simp_all
  show ?thesis
  proof
    assume "x \<le> c div y"
    then have "x * y \<le> c div y * y" using y by (simp add: mult_right_mono)
    then show "x * y \<le> c" using c by linarith
  next
    assume "x * y \<le> c"
    then have "x * y < (c div y + 1) * y" using c unfolding distrib_right by linarith
    then show "x \<le> c div y" using y by (simp only: mult_less_cancel_right_pos)
  qed
qed

lemma smod_abs_less: "y \<noteq> 0 \<Longrightarrow> \<bar>signed_modulo x y\<bar> < \<bar>y :: int\<bar>"
  by (simp add: smod_int_alt_def abs_mult)

lemma product_quotient:
  fixes x y p m :: int
  assumes "x \<noteq> 0" "\<bar>x\<bar> < m" "m dvd x * y - p"
  shows "signed_divide p x = y \<longleftrightarrow> p = x * y"
proof
  assume "signed_divide p x = y"
  then have "p - x * y = signed_modulo p x" using mult_sdiv_smod_eq [of x p] by simp
  then have "\<bar>p - x * y\<bar> < m" using smod_abs_less [OF assms(1), of p] assms(2) by simp
  moreover have "m dvd p - x * y" using assms(3) by (simp add: dvd_diff_commute)
  ultimately have "p - x * y = 0" using zdvd_not_zless [of "\<bar>p - x * y\<bar>" m] by fastforce
  then show "p = x * y" by simp
next
  assume "p = x * y"
  then have "x * signed_divide p x = x * y - signed_modulo p x" using mult_sdiv_smod_eq [of x p] by simp
  moreover have "signed_modulo p x = 0" using \<open>p = x * y\<close> by (simp add: smod_int_alt_def abs_mult)
  ultimately show "signed_divide p x = y" using assms(1) by simp
qed

lemma sint_mult_dvd: "2 ^ 32 dvd sint a * sint b - sint (a * b :: 32 word)"
proof -
  have "take_bit 32 (sint (a * b :: 32 word)) = take_bit 32 (sint a * sint b)"
    by (simp add: sint_word_ariths take_bit_signed_take_bit)
  then show ?thesis by (simp add: take_bit_eq_mod mod_eq_dvd_iff dvd_diff_commute)
qed

lemma sint_mult_iff: "sint (a * b :: 32 word) = sint a * sint b \<longleftrightarrow> in_signed (sint a * sint b)"
proof
  assume "sint (a * b) = sint a * sint b"
  then show "in_signed (sint a * sint b)" using sint_i32 [of "a * b"] by (simp add: in_signed_def)
qed (simp add: in_signed_def sint_word_ariths signed_take_bit_int_eq_self)

lemma quotient_range:
  assumes "in_signed x" "y \<noteq> 0" "\<not> (x = - (2 ^ 31) \<and> y = - 1)"
  shows "in_signed (signed_divide x y)"
proof (cases "\<bar>y\<bar> = 1")
  case True
  then have "y = 1 \<or> y = - 1" by linarith
  then show ?thesis using assms by (auto simp: in_signed_def)
next
  case False
  with assms(2) have "2 \<le> \<bar>y\<bar>" by linarith
  then have "\<bar>x\<bar> div \<bar>y\<bar> \<le> \<bar>x\<bar> div 2" by (intro zdiv_mono2) auto
  moreover have "\<bar>x\<bar> \<le> 2 ^ 31" using assms(1) by (auto simp: in_signed_def)
  moreover from this have "\<bar>x\<bar> div 2 \<le> 2 ^ 30" by simp
  ultimately have "\<bar>x\<bar> div \<bar>y\<bar> \<le> 2 ^ 30" by linarith
  moreover have "\<bar>signed_divide x y\<bar> \<le> \<bar>x\<bar> div \<bar>y\<bar>"
    by (auto simp: signed_divide_int_def abs_mult sgn_if pos_imp_zdiv_nonneg_iff)
  ultimately have "\<bar>signed_divide x y\<bar> \<le> 2 ^ 30" by linarith
  then show ?thesis unfolding in_signed_def by auto
qed

lemma signed_mul_check:
  assumes "a \<noteq> 0" "\<not> (sint (a * b) = - (2 ^ 31) \<and> sint a = - 1)"
  shows "word_of_int (signed_divide (sint (a * b)) (sint a)) = (b :: 32 word) \<longleftrightarrow> in_signed (sint a * sint b)"
proof -
  let ?q = "signed_divide (sint (a * b)) (sint a)"
  have a: "sint a \<noteq> 0" using assms(1) by (metis signed_0 sint_eq_iff)
  have "in_signed (sint (a * b))" using sint_i32 [of "a * b"] by (simp add: in_signed_def)
  then have "in_signed ?q" using quotient_range [OF _ a] assms(2) by blast
  then have q: "sint (word_of_int ?q :: 32 word) = ?q"
    by (simp add: in_signed_def signed_of_int signed_take_bit_int_eq_self)
  have "word_of_int ?q = b \<longleftrightarrow> ?q = sint b"
    using q by (metis sint_eq_iff)
  also have "\<dots> \<longleftrightarrow> sint (a * b) = sint a * sint b"
    using product_quotient [OF a _ sint_mult_dvd] sint_i32 [of a] by auto
  finally show ?thesis by (simp add: sint_mult_iff)
qed

lemma mul_trap_iff:
  "sint (a * b :: 32 word) = - (2 ^ 31) \<and> sint a = - 1 \<longleftrightarrow> a = - 1 \<and> b = - (2 ^ 31)"
proof
  assume "sint (a * b) = - (2 ^ 31) \<and> sint a = - 1"
  then have "a = - 1" "a * b = - (2 ^ 31)"
    by (metis sint_eq_iff signed_minus_1 int_bounds(2))+
  then have "- (- b) = - (- (2 ^ 31) :: 32 word)" by simp
  moreover have "- (- (2 ^ 31)) = (- (2 ^ 31) :: 32 word)" by simp
  ultimately show "a = - 1 \<and> b = - (2 ^ 31)" using \<open>a = - 1\<close> by (simp only: minus_minus)
next
  assume "a = - 1 \<and> b = - (2 ^ 31)"
  then show "sint (a * b) = - (2 ^ 31) \<and> sint a = - 1" by simp
qed

lemma unsigned_mul_check:
  "b \<noteq> 0 \<Longrightarrow> - 1 div b < (a :: 32 word) \<longleftrightarrow> \<not> in_unsigned (uint a * uint b)"
proof -
  assume b: "b \<noteq> 0"
  then have "0 < uint b" using uint_i32 [of b] by (metis order_le_less unsigned_eq_0_iff)
  moreover have "uint (- 1 div b :: 32 word) = (2 ^ 32 - 1) div uint b"
    by (simp add: uint_div unsigned_minus_1_eq_mask mask_eq_exp_minus_1)
  ultimately have "- 1 div b < a \<longleftrightarrow> 2 ^ 32 - 1 < uint a * uint b"
    by (simp add: word_less_def not_le [symmetric] le_div_iff_mult_le)
  then show ?thesis using uint_i32 [of a] uint_i32 [of b] by (auto simp: in_unsigned_def)
qed

lemma mul_condition_exact:
  assumes "\<not> (a = - 1 \<and> b = - (2 ^ 31))"
  shows "ir_eval a b r getMulOverflowCondition =
     Some (V_bit (\<not> in_signed (sint a * sint b) \<or> \<not> in_unsigned (uint a * uint b)))"
proof -
  have no_trap: "\<not> (sint (a * b) = - (2 ^ 31) \<and> sint a = - 1)"
    using assms mul_trap_iff [of a b] by blast
  have "in_signed 0" "in_unsigned 0" by (simp_all add: in_signed_def in_unsigned_def)
  then show ?thesis
    using signed_mul_check [OF _ no_trap] unsigned_mul_check [of b a] no_trap
    by (cases "a = 0"; cases "b = 0") (auto simp: getMulOverflowCondition_def Let_def)
qed

lemma mul_condition_traps: "ir_eval (- 1) (- (2 ^ 31)) r getMulOverflowCondition = None"
  using mul_trap_iff [of "- 1" "- (2 ^ 31)"] by (simp add: getMulOverflowCondition_def Let_def)

lemma div_condition_exact: "ir_eval a b r getDividedByZeroCondition = Some (V_bit (b = 0))"
  by (simp add: getDividedByZeroCondition_def)

subsection \<open>The inserted blocks\<close>

text \<open>
  The function after a visit: the block is cut behind the instruction, its second half keeps the old
  terminator, and the checks lead from the first half to the second.
\<close>

lemma checked_condition: "is_checked I \<Longrightarrow> \<exists>cond. overflow_condition (opcode I) = Some cond"
  by (auto simp: is_checked_def)

lemma visit_blocks:
  fixes c :: checker
  assumes "fresh_labels F" "blocks F l = Some bb" "i < length (instructions bb)"
    and "is_checked (instructions bb ! i)" "getTerminator bb = Some t"
    and "overflow_condition (opcode (instructions bb ! i)) = Some cond"
  defines "n \<equiv> next_label F" and "op \<equiv> opcode (instructions bb ! i)" and "loc \<equiv> debug_loc (instructions bb ! i)"
    and "F' \<equiv> visitBinaryOperator c l i F"
  shows "blocks F' l = Some \<lparr>instructions = take (i + 1) (instructions bb), getTerminator = Some (Branch (n + 1))\<rparr>"
    and "blocks F' n = Some (bb\<lparr>instructions := drop (i + 1) (instructions bb)\<rparr>)"
    and "blocks F' (n + 1) = Some (check_block loc (the (overflow_condition op)) (n + 2) (overflow_tag op))"
    and "blocks F' (n + 2) = Some (check_block loc (getSementicSignedBoundCondition c) (n + 3) ''int_exceptional_signed_value'')"
    and "blocks F' (n + 3) = Some (check_block loc (getSementicUnsignedBoundCondition c) (n + 4) ''int_exceptional_unsigned_value'')"
    and "blocks F' (n + 4) = Some (check_block loc (getSementicSignedMinusBoundCondition c) (n + 5) ''int_exceptional_signed_minus_value'')"
    and "blocks F' (n + 5) = Some (check_block loc (getSementicMaxBoundCondition c) (n + 7) ''int_exceptional_max_value'')"
    and "blocks F' (n + 6) = Some (check_block loc (getSementicMinBoundCondition c) (n + 7) ''int_exceptional_min_value'')"
    and "blocks F' (n + 7) = Some (check_block loc (getSementicSignedMaxBoundCondition c) (n + 8) ''int_exceptional_signed_max_value'')"
    and "blocks F' (n + 8) = Some (check_block loc (getSementicSignedMinBoundCondition c) n ''int_exceptional_signed_min_value'')"
    and "\<And>x. x < n \<Longrightarrow> x \<noteq> l \<Longrightarrow> blocks F' x = blocks F x"
    and "\<And>x. n + 9 \<le> x \<Longrightarrow> blocks F' x = None" and "next_label F' = n + 9"
  using assms(2-6) fresh_label(1) [OF assms(1,2)] fresh_label(2) [OF assms(1)]
  by (simp_all add: visitBinaryOperator_def create_block_def F'_def Let_def n_def op_def loc_def check_block_def empty_block_def)

subsection \<open>Running the checks\<close>

text \<open>The outcomes, in the order in which the checks run.\<close>

definition outcomes :: "checker \<Rightarrow> opcode \<Rightarrow> bool \<Rightarrow> 32 word \<Rightarrow> (string \<times> bool) list" where
  "outcomes c op overflow r =
     [(overflow_tag op, overflow),
      (''int_exceptional_signed_value'', sint (sementic_threshold c) < sint r),
      (''int_exceptional_unsigned_value'', sementic_threshold c < r),
      (''int_exceptional_signed_minus_value'', sint r < sint (- sementic_threshold c)),
      (''int_exceptional_max_value'', 4294967294 - sementic_tolerance c < r),
      (''int_exceptional_signed_max_value'', sint (2147483646 - sementic_tolerance c) < sint r),
      (''int_exceptional_signed_min_value'', sint r < sint (- 2147483647 + sementic_tolerance c))]"

text \<open>What the first check of an operation is for.\<close>

fun overflows :: "opcode \<Rightarrow> 32 word \<Rightarrow> 32 word \<Rightarrow> bool" where
  "overflows Op_Add a b = (\<not> in_signed (sint a + sint b) \<or> \<not> in_unsigned (uint a + uint b))"
| "overflows Op_Sub a b = (\<not> in_signed (sint a - sint b) \<or> \<not> in_unsigned (uint a - uint b))"
| "overflows Op_Mul a b = (\<not> in_signed (sint a * sint b) \<or> \<not> in_unsigned (uint a * uint b))"
| "overflows Op_SDiv a b = (b = 0)"
| "overflows Op_UDiv a b = (b = 0)"
| "overflows (Op_other _) a b = False"

lemma overflow_condition_exact:
  assumes "overflow_condition op = Some cond" "\<not> (op = Op_Mul \<and> a = - 1 \<and> b = - (2 ^ 31))"
  shows "ir_eval a b r cond = Some (V_bit (overflows op a b))"
  using assms by (cases op) (auto simp: add_condition_exact sub_condition_exact mul_condition_exact div_condition_exact)

lemma run_check_block:
  assumes "blocks F l = Some (check_block loc cond target tag)" "l \<noteq> stop"
  shows "run_checks F a b r stop (numeral w) l =
    (case ir_eval a b r cond of
       Some (V_bit v) \<Rightarrow> map_option (Cons (tag, v)) (run_checks F a b r stop (pred_numeral w) target)
     | _ \<Rightarrow> None)"
  using assms by (auto simp: check_block_def numeral_eq_Suc split: option.split ir_value.split)

lemma run_visited:
  assumes "fresh_labels F" "blocks F l = Some bb" "i < length (instructions bb)"
    and "is_checked (instructions bb ! i)" "getTerminator bb = Some t"
    and "overflow_condition (opcode (instructions bb ! i)) = Some cond"
  shows "run_checks (visitBinaryOperator c l i F) a b r (next_label F) 9 l =
    (case ir_eval a b r cond of
       Some (V_bit v) \<Rightarrow> Some (outcomes c (opcode (instructions bb ! i)) v r) | _ \<Rightarrow> None)"
proof -
  let ?F = "visitBinaryOperator c l i F" and ?n = "next_label F"
  note F' = visit_blocks [OF assms, where c = c]
  have start: "run_checks ?F a b r ?n 9 l = run_checks ?F a b r ?n 8 (Suc ?n)"
    using fresh_label(1) [OF assms(1,2)] F'(1) by (simp add: numeral_eq_Suc)
  have F3: "blocks ?F (Suc ?n) = Some (check_block (debug_loc (instructions bb ! i)) cond (?n + 2)
      (overflow_tag (opcode (instructions bb ! i))))"
    using F'(3) assms(6) by simp
  have rest: "run_checks ?F a b r ?n 7 (?n + 2) = Some (tl (outcomes c (opcode (instructions bb ! i)) True r))"
    by (simp add: run_check_block [OF F'(4)] run_check_block [OF F'(5)] run_check_block [OF F'(6)]
        run_check_block [OF F'(7)] run_check_block [OF F'(9)] run_check_block [OF F'(10)] outcomes_def
        getSementicSignedBoundCondition_def getSementicUnsignedBoundCondition_def
        getSementicSignedMinusBoundCondition_def getSementicMaxBoundCondition_def
        getSementicSignedMaxBoundCondition_def getSementicSignedMinBoundCondition_def del: add_2_eq_Suc')
  show ?thesis
    unfolding start by (subst run_check_block [OF F3])
      (auto simp: rest outcomes_def simp del: add_2_eq_Suc' split: option.split ir_value.split)
qed

subsection \<open>The passes\<close>

text \<open>
  \<open>OverflowCheckerLegacyPass\<close> and \<open>OverflowCheckerPass\<close>, on the blocks of a function in their order. The members of
  a new checker are uninitialized; the second pass sets the threshold only.
\<close>

definition OverflowCheckerLegacyPass_runOnFunction ::
    "checker \<Rightarrow> nat list \<Rightarrow> (instruction, ir, 't) ir_function \<Rightarrow> (instruction, ir, 't) ir_function" where
  "OverflowCheckerLegacyPass_runOnFunction new_checker ls F =
     (let c = setSementicTolerance 10 (setSementicThreshold 10 new_checker)
      in visit_function (visitBinaryOperator c) ls F)"

definition OverflowCheckerPass_run ::
    "checker \<Rightarrow> nat list \<Rightarrow> (instruction, ir, 't) ir_function \<Rightarrow> (instruction, ir, 't) ir_function" where
  "OverflowCheckerPass_run new_checker ls F =
     visit_function (visitBinaryOperator (setSementicThreshold 100 new_checker)) ls F"

text \<open>The checks behind an instruction, in the order in which they run.\<close>

definition int_checks :: "checker \<Rightarrow> instruction \<Rightarrow> (ir \<times> string \<times> nat) list" where
  "int_checks c I = map (\<lambda>(cond, tag). (cond, tag, debug_loc I))
     [(the (overflow_condition (opcode I)), overflow_tag (opcode I)),
      (getSementicSignedBoundCondition c, ''int_exceptional_signed_value''),
      (getSementicUnsignedBoundCondition c, ''int_exceptional_unsigned_value''),
      (getSementicSignedMinusBoundCondition c, ''int_exceptional_signed_minus_value''),
      (getSementicMaxBoundCondition c, ''int_exceptional_max_value''),
      (getSementicSignedMaxBoundCondition c, ''int_exceptional_signed_max_value''),
      (getSementicSignedMinBoundCondition c, ''int_exceptional_signed_min_value'')]"

lemma visit_skips:
  "blocks F l = Some bb \<Longrightarrow> i < length (instructions bb) \<Longrightarrow> \<not> is_checked (instructions bb ! i) \<Longrightarrow> visitBinaryOperator c l i F = F"
  by (simp add: visitBinaryOperator_def)

lemma visit_cuts:
  fixes c :: checker
  assumes "fresh_labels F" "blocks F l = Some bb" "i < length (instructions bb)"
    and "is_checked (instructions bb ! i)" "getTerminator bb = Some t"
  defines "F' \<equiv> visitBinaryOperator c l i F"
  shows "blocks F' l = Some \<lparr>instructions = take (Suc i) (instructions bb), getTerminator = Some (Branch (next_label F + 1))\<rparr>"
    "check_chain F' (next_label F) (next_label F + 1) (int_checks c (instructions bb ! i)) (next_label F)"
    "blocks F' (next_label F) = Some \<lparr>instructions = drop (Suc i) (instructions bb), getTerminator = Some t\<rparr>"
    "\<And>x. x < next_label F \<Longrightarrow> x \<noteq> l \<Longrightarrow> blocks F' x = blocks F x" "fresh_labels F'" "next_label F < next_label F'"
proof -
  obtain cond where cond: "overflow_condition (opcode (instructions bb ! i)) = Some cond"
    using checked_condition [OF assms(4)] by blast
  note F' = visit_blocks [OF assms(1-5) cond, where c = c, folded F'_def]
  show "blocks F' l = Some \<lparr>instructions = take (Suc i) (instructions bb), getTerminator = Some (Branch (next_label F + 1))\<rparr>"
    using F'(1) by simp
  show "check_chain F' (next_label F) (next_label F + 1) (int_checks c (instructions bb ! i)) (next_label F)"
    unfolding int_checks_def list.map prod.case
    by (intro check_chainI [OF _ _ F'(3)] check_chainI [OF _ _ F'(4)] check_chainI [OF _ _ F'(5)] check_chainI [OF _ _ F'(6)]
        check_chainI [OF _ _ F'(7)] check_chainI [OF _ _ F'(9)] check_chainI [OF _ _ F'(10)]) (simp_all add: F'(13))
  show "blocks F' (next_label F) = Some \<lparr>instructions = drop (Suc i) (instructions bb), getTerminator = Some t\<rparr>"
    using F'(2) assms(5) by simp
  show "\<And>x. x < next_label F \<Longrightarrow> x \<noteq> l \<Longrightarrow> blocks F' x = blocks F x" by (rule F'(11))
  show "next_label F < next_label F'" using F'(13) by simp
  show "fresh_labels F'"
    unfolding fresh_labels_def F'(13)
  proof (intro allI impI)
    fix x assume "blocks F' x \<noteq> None"
    then show "x < next_label F + 9" using F'(12) [of x] by (cases "x < next_label F + 9") auto
  qed
qed

interpretation int_checker: block_checker "visitBinaryOperator c" is_checked "int_checks c" for c
  by unfold_locales (rule visit_skips, assumption+, intro conjI exI allI impI, (rule visit_cuts; assumption)+)

lemma passes_as_visits:
  "OverflowCheckerLegacyPass_runOnFunction c ls F =
     visit_function (visitBinaryOperator (c\<lparr>sementic_threshold := 10\<rparr>)) ls F"
  "OverflowCheckerPass_run c ls F = visit_function (visitBinaryOperator (c\<lparr>sementic_threshold := 100\<rparr>)) ls F"
  by (simp_all add: OverflowCheckerLegacyPass_runOnFunction_def OverflowCheckerPass_run_def setSementicThreshold_def
      setSementicTolerance_def)

end
