(* ===== verification/Checker_Properties.thy ===== *)
theory Checker_Properties
  imports Overflow_Checker
begin

text \<open>
  Properties of the integer checks that the compiler inserts, each with an instance at a function of one
  block.
\<close>


definition int_instruction :: "opcode \<Rightarrow> instruction" where
  "int_instruction op = \<lparr>opcode = op, operand_type = (\<lambda>_. Integer_type 32), debug_loc = 7\<rparr>"

definition one_block :: "opcode \<Rightarrow> (instruction, ir, string) ir_function" where
  "one_block op = \<lparr>blocks = [0 \<mapsto> \<lparr>instructions = [int_instruction op, int_instruction (Op_other ''xor'')],
     getTerminator = Some (Program ''ret'')\<rparr>], next_label = 1\<rparr>"

lemma one_block_facts:
  "fresh_labels (one_block op)"
  "blocks (one_block op) 0 = Some \<lparr>instructions = [int_instruction op, int_instruction (Op_other ''xor'')],
     getTerminator = Some (Program ''ret'')\<rparr>"
  "next_label (one_block op) = 1"
  "is_checked (int_instruction Op_Add)" "is_checked (int_instruction Op_Mul)"
  by (simp_all add: fresh_labels_def one_block_def is_checked_def int_instruction_def)




text \<open>The check of a multiplication divides the product by the first factor. For -1 times the smallest integer
  that division overflows: the instrumented program has undefined behaviour where the multiplication
  alone has none.\<close>

theorem mul_check_undefined:
  assumes "fresh_labels F" "blocks F l = Some bb" "i < length (instructions bb)"
    and "is_checked (instructions bb ! i)" "getTerminator bb = Some t" "opcode (instructions bb ! i) = Op_Mul"
  shows "run_checks (visitBinaryOperator c l i F) (- 1) (- (2 ^ 31)) r (next_label F) 9 l = None"
proof -
  have cond: "overflow_condition (opcode (instructions bb ! i)) = Some getMulOverflowCondition"
    using assms(6) by simp
  show ?thesis unfolding run_visited [OF assms(1-5) cond] mul_condition_traps by simp
qed

theorem mul_check_undefined_witness:
  "run_checks (visitBinaryOperator \<lparr>sementic_threshold = 100, sementic_tolerance = 10\<rparr> 0 0 (one_block Op_Mul))
     (- 1) (- (2 ^ 31)) (- (2 ^ 31)) (next_label (one_block Op_Mul)) 9 0 = None"
  by (rule mul_check_undefined [OF one_block_facts(1,2)])
    (simp_all add: one_block_facts(5), simp add: int_instruction_def)

text \<open>The check of the lower unsigned bound is built, but no branch leads to it.\<close>

fun targets :: "('c, 't) terminator option \<Rightarrow> nat set" where
  "targets (Some (Branch l)) = {l}"
| "targets (Some (Check cond t f tag loc)) = {t, f}"
| "targets _ = {}"

lemma min_check_unreachable:
  assumes "fresh_labels F" "blocks F l = Some bb" "i < length (instructions bb)"
    and "is_checked (instructions bb ! i)" "getTerminator bb = Some t"
    and "\<And>x b'. blocks F x = Some b' \<Longrightarrow> targets (getTerminator b') \<subseteq> {..<next_label F}"
  shows "\<exists>n. (\<exists>loc target. blocks (visitBinaryOperator c l i F) n =
      Some (check_block loc (getSementicMinBoundCondition c) target ''int_exceptional_min_value'')) \<and>
    (\<forall>x b'. blocks (visitBinaryOperator c l i F) x = Some b' \<longrightarrow> n \<notin> targets (getTerminator b'))"
proof -
  obtain cond where cond: "overflow_condition (opcode (instructions bb ! i)) = Some cond"
    using checked_condition [OF assms(4)] by blast
  let ?n = "next_label F" and ?F = "visitBinaryOperator c l i F"
  note F' = visit_blocks [OF assms(1-5) cond, where c = c]
  have "?n + 6 \<notin> targets (getTerminator b')" if b': "blocks ?F x = Some b'" for x b'
  proof (cases "x < ?n")
    case True
    show ?thesis
    proof (cases "x = l")
      case True
      then show ?thesis using F'(1) b' by auto
    next
      case False
      then show ?thesis using F'(11) [OF True] b' assms(6) [of x b'] by auto
    qed
  next
    case False
    then consider "x = ?n" | "x = ?n + 1" | "x = ?n + 2" | "x = ?n + 3" | "x = ?n + 4" | "x = ?n + 5" | "x = ?n + 6"
      | "x = ?n + 7" | "x = ?n + 8" | "?n + 9 \<le> x" by linarith
    then show ?thesis
      by cases (use b' F'(2-10,12) assms(2,6) in \<open>fastforce simp: check_block_def\<close>)+
  qed
  then show ?thesis using F'(8) by blast
qed

end
