(* ===== verification/FP_Checker.thy ===== *)
theory FP_Checker
  imports Check_Blocks "HOL-Library.Log_Nat" Complex_Main
begin

text \<open>
  \<open>compiler/FPOverflow.cpp\<close>: the pass that puts checks behind every floating-point operation. Numbers of a binary
  format of IEEE 754 are rationals, infinities and a NaN (the comparisons of the checks do not tell the two zeros
  apart); constants and their differences are rounded to nearest, ties to even, as \<open>APFloat\<close> does.
\<close>

subsection \<open>Numbers\<close>

datatype fp = FP_NaN | FP_Inf bool | FP_num rat

text \<open>The formats of the types \<open>half\<close>, \<open>bfloat\<close>, \<open>float\<close>, \<open>double\<close>, \<open>x86_fp80\<close> and \<open>fp128\<close>: bits of precision and largest exponent.\<close>

datatype fp_type = Half | BFloat | Float | Double | X86_FP80 | FP128

fun precision :: "fp_type \<Rightarrow> nat" where
  "precision Half = 11"
| "precision BFloat = 8"
| "precision Float = 24"
| "precision Double = 53"
| "precision X86_FP80 = 64"
| "precision FP128 = 113"

fun max_exponent :: "fp_type \<Rightarrow> int" where
  "max_exponent Half = 15"
| "max_exponent BFloat = 127"
| "max_exponent Float = 127"
| "max_exponent Double = 1023"
| "max_exponent X86_FP80 = 16383"
| "max_exponent FP128 = 16383"

definition getLargest :: "fp_type \<Rightarrow> rat" where
  "getLargest T = (2 ^ precision T - 1) * 2 powi (max_exponent T - int (precision T) + 1)"

definition getSmallest :: "fp_type \<Rightarrow> rat" where
  "getSmallest T = 2 powi (2 - max_exponent T - int (precision T))"

text \<open>The exponent of a positive number, and rounding to a multiple of a power of two.\<close>

definition fp_exponent :: "rat \<Rightarrow> int" where
  "fp_exponent x =
     (let (n, d) = quotient_of x; k = bitlen n - bitlen d
      in if 2 powi k \<le> x then k else k - 1)"

definition round_even :: "rat \<Rightarrow> int" where
  "round_even x =
     (let k = \<lfloor>x\<rfloor>; r = x - of_int k
      in if r < 1 / 2 \<or> r = 1 / 2 \<and> even k then k else k + 1)"

definition fp_round :: "fp_type \<Rightarrow> rat \<Rightarrow> fp" where
  "fp_round T x =
     (if x = 0 then FP_num 0
      else
        let e = max (fp_exponent \<bar>x\<bar>) (1 - max_exponent T);
            quantum = 2 powi (e - int (precision T) + 1);
            y = of_int (round_even (x / quantum)) * quantum
        in if \<bar>y\<bar> > getLargest T then FP_Inf (y < 0) else FP_num y)"

fun fp_convert :: "fp_type \<Rightarrow> fp \<Rightarrow> fp" where
  "fp_convert T (FP_num x) = fp_round T x"
| "fp_convert T x = x"

fun fp_neg :: "fp \<Rightarrow> fp" where
  "fp_neg (FP_num x) = FP_num (- x)"
| "fp_neg (FP_Inf s) = FP_Inf (\<not> s)"
| "fp_neg FP_NaN = FP_NaN"

fun fp_add :: "fp_type \<Rightarrow> fp \<Rightarrow> fp \<Rightarrow> fp" where
  "fp_add T (FP_num x) (FP_num y) = fp_round T (x + y)"
| "fp_add T (FP_Inf s) (FP_Inf s') = (if s = s' then FP_Inf s else FP_NaN)"
| "fp_add T (FP_Inf s) (FP_num y) = FP_Inf s"
| "fp_add T (FP_num x) (FP_Inf s) = FP_Inf s"
| "fp_add T _ _ = FP_NaN"

definition fp_sub :: "fp_type \<Rightarrow> fp \<Rightarrow> fp \<Rightarrow> fp" where
  "fp_sub T x y = fp_add T x (fp_neg y)"

text \<open>The ordered comparisons: false as soon as one side is a NaN.\<close>

fun fp_eq :: "fp \<Rightarrow> fp \<Rightarrow> bool" where
  "fp_eq (FP_num x) (FP_num y) = (x = y)"
| "fp_eq (FP_Inf s) (FP_Inf s') = (s = s')"
| "fp_eq _ _ = False"

fun fp_less :: "fp \<Rightarrow> fp \<Rightarrow> bool" where
  "fp_less (FP_num x) (FP_num y) = (x < y)"
| "fp_less (FP_Inf s) (FP_Inf s') = (s \<and> \<not> s')"
| "fp_less (FP_Inf s) (FP_num y) = s"
| "fp_less (FP_num x) (FP_Inf s) = (\<not> s)"
| "fp_less _ _ = False"

subsection \<open>Conditions\<close>

datatype fir =
    F_Result
  | F_Operand nat
  | F_Const fp
  | F_OEQ fir fir
  | F_OGT fir fir
  | F_OLT fir fir
  | F_Or fir fir
  | F_And fir fir
  | F_False

datatype fir_value = F_num fp | F_bit bool

fun fir_eval :: "fp \<Rightarrow> fp \<Rightarrow> fp \<Rightarrow> fir \<Rightarrow> fir_value option" where
  "fir_eval a b r F_Result = Some (F_num r)"
| "fir_eval a b r (F_Operand n) = Some (F_num (if n = 0 then a else b))"
| "fir_eval a b r (F_Const k) = Some (F_num k)"
| "fir_eval a b r (F_OEQ x y) =
     (case (fir_eval a b r x, fir_eval a b r y) of (Some (F_num u), Some (F_num v)) \<Rightarrow> Some (F_bit (fp_eq u v)) | _ \<Rightarrow> None)"
| "fir_eval a b r (F_OGT x y) =
     (case (fir_eval a b r x, fir_eval a b r y) of (Some (F_num u), Some (F_num v)) \<Rightarrow> Some (F_bit (fp_less v u)) | _ \<Rightarrow> None)"
| "fir_eval a b r (F_OLT x y) =
     (case (fir_eval a b r x, fir_eval a b r y) of (Some (F_num u), Some (F_num v)) \<Rightarrow> Some (F_bit (fp_less u v)) | _ \<Rightarrow> None)"
| "fir_eval a b r (F_Or x y) =
     (case (fir_eval a b r x, fir_eval a b r y) of (Some (F_bit u), Some (F_bit v)) \<Rightarrow> Some (F_bit (u \<or> v)) | _ \<Rightarrow> None)"
| "fir_eval a b r (F_And x y) =
     (case (fir_eval a b r x, fir_eval a b r y) of (Some (F_bit u), Some (F_bit v)) \<Rightarrow> Some (F_bit (u \<and> v)) | _ \<Rightarrow> None)"
| "fir_eval a b r F_False = Some (F_bit False)"

subsection \<open>The checker\<close>

record fp_checker =
  fp_threshold :: fp
  fp_tolerance :: fp

definition setSementicThreshold :: "fp \<Rightarrow> fp_checker \<Rightarrow> fp_checker" where
  "setSementicThreshold v c = c\<lparr>fp_threshold := v\<rparr>"

definition setSementicTolerance :: "fp \<Rightarrow> fp_checker \<Rightarrow> fp_checker" where
  "setSementicTolerance v c = c\<lparr>fp_tolerance := v\<rparr>"

definition getOverflowCond :: fir where
  "getOverflowCond =
     (let PosInf = F_Const (FP_Inf False); NegInf = F_Const (FP_Inf True);
          IsPosInf = F_OEQ F_Result PosInf; IsNegInf = F_OEQ F_Result NegInf
      in F_Or IsPosInf IsNegInf)"

definition getDividedByZeroCondition :: "bool \<Rightarrow> fir" where
  "getDividedByZeroCondition is_div =
     (if \<not> is_div then F_False else F_OEQ (F_Operand 1) (F_Const (FP_num 0)))"

definition getSementicBoundCondition :: "fp_checker \<Rightarrow> fp_type \<Rightarrow> fir" where
  "getSementicBoundCondition c T = F_OGT F_Result (F_Const (fp_convert T (fp_threshold c)))"

definition getSementicMinusBoundCondition :: "fp_checker \<Rightarrow> fp_type \<Rightarrow> fir" where
  "getSementicMinusBoundCondition c T = F_OLT F_Result (F_Const (fp_convert T (fp_neg (fp_threshold c))))"

definition getSemnticMaxBoundCondition :: "fp_checker \<Rightarrow> fp_type \<Rightarrow> fir" where
  "getSemnticMaxBoundCondition c T =
     (let MaxValue = FP_num (getLargest T); Tolerance = fp_convert T (fp_tolerance c)
      in F_OGT F_Result (F_Const (fp_sub T MaxValue Tolerance)))"

definition getSementicMinBoundCondition :: "fp_checker \<Rightarrow> fp_type \<Rightarrow> fir" where
  "getSementicMinBoundCondition c T =
     (let MinValue = FP_num (getSmallest T); Tolerance = fp_convert T (fp_tolerance c)
      in F_OLT F_Result (F_Const (fp_add T MinValue Tolerance)))"

definition getSementicToleranceCondition :: "fp_checker \<Rightarrow> fp_type \<Rightarrow> fir" where
  "getSementicToleranceCondition c T =
     (let Tolerance = fp_convert T (fp_tolerance c); NegTolerance = fp_neg Tolerance
      in F_And (F_OLT F_Result (F_Const Tolerance)) (F_OGT F_Result (F_Const NegTolerance)))"

subsection \<open>Inserting the checks\<close>

datatype fp_opcode = FAdd | FSub | FMul | FDiv | FRem | F_other string

record fp_instruction =
  fp_op :: fp_opcode
  fp_result_type :: "fp_type option"
  fp_operand_type :: "nat \<Rightarrow> fp_type option"
  hasNoNaNs :: bool
  hasNoInfs :: bool
  fp_loc :: nat

definition fp_is_checked :: "fp_instruction \<Rightarrow> bool" where
  "fp_is_checked I \<longleftrightarrow>
     fp_result_type I \<noteq> None \<and> fp_operand_type I 0 \<noteq> None \<and> fp_operand_type I 1 \<noteq> None \<and>
     (fp_op I = FAdd \<or> fp_op I = FSub \<or> fp_op I = FMul \<or> fp_op I = FDiv \<or> fp_op I = FRem) \<and>
     \<not> (hasNoNaNs I \<and> hasNoInfs I)"

text \<open>Visit the instruction at position \<open>i\<close> of block \<open>l\<close>.\<close>

definition visitBinaryOperator ::
    "fp_checker \<Rightarrow> nat \<Rightarrow> nat \<Rightarrow> (fp_instruction, fir, 't) ir_function \<Rightarrow> (fp_instruction, fir, 't) ir_function" where
  "visitBinaryOperator c l i F =
     (case blocks F l of
        None \<Rightarrow> F
      | Some bb \<Rightarrow>
          if i \<ge> length (instructions bb) then F
          else let I = instructions bb ! i in
          if \<not> fp_is_checked I then F
          else if i + 1 = length (instructions bb) \<and> getTerminator bb = None then F
          else
            let T = the (fp_result_type I);
                (ContBB, F) = create_block (bb\<lparr>instructions := drop (i + 1) (instructions bb)\<rparr>) F;
                F = set_block l \<lparr>instructions = take (i + 1) (instructions bb), getTerminator = None\<rparr> F;
                (OverflowCheckBB, F) = create_block empty_block F;
                (DividedByZeroCheckBB, F) = create_block empty_block F;
                (BoundCheckBB, F) = create_block empty_block F;
                (MinusBoundCheckBB, F) = create_block empty_block F;
                (MaxBoundCheckBB, F) = create_block empty_block F;
                (MinBoundCheckBB, F) = create_block empty_block F;
                F = set_terminator l (Branch OverflowCheckBB) F;
                check = (\<lambda>BB cond target tag. set_terminator BB (Check cond target target tag (fp_loc I)))
            in (check MinBoundCheckBB (getSementicMinBoundCondition c T) ContBB ''fp_exceptional_min_value'' \<circ>
                check MaxBoundCheckBB (getSemnticMaxBoundCondition c T) MinBoundCheckBB ''fp_exceptional_max_value'' \<circ>
                check MinusBoundCheckBB (getSementicMinusBoundCondition c T) MaxBoundCheckBB ''fp_exceptional_minus_value'' \<circ>
                check DividedByZeroCheckBB (getDividedByZeroCondition (fp_op I = FDiv)) MinusBoundCheckBB ''fp_divided_by_zero'' \<circ>
                check BoundCheckBB (getSementicBoundCondition c T) DividedByZeroCheckBB ''fp_exceptional_value'' \<circ>
                check OverflowCheckBB getOverflowCond BoundCheckBB ''fp_overflow'') F)"

text \<open>
  The two passes of \<open>compiler/Pass.cpp\<close>. The members of a new checker are uninitialized; the second pass sets the
  threshold only. The literals are doubles.
\<close>

definition FPOverflowCheckerLegacyPass_runOnFunction ::
    "fp_checker \<Rightarrow> nat list \<Rightarrow> (fp_instruction, fir, 't) ir_function \<Rightarrow> (fp_instruction, fir, 't) ir_function" where
  "FPOverflowCheckerLegacyPass_runOnFunction new_checker ls F =
     (let c = setSementicTolerance (fp_round Double (1 / 100000)) (setSementicThreshold (fp_round Double 100) new_checker)
      in visit_function (visitBinaryOperator c) ls F)"

definition FPOverflowCheckerPass_run ::
    "fp_checker \<Rightarrow> nat list \<Rightarrow> (fp_instruction, fir, 't) ir_function \<Rightarrow> (fp_instruction, fir, 't) ir_function" where
  "FPOverflowCheckerPass_run new_checker ls F =
     visit_function (visitBinaryOperator (setSementicThreshold (fp_round Double 100) new_checker)) ls F"

subsection \<open>The contract of the checker\<close>

definition fp_checks :: "fp_checker \<Rightarrow> fp_instruction \<Rightarrow> (fir \<times> string \<times> nat) list" where
  "fp_checks c I =
     (let T = the (fp_result_type I) in
      map (\<lambda>(cond, tag). (cond, tag, fp_loc I))
        [(getOverflowCond, ''fp_overflow''),
         (getSementicBoundCondition c T, ''fp_exceptional_value''),
         (getDividedByZeroCondition (fp_op I = FDiv), ''fp_divided_by_zero''),
         (getSementicMinusBoundCondition c T, ''fp_exceptional_minus_value''),
         (getSemnticMaxBoundCondition c T, ''fp_exceptional_max_value''),
         (getSementicMinBoundCondition c T, ''fp_exceptional_min_value'')])"

lemma fp_visit_skips:
  "blocks F l = Some bb \<Longrightarrow> i < length (instructions bb) \<Longrightarrow> \<not> fp_is_checked (instructions bb ! i) \<Longrightarrow> visitBinaryOperator c l i F = F"
  by (simp add: visitBinaryOperator_def)

lemma fp_visit_blocks:
  fixes c :: fp_checker
  assumes "fresh_labels F" "blocks F l = Some bb" "i < length (instructions bb)"
    and "fp_is_checked (instructions bb ! i)" "getTerminator bb = Some t"
  defines "n \<equiv> next_label F" and "I \<equiv> instructions bb ! i" and "T \<equiv> the (fp_result_type (instructions bb ! i))"
    and "F' \<equiv> visitBinaryOperator c l i F"
  shows "blocks F' l = Some \<lparr>instructions = take (Suc i) (instructions bb), getTerminator = Some (Branch (n + 1))\<rparr>"
    and "blocks F' n = Some (bb\<lparr>instructions := drop (Suc i) (instructions bb)\<rparr>)"
    and "blocks F' (n + 1) = Some (check_block (fp_loc I) getOverflowCond (n + 3) ''fp_overflow'')"
    and "blocks F' (n + 3) = Some (check_block (fp_loc I) (getSementicBoundCondition c T) (n + 2) ''fp_exceptional_value'')"
    and "blocks F' (n + 2) = Some (check_block (fp_loc I) (getDividedByZeroCondition (fp_op I = FDiv)) (n + 4) ''fp_divided_by_zero'')"
    and "blocks F' (n + 4) = Some (check_block (fp_loc I) (getSementicMinusBoundCondition c T) (n + 5) ''fp_exceptional_minus_value'')"
    and "blocks F' (n + 5) = Some (check_block (fp_loc I) (getSemnticMaxBoundCondition c T) (n + 6) ''fp_exceptional_max_value'')"
    and "blocks F' (n + 6) = Some (check_block (fp_loc I) (getSementicMinBoundCondition c T) n ''fp_exceptional_min_value'')"
    and "\<And>x. x < n \<Longrightarrow> x \<noteq> l \<Longrightarrow> blocks F' x = blocks F x"
    and "\<And>x. n + 7 \<le> x \<Longrightarrow> blocks F' x = None" and "next_label F' = n + 7"
  using assms(2-5) fresh_label(1) [OF assms(1,2)] fresh_label(2) [OF assms(1)]
  by (simp_all add: visitBinaryOperator_def create_block_def F'_def Let_def n_def I_def T_def check_block_def empty_block_def)

lemma fp_visit_cuts:
  fixes c :: fp_checker
  assumes "fresh_labels F" "blocks F l = Some bb" "i < length (instructions bb)"
    and "fp_is_checked (instructions bb ! i)" "getTerminator bb = Some t"
  defines "F' \<equiv> visitBinaryOperator c l i F"
  shows "blocks F' l = Some \<lparr>instructions = take (Suc i) (instructions bb), getTerminator = Some (Branch (next_label F + 1))\<rparr>"
    "check_chain F' (next_label F) (next_label F + 1) (fp_checks c (instructions bb ! i)) (next_label F)"
    "blocks F' (next_label F) = Some \<lparr>instructions = drop (Suc i) (instructions bb), getTerminator = Some t\<rparr>"
    "\<And>x. x < next_label F \<Longrightarrow> x \<noteq> l \<Longrightarrow> blocks F' x = blocks F x" "fresh_labels F'" "next_label F < next_label F'"
proof -
  note F' = fp_visit_blocks [OF assms(1-5), where c = c, folded F'_def]
  show "blocks F' l = Some \<lparr>instructions = take (Suc i) (instructions bb), getTerminator = Some (Branch (next_label F + 1))\<rparr>"
    by (rule F'(1))
  show "check_chain F' (next_label F) (next_label F + 1) (fp_checks c (instructions bb ! i)) (next_label F)"
    unfolding fp_checks_def Let_def list.map prod.case
    by (intro check_chainI [OF _ _ F'(3)] check_chainI [OF _ _ F'(4)] check_chainI [OF _ _ F'(5)] check_chainI [OF _ _ F'(6)]
        check_chainI [OF _ _ F'(7)] check_chainI [OF _ _ F'(8)]) (simp_all add: F'(11))
  show "blocks F' (next_label F) = Some \<lparr>instructions = drop (Suc i) (instructions bb), getTerminator = Some t\<rparr>"
    using F'(2) assms(5) by simp
  show "\<And>x. x < next_label F \<Longrightarrow> x \<noteq> l \<Longrightarrow> blocks F' x = blocks F x" by (rule F'(9))
  show "next_label F < next_label F'" using F'(11) by simp
  show "fresh_labels F'"
    unfolding fresh_labels_def F'(11)
  proof (intro allI impI)
    fix x assume "blocks F' x \<noteq> None"
    then show "x < next_label F + 7" using F'(10) [of x] by (cases "x < next_label F + 7") auto
  qed
qed

interpretation float_checker: block_checker "visitBinaryOperator c" fp_is_checked "fp_checks c" for c
  by unfold_locales (rule fp_visit_skips, assumption+, intro conjI exI allI impI, (rule fp_visit_cuts; assumption)+)

subsection \<open>Rounding\<close>

lemma powi_less_iff: "(2::rat) powi i < 2 powi j \<longleftrightarrow> i < j"
  using power_int_strict_increasing [of i j "2 :: rat"] power_int_increasing [of j i "2 :: rat"] by (cases "i < j") auto

lemma fp_exponent_bounds:
  assumes "0 < x"
  shows "2 powi fp_exponent x \<le> x" "x < 2 powi (fp_exponent x + 1)"
proof -
  obtain n d where q: "quotient_of x = (n, d)" by fastforce
  have x: "x = of_int n / of_int d" and d: "0 < d" using quotient_of_div [OF q] quotient_of_denom_pos [OF q] by simp_all
  have n: "0 < n" using assms d unfolding x by (simp add: zero_less_divide_iff)
  define bn bd where "bn = bitlen n" and "bd = bitlen d"
  have b: "0 < bn" "0 < bd" using n d bitlen_nonneg [of n] bitlen_nonneg [of d] by (auto simp: bn_def bd_def bitlen_eq_zero_iff order_less_le)
  have pow: "(of_int (2 ^ nat k) :: rat) = 2 powi k" if "0 \<le> k" for k using that by (simp add: power_int_def)
  have rn: "2 powi (bn - 1) \<le> (of_int n :: rat)" "(of_int n :: rat) < 2 powi bn"
    using bitlen_bounds [OF n] b pow [of "bn - 1"] pow [of bn] unfolding bn_def
    by (metis of_int_le_iff of_int_less_iff diff_ge_0_iff_ge zless_imp_add1_zle add_0 order_less_imp_le)+
  have rd: "2 powi (bd - 1) \<le> (of_int d :: rat)" "(of_int d :: rat) < 2 powi bd"
    using bitlen_bounds [OF d] b pow [of "bd - 1"] pow [of bd] unfolding bd_def
    by (metis of_int_le_iff of_int_less_iff diff_ge_0_iff_ge zless_imp_add1_zle add_0 order_less_imp_le)+
  have "x < 2 powi bn / 2 powi (bd - 1)"
    unfolding x using rn(2) rd(1) n d by (intro frac_less) auto
  also have "\<dots> = 2 powi (bn - bd + 1)" by (simp add: power_int_diff [symmetric] algebra_simps)
  finally have up: "x < 2 powi (bn - bd + 1)" .
  have "2 powi (bn - bd - 1) = (2 powi (bn - 1) / 2 powi bd :: rat)" by (simp add: power_int_diff [symmetric] algebra_simps)
  also have "\<dots> \<le> x" unfolding x using rn(1) rd(2) n d by (intro frac_le) auto
  finally have low: "2 powi (bn - bd - 1) \<le> x" .
  show "2 powi fp_exponent x \<le> x" "x < 2 powi (fp_exponent x + 1)"
    using up low by (auto simp: fp_exponent_def q bn_def bd_def not_le Let_def)
qed

lemma fp_exponent_unique:
  assumes "2 powi e \<le> x" "x < 2 powi (e + 1)"
  shows "fp_exponent x = e"
proof -
  have "0 < x" by (rule order_less_le_trans [OF _ assms(1)]) simp
  note b = fp_exponent_bounds [OF this]
  have "2 powi e < (2 powi (fp_exponent x + 1) :: rat)" "2 powi fp_exponent x < (2 powi (e + 1) :: rat)"
    using assms b by (auto intro: order_le_less_trans)
  then show ?thesis unfolding powi_less_iff by simp
qed

lemma round_even_near: "\<bar>x - of_int k\<bar> < 1 / 2 \<Longrightarrow> round_even x = k"
proof -
  assume near: "\<bar>x - of_int k\<bar> < 1 / 2"
  consider "\<lfloor>x\<rfloor> = k" | "\<lfloor>x\<rfloor> = k - 1"
    using near by (cases "of_int k \<le> x") (auto simp: floor_eq_iff abs_if split: if_splits)
  then show ?thesis
    by cases (use near in \<open>auto simp: round_even_def Let_def abs_if split: if_splits\<close>)
qed

lemma round_even_bounds: "of_int (round_even x) \<le> x + 1 / 2" "x - 1 / 2 \<le> of_int (round_even x)"
  using of_int_floor_le [of x] floor_correct [of x, THEN conjunct2] unfolding round_even_def Let_def by (simp_all split: if_split, linarith+)

lemma round_even_pos: "1 \<le> x \<Longrightarrow> 1 \<le> round_even x"
  using floor_correct [of x] by (auto simp: round_even_def Let_def)

subsection \<open>The bounds of the checks\<close>

lemma formats: "2 \<le> precision T" "int (precision T) + 4 \<le> max_exponent T"
  by (cases T; simp)+

text \<open>A tolerance below half of the last digit of the largest number is lost in the difference.\<close>

lemma largest_absorbs:
  assumes "0 \<le> y" "y < 2 powi (max_exponent T - int (precision T))"
  shows "fp_round T (getLargest T - y) = FP_num (getLargest T)"
proof -
  let ?p = "precision T" and ?m = "max_exponent T"
  define q :: rat where "q = 2 powi (?m - int ?p + 1)"
  have q: "0 < q" "2 powi (?m - int ?p) = q / 2" by (simp_all add: q_def power_int_add)
  have L: "getLargest T = (2 ^ ?p - 1) * q" by (simp add: getLargest_def q_def)
  have top: "2 powi (?m + 1) = 2 ^ ?p * q" "2 powi ?m = 2 ^ (?p - 1) * q"
    using formats(1) [of T] by (simp_all add: q_def power_int_add [symmetric] flip: power_int_of_nat)
  have "(4::rat) \<le> 2 ^ ?p" using power_increasing [OF formats(1), of "2 :: rat" T] by simp
  then have half: "2 ^ ?p = 2 * (2 ^ (?p - 1) :: rat)" "(2::rat) \<le> 2 ^ (?p - 1)"
    using formats(1) [of T] by (cases ?p; simp)+
  have x: "2 powi ?m \<le> getLargest T - y" "getLargest T - y < 2 powi (?m + 1)"
  proof -
    have "2 ^ (?p - 1) * q + 2 * q \<le> 2 ^ ?p * q" using half mult_right_mono [of 2 "2 ^ (?p - 1)" q] q(1) by (simp add: algebra_simps)
    then show "2 powi ?m \<le> getLargest T - y" unfolding L top using assms q by (simp add: algebra_simps)
    show "getLargest T - y < 2 powi (?m + 1)" unfolding L top using assms q by (simp add: algebra_simps)
  qed
  have pos: "0 < getLargest T - y" by (rule order_less_le_trans [OF _ x(1)]) simp
  have e: "fp_exponent \<bar>getLargest T - y\<bar> = ?m" using fp_exponent_unique [OF x] pos by simp
  have "round_even ((getLargest T - y) / q) = 2 ^ ?p - 1"
    by (rule round_even_near) (use assms q in \<open>simp add: L field_simps\<close>)
  moreover have "0 \<le> getLargest T" using pos assms(1) by simp
  ultimately show ?thesis
    using pos formats(2) [of T] unfolding fp_round_def e by (simp add: Let_def max_def q_def [symmetric] L)
qed

text \<open>Rounding a number up to one moves it by less than one half, and keeps it finite.\<close>

lemma fp_round_small:
  assumes "0 \<le> x" "x \<le> 1"
  shows "\<exists>y. fp_round T x = FP_num y \<and> 0 \<le> y \<and> y \<le> x + 1 / 2"
proof (cases "x = 0")
  case False
  define e where "e = max (fp_exponent \<bar>x\<bar>) (1 - max_exponent T)"
  define q :: rat where "q = 2 powi (e - int (precision T) + 1)"
  have x: "0 < x" "\<bar>x\<bar> = x" using assms(1) False by simp_all
  have "2 powi fp_exponent x < (2 powi 1 :: rat)"
    by (rule order_le_less_trans [OF fp_exponent_bounds(1) [OF x(1)]]) (use assms(2) in simp)
  then have "fp_exponent x < 1" unfolding powi_less_iff .
  then have "e - int (precision T) + 1 \<le> 0" using formats [of T] unfolding e_def x(2) by linarith
  then have "q \<le> 2 powi 0" unfolding q_def by (rule power_int_increasing) simp
  then have q: "0 < q" "q \<le> 1" by (simp_all add: q_def)
  let ?y = "of_int (round_even (x / q)) * q"
  have "0 \<le> \<lfloor>x / q\<rfloor>" using assms(1) q(1) by simp
  then have "0 \<le> round_even (x / q)" unfolding round_even_def Let_def by (auto split: if_split)
  then have y0: "0 \<le> ?y" using q(1) by simp
  have "?y \<le> (x / q + 1 / 2) * q" by (rule mult_right_mono [OF round_even_bounds(1)]) (use q(1) in simp)
  also have "\<dots> = x + q / 2" using q(1) by (simp add: distrib_right)
  finally have y1: "?y \<le> x + 1 / 2" using q(2) by linarith
  have "(2::rat) powi 4 \<le> 2 powi (max_exponent T - int (precision T) + 1)"
    using formats(2) [of T] by (intro power_int_increasing) auto
  moreover have "(4::rat) \<le> 2 ^ precision T" using power_increasing [OF formats(1), of "2 :: rat" T] by simp
  ultimately have "3 * 2 powi 4 \<le> getLargest T" unfolding getLargest_def by (intro mult_mono) simp_all
  then have "48 \<le> getLargest T" by simp
  then have "\<not> \<bar>?y\<bar> > getLargest T" unfolding abs_of_nonneg [OF y0] using y1 assms(2) by linarith
  then have "fp_round T x = FP_num ?y"
    unfolding fp_round_def if_not_P [OF False] Let_def e_def [symmetric] q_def [symmetric] by (rule if_not_P)
  then show ?thesis using y0 y1 by blast
qed (simp add: fp_round_def)

text \<open>The sum of the smallest number and a tolerance is positive after rounding.\<close>

lemma fp_round_positive:
  assumes "getSmallest T \<le> x"
  shows "fp_round T x = FP_Inf False \<or> (\<exists>y > 0. fp_round T x = FP_num y)"
proof -
  have pos: "0 < x" by (rule order_less_le_trans [OF _ assms]) (simp add: getSmallest_def)
  define e where "e = max (fp_exponent \<bar>x\<bar>) (1 - max_exponent T)"
  define q :: rat where "q = 2 powi (e - int (precision T) + 1)"
  have q: "0 < q" by (simp add: q_def)
  have "q \<le> x"
  proof (cases "fp_exponent x \<le> 1 - max_exponent T")
    case True
    then have "q = getSmallest T" using pos by (simp add: q_def e_def getSmallest_def max_def algebra_simps)
    then show ?thesis using assms by simp
  next
    case False
    then have "q \<le> 2 powi fp_exponent x"
      unfolding q_def e_def using pos formats(1) [of T] by (intro power_int_increasing) auto
    then show ?thesis using fp_exponent_bounds(1) [OF pos] by simp
  qed
  then have "1 \<le> round_even (x / q)" using q by (intro round_even_pos) simp
  then have "0 < of_int (round_even (x / q)) * q" using q by simp
  moreover have "x \<noteq> 0" using pos by simp
  ultimately show ?thesis
    unfolding fp_round_def Let_def e_def [symmetric] q_def [symmetric] by (auto split: if_split)
qed

text \<open>The tolerance of the legacy pass in every format.\<close>

lemma legacy_tolerance:
  "\<exists>y. fp_convert T (fp_round Double (1 / 100000)) = FP_num y \<and> 0 \<le> y \<and> y < 2"
proof -
  obtain z where z: "fp_round Double (1 / 100000) = FP_num z" "0 \<le> z" "z \<le> 1 / 100000 + 1 / 2"
    using fp_round_small [of "1 / 100000" Double] by auto
  then show ?thesis using fp_round_small [of z T] by fastforce
qed

lemma legacy_max_bound: "fp_sub T (FP_num (getLargest T)) (fp_convert T (fp_round Double (1 / 100000))) = FP_num (getLargest T)"
proof -
  obtain y where y: "fp_convert T (fp_round Double (1 / 100000)) = FP_num y" "0 \<le> y" "y < 2" using legacy_tolerance by blast
  have "(2::rat) powi 1 \<le> 2 powi (max_exponent T - int (precision T))"
    using formats(2) [of T] by (intro power_int_increasing) auto
  then show ?thesis using y largest_absorbs [of y T] by (simp add: fp_sub_def)
qed

lemma legacy_min_bound:
  "\<exists>k. fp_add T (FP_num (getSmallest T)) (fp_convert T (fp_round Double (1 / 100000))) = k \<and>
    (k = FP_Inf False \<or> (\<exists>y > 0. k = FP_num y))"
proof -
  obtain y where y: "fp_convert T (fp_round Double (1 / 100000)) = FP_num y" "0 \<le> y" using legacy_tolerance by blast
  then show ?thesis using fp_round_positive [of T "getSmallest T + y"] by simp
qed

end
