(* ===== verification/FP_Properties.thy ===== *)
theory FP_Properties
  imports FP_Checker
begin

text \<open>
  Properties of the floating-point checks that the compiler inserts, with instances at a function of one block.
\<close>

definition fp_operation :: "fp_opcode \<Rightarrow> fp_type \<Rightarrow> fp_instruction" where
  "fp_operation op T = \<lparr>fp_op = op, fp_result_type = Some T, fp_operand_type = (\<lambda>_. Some T), hasNoNaNs = False,
     hasNoInfs = False, fp_loc = 3\<rparr>"

definition fp_block :: "fp_opcode \<Rightarrow> (fp_instruction, fir, string) ir_function" where
  "fp_block op = \<lparr>blocks = [0 \<mapsto> \<lparr>instructions = [fp_operation op Double, fp_operation (F_other ''fneg'') Double],
     getTerminator = Some (Program ''ret'')\<rparr>], next_label = 1\<rparr>"

lemma fp_block_facts:
  "fresh_labels (fp_block op)"
  "blocks (fp_block op) 0 = Some \<lparr>instructions = [fp_operation op Double, fp_operation (F_other ''fneg'') Double],
     getTerminator = Some (Program ''ret'')\<rparr>"
  "fp_is_checked (fp_operation FDiv Double)" "\<not> fp_is_checked (fp_operation (F_other s) Double)"
  by (simp_all add: fresh_labels_def fp_block_def fp_is_checked_def fp_operation_def)

text \<open>C30. What both floating-point passes do to a whole function: a run from any block meets the instructions of the
  block in their order, each checked one followed at once by its six checks, and leaves through the terminator
  of the block, whatever the outcomes of the checks.\<close>

theorem fp_passes_keep_program:
  assumes "fresh_labels F" "distinct ls" "\<And>k. k \<in> set ls \<Longrightarrow> program_block F k" "l \<in> set ls"
    and "blocks F l = Some \<lparr>instructions = is, getTerminator = Some (Program t)\<rparr>"
  shows "trace (FPOverflowCheckerPass_run c ls F) l
      (concat (map (\<lambda>I. Step I # (if fp_is_checked I
         then tests (fp_checks (setSementicThreshold (fp_round Double 100) c) I) else [])) is)) t \<and>
    trace (FPOverflowCheckerLegacyPass_runOnFunction c ls F) l
      (concat (map (\<lambda>I. Step I # (if fp_is_checked I
         then tests (fp_checks \<lparr>fp_threshold = fp_round Double 100, fp_tolerance = fp_round Double (1 / 100000)\<rparr> I)
         else [])) is)) t"
proof -
  have c: "setSementicTolerance x (setSementicThreshold y c) = \<lparr>fp_threshold = y, fp_tolerance = x\<rparr>" for x y
    by (simp add: setSementicTolerance_def setSementicThreshold_def)
  show ?thesis
    unfolding FPOverflowCheckerPass_run_def FPOverflowCheckerLegacyPass_runOnFunction_def Let_def c
    using float_checker.visit_function_trace [OF assms] unfolding float_checker.instrumented_def [abs_def] by simp
qed

theorem fp_passes_keep_program_witness:
  "trace (FPOverflowCheckerPass_run \<lparr>fp_threshold = FP_NaN, fp_tolerance = FP_NaN\<rparr> [0] (fp_block FDiv)) 0
    (Step (fp_operation FDiv Double) #
     tests (fp_checks (setSementicThreshold (fp_round Double 100) \<lparr>fp_threshold = FP_NaN, fp_tolerance = FP_NaN\<rparr>)
       (fp_operation FDiv Double)) @ [Step (fp_operation (F_other ''fneg'') Double)]) ''ret''"
  using fp_passes_keep_program [OF fp_block_facts(1) _ _ _ fp_block_facts(2), of "[0]" FDiv
    "\<lparr>fp_threshold = FP_NaN, fp_tolerance = FP_NaN\<rparr>"]
  by (simp add: program_block_def fp_block_facts)



text \<open>C32. Two checks of the legacy pass cannot do their work, in any format: the tolerance is lost when it is
  subtracted from the largest number, so that the check of the maximum fires exactly at positive infinity; and the check
  of the minimum starts from the smallest positive number, so that it fires at every number that is
  not positive.\<close>

theorem legacy_fp_bounds:
  assumes "\<And>x. r = FP_num x \<Longrightarrow> \<bar>x\<bar> \<le> getLargest T"
  defines "c \<equiv> \<lparr>fp_threshold = fp_round Double 100, fp_tolerance = fp_round Double (1 / 100000)\<rparr>"
  shows "fir_eval a b r (getSemnticMaxBoundCondition c T) = Some (F_bit (r = FP_Inf False)) \<and>
    ((\<exists>x \<le> 0. r = FP_num x) \<longrightarrow> fir_eval a b r (getSementicMinBoundCondition c T) = Some (F_bit True))"
proof -
  obtain k where k: "fp_add T (FP_num (getSmallest T)) (fp_convert T (fp_round Double (1 / 100000))) = k"
    "k = FP_Inf False \<or> (\<exists>y > 0. k = FP_num y)"
    using legacy_min_bound by blast
  then have "(\<exists>x \<le> 0. r = FP_num x) \<longrightarrow> fp_less r k" by auto
  moreover have "fp_less (FP_num (getLargest T)) r \<longleftrightarrow> r = FP_Inf False"
    using assms(1) by (cases r) (auto simp: not_less)
  ultimately show ?thesis
    by (simp add: getSemnticMaxBoundCondition_def getSementicMinBoundCondition_def Let_def c_def legacy_max_bound k(1))
qed

theorem legacy_fp_bounds_witness:
  "fir_eval (FP_num 1) (FP_num 1) (FP_num 0)
     (getSementicMinBoundCondition \<lparr>fp_threshold = fp_round Double 100, fp_tolerance = fp_round Double (1 / 100000)\<rparr> Double) =
   Some (F_bit True)"
proof -
  have "\<bar>x\<bar> \<le> getLargest Double" if "FP_num 0 = FP_num x" for x using that by (simp add: getLargest_def)
  then show ?thesis
    using legacy_fp_bounds [of "FP_num 0" Double "FP_num 1" "FP_num 1"] by simp
qed

end
