(* ===== verification/LLVM_IR.thy ===== *)
theory LLVM_IR
  imports Prelude
begin

text \<open>
  The part of LLVM's intermediate representation that the instrumentation of \<open>src/compiler\<close> reads and
  writes: types, values, the program's instructions as the visitors of \<open>Symbolizer.cpp\<close> see them, the
  loops that the loop analysis reports, and the data layout of the module. LLVM itself is not part of
  the repository: the data layout is a record of functions that the definitions take as an argument.
  Pointers are opaque, as in LLVM 15 and later; a symbolic expression is a pointer.
\<close>

subsection \<open>Types and values\<close>

datatype fp_kind = FP_half | FP_bfloat | FP_float | FP_double | FP_x86_fp80 | FP_fp128 | FP_ppc_fp128

datatype ty =
    VoidTy
  | IntegerTy nat
  | FloatingTy fp_kind
  | PointerTy
  | StructTy "ty list"
  | ArrayTy nat ty
  | OtherTy string

fun isFloatingPointTy :: "ty \<Rightarrow> bool" where
  "isFloatingPointTy (FloatingTy _) = True"
| "isFloatingPointTy _ = False"

definition isDoubleTy :: "ty \<Rightarrow> bool" where
  "isDoubleTy t \<longleftrightarrow> t = FloatingTy FP_double"

fun isIntegerTy :: "ty \<Rightarrow> bool" where
  "isIntegerTy (IntegerTy _) = True"
| "isIntegerTy _ = False"

fun isAggregateType :: "ty \<Rightarrow> bool" where
  "isAggregateType (StructTy _) = True"
| "isAggregateType (ArrayTy _ _) = True"
| "isAggregateType _ = False"

text \<open>\<open>getIntegerBitWidth\<close> is defined on integer types only.\<close>

fun getIntegerBitWidth :: "ty \<Rightarrow> nat option" where
  "getIntegerBitWidth (IntegerTy n) = Some n"
| "getIntegerBitWidth _ = None"

text \<open>
  Values: constants, the arguments of the function, and the results of instructions, which are
  numbered; the instrumentation numbers its own instructions on from the last one of the program.
\<close>

datatype llvm_value =
    ConstantInt nat int
  | ConstantPointerNull
  | ConstantFP fp_kind int
  | UndefValue ty
  | ConstantStruct "llvm_value list"
  | GlobalStringPtr string
  | OtherConstant ty string
  | Argument ty nat
  | Inst ty nat

fun getType :: "llvm_value \<Rightarrow> ty" where
  "getType (ConstantInt n _) = IntegerTy n"
| "getType ConstantPointerNull = PointerTy"
| "getType (ConstantFP k _) = FloatingTy k"
| "getType (UndefValue t) = t"
| "getType (ConstantStruct vs) = StructTy (map getType vs)"
| "getType (GlobalStringPtr _) = PointerTy"
| "getType (OtherConstant t _) = t"
| "getType (Argument t _) = t"
| "getType (Inst t _) = t"

fun isZero :: "llvm_value \<Rightarrow> bool" where
  "isZero (ConstantInt _ i) = (i = 0)"
| "isZero _ = False"

fun isUndef :: "llvm_value \<Rightarrow> bool" where
  "isUndef (UndefValue _) = True"
| "isUndef _ = False"

subsection \<open>The data layout\<close>

record data_layout =
  getTypeStoreSize :: "ty \<Rightarrow> u64"
  getTypeAllocSize :: "ty \<Rightarrow> u64"
  getElementOffset :: "ty list \<Rightarrow> nat \<Rightarrow> u64"
  layout_little_endian :: bool
  getPointerSizeInBits :: nat

definition intPtrType :: "'a data_layout_scheme \<Rightarrow> ty" where
  "intPtrType dl = IntegerTy (getPointerSizeInBits dl)"

subsection \<open>Operators\<close>

datatype (plugins only: code) binary_op =
    BAdd | BSub | BMul | BUDiv | BSDiv | BURem | BSRem | BShl | BLShr | BAShr | BAnd | BOr | BXor
  | BFAdd | BFSub | BFMul | BFDiv | BFRem

datatype (plugins only: code) predicate =
    ICMP_EQ | ICMP_NE | ICMP_UGT | ICMP_UGE | ICMP_ULT | ICMP_ULE
  | ICMP_SGT | ICMP_SGE | ICMP_SLT | ICMP_SLE
  | FCMP_FALSE | FCMP_OEQ | FCMP_OGT | FCMP_OGE | FCMP_OLT | FCMP_OLE | FCMP_ONE | FCMP_ORD
  | FCMP_UNO | FCMP_UEQ | FCMP_UGT | FCMP_UGE | FCMP_ULT | FCMP_ULE | FCMP_UNE | FCMP_TRUE

datatype (plugins only: code) cast_op =
    CTrunc | CZExt | CSExt | CFPToUI | CFPToSI | CUIToFP | CSIToFP | CFPTrunc | CFPExt
  | CPtrToInt | CIntToPtr | CBitCast | CAddrSpaceCast

datatype (plugins only: code) intrinsic =
    I_dbg_value | I_is_constant | I_trap | I_memcpy | I_memset | I_memmove | I_stacksave | I_stackrestore
  | I_expect | I_fabs | I_returnaddress | I_frameaddress | I_addressofreturnaddress | I_bswap
  | I_sadd_with_overflow | I_uadd_with_overflow | I_ssub_with_overflow | I_usub_with_overflow
  | I_smul_with_overflow | I_umul_with_overflow
  | I_sadd_sat | I_uadd_sat | I_ssub_sat | I_usub_sat | I_sshl_sat | I_ushl_sat
  | I_fshl | I_fshr | I_abs | I_eh_typeid_for | I_other string

datatype callee = Indirect | Intrinsic intrinsic | Direct string

subsection \<open>Instructions of the program\<close>

text \<open>
  An index of \<open>getelementptr\<close> with the type it steps into: a member of a structure, or an element
  of the given type (behind the pointer or in an array).
\<close>

datatype gep_index = Struct_member "ty list" llvm_value | Element_of ty llvm_value

datatype (plugins only: code) inst_kind =
    BinaryOperator binary_op llvm_value llvm_value
  | UnaryOperator llvm_value
  | SelectInst llvm_value llvm_value llvm_value
  | CmpInst predicate llvm_value llvm_value
  | ReturnInst "llvm_value option"
  | JumpInst nat
  | BranchInst llvm_value nat nat
  | IndirectBrInst llvm_value
  | InlineAsmCall "llvm_value list"
  | CallInst callee "llvm_value list"
  | InvokeInst callee "llvm_value list" nat
  | AllocaInst
  | LoadInst llvm_value
  | StoreInst llvm_value llvm_value
  | GetElementPtrInst llvm_value "gep_index list"
  | CastInst cast_op llvm_value
  | PHINode "(llvm_value \<times> nat) list"
  | InsertValueInst llvm_value llvm_value "nat list"
  | ExtractValueInst llvm_value "nat list"
  | SwitchInst llvm_value "llvm_value list"
  | UnreachableInst
  | LandingPadInst
  | ResumeInst
  | OtherInst string

text \<open>
  An instruction: its number, the type of its result, whether the result is used, its basic block,
  the instruction that follows it in the block, its debug location (the chain of inlined locations,
  innermost first, as file and line), and the metadata that the passes attach to branches.
\<close>

record instruction =
  i_name :: nat
  i_type :: ty
  i_kind :: inst_kind
  i_used :: bool
  i_block :: nat
  i_next :: nat
  i_debug :: "(string \<times> int) list"
  i_check :: "string option"
  i_guarded :: bool

definition result_of :: "instruction \<Rightarrow> llvm_value" where
  "result_of I = Inst (i_type I) (i_name I)"

subsection \<open>Loops\<close>

record loop =
  getHeader :: nat
  getLoopLatch :: "nat option"
  loop_blocks :: "nat list"

text \<open>
  What the instrumentation of one function reads beside its instructions: the data layout, the first
  instruction after the PHI nodes of a block and the first one before which code may be inserted,
  whether an edge is critical, the loop of a block (when the loop analysis is available), and the
  addresses of instructions and blocks in the compiler's memory, which serve as site identifiers.
\<close>

record compile_env = data_layout +
  getFirstNonPHI :: "nat \<Rightarrow> nat"
  getFirstInsertionPt :: "nat \<Rightarrow> nat"
  critical_edge :: "nat \<Rightarrow> nat \<Rightarrow> bool"
  getLoopFor :: "nat \<Rightarrow> loop option"
  loop_info :: bool
  inst_address :: "nat \<Rightarrow> u64"
  block_address :: "nat \<Rightarrow> u64"

definition loop_contains :: "loop \<Rightarrow> nat \<Rightarrow> bool" where
  "loop_contains L b \<longleftrightarrow> b \<in> set (loop_blocks L)"

end
