(* ===== verification/Runtime_Table.thy ===== *)
theory Runtime_Table
  imports LLVM_IR
begin

text \<open>
  The table of run-time functions that the instrumentation calls (\<open>src/compiler/Runtime.cpp\<close>,
  \<open>src/compiler/Runtime.h\<close>): each member of the structure \<open>Runtime\<close> with the name and the type under
  which the constructor imports it, the handlers of operators and comparisons, and the list of C
  library functions whose calls are redirected to wrappers.
\<close>

subsection \<open>Members\<close>

datatype (plugins only: code) sym_fn =
    BuildInteger | BuildInteger128 | BuildFloat | BuildNullPointer | BuildTrue | BuildFalse | BuildBool
  | BuildSExt | BuildZExt | BuildTrunc | BuildBswap | BuildIntToFloat | BuildFloatToFloat
  | BuildBitsToFloat | BuildFloatToBits | BuildFloatToSignedInt | BuildFloatToUnsignedInt | BuildFloatAbs
  | BuildBoolAnd | BuildBoolOr | BuildBoolXor | BuildBoolToBit | BuildBitToBool | BuildConcat
  | PushPathConstraint | PushPathConstraintWithLoc
  | BuildAddOverflow | BuildSubOverflow | BuildMulOverflow
  | BuildSAddSat | BuildUAddSat | BuildSSubSat | BuildUSubSat | BuildSShlSat | BuildUShlSat
  | BuildFshl | BuildFshr | BuildAbs
  | SetParameterExpression | GetParameterExpression | SetReturnExpression | GetReturnExpression
  | LocalizeBranchInstruction
  | BinaryOperatorHandler binary_op | BinaryOperatorHandlerForInt binary_op
  | BinaryOperatorHandlerForFloat binary_op | UnaryOperatorHandler | ComparisonHandler predicate
  | Memcpy | Memset | Memmove | ReadMemory | WriteMemory | BuildZeroBytes | BuildInsert | BuildExtract
  | NotifyCall | NotifyRet | NotifyBasicBlock

type_synonym fn_type = "ty \<times> ty list"
type_synonym fn_import = "sym_fn \<times> string \<times> fn_type"

subsection \<open>The constructor\<close>

definition builder_imports :: "fn_import list" where
  "builder_imports =
    (let ptrT = PointerTy; int8T = IntegerTy 8; int1T = IntegerTy 1; int64T = IntegerTy 64 in
     [(BuildInteger, ''_sym_build_integer'', ptrT, [int64T, int8T]),
      (BuildInteger128, ''_sym_build_integer128'', ptrT, [int64T, int64T]),
      (BuildFloat, ''_sym_build_float'', ptrT, [FloatingTy FP_double, int1T]),
      (BuildNullPointer, ''_sym_build_null_pointer'', ptrT, []),
      (BuildTrue, ''_sym_build_true'', ptrT, []),
      (BuildFalse, ''_sym_build_false'', ptrT, []),
      (BuildBool, ''_sym_build_bool'', ptrT, [int1T]),
      (BuildSExt, ''_sym_build_sext'', ptrT, [ptrT, int8T]),
      (BuildZExt, ''_sym_build_zext'', ptrT, [ptrT, int8T]),
      (BuildTrunc, ''_sym_build_trunc'', ptrT, [ptrT, int8T]),
      (BuildBswap, ''_sym_build_bswap'', ptrT, [ptrT]),
      (BuildIntToFloat, ''_sym_build_int_to_float'', ptrT, [ptrT, int1T, int1T]),
      (BuildFloatToFloat, ''_sym_build_float_to_float'', ptrT, [ptrT, int1T]),
      (BuildBitsToFloat, ''_sym_build_bits_to_float'', ptrT, [ptrT, int1T]),
      (BuildFloatToBits, ''_sym_build_float_to_bits'', ptrT, [ptrT]),
      (BuildFloatToSignedInt, ''_sym_build_float_to_signed_integer'', ptrT, [ptrT, int8T]),
      (BuildFloatToUnsignedInt, ''_sym_build_float_to_unsigned_integer'', ptrT, [ptrT, int8T]),
      (BuildFloatAbs, ''_sym_build_fp_abs'', ptrT, [ptrT]),
      (BuildBoolAnd, ''_sym_build_bool_and'', ptrT, [ptrT, ptrT]),
      (BuildBoolOr, ''_sym_build_bool_or'', ptrT, [ptrT, ptrT]),
      (BuildBoolXor, ''_sym_build_bool_xor'', ptrT, [ptrT, ptrT]),
      (BuildBoolToBit, ''_sym_build_bool_to_bit'', ptrT, [ptrT]),
      (BuildBitToBool, ''_sym_build_bit_to_bool'', ptrT, [ptrT]),
      (BuildConcat, ''_sym_concat_helper'', ptrT, [ptrT, ptrT])])"

definition constraint_imports :: "'a data_layout_scheme \<Rightarrow> fn_import list" where
  "constraint_imports dl =
    (let ptrT = PointerTy; int1T = IntegerTy 1; int32T = IntegerTy 32 in
     [(PushPathConstraint, ''_sym_push_path_constraint_with_loc'', VoidTy, [ptrT, int1T, intPtrType dl]),
      (PushPathConstraintWithLoc, ''_sym_push_path_constraint_with_loc'', VoidTy,
         [ptrT, int1T, intPtrType dl, ptrT, int32T, int32T])])"

definition arithmetic_imports :: "fn_import list" where
  "arithmetic_imports =
    (let ptrT = PointerTy; int1T = IntegerTy 1; int8T = IntegerTy 8; int32T = IntegerTy 32 in
     [(BuildAddOverflow, ''_sym_build_add_overflow'', ptrT, [ptrT, ptrT, int1T, int1T]),
      (BuildSubOverflow, ''_sym_build_sub_overflow'', ptrT, [ptrT, ptrT, int1T, int1T]),
      (BuildMulOverflow, ''_sym_build_mul_overflow'', ptrT, [ptrT, ptrT, int1T, int1T]),
      (BuildSAddSat, ''_sym_build_sadd_sat'', ptrT, [ptrT, ptrT]),
      (BuildUAddSat, ''_sym_build_uadd_sat'', ptrT, [ptrT, ptrT]),
      (BuildSSubSat, ''_sym_build_ssub_sat'', ptrT, [ptrT, ptrT]),
      (BuildUSubSat, ''_sym_build_usub_sat'', ptrT, [ptrT, ptrT]),
      (BuildSShlSat, ''_sym_build_sshl_sat'', ptrT, [ptrT, ptrT]),
      (BuildUShlSat, ''_sym_build_ushl_sat'', ptrT, [ptrT, ptrT]),
      (BuildFshl, ''_sym_build_funnel_shift_left'', ptrT, [ptrT, ptrT, ptrT]),
      (BuildFshr, ''_sym_build_funnel_shift_right'', ptrT, [ptrT, ptrT, ptrT]),
      (BuildAbs, ''_sym_build_abs'', ptrT, [ptrT]),
      (SetParameterExpression, ''_sym_set_parameter_expression'', VoidTy, [int8T, ptrT]),
      (GetParameterExpression, ''_sym_get_parameter_expression'', ptrT, [int8T]),
      (SetReturnExpression, ''_sym_set_return_expression'', VoidTy, [ptrT]),
      (GetReturnExpression, ''_sym_get_return_expression'', ptrT, []),
      (LocalizeBranchInstruction, ''_sym_localize_branch_instruction'', VoidTy, [ptrT, int32T])])"

definition LOAD_BINARY_OPERATOR_HANDLER :: "binary_op \<times> string \<Rightarrow> fn_import" where
  "LOAD_BINARY_OPERATOR_HANDLER = (\<lambda>(opc, nm).
     (BinaryOperatorHandler opc, ''_sym_build_'' @ nm, PointerTy, [PointerTy, PointerTy]))"

definition operator_names :: "(binary_op \<times> string) list" where
  "operator_names =
     [(BAdd, ''add''), (BSub, ''sub''), (BMul, ''mul''), (BUDiv, ''unsigned_div''), (BSDiv, ''signed_div''),
      (BURem, ''unsigned_rem''), (BSRem, ''signed_rem''), (BShl, ''shift_left''),
      (BLShr, ''logical_shift_right''), (BAShr, ''arithmetic_shift_right''), (BAnd, ''and''), (BOr, ''or''),
      (BXor, ''xor''), (BFAdd, ''fp_add''), (BFSub, ''fp_sub''), (BFMul, ''fp_mul''), (BFDiv, ''fp_div''),
      (BFRem, ''fp_rem'')]"

definition operator_imports :: "fn_import list" where
  "operator_imports = map LOAD_BINARY_OPERATOR_HANDLER operator_names"

definition LOAD_BINARY_OPERATOR_HANDLER_FOR_NUM :: "binary_op \<times> string \<Rightarrow> fn_import list" where
  "LOAD_BINARY_OPERATOR_HANDLER_FOR_NUM = (\<lambda>(opc, nm).
     [(BinaryOperatorHandlerForInt opc, ''_sym_build_'' @ nm @ ''_int'', PointerTy, [PointerTy, PointerTy]),
      (BinaryOperatorHandlerForFloat opc, ''_sym_build_'' @ nm @ ''_float'', PointerTy, [PointerTy, PointerTy])])"

definition numeric_names :: "(binary_op \<times> string) list" where
  "numeric_names =
     [(BAdd, ''add''), (BSub, ''sub''), (BMul, ''mul''), (BUDiv, ''unsigned_div''), (BSDiv, ''signed_div''),
      (BURem, ''unsigned_rem''), (BSRem, ''signed_rem''), (BAnd, ''and''), (BOr, ''or''), (BXor, ''xor'')]"

definition numeric_imports :: "fn_import list" where
  "numeric_imports = concat (map LOAD_BINARY_OPERATOR_HANDLER_FOR_NUM numeric_names)"

definition unary_imports :: "fn_import list" where
  "unary_imports = [(UnaryOperatorHandler, ''_sym_build_'' @ ''fp_neg'', PointerTy, [PointerTy])]"

definition LOAD_COMPARISON_HANDLER :: "predicate \<times> string \<Rightarrow> fn_import" where
  "LOAD_COMPARISON_HANDLER = (\<lambda>(p, nm).
     (ComparisonHandler p, ''_sym_build_'' @ nm, PointerTy, [PointerTy, PointerTy]))"

definition comparison_names :: "(predicate \<times> string) list" where
  "comparison_names =
     [(ICMP_EQ, ''equal''), (ICMP_NE, ''not_equal''), (ICMP_UGT, ''unsigned_greater_than''),
      (ICMP_UGE, ''unsigned_greater_equal''), (ICMP_ULT, ''unsigned_less_than''),
      (ICMP_ULE, ''unsigned_less_equal''), (ICMP_SGT, ''signed_greater_than''),
      (ICMP_SGE, ''signed_greater_equal''), (ICMP_SLT, ''signed_less_than''),
      (ICMP_SLE, ''signed_less_equal''),
      (FCMP_OGT, ''float_ordered_greater_than''), (FCMP_OGE, ''float_ordered_greater_equal''),
      (FCMP_OLT, ''float_ordered_less_than''), (FCMP_OLE, ''float_ordered_less_equal''),
      (FCMP_OEQ, ''float_ordered_equal''), (FCMP_ONE, ''float_ordered_not_equal''),
      (FCMP_ORD, ''float_ordered''), (FCMP_UNO, ''float_unordered''),
      (FCMP_UGT, ''float_unordered_greater_than''), (FCMP_UGE, ''float_unordered_greater_equal''),
      (FCMP_ULT, ''float_unordered_less_than''), (FCMP_ULE, ''float_unordered_less_equal''),
      (FCMP_UEQ, ''float_unordered_equal''), (FCMP_UNE, ''float_unordered_not_equal'')]"

definition comparison_imports :: "fn_import list" where
  "comparison_imports = map LOAD_COMPARISON_HANDLER comparison_names"

definition memory_imports :: "'a data_layout_scheme \<Rightarrow> fn_import list" where
  "memory_imports dl =
    (let ptrT = PointerTy; int1T = IntegerTy 1; int64T = IntegerTy 64; iptrT = intPtrType dl in
     [(Memcpy, ''_sym_memcpy'', VoidTy, [ptrT, ptrT, iptrT]),
      (Memset, ''_sym_memset'', VoidTy, [ptrT, ptrT, iptrT]),
      (Memmove, ''_sym_memmove'', VoidTy, [ptrT, ptrT, iptrT]),
      (ReadMemory, ''_sym_read_memory'', ptrT, [iptrT, iptrT, int1T]),
      (WriteMemory, ''_sym_write_memory'', VoidTy, [iptrT, iptrT, ptrT, int1T]),
      (BuildZeroBytes, ''_sym_build_zero_bytes'', ptrT, [iptrT]),
      (BuildInsert, ''_sym_build_insert'', ptrT, [ptrT, ptrT, int64T, int1T]),
      (BuildExtract, ''_sym_build_extract'', ptrT, [ptrT, int64T, int64T, int1T]),
      (NotifyCall, ''_sym_notify_call'', VoidTy, [iptrT]),
      (NotifyRet, ''_sym_notify_ret'', VoidTy, [iptrT]),
      (NotifyBasicBlock, ''_sym_notify_basic_block'', VoidTy, [iptrT])])"

definition Runtime :: "'a data_layout_scheme \<Rightarrow> fn_import list" where
  "Runtime dl = builder_imports @ constraint_imports dl @ arithmetic_imports @ operator_imports @
     numeric_imports @ unary_imports @ comparison_imports @ memory_imports dl"

text \<open>
  What the constructor leaves in a member: the name and the type it asked for; a member without an
  import stays null.
\<close>

definition runtime_member :: "'a data_layout_scheme \<Rightarrow> sym_fn \<Rightarrow> (string \<times> fn_type) option" where
  "runtime_member dl = map_of (Runtime dl)"

text \<open>
  \<open>Module::getOrInsertFunction\<close>: the first import of a name declares the function with the type of
  that import, a later one finds the declaration.
\<close>

definition getOrInsertFunction :: "string \<Rightarrow> fn_type \<Rightarrow> (string \<rightharpoonup> fn_type) \<Rightarrow> string \<rightharpoonup> fn_type" where
  "getOrInsertFunction nm t M = (case M nm of None \<Rightarrow> M(nm \<mapsto> t) | Some _ \<Rightarrow> M)"

definition declarations :: "fn_import list \<Rightarrow> (string \<rightharpoonup> fn_type) \<Rightarrow> string \<rightharpoonup> fn_type" where
  "declarations imps M = fold (\<lambda>(_, nm, t). getOrInsertFunction nm t) imps M"

subsection \<open>Intercepted functions\<close>

definition kInterceptedFunctions :: "string list" where
  "kInterceptedFunctions =
     [''malloc'', ''calloc'', ''mmap'', ''mmap64'', ''open'', ''read'', ''lseek'', ''lseek64'', ''fopen'',
      ''fopen64'', ''fread'', ''fseek'', ''fseeko'', ''rewind'', ''fseeko64'', ''getc'', ''ungetc'', ''memcpy'',
      ''memset'', ''strncpy'', ''strchr'', ''memcmp'', ''memmove'', ''ntohl'', ''fgets'', ''fgetc'',
      ''getchar'', ''bcopy'', ''bcmp'', ''bzero'']"

definition isInterceptedFunction :: "string \<Rightarrow> bool" where
  "isInterceptedFunction f \<longleftrightarrow> f \<in> set kInterceptedFunctions"

subsection \<open>Lookups\<close>

text \<open>
  The members are found without expanding the whole table: each group of imports is looked at by
  itself, and the groups have no member in common.
\<close>

lemma operator_lookup [simp]:
  "map_of (map LOAD_BINARY_OPERATOR_HANDLER xs) (BinaryOperatorHandler opc) =
     map_option (\<lambda>nm. (''_sym_build_'' @ nm, PointerTy, [PointerTy, PointerTy])) (map_of xs opc)"
  by (induction xs) (auto simp: LOAD_BINARY_OPERATOR_HANDLER_def)

lemma comparison_lookup [simp]:
  "map_of (map LOAD_COMPARISON_HANDLER xs) (ComparisonHandler p) =
     map_option (\<lambda>nm. (''_sym_build_'' @ nm, PointerTy, [PointerTy, PointerTy])) (map_of xs p)"
  by (induction xs) (auto simp: LOAD_COMPARISON_HANDLER_def)

lemma handler_keys:
  "fst ` set (map LOAD_BINARY_OPERATOR_HANDLER xs) = BinaryOperatorHandler ` fst ` set xs"
  "fst ` set (concat (map LOAD_BINARY_OPERATOR_HANDLER_FOR_NUM xs)) =
     (BinaryOperatorHandlerForInt ` fst ` set xs) \<union> (BinaryOperatorHandlerForFloat ` fst ` set xs)"
  "fst ` set (map LOAD_COMPARISON_HANDLER ys) = ComparisonHandler ` fst ` set ys"
  by (force simp: LOAD_BINARY_OPERATOR_HANDLER_def LOAD_BINARY_OPERATOR_HANDLER_FOR_NUM_def
      LOAD_COMPARISON_HANDLER_def)+

lemma operator_names_total: "map_of operator_names opc \<noteq> None"
  by (cases opc) (simp_all add: operator_names_def map_of_eq_None_iff)

lemma comparison_names_total: "map_of comparison_names p = None \<longleftrightarrow> p = FCMP_FALSE \<or> p = FCMP_TRUE"
  by (cases p) (simp_all add: comparison_names_def map_of_eq_None_iff)

lemma group_keys:
  "fst ` set builder_imports \<inter> (range BinaryOperatorHandler \<union> range ComparisonHandler \<union> {PushPathConstraintWithLoc}) = {}"
  "fst ` set (constraint_imports dl) \<inter> (range BinaryOperatorHandler \<union> range ComparisonHandler) = {}"
  "fst ` set arithmetic_imports \<inter> (range BinaryOperatorHandler \<union> range ComparisonHandler) = {}"
  "fst ` set unary_imports \<inter> (range BinaryOperatorHandler \<union> range ComparisonHandler) = {}"
  "fst ` set operator_imports \<inter> range ComparisonHandler = {}"
  "fst ` set numeric_imports \<inter> range ComparisonHandler = {}"
  "fst ` set (memory_imports dl) \<inter> range ComparisonHandler = {}"
        apply (auto simp: builder_imports_def constraint_imports_def arithmetic_imports_def unary_imports_def
      memory_imports_def Let_def) [4]
    apply (simp only: operator_imports_def handler_keys, blast)
   apply (simp only: numeric_imports_def handler_keys, blast)
  apply (auto simp: memory_imports_def Let_def)
  done

lemma runtime_member_groups:
  "runtime_member dl f =
     (case map_of builder_imports f of Some r \<Rightarrow> Some r | None \<Rightarrow>
      case map_of (constraint_imports dl) f of Some r \<Rightarrow> Some r | None \<Rightarrow>
      case map_of arithmetic_imports f of Some r \<Rightarrow> Some r | None \<Rightarrow>
      case map_of operator_imports f of Some r \<Rightarrow> Some r | None \<Rightarrow>
      case map_of numeric_imports f of Some r \<Rightarrow> Some r | None \<Rightarrow>
      case map_of unary_imports f of Some r \<Rightarrow> Some r | None \<Rightarrow>
      case map_of comparison_imports f of Some r \<Rightarrow> Some r | None \<Rightarrow> map_of (memory_imports dl) f)"
  by (simp add: runtime_member_def Runtime_def map_of_append map_add_def)

lemma not_in_group: "fst ` set xs \<inter> A = {} \<Longrightarrow> f \<in> A \<Longrightarrow> map_of xs f = None"
  by (auto simp: map_of_eq_None_iff)

lemma member_operator:
  "\<exists>nm. runtime_member dl (BinaryOperatorHandler opc) = Some (nm, PointerTy, [PointerTy, PointerTy])"
proof -
  have "map_of builder_imports (BinaryOperatorHandler opc) = None"
    "map_of (constraint_imports dl) (BinaryOperatorHandler opc) = None"
    "map_of arithmetic_imports (BinaryOperatorHandler opc) = None"
    by (rule not_in_group, rule group_keys, simp)+
  then show ?thesis
    using operator_names_total [of opc] by (auto simp: runtime_member_groups operator_imports_def)
qed

lemma member_comparison:
  "p \<noteq> FCMP_FALSE \<Longrightarrow> p \<noteq> FCMP_TRUE \<Longrightarrow>
   \<exists>nm. runtime_member dl (ComparisonHandler p) = Some (nm, PointerTy, [PointerTy, PointerTy])"
  "runtime_member dl (ComparisonHandler FCMP_FALSE) = None"
  "runtime_member dl (ComparisonHandler FCMP_TRUE) = None"
proof -
  have none: "map_of builder_imports (ComparisonHandler q) = None"
    "map_of (constraint_imports dl) (ComparisonHandler q) = None"
    "map_of arithmetic_imports (ComparisonHandler q) = None" "map_of unary_imports (ComparisonHandler q) = None"
    "map_of operator_imports (ComparisonHandler q) = None" "map_of numeric_imports (ComparisonHandler q) = None"
    "map_of (memory_imports dl) (ComparisonHandler q) = None" for q
    by (rule not_in_group, rule group_keys, simp)+ 
  show "\<exists>nm. runtime_member dl (ComparisonHandler p) = Some (nm, PointerTy, [PointerTy, PointerTy])"
    if "p \<noteq> FCMP_FALSE" "p \<noteq> FCMP_TRUE"
    using that comparison_names_total [of p] by (auto simp: runtime_member_groups none comparison_imports_def)
  have "map_of comparison_names FCMP_FALSE = None" "map_of comparison_names FCMP_TRUE = None"
    by (simp_all add: comparison_names_total)
  then show "runtime_member dl (ComparisonHandler FCMP_FALSE) = None" "runtime_member dl (ComparisonHandler FCMP_TRUE) = None"
    by (simp_all add: runtime_member_groups none comparison_imports_def)
qed

end
