(* ===== verification/Emitted_Code.thy ===== *)
theory Emitted_Code
  imports Runtime_Table
begin

text \<open>
  The code that the instrumentation inserts, and the state of the class \<open>Symbolizer\<close>
  (\<open>src/compiler/Symbolizer.h\<close>) while it does: instructions in the order in which an \<open>IRBuilder\<close> creates
  them at an insertion point, the map from values to their expressions, the recorded PHI nodes and the
  recorded symbolic computations. The places where the instrumentation splits a basic block to make
  code conditional are the statements \<open>Guard\<close>: a branch around a body, and the PHI nodes where both
  ways meet again. The constant folding of \<open>IRBuilder\<close> is left out: the model emits the instruction
  whose result LLVM folds.
\<close>

subsection \<open>Inserted instructions\<close>

datatype ir_op =
    Call sym_fn | ICmpEQ | ICmpNE | IBoolAnd | ISelect | IPtrToInt | IZExtOrTrunc | ITrunc | ILShr
  | IFPCast | IExtractValue nat | IAlloca | ILoad | IStore

record emitted =
  e_name :: nat
  e_type :: ty
  e_op :: ir_op
  e_args :: "llvm_value list"

definition e_value :: "emitted \<Rightarrow> llvm_value" where
  "e_value i = Inst (e_type i) (e_name i)"

record expr_phi =
  phi_name :: nat
  phi_direct :: llvm_value
  phi_body :: llvm_value

text \<open>
  \<open>Guard p c body phis\<close>: the branch on \<open>c\<close> goes around the body when \<open>c\<close> is \<open>p\<close>; each PHI node takes
  \<open>phi_direct\<close> on that way and \<open>phi_body\<close> behind the body.
\<close>

datatype stmt = Ins emitted | Guard bool llvm_value "stmt list" "expr_phi list"

text \<open>Insertion points: before an instruction of the program, or in the new block of a critical edge.\<close>

datatype point = Before nat | On_edge nat nat

subsection \<open>Symbolic computations\<close>

text \<open>\<open>struct Input\<close>: the operand of an inserted call that is the expression of a concrete value.\<close>

record input =
  concreteValue :: llvm_value
  operandIndex :: nat
  user :: nat

record SymbolicComputation =
  firstInstruction :: "llvm_value option"
  lastInstruction :: "llvm_value option"
  inputs :: "input list"

definition empty_computation :: SymbolicComputation where
  "empty_computation = \<lparr>firstInstruction = None, lastInstruction = None, inputs = []\<rparr>"

definition merge_computation :: "SymbolicComputation \<Rightarrow> SymbolicComputation \<Rightarrow> SymbolicComputation" where
  "merge_computation c other =
     \<lparr>firstInstruction = (if firstInstruction c = None then firstInstruction other else firstInstruction c),
      lastInstruction = lastInstruction other,
      inputs = inputs c @ inputs other\<rparr>"

subsection \<open>The state of the symbolizer\<close>

record symbolizer =
  slot_ID :: u64
  symbolicExpressions :: "llvm_value \<rightharpoonup> llvm_value"
  phiNodes :: "instruction list"
  expr_phis :: "nat \<rightharpoonup> (llvm_value \<times> nat) list"
  expressionUses :: "SymbolicComputation list"
  LoopSeenFlag :: "nat \<rightharpoonup> llvm_value"
  guarded_branches :: "nat list"
  next_name :: nat
  code :: "stmt list"
  inserted :: "(point \<times> stmt list) list"

text \<open>The code at an insertion point.\<close>

definition code_at :: "symbolizer \<Rightarrow> point \<Rightarrow> stmt list" where
  "code_at s p = (case map_of (inserted s) p of None \<Rightarrow> [] | Some c \<Rightarrow> c)"

fun update_code ::
    "point \<Rightarrow> (stmt list \<Rightarrow> stmt list) \<Rightarrow> (point \<times> stmt list) list \<Rightarrow> (point \<times> stmt list) list" where
  "update_code p f [] = [(p, f [])]"
| "update_code p f ((q, c) # rest) = (if q = p then (q, f c) # rest else (q, c) # update_code p f rest)"

type_synonym 'a build = "(symbolizer, 'a) rt"

subsection \<open>The builder\<close>

definition fresh :: "nat build" where
  "fresh = rt_bind (rt_get next_name) (\<lambda>n.
     rt_bind (rt_modify (\<lambda>s. s\<lparr>next_name := n + 1\<rparr>)) (\<lambda>_. rt_return n))"

definition emit :: "ir_op \<Rightarrow> ty \<Rightarrow> llvm_value list \<Rightarrow> llvm_value build" where
  "emit opc t args = rt_bind fresh (\<lambda>n.
     rt_bind (rt_modify (\<lambda>s. s\<lparr>code := code s @ [Ins \<lparr>e_name = n, e_type = t, e_op = opc, e_args = args\<rparr>]\<rparr>)) (\<lambda>_.
     rt_return (Inst t n)))"

text \<open>The result type of a call; \<open>CreateCall\<close> on a null member is an error.\<close>

definition call_type :: "'a data_layout_scheme \<Rightarrow> sym_fn \<Rightarrow> ty option" where
  "call_type dl f = map_option (\<lambda>(nm, t, args). t) (runtime_member dl f)"

definition CreateCall :: "'a data_layout_scheme \<Rightarrow> sym_fn \<Rightarrow> llvm_value list \<Rightarrow> llvm_value build" where
  "CreateCall dl f args =
     (case call_type dl f of None \<Rightarrow> rt_raise Undefined_behaviour | Some t \<Rightarrow> emit (Call f) t args)"

text \<open>Run a builder and take the code it emits, without what was emitted before.\<close>

definition capture :: "'a build \<Rightarrow> ('a \<times> stmt list) build" where
  "capture m =
     rt_bind (rt_get code) (\<lambda>old.
     rt_bind (rt_modify (\<lambda>s. s\<lparr>code := []\<rparr>)) (\<lambda>_.
     rt_bind m (\<lambda>x.
     rt_bind (rt_get code) (\<lambda>new.
     rt_bind (rt_modify (\<lambda>s. s\<lparr>code := old\<rparr>)) (\<lambda>_.
     rt_return (x, new))))))"

text \<open>An \<open>IRBuilder\<close> that inserts at a point, behind what is there; and one that inserts in front.\<close>

definition IRBuilder :: "point \<Rightarrow> 'a build \<Rightarrow> 'a build" where
  "IRBuilder p m =
     rt_bind (capture m) (\<lambda>(x, new).
     rt_bind (rt_modify (\<lambda>s. s\<lparr>inserted := update_code p (\<lambda>old. old @ new) (inserted s)\<rparr>)) (\<lambda>_.
     rt_return x))"

definition IRBuilder_front :: "point \<Rightarrow> 'a build \<Rightarrow> 'a build" where
  "IRBuilder_front p m =
     rt_bind (capture m) (\<lambda>(x, new).
     rt_bind (rt_modify (\<lambda>s. s\<lparr>inserted := update_code p (\<lambda>old. new @ old) (inserted s)\<rparr>)) (\<lambda>_.
     rt_return x))"

definition emit_guard :: "bool \<Rightarrow> llvm_value \<Rightarrow> unit build \<Rightarrow> unit build" where
  "emit_guard p c m =
     rt_bind (capture m) (\<lambda>(_, body).
     rt_modify (\<lambda>s. s\<lparr>code := code s @ [Guard p c body []]\<rparr>))"

subsection \<open>Expressions of values\<close>

definition getSymbolicExpression :: "llvm_value \<Rightarrow> llvm_value option build" where
  "getSymbolicExpression V = rt_get (\<lambda>s. symbolicExpressions s V)"

definition getSymbolicExpressionOrNull :: "llvm_value \<Rightarrow> llvm_value build" where
  "getSymbolicExpressionOrNull V =
     rt_bind (getSymbolicExpression V) (\<lambda>expr.
     rt_return (case expr of None \<Rightarrow> ConstantPointerNull | Some e \<Rightarrow> e))"

definition set_expression :: "llvm_value \<Rightarrow> llvm_value option \<Rightarrow> unit build" where
  "set_expression V e = rt_modify (\<lambda>s. s\<lparr>symbolicExpressions := (symbolicExpressions s)(V := e)\<rparr>)"

text \<open>The constructor of \<open>Input\<close>, with its assertion on the type of the operand.\<close>

definition make_input :: "llvm_value \<Rightarrow> llvm_value \<Rightarrow> nat \<Rightarrow> llvm_value \<Rightarrow> input build" where
  "make_input concrete operand idx call =
     rt_bind (rt_assert ''getSymbolicOperand()->getType() == i8*'' (getType operand = PointerTy)) (\<lambda>_.
     case call of
       Inst _ n \<Rightarrow> rt_return \<lparr>concreteValue = concrete, operandIndex = idx, user = n\<rparr>
     | _ \<Rightarrow> rt_raise Undefined_behaviour)"

fun argument_values :: "(llvm_value \<times> bool) list \<Rightarrow> llvm_value list build" where
  "argument_values [] = rt_return []"
| "argument_values ((arg, symbolic) # args) =
     rt_bind (if symbolic then getSymbolicExpressionOrNull arg else rt_return arg) (\<lambda>v.
     rt_bind (argument_values args) (\<lambda>vs. rt_return (v # vs)))"

fun make_inputs :: "nat \<Rightarrow> (llvm_value \<times> bool) list \<Rightarrow> llvm_value list \<Rightarrow> llvm_value \<Rightarrow> input list build" where
  "make_inputs i ((arg, symbolic) # args) (v # vs) call =
     (if symbolic
      then rt_bind (make_input arg v i call) (\<lambda>inp.
           rt_bind (make_inputs (i + 1) args vs call) (\<lambda>inps. rt_return (inp # inps)))
      else make_inputs (i + 1) args vs call)"
| "make_inputs i _ _ call = rt_return []"

definition forceBuildRuntimeCall ::
    "'a data_layout_scheme \<Rightarrow> sym_fn \<Rightarrow> (llvm_value \<times> bool) list \<Rightarrow> SymbolicComputation build" where
  "forceBuildRuntimeCall dl f args =
     rt_bind (argument_values args) (\<lambda>functionArgs.
     rt_bind (CreateCall dl f functionArgs) (\<lambda>call.
     rt_bind (make_inputs 0 args functionArgs call) (\<lambda>inps.
     rt_return \<lparr>firstInstruction = Some call, lastInstruction = Some call, inputs = inps\<rparr>)))"

definition buildRuntimeCall ::
    "'a data_layout_scheme \<Rightarrow> sym_fn \<Rightarrow> (llvm_value \<times> bool) list \<Rightarrow> SymbolicComputation option build" where
  "buildRuntimeCall dl f args =
     rt_bind (rt_get symbolicExpressions) (\<lambda>exprs.
     if \<forall>(arg, _) \<in> set args. exprs arg = None then rt_return None
     else rt_bind (forceBuildRuntimeCall dl f args) (\<lambda>c. rt_return (Some c)))"

definition symbolic_args :: "llvm_value list \<Rightarrow> (llvm_value \<times> bool) list" where
  "symbolic_args args = map (\<lambda>arg. (arg, True)) args"

definition registerSymbolicComputation ::
    "SymbolicComputation \<Rightarrow> llvm_value option \<Rightarrow> unit build" where
  "registerSymbolicComputation c concrete =
     rt_bind (case concrete of None \<Rightarrow> rt_return () | Some V \<Rightarrow> set_expression V (lastInstruction c)) (\<lambda>_.
     rt_modify (\<lambda>s. s\<lparr>expressionUses := expressionUses s @ [c]\<rparr>))"

definition registerOptional :: "SymbolicComputation option \<Rightarrow> llvm_value option \<Rightarrow> unit build" where
  "registerOptional c concrete =
     (case c of None \<Rightarrow> rt_return () | Some c \<Rightarrow> registerSymbolicComputation c concrete)"

definition isLittleEndian :: "'a data_layout_scheme \<Rightarrow> ty \<Rightarrow> bool" where
  "isLittleEndian dl t \<longleftrightarrow> \<not> isAggregateType t \<and> layout_little_endian dl"

definition getTargetPreferredInt :: "'a data_layout_scheme \<Rightarrow> u64 \<Rightarrow> llvm_value" where
  "getTargetPreferredInt dl addr =
     ConstantInt (getPointerSizeInBits dl) (take_bit (getPointerSizeInBits dl) (uint addr))"

text \<open>Constants of the builder: \<open>getInt1\<close>, \<open>getInt8\<close>, \<open>getInt32\<close>, \<open>getInt64\<close> and \<open>ConstantInt::get(intPtrType, ...)\<close>.\<close>

definition getInt1 :: "bool \<Rightarrow> llvm_value" where "getInt1 b = ConstantInt 1 (of_bool b)"
definition getInt8 :: "nat \<Rightarrow> llvm_value" where "getInt8 n = ConstantInt 8 (take_bit 8 (int n))"
definition getInt32 :: "int \<Rightarrow> llvm_value" where "getInt32 n = ConstantInt 32 (take_bit 32 n)"
definition getInt64 :: "u64 \<Rightarrow> llvm_value" where "getInt64 w = ConstantInt 64 (uint w)"

definition getIntPtr :: "'a data_layout_scheme \<Rightarrow> u64 \<Rightarrow> llvm_value" where
  "getIntPtr dl w = ConstantInt (getPointerSizeInBits dl) (take_bit (getPointerSizeInBits dl) (uint w))"

end
