(* ===== verification/Symbolizer.thy ===== *)
theory Symbolizer
  imports Emitted_Code
begin

text \<open>
  The visitors of \<open>src/compiler/Symbolizer.cpp\<close>: for every instruction of the program, the code that is
  inserted beside it, the expression that is recorded for its result, and the symbolic computation
  that is recorded for short-circuiting.
\<close>

subsection \<open>Conversions between kinds of expressions\<close>

definition convertBitVectorExprForType ::
    "'a data_layout_scheme \<Rightarrow> llvm_value \<Rightarrow> ty \<Rightarrow> llvm_value build" where
  "convertBitVectorExprForType dl I T =
     (if isFloatingPointTy T then CreateCall dl BuildBitsToFloat [I, getInt1 (isDoubleTy T)]
      else if T = IntegerTy 1 then
        rt_bind (CreateCall dl BuildTrunc [I, ConstantInt 8 1]) (\<lambda>result.
        CreateCall dl BuildBitToBool [result])
      else rt_return I)"

definition convertExprForTypeToBitVectorExpr ::
    "'a data_layout_scheme \<Rightarrow> llvm_value \<Rightarrow> llvm_value option \<Rightarrow> SymbolicComputation option build" where
  "convertExprForTypeToBitVectorExpr dl V Expr =
     (case Expr of
        None \<Rightarrow> rt_return None
      | Some expr \<Rightarrow>
          let T = getType V in
          if isFloatingPointTy T then
            rt_bind (CreateCall dl BuildFloatToBits [expr]) (\<lambda>floatBits.
            rt_bind (make_input V expr 0 floatBits) (\<lambda>inp.
            rt_return (Some \<lparr>firstInstruction = Some floatBits, lastInstruction = Some floatBits,
              inputs = [inp]\<rparr>)))
          else if T = IntegerTy 1 then
            rt_bind (CreateCall dl BuildBoolToBit [expr]) (\<lambda>bitExpr.
            rt_bind (CreateCall dl BuildZExt [bitExpr, getInt8 7]) (\<lambda>bitVectorExpr.
            rt_bind (make_input V expr 0 bitExpr) (\<lambda>inp.
            rt_return (Some \<lparr>firstInstruction = Some bitExpr, lastInstruction = Some bitVectorExpr,
              inputs = [inp]\<rparr>))))
          else rt_return None)"

text \<open>The expression that a caller of the conversion goes on with.\<close>

definition converted :: "SymbolicComputation option \<Rightarrow> llvm_value \<Rightarrow> llvm_value build" where
  "converted conversion V =
     (case conversion of
        None \<Rightarrow> getSymbolicExpressionOrNull V
      | Some c \<Rightarrow> (case lastInstruction c of None \<Rightarrow> rt_raise Undefined_behaviour | Some e \<Rightarrow> rt_return e))"

subsection \<open>Offsets in aggregates\<close>

text \<open>
  \<open>aggregateMemberOffset\<close>: the element size is an \<open>unsigned\<close>, so its product with the index is taken
  modulo \<open>2 ^ 32\<close>. A structure has its members only, and every other type ends in \<open>cast<ArrayType>\<close>.
\<close>

fun member_offset :: "'a data_layout_scheme \<Rightarrow> u64 \<Rightarrow> ty \<Rightarrow> nat list \<Rightarrow> rt_error + u64" where
  "member_offset dl offset t [] = Inr offset"
| "member_offset dl offset (StructTy ts) (idx # idxs) =
     (if idx < length ts then member_offset dl (offset + getElementOffset dl ts idx) (ts ! idx) idxs
      else Inl Undefined_behaviour)"
| "member_offset dl offset (ArrayTy n t) (idx # idxs) =
     (let elementSize = ucast (getTypeAllocSize dl t) :: u32
      in member_offset dl (offset + ucast (elementSize * of_nat idx)) t idxs)"
| "member_offset dl offset _ (idx # idxs) = Inl Undefined_behaviour"

definition aggregateMemberOffset :: "'a data_layout_scheme \<Rightarrow> ty \<Rightarrow> nat list \<Rightarrow> u64 build" where
  "aggregateMemberOffset dl t idxs =
     (case member_offset dl 0 t idxs of Inl e \<Rightarrow> rt_raise e | Inr offset \<Rightarrow> rt_return offset)"

subsection \<open>Expressions of concrete values\<close>

text \<open>
  \<open>createValueExpression\<close>. For a structure that is not constant, each element is read with
  \<open>extractvalue\<close>; \<open>append\<close> concatenates what has been built so far with the next piece. A structure
  without elements and padding has no expression (a null pointer in the compiler), which is harmless
  as the first element of another structure only.
\<close>

definition append_expr ::
    "'a data_layout_scheme \<Rightarrow> llvm_value option \<Rightarrow> llvm_value option \<Rightarrow> llvm_value option build" where
  "append_expr dl expr newExpr =
     (case expr of
        None \<Rightarrow> rt_return newExpr
      | Some e \<Rightarrow>
          (case newExpr of
             None \<Rightarrow> rt_raise Undefined_behaviour
           | Some e' \<Rightarrow> rt_bind (CreateCall dl BuildConcat [e, e']) (\<lambda>r. rt_return (Some r))))"

definition append_padding :: "'a data_layout_scheme \<Rightarrow> llvm_value option \<Rightarrow> u64 \<Rightarrow> llvm_value option build" where
  "append_padding dl expr padding =
     (if padding = 0 then rt_return expr
      else rt_bind (CreateCall dl BuildZeroBytes [getIntPtr dl padding]) (\<lambda>zeros. append_expr dl expr (Some zeros)))"

definition element_of :: "llvm_value \<Rightarrow> nat \<Rightarrow> ty \<Rightarrow> llvm_value build" where
  "element_of V i t =
     (case V of
        ConstantStruct vs \<Rightarrow> (if i < length vs then rt_return (vs ! i) else rt_raise Undefined_behaviour)
      | _ \<Rightarrow> emit (IExtractValue i) t [V])"

text \<open>The bytes of an element in memory order: bit-vector kind, and swapped when they are little-endian.\<close>

definition element_bytes ::
    "'a data_layout_scheme \<Rightarrow> ty \<Rightarrow> llvm_value \<Rightarrow> llvm_value option \<Rightarrow> llvm_value option build" where
  "element_bytes dl t element elementExpr =
     rt_bind (convertExprForTypeToBitVectorExpr dl element elementExpr) (\<lambda>conversion.
     let bits = (case conversion of None \<Rightarrow> elementExpr | Some c \<Rightarrow> lastInstruction c) in
     if isLittleEndian dl t \<and> getTypeStoreSize dl t > 1 then
       (case bits of
          None \<Rightarrow> rt_raise Undefined_behaviour
        | Some e \<Rightarrow> rt_bind (CreateCall dl BuildBswap [e]) (\<lambda>r. rt_return (Some r)))
     else rt_return bits)"

definition scalar_expression :: "'a data_layout_scheme \<Rightarrow> ty \<Rightarrow> llvm_value \<Rightarrow> llvm_value build" where
  "scalar_expression dl t V =
     (case t of
        IntegerTy bits \<Rightarrow>
          if bits = 1 then CreateCall dl BuildBool [V]
          else if bits \<le> 64 then
            rt_bind (emit IZExtOrTrunc (IntegerTy 64) [V]) (\<lambda>wide.
            CreateCall dl BuildInteger [wide, getInt8 bits])
          else
            rt_bind (emit ILShr t [V, ConstantInt bits 64]) (\<lambda>upper.
            rt_bind (emit ITrunc (IntegerTy 64) [upper]) (\<lambda>high.
            rt_bind (emit ITrunc (IntegerTy 64) [V]) (\<lambda>low.
            CreateCall dl BuildInteger128 [high, low])))
      | FloatingTy k \<Rightarrow>
          rt_bind (emit IFPCast (FloatingTy FP_double) [V]) (\<lambda>double.
          CreateCall dl BuildFloat [double, getInt1 (isDoubleTy t)])
      | PointerTy \<Rightarrow>
          rt_bind (emit IPtrToInt (IntegerTy 64) [V]) (\<lambda>addr.
          CreateCall dl BuildInteger [addr, getInt8 (getPointerSizeInBits dl)])
      | _ \<Rightarrow> rt_raise Undefined_behaviour)"

fun value_expression :: "'a data_layout_scheme \<Rightarrow> ty \<Rightarrow> llvm_value \<Rightarrow> llvm_value option build"
  and struct_elements ::
    "'a data_layout_scheme \<Rightarrow> ty list \<Rightarrow> ty list \<Rightarrow> nat \<Rightarrow> llvm_value \<Rightarrow> u64 \<Rightarrow> llvm_value option \<Rightarrow>
     (u64 \<times> llvm_value option) build"
  where
  "value_expression dl (StructTy ts) V =
     (if isUndef V
      then rt_bind (CreateCall dl BuildZeroBytes [getIntPtr dl (getTypeStoreSize dl (StructTy ts))])
        (\<lambda>e. rt_return (Some e))
      else rt_bind (struct_elements dl ts ts 0 V 0 None) (\<lambda>(offset, expr).
           append_padding dl expr (getTypeStoreSize dl (StructTy ts) - offset)))"
| "value_expression dl t V =
     rt_bind (if V = ConstantPointerNull then CreateCall dl BuildNullPointer [] else scalar_expression dl t V)
       (\<lambda>e. rt_return (Some e))"
| "struct_elements dl ts [] i V offset expr = rt_return (offset, expr)"
| "struct_elements dl ts (t # rest) i V offset expr =
     rt_bind (append_padding dl expr (getElementOffset dl ts i - offset)) (\<lambda>expr.
     rt_bind (element_of V i t) (\<lambda>element.
     rt_bind (value_expression dl t element) (\<lambda>elementExpr.
     rt_bind (element_bytes dl t element elementExpr) (\<lambda>bits.
     rt_bind (append_expr dl expr bits) (\<lambda>expr.
     struct_elements dl ts rest (i + 1) V (getElementOffset dl ts i + getTypeStoreSize dl t) expr)))))"

definition createValueExpression :: "'a data_layout_scheme \<Rightarrow> llvm_value \<Rightarrow> llvm_value build" where
  "createValueExpression dl V =
     rt_bind (value_expression dl (getType V) V) (\<lambda>expr.
     case expr of None \<Rightarrow> rt_raise Undefined_behaviour | Some e \<Rightarrow> rt_return e)"

subsection \<open>Functions and basic blocks\<close>

text \<open>The arguments of a function, with whether each is used.\<close>

fun symbolize_args :: "'a data_layout_scheme \<Rightarrow> nat \<Rightarrow> (ty \<times> bool) list \<Rightarrow> unit build" where
  "symbolize_args dl n [] = rt_return ()"
| "symbolize_args dl n ((t, used) # args) =
     rt_bind (if used
       then rt_bind (CreateCall dl GetParameterExpression [getInt8 n]) (\<lambda>e. set_expression (Argument t n) (Some e))
       else rt_return ()) (\<lambda>_.
     symbolize_args dl (n + 1) args)"

definition symbolizeFunctionArguments :: "compile_env \<Rightarrow> string \<Rightarrow> (ty \<times> bool) list \<Rightarrow> unit build" where
  "symbolizeFunctionArguments C name args =
     (if name = ''main'' then rt_return ()
      else IRBuilder (Before (getFirstNonPHI C 0)) (symbolize_args C 0 args))"

definition insertBasicBlockNotification :: "compile_env \<Rightarrow> nat \<Rightarrow> unit build" where
  "insertBasicBlockNotification C B =
     IRBuilder_front (Before (getFirstInsertionPt C B))
       (rt_bind (CreateCall C NotifyBasicBlock [getTargetPreferredInt C (block_address C B)]) (\<lambda>_. rt_return ()))"

fun set_parameters :: "'a data_layout_scheme \<Rightarrow> nat \<Rightarrow> llvm_value list \<Rightarrow> unit build" where
  "set_parameters dl n [] = rt_return ()"
| "set_parameters dl n (arg # args) =
     rt_bind (getSymbolicExpressionOrNull arg) (\<lambda>e.
     rt_bind (CreateCall dl SetParameterExpression [getInt8 n, e]) (\<lambda>_.
     set_parameters dl (n + 1) args))"

subsection \<open>Calls\<close>

definition overflow_builder :: "compile_env \<Rightarrow> instruction \<Rightarrow> sym_fn \<Rightarrow> bool \<Rightarrow> llvm_value list \<Rightarrow> unit build" where
  "overflow_builder C I f isSigned args =
     IRBuilder (Before (i_name I))
       (rt_bind (buildRuntimeCall C f
           [(args ! 0, True), (args ! 1, True), (getInt1 isSigned, False),
            (getInt1 (layout_little_endian C), False)]) (\<lambda>overflow.
        registerOptional overflow (Some (result_of I))))"

definition symbolic_call :: "compile_env \<Rightarrow> instruction \<Rightarrow> sym_fn \<Rightarrow> llvm_value list \<Rightarrow> unit build" where
  "symbolic_call C I f args =
     IRBuilder (Before (i_name I))
       (rt_bind (buildRuntimeCall C f (symbolic_args args)) (\<lambda>result.
        registerOptional result (Some (result_of I))))"

text \<open>The three memory intrinsics; the length is brought to the width of a pointer.\<close>

definition memory_call :: "compile_env \<Rightarrow> instruction \<Rightarrow> sym_fn \<Rightarrow> llvm_value \<Rightarrow> llvm_value \<Rightarrow> llvm_value \<Rightarrow> unit build" where
  "memory_call C I f dest arg len =
     IRBuilder (Before (i_name I))
       (rt_bind (emit IZExtOrTrunc (intPtrType C) [len]) (\<lambda>n.
        rt_bind (CreateCall C f [dest, arg, n]) (\<lambda>_. rt_return ())))"

definition copy_expression :: "instruction \<Rightarrow> llvm_value \<Rightarrow> unit build" where
  "copy_expression I V =
     rt_bind (getSymbolicExpression V) (\<lambda>expr.
     case expr of None \<Rightarrow> rt_return () | Some e \<Rightarrow> set_expression (result_of I) (Some e))"

fun handleIntrinsicCall :: "compile_env \<Rightarrow> instruction \<Rightarrow> intrinsic \<Rightarrow> llvm_value list \<Rightarrow> unit build" where
  "handleIntrinsicCall C I I_memcpy args = memory_call C I Memcpy (args ! 0) (args ! 1) (args ! 2)"
| "handleIntrinsicCall C I I_memset args =
     rt_bind (getSymbolicExpressionOrNull (args ! 1)) (\<lambda>e. memory_call C I Memset (args ! 0) e (args ! 2))"
| "handleIntrinsicCall C I I_memmove args = memory_call C I Memmove (args ! 0) (args ! 1) (args ! 2)"
| "handleIntrinsicCall C I I_expect args = copy_expression I (args ! 0)"
| "handleIntrinsicCall C I I_fabs args = symbolic_call C I BuildFloatAbs [args ! 0]"
| "handleIntrinsicCall C I I_bswap args = symbolic_call C I BuildBswap [args ! 0]"
| "handleIntrinsicCall C I I_sadd_with_overflow args = overflow_builder C I BuildAddOverflow True args"
| "handleIntrinsicCall C I I_uadd_with_overflow args = overflow_builder C I BuildAddOverflow False args"
| "handleIntrinsicCall C I I_ssub_with_overflow args = overflow_builder C I BuildSubOverflow True args"
| "handleIntrinsicCall C I I_usub_with_overflow args = overflow_builder C I BuildSubOverflow False args"
| "handleIntrinsicCall C I I_smul_with_overflow args = overflow_builder C I BuildMulOverflow True args"
| "handleIntrinsicCall C I I_umul_with_overflow args = overflow_builder C I BuildMulOverflow False args"
| "handleIntrinsicCall C I I_sadd_sat args = symbolic_call C I BuildSAddSat [args ! 0, args ! 1]"
| "handleIntrinsicCall C I I_uadd_sat args = symbolic_call C I BuildUAddSat [args ! 0, args ! 1]"
| "handleIntrinsicCall C I I_ssub_sat args = symbolic_call C I BuildSSubSat [args ! 0, args ! 1]"
| "handleIntrinsicCall C I I_usub_sat args = symbolic_call C I BuildUSubSat [args ! 0, args ! 1]"
| "handleIntrinsicCall C I I_sshl_sat args = symbolic_call C I BuildSShlSat [args ! 0, args ! 1]"
| "handleIntrinsicCall C I I_ushl_sat args = symbolic_call C I BuildUShlSat [args ! 0, args ! 1]"
| "handleIntrinsicCall C I I_fshl args = symbolic_call C I BuildFshl [args ! 0, args ! 1, args ! 2]"
| "handleIntrinsicCall C I I_fshr args = symbolic_call C I BuildFshr [args ! 0, args ! 1, args ! 2]"
| "handleIntrinsicCall C I I_abs args = symbolic_call C I BuildAbs [args ! 0]"
| "handleIntrinsicCall C I _ args = rt_return ()"

definition handleInlineAssembly :: "instruction \<Rightarrow> unit build" where
  "handleInlineAssembly I = rt_return ()"

definition handleFunctionCall ::
    "compile_env \<Rightarrow> instruction \<Rightarrow> callee \<Rightarrow> llvm_value list \<Rightarrow> point \<Rightarrow> unit build" where
  "handleFunctionCall C I callee args returnPoint =
     (case callee of
        Intrinsic i \<Rightarrow> handleIntrinsicCall C I i args
      | _ \<Rightarrow>
        let site = getTargetPreferredInt C (inst_address C (i_name I)) in
        rt_bind (IRBuilder returnPoint (CreateCall C NotifyRet [site])) (\<lambda>_.
        rt_bind (IRBuilder (Before (i_name I))
          (rt_bind (CreateCall C NotifyCall [site]) (\<lambda>_.
           rt_bind (set_parameters C 0 args) (\<lambda>_.
           if i_used I
           then rt_bind (CreateCall C SetReturnExpression [ConstantPointerNull]) (\<lambda>_. rt_return ())
           else rt_return ())))) (\<lambda>_.
        if i_used I
        then rt_bind (IRBuilder returnPoint (CreateCall C GetReturnExpression [])) (\<lambda>e.
             set_expression (result_of I) (Some e))
        else rt_return ())))"

definition visitCallInst :: "compile_env \<Rightarrow> instruction \<Rightarrow> callee \<Rightarrow> llvm_value list \<Rightarrow> unit build" where
  "visitCallInst C I callee args = handleFunctionCall C I callee args (Before (i_next I))"

definition visitInvokeInst :: "compile_env \<Rightarrow> instruction \<Rightarrow> callee \<Rightarrow> llvm_value list \<Rightarrow> nat \<Rightarrow> unit build" where
  "visitInvokeInst C I callee args dest =
     handleFunctionCall C I callee args
       (if critical_edge C (i_block I) dest then On_edge (i_block I) dest
        else Before (getFirstNonPHI C dest))"

subsection \<open>Operators and comparisons\<close>

definition binary_handler :: "ty \<Rightarrow> binary_op \<Rightarrow> sym_fn build" where
  "binary_handler t opc =
     (if t = IntegerTy 1 then
        (case opc of
           BAnd \<Rightarrow> rt_return BuildBoolAnd
         | BOr \<Rightarrow> rt_return BuildBoolOr
         | BXor \<Rightarrow> rt_return BuildBoolXor
         | _ \<Rightarrow> rt_raise Undefined_behaviour)
      else rt_return (BinaryOperatorHandler opc))"

definition visitBinaryOperator ::
    "compile_env \<Rightarrow> instruction \<Rightarrow> binary_op \<Rightarrow> llvm_value \<Rightarrow> llvm_value \<Rightarrow> unit build" where
  "visitBinaryOperator C I opc a b =
     rt_bind (binary_handler (getType a) opc) (\<lambda>handler.
     rt_bind (rt_assert ''Unable to handle binary operator'' (runtime_member C handler \<noteq> None)) (\<lambda>_.
     symbolic_call C I handler [a, b]))"

definition visitUnaryOperator :: "compile_env \<Rightarrow> instruction \<Rightarrow> llvm_value \<Rightarrow> unit build" where
  "visitUnaryOperator C I a =
     rt_bind (rt_assert ''Unable to handle unary operator'' (runtime_member C UnaryOperatorHandler \<noteq> None)) (\<lambda>_.
     symbolic_call C I UnaryOperatorHandler [a])"

definition visitCmpInst :: "compile_env \<Rightarrow> instruction \<Rightarrow> predicate \<Rightarrow> llvm_value \<Rightarrow> llvm_value \<Rightarrow> unit build" where
  "visitCmpInst C I p a b =
     rt_bind (rt_assert ''Unable to handle icmp/fcmp variant'' (runtime_member C (ComparisonHandler p) \<noteq> None)) (\<lambda>_.
     symbolic_call C I (ComparisonHandler p) [a, b])"

subsection \<open>Path constraints\<close>

text \<open>
  The source location of a branch: the outermost location of the chain of inlined ones, and an empty
  file name with line -1 when there is none.
\<close>

definition source_location :: "instruction \<Rightarrow> string \<times> int" where
  "source_location I = (if i_debug I = [] then ([], - 1) else last (i_debug I))"

text \<open>\<open>int slot = ID++\<close>: the counter has 64 bits, a slot 32.\<close>

definition next_slot :: "int build" where
  "next_slot =
     rt_bind (rt_get slot_ID) (\<lambda>n.
     rt_bind (rt_modify (\<lambda>s. s\<lparr>slot_ID := n + 1\<rparr>)) (\<lambda>_.
     rt_return (sint (ucast n :: 32 word))))"

definition constraint_args ::
    "compile_env \<Rightarrow> instruction \<Rightarrow> llvm_value \<Rightarrow> int \<Rightarrow> (llvm_value \<times> bool) list" where
  "constraint_args C I cond slot =
     (let (filename, line) = source_location I in
      [(cond, True), (cond, False), (getTargetPreferredInt C (inst_address C (i_name I)), False),
       (GlobalStringPtr filename, False), (getInt32 line, False), (getInt32 slot, False)])"

definition push_constraint :: "compile_env \<Rightarrow> instruction \<Rightarrow> llvm_value \<Rightarrow> int \<Rightarrow> unit build" where
  "push_constraint C I cond slot =
     rt_bind (buildRuntimeCall C PushPathConstraintWithLoc (constraint_args C I cond slot)) (\<lambda>runtimeCall.
     registerOptional runtimeCall None)"

definition visitSelectInst ::
    "compile_env \<Rightarrow> instruction \<Rightarrow> llvm_value \<Rightarrow> llvm_value \<Rightarrow> llvm_value \<Rightarrow> unit build" where
  "visitSelectInst C I cond a b =
     rt_bind next_slot (\<lambda>slot.
     IRBuilder (Before (i_name I))
       (rt_bind (push_constraint C I cond slot) (\<lambda>_.
        rt_bind (getSymbolicExpression a) (\<lambda>ea.
        rt_bind (getSymbolicExpression b) (\<lambda>eb.
        if ea = None \<and> eb = None then rt_return ()
        else rt_bind (getSymbolicExpressionOrNull a) (\<lambda>va.
             rt_bind (getSymbolicExpressionOrNull b) (\<lambda>vb.
             rt_bind (emit ISelect PointerTy [cond, va, vb]) (\<lambda>data.
             set_expression (result_of I) (Some data)))))))))"

text \<open>The slot of a branch that one of the numeric checkers inserted is moved to a range of its own.\<close>

definition check_slots :: "(string \<times> int) list" where
  "check_slots =
     [(''int_overflow'', 1000), (''int_divided_by_zero'', 2000), (''int_exceptional_signed_value'', 3000),
      (''int_exceptional_unsigned_value'', 4000), (''fp_overflow'', 5000), (''fp_divided_by_zero'', 6000),
      (''fp_exceptional_value'', 7000), (''int_exceptional_signed_minus_value'', 8000),
      (''int_exceptional_max_value'', 9000), (''int_exceptional_min_value'', 10000),
      (''int_exceptional_signed_max_value'', 11000), (''int_exceptional_signed_min_value'', 12000),
      (''fp_exceptional_minus_value'', 13000), (''fp_exceptional_max_value'', 14000),
      (''fp_exceptional_min_value'', 15000)]"

definition check_offset :: "string option \<Rightarrow> int" where
  "check_offset check =
     (case check of None \<Rightarrow> 0 | Some c \<Rightarrow> (case map_of check_slots c of None \<Rightarrow> 0 | Some k \<Rightarrow> k))"

text \<open>
  A branch controls a loop when it ends the header or the latch of the innermost loop around its block
  and exactly one of its targets stays in the loop.
\<close>

definition is_loop_condition :: "compile_env \<Rightarrow> instruction \<Rightarrow> nat \<Rightarrow> nat \<Rightarrow> bool" where
  "is_loop_condition C I S0 S1 =
     (loop_info C \<and>
      (case getLoopFor C (i_block I) of
         None \<Rightarrow> False
       | Some L \<Rightarrow>
           (i_block I = getHeader L \<or> getLoopLatch L = Some (i_block I)) \<and>
           loop_contains L S0 \<noteq> loop_contains L S1))"

text \<open>The flag of a loop branch: a local variable that the entry of the function sets to false.\<close>

definition loop_seen_flag :: "compile_env \<Rightarrow> instruction \<Rightarrow> llvm_value build" where
  "loop_seen_flag C I =
     rt_bind (rt_get (\<lambda>s. LoopSeenFlag s (i_name I))) (\<lambda>found.
     case found of
       Some Flag \<Rightarrow> rt_return Flag
     | None \<Rightarrow>
         rt_bind (IRBuilder_front (Before (getFirstInsertionPt C 0))
           (rt_bind (emit IAlloca PointerTy []) (\<lambda>Flag.
            rt_bind (emit IStore VoidTy [getInt1 False, Flag]) (\<lambda>_. rt_return Flag)))) (\<lambda>Flag.
         rt_bind (rt_modify (\<lambda>s. s\<lparr>LoopSeenFlag := (LoopSeenFlag s)(i_name I \<mapsto> Flag)\<rparr>)) (\<lambda>_.
         rt_return Flag)))"

definition visitBranchInst :: "compile_env \<Rightarrow> instruction \<Rightarrow> llvm_value \<Rightarrow> nat \<Rightarrow> nat \<Rightarrow> unit build" where
  "visitBranchInst C I cond S0 S1 =
     rt_bind next_slot (\<lambda>ID.
     let slot = ID + check_offset (i_check I) in
     if is_loop_condition C I S0 S1 then
       rt_bind (rt_get guarded_branches) (\<lambda>guarded.
       if i_guarded I \<or> i_name I \<in> set guarded then rt_return ()
       else
         rt_bind (loop_seen_flag C I) (\<lambda>Flag.
         IRBuilder (Before (i_name I))
           (rt_bind (emit ILoad (IntegerTy 1) [Flag]) (\<lambda>Seen.
            emit_guard True Seen
              (rt_bind (rt_modify (\<lambda>s. s\<lparr>guarded_branches := i_name I # guarded_branches s\<rparr>)) (\<lambda>_.
               rt_bind (push_constraint C I cond (- 1)) (\<lambda>_.
               rt_bind (emit IStore VoidTy [getInt1 True, Flag]) (\<lambda>_. rt_return ()))))))))
     else IRBuilder (Before (i_name I)) (push_constraint C I cond slot))"

text \<open>One constraint per case, behind a check that the condition has an expression.\<close>

fun switch_cases ::
    "compile_env \<Rightarrow> instruction \<Rightarrow> llvm_value \<Rightarrow> llvm_value \<Rightarrow> int \<Rightarrow> llvm_value list \<Rightarrow> unit build" where
  "switch_cases C I cond condExpr slot [] = rt_return ()"
| "switch_cases C I cond condExpr slot (c # cs) =
     rt_bind (emit ICmpEQ (IntegerTy 1) [cond, c]) (\<lambda>caseTaken.
     rt_bind (createValueExpression C c) (\<lambda>caseExpr.
     rt_bind (CreateCall C (ComparisonHandler ICMP_EQ) [condExpr, caseExpr]) (\<lambda>caseConstraint.
     let (filename, line) = source_location I in
     rt_bind (CreateCall C PushPathConstraintWithLoc
       [caseConstraint, caseTaken, getTargetPreferredInt C (inst_address C (i_name I)),
        GlobalStringPtr filename, getInt32 line, getInt32 slot]) (\<lambda>_.
     switch_cases C I cond condExpr slot cs))))"

definition visitSwitchInst :: "compile_env \<Rightarrow> instruction \<Rightarrow> llvm_value \<Rightarrow> llvm_value list \<Rightarrow> unit build" where
  "visitSwitchInst C I cond cases =
     rt_bind (getSymbolicExpression cond) (\<lambda>expr.
     case expr of
       None \<Rightarrow> rt_return ()
     | Some conditionExpr \<Rightarrow>
         rt_bind next_slot (\<lambda>slot.
         IRBuilder (Before (i_name I))
           (rt_bind (emit ICmpNE (IntegerTy 1) [conditionExpr, ConstantPointerNull]) (\<lambda>haveSymbolicCondition.
            emit_guard False haveSymbolicCondition (switch_cases C I cond conditionExpr slot cases)))))"

definition visitReturnInst :: "compile_env \<Rightarrow> instruction \<Rightarrow> llvm_value option \<Rightarrow> unit build" where
  "visitReturnInst C I V =
     (case V of
        None \<Rightarrow> rt_return ()
      | Some v \<Rightarrow>
          IRBuilder (Before (i_name I))
            (rt_bind (getSymbolicExpressionOrNull v) (\<lambda>e.
             rt_bind (CreateCall C SetReturnExpression [e]) (\<lambda>_. rt_return ()))))"

subsection \<open>Memory\<close>

definition visitLoadInst :: "compile_env \<Rightarrow> instruction \<Rightarrow> llvm_value \<Rightarrow> unit build" where
  "visitLoadInst C I addr =
     IRBuilder (Before (i_name I))
       (rt_bind (emit IPtrToInt (intPtrType C) [addr]) (\<lambda>a.
        rt_bind (CreateCall C ReadMemory
          [a, getIntPtr C (getTypeStoreSize C (i_type I)), getInt1 (isLittleEndian C (i_type I))]) (\<lambda>data.
        rt_bind (convertBitVectorExprForType C data (i_type I)) (\<lambda>e.
        set_expression (result_of I) (Some e)))))"

definition visitStoreInst :: "compile_env \<Rightarrow> instruction \<Rightarrow> llvm_value \<Rightarrow> llvm_value \<Rightarrow> unit build" where
  "visitStoreInst C I V addr =
     IRBuilder (Before (i_name I))
       (rt_bind (getSymbolicExpression V) (\<lambda>expr.
        rt_bind (convertExprForTypeToBitVectorExpr C V expr) (\<lambda>maybeConversion.
        rt_bind (emit IPtrToInt (intPtrType C) [addr]) (\<lambda>a.
        rt_bind (converted maybeConversion V) (\<lambda>e.
        rt_bind (CreateCall C WriteMemory
          [a, getIntPtr C (getTypeStoreSize C (getType V)), e, getInt1 (isLittleEndian C (getType V))]) (\<lambda>_.
        rt_return ()))))))"

subsection \<open>Address computations\<close>

text \<open>
  One step of \<open>visitGetElementPtrInst\<close>: the offset of a structure member is narrowed to \<open>unsigned\<close>, as is
  the size of an element. The address so far is the pointer operand at first and the expression of
  the previous addition afterwards.
\<close>

definition gep_add :: "compile_env \<Rightarrow> SymbolicComputation \<Rightarrow> llvm_value \<times> bool \<Rightarrow> llvm_value \<times> bool \<Rightarrow>
    SymbolicComputation build" where
  "gep_add C sc contribution address =
     rt_bind (forceBuildRuntimeCall C (BinaryOperatorHandler BAdd) [contribution, address]) (\<lambda>add.
     rt_return (merge_computation sc add))"

definition last_value :: "SymbolicComputation \<Rightarrow> llvm_value build" where
  "last_value c = (case lastInstruction c of None \<Rightarrow> rt_raise Undefined_behaviour | Some e \<Rightarrow> rt_return e)"

definition gep_scale :: "compile_env \<Rightarrow> SymbolicComputation \<Rightarrow> llvm_value \<Rightarrow> u32 \<Rightarrow> SymbolicComputation build" where
  "gep_scale C sc idx elementSize =
     (case getIntegerBitWidth (getType idx) of
        None \<Rightarrow> rt_raise Undefined_behaviour
      | Some indexWidth \<Rightarrow>
          let size = (getIntPtr C (ucast elementSize), True) in
          if indexWidth \<noteq> getPointerSizeInBits C then
            rt_bind (forceBuildRuntimeCall C BuildZExt
              [(idx, True), (getInt8 (unat (of_nat (getPointerSizeInBits C) - of_nat indexWidth :: u32)), False)]) (\<lambda>ext.
            rt_bind (last_value ext) (\<lambda>e.
            rt_bind (forceBuildRuntimeCall C (BinaryOperatorHandler BMul) [(e, False), size]) (\<lambda>mul.
            rt_return (merge_computation (merge_computation sc ext) mul))))
          else
            rt_bind (forceBuildRuntimeCall C (BinaryOperatorHandler BMul) [(idx, True), size]) (\<lambda>mul.
            rt_return (merge_computation sc mul)))"

fun gep_steps ::
    "compile_env \<Rightarrow> gep_index list \<Rightarrow> SymbolicComputation \<Rightarrow> llvm_value \<times> bool \<Rightarrow> SymbolicComputation build" where
  "gep_steps C [] sc address = rt_return sc"
| "gep_steps C (Struct_member ts (ConstantInt w k) # rest) sc address =
     (let memberOffset = ucast (getElementOffset C ts (nat k)) :: u32 in
      rt_bind (gep_add C sc (getIntPtr C (ucast memberOffset), True) address) (\<lambda>sc.
      rt_bind (last_value sc) (\<lambda>e. gep_steps C rest sc (e, False))))"
| "gep_steps C (Struct_member ts _ # rest) sc address = rt_raise Undefined_behaviour"
| "gep_steps C (Element_of t idx # rest) sc address =
     (if isZero idx then gep_steps C rest sc address
      else
        rt_bind (gep_scale C sc idx (ucast (getTypeAllocSize C t))) (\<lambda>sc.
        rt_bind (last_value sc) (\<lambda>scaled.
        rt_bind (gep_add C sc (scaled, False) address) (\<lambda>sc.
        rt_bind (last_value sc) (\<lambda>e. gep_steps C rest sc (e, False))))))"

fun index_value :: "gep_index \<Rightarrow> llvm_value" where
  "index_value (Struct_member _ v) = v"
| "index_value (Element_of _ v) = v"

definition visitGetElementPtrInst :: "compile_env \<Rightarrow> instruction \<Rightarrow> llvm_value \<Rightarrow> gep_index list \<Rightarrow> unit build" where
  "visitGetElementPtrInst C I ptr idxs =
     rt_bind (rt_get symbolicExpressions) (\<lambda>exprs.
     if exprs ptr = None \<and> (\<forall>i \<in> set idxs. exprs (index_value i) = None) then rt_return ()
     else if \<forall>i \<in> set idxs. isZero (index_value i) then set_expression (result_of I) (exprs ptr)
     else IRBuilder (Before (i_name I))
       (rt_bind (gep_steps C idxs empty_computation (ptr, True)) (\<lambda>sc.
        registerSymbolicComputation sc (Some (result_of I)))))"

subsection \<open>Casts\<close>

definition cast_call :: "compile_env \<Rightarrow> instruction \<Rightarrow> sym_fn \<Rightarrow> llvm_value \<Rightarrow> llvm_value list \<Rightarrow> unit build" where
  "cast_call C I f a consts =
     IRBuilder (Before (i_name I))
       (rt_bind (buildRuntimeCall C f ((a, True) # map (\<lambda>c. (c, False)) consts)) (\<lambda>conversion.
        registerOptional conversion (Some (result_of I))))"

definition visitBitCastInst :: "compile_env \<Rightarrow> instruction \<Rightarrow> llvm_value \<Rightarrow> unit build" where
  "visitBitCastInst C I a =
     (if isIntegerTy (getType a) \<and> isFloatingPointTy (i_type I) then
        cast_call C I BuildBitsToFloat a [getInt1 (isDoubleTy (i_type I))]
      else if isFloatingPointTy (getType a) \<and> isIntegerTy (i_type I) then
        IRBuilder (Before (i_name I))
          (rt_bind (buildRuntimeCall C BuildFloatToBits [(a, True)]) (\<lambda>conversion.
           registerOptional conversion None))
      else
        rt_bind (rt_assert ''Unhandled non-pointer bit cast'' (getType a = PointerTy \<and> i_type I = PointerTy)) (\<lambda>_.
        copy_expression I a))"

definition bit_width :: "ty \<Rightarrow> nat build" where
  "bit_width t = (case getIntegerBitWidth t of None \<Rightarrow> rt_raise Undefined_behaviour | Some n \<Rightarrow> rt_return n)"

definition visitTruncInst :: "compile_env \<Rightarrow> instruction \<Rightarrow> llvm_value \<Rightarrow> unit build" where
  "visitTruncInst C I a =
     rt_bind (getSymbolicExpression a) (\<lambda>expr.
     if expr = None then rt_return ()
     else
       rt_bind (bit_width (i_type I)) (\<lambda>bits.
       IRBuilder (Before (i_name I))
         (rt_bind (forceBuildRuntimeCall C BuildTrunc [(a, True), (getInt8 bits, False)]) (\<lambda>trunc.
          rt_bind (if bits = 1
            then rt_bind (last_value trunc) (\<lambda>e.
                 rt_bind (forceBuildRuntimeCall C BuildBitToBool [(e, False)]) (\<lambda>bool.
                 rt_return (merge_computation trunc bool)))
            else rt_return trunc) (\<lambda>sc.
          registerSymbolicComputation sc (Some (result_of I)))))))"

definition visitSIToFPInst :: "compile_env \<Rightarrow> instruction \<Rightarrow> llvm_value \<Rightarrow> unit build" where
  "visitSIToFPInst C I a = cast_call C I BuildIntToFloat a [getInt1 (isDoubleTy (i_type I)), getInt1 True]"

definition visitUIToFPInst :: "compile_env \<Rightarrow> instruction \<Rightarrow> llvm_value \<Rightarrow> unit build" where
  "visitUIToFPInst C I a = cast_call C I BuildIntToFloat a [getInt1 (isDoubleTy (i_type I)), getInt1 False]"

definition visitFPExtInst :: "compile_env \<Rightarrow> instruction \<Rightarrow> llvm_value \<Rightarrow> unit build" where
  "visitFPExtInst C I a = cast_call C I BuildFloatToFloat a [getInt1 (isDoubleTy (i_type I))]"

definition visitFPTruncInst :: "compile_env \<Rightarrow> instruction \<Rightarrow> llvm_value \<Rightarrow> unit build" where
  "visitFPTruncInst C I a = cast_call C I BuildFloatToFloat a [getInt1 (isDoubleTy (i_type I))]"

definition visitFPToSI :: "compile_env \<Rightarrow> instruction \<Rightarrow> llvm_value \<Rightarrow> unit build" where
  "visitFPToSI C I a =
     rt_bind (bit_width (i_type I)) (\<lambda>bits. cast_call C I BuildFloatToSignedInt a [getInt8 bits])"

definition visitFPToUI :: "compile_env \<Rightarrow> instruction \<Rightarrow> llvm_value \<Rightarrow> unit build" where
  "visitFPToUI C I a =
     rt_bind (bit_width (i_type I)) (\<lambda>bits. cast_call C I BuildFloatToUnsignedInt a [getInt8 bits])"

text \<open>\<open>visitCastInst\<close> for \<open>sext\<close> and \<open>zext\<close>; the widths are \<open>unsigned\<close> and the count is narrowed to 8 bits.\<close>

definition visitExtension :: "compile_env \<Rightarrow> instruction \<Rightarrow> sym_fn \<Rightarrow> llvm_value \<Rightarrow> unit build" where
  "visitExtension C I target a =
     rt_bind (bit_width (getType a)) (\<lambda>from.
     rt_bind (bit_width (i_type I)) (\<lambda>to.
     if from = 1 then
       IRBuilder (Before (i_name I))
         (rt_bind (forceBuildRuntimeCall C BuildBoolToBit [(a, True)]) (\<lambda>bit.
          rt_bind (last_value bit) (\<lambda>e.
          rt_bind (forceBuildRuntimeCall C target [(e, False), (getInt8 (to - 1), False)]) (\<lambda>ext.
          registerSymbolicComputation (merge_computation bit ext) (Some (result_of I))))))
     else cast_call C I target a [getInt8 (to - from)]))"

fun visitCastInst :: "compile_env \<Rightarrow> instruction \<Rightarrow> cast_op \<Rightarrow> llvm_value \<Rightarrow> unit build" where
  "visitCastInst C I CSExt a = visitExtension C I BuildSExt a"
| "visitCastInst C I CZExt a = visitExtension C I BuildZExt a"
| "visitCastInst C I CBitCast a = visitBitCastInst C I a"
| "visitCastInst C I CTrunc a = visitTruncInst C I a"
| "visitCastInst C I CIntToPtr a = copy_expression I a"
| "visitCastInst C I CPtrToInt a = copy_expression I a"
| "visitCastInst C I CSIToFP a = visitSIToFPInst C I a"
| "visitCastInst C I CUIToFP a = visitUIToFPInst C I a"
| "visitCastInst C I CFPExt a = visitFPExtInst C I a"
| "visitCastInst C I CFPTrunc a = visitFPTruncInst C I a"
| "visitCastInst C I CFPToSI a = visitFPToSI C I a"
| "visitCastInst C I CFPToUI a = visitFPToUI C I a"
| "visitCastInst C I CAddrSpaceCast a = rt_return ()"

subsection \<open>PHI nodes and aggregates\<close>

definition visitPHINode :: "instruction \<Rightarrow> (llvm_value \<times> nat) list \<Rightarrow> unit build" where
  "visitPHINode I incoming =
     rt_bind fresh (\<lambda>n.
     rt_bind (rt_modify (\<lambda>s. s\<lparr>phiNodes := phiNodes s @ [I],
       expr_phis := (expr_phis s)(n \<mapsto> map (\<lambda>(_, b). (ConstantPointerNull, b)) incoming)\<rparr>)) (\<lambda>_.
     set_expression (result_of I) (Some (Inst PointerTy n))))"

definition visitInsertValueInst ::
    "compile_env \<Rightarrow> instruction \<Rightarrow> llvm_value \<Rightarrow> llvm_value \<Rightarrow> nat list \<Rightarrow> unit build" where
  "visitInsertValueInst C I target insertedValue indices =
     rt_bind (getSymbolicExpression target) (\<lambda>et.
     rt_bind (getSymbolicExpression insertedValue) (\<lambda>ei.
     if et = None \<and> ei = None then rt_return ()
     else
       IRBuilder (Before (i_name I))
         (rt_bind (getSymbolicExpressionOrNull insertedValue) (\<lambda>vi.
          rt_bind (convertExprForTypeToBitVectorExpr C insertedValue (Some vi)) (\<lambda>maybeConversion.
          rt_bind (getSymbolicExpressionOrNull target) (\<lambda>vt.
          rt_bind (converted maybeConversion insertedValue) (\<lambda>e.
          rt_bind (aggregateMemberOffset C (getType target) indices) (\<lambda>offset.
          rt_bind (CreateCall C BuildInsert
            [vt, e, getInt64 offset, getInt1 (isLittleEndian C (getType insertedValue))]) (\<lambda>insert.
          rt_bind (make_input target vt 0 insert) (\<lambda>inp.
          let insertComputation =
            \<lparr>firstInstruction = Some insert, lastInstruction = Some insert, inputs = [inp]\<rparr> in
          (case maybeConversion of
             None \<Rightarrow>
               rt_bind (make_input insertedValue e 1 insert) (\<lambda>inp'.
               registerSymbolicComputation
                 (insertComputation\<lparr>inputs := inputs insertComputation @ [inp']\<rparr>) (Some (result_of I)))
           | Some conversion \<Rightarrow>
               registerSymbolicComputation (merge_computation conversion insertComputation)
                 (Some (result_of I)))))))))))))"

definition visitExtractValueInst :: "compile_env \<Rightarrow> instruction \<Rightarrow> llvm_value \<Rightarrow> nat list \<Rightarrow> unit build" where
  "visitExtractValueInst C I target indices =
     rt_bind (getSymbolicExpression target) (\<lambda>targetExpr.
     case targetExpr of
       None \<Rightarrow> rt_return ()
     | Some e \<Rightarrow>
         IRBuilder (Before (i_name I))
           (rt_bind (aggregateMemberOffset C (getType target) indices) (\<lambda>offset.
            rt_bind (CreateCall C BuildExtract
              [e, getInt64 offset, getInt64 (getTypeStoreSize C (i_type I)),
               getInt1 (isLittleEndian C (i_type I))]) (\<lambda>extractedBits.
            rt_bind (convertBitVectorExprForType C extractedBits (i_type I)) (\<lambda>result.
            rt_bind (make_input target e 0 extractedBits) (\<lambda>inp.
            registerSymbolicComputation
              \<lparr>firstInstruction = Some extractedBits, lastInstruction = Some result, inputs = [inp]\<rparr>
              (Some (result_of I))))))))"

subsection \<open>The visitor\<close>

text \<open>
  Instructions without a visitor of their own (\<open>visitAllocaInst\<close>, \<open>visitIndirectBrInst\<close>,
  \<open>visitUnreachableInst\<close>, \<open>visitInstruction\<close>) are left alone, at most with a warning.
\<close>

definition visit :: "compile_env \<Rightarrow> instruction \<Rightarrow> unit build" where
  "visit C I =
     (case i_kind I of
        BinaryOperator opc a b \<Rightarrow> visitBinaryOperator C I opc a b
      | UnaryOperator a \<Rightarrow> visitUnaryOperator C I a
      | SelectInst c a b \<Rightarrow> visitSelectInst C I c a b
      | CmpInst p a b \<Rightarrow> visitCmpInst C I p a b
      | ReturnInst v \<Rightarrow> visitReturnInst C I v
      | BranchInst c S0 S1 \<Rightarrow> visitBranchInst C I c S0 S1
      | InlineAsmCall args \<Rightarrow> handleInlineAssembly I
      | CallInst callee args \<Rightarrow> visitCallInst C I callee args
      | InvokeInst callee args dest \<Rightarrow> visitInvokeInst C I callee args dest
      | LoadInst addr \<Rightarrow> visitLoadInst C I addr
      | StoreInst v addr \<Rightarrow> visitStoreInst C I v addr
      | GetElementPtrInst ptr idxs \<Rightarrow> visitGetElementPtrInst C I ptr idxs
      | CastInst opc a \<Rightarrow> visitCastInst C I opc a
      | PHINode incoming \<Rightarrow> visitPHINode I incoming
      | InsertValueInst agg v idxs \<Rightarrow> visitInsertValueInst C I agg v idxs
      | ExtractValueInst agg idxs \<Rightarrow> visitExtractValueInst C I agg idxs
      | SwitchInst c cases \<Rightarrow> visitSwitchInst C I c cases
      | _ \<Rightarrow> rt_return ())"

subsection \<open>Replacing values\<close>

text \<open>\<open>replaceAllUsesWith\<close> on the inserted code.\<close>

definition replace_value :: "llvm_value \<Rightarrow> llvm_value \<Rightarrow> llvm_value \<Rightarrow> llvm_value" where
  "replace_value old new v = (if v = old then new else v)"

definition replace_emitted :: "llvm_value \<Rightarrow> llvm_value \<Rightarrow> emitted \<Rightarrow> emitted" where
  "replace_emitted old new i = i\<lparr>e_args := map (replace_value old new) (e_args i)\<rparr>"

definition replace_phi :: "llvm_value \<Rightarrow> llvm_value \<Rightarrow> expr_phi \<Rightarrow> expr_phi" where
  "replace_phi old new p =
     p\<lparr>phi_direct := replace_value old new (phi_direct p), phi_body := replace_value old new (phi_body p)\<rparr>"

fun replace_stmt :: "llvm_value \<Rightarrow> llvm_value \<Rightarrow> stmt \<Rightarrow> stmt" where
  "replace_stmt old new (Ins i) = Ins (replace_emitted old new i)"
| "replace_stmt old new (Guard p c body phis) =
     Guard p (replace_value old new c) (map (replace_stmt old new) body) (map (replace_phi old new) phis)"

definition replaceAllUsesWith :: "llvm_value \<Rightarrow> llvm_value \<Rightarrow> unit build" where
  "replaceAllUsesWith old new =
     rt_modify (\<lambda>s. s\<lparr>inserted := map (\<lambda>(p, c). (p, map (replace_stmt old new) c)) (inserted s),
       expr_phis := (\<lambda>n. map_option (map (\<lambda>(v, b). (replace_value old new v, b))) (expr_phis s n))\<rparr>)"

subsection \<open>Finishing the PHI nodes\<close>

definition incoming_of :: "instruction \<Rightarrow> (llvm_value \<times> nat) list" where
  "incoming_of I = (case i_kind I of PHINode incoming \<Rightarrow> incoming | _ \<Rightarrow> [])"

definition expression_or_null :: "symbolizer \<Rightarrow> llvm_value \<Rightarrow> llvm_value" where
  "expression_or_null s V = (case symbolicExpressions s V of None \<Rightarrow> ConstantPointerNull | Some e \<Rightarrow> e)"

text \<open>The first loop of \<open>finalizePHINodes\<close>: the nodes to erase, and the incoming values of the others.\<close>

fun finalize_phis :: "instruction list \<Rightarrow> llvm_value list build" where
  "finalize_phis [] = rt_return []"
| "finalize_phis (phi # phis) =
     rt_bind (rt_get id) (\<lambda>s.
     case symbolicExpressions s (result_of phi) of
       Some (Inst t n) \<Rightarrow>
         if \<forall>(v, _) \<in> set (incoming_of phi). symbolicExpressions s v = None
         then rt_bind (finalize_phis phis) (\<lambda>erased. rt_return (Inst t n # erased))
         else rt_bind (rt_modify (\<lambda>s. s\<lparr>expr_phis := (expr_phis s)(n \<mapsto>
             map (\<lambda>(v, b). (expression_or_null s v, b)) (incoming_of phi))\<rparr>)) (\<lambda>_.
           finalize_phis phis)
     | _ \<Rightarrow> rt_raise Undefined_behaviour)"

fun erase_phis :: "llvm_value list \<Rightarrow> unit build" where
  "erase_phis [] = rt_return ()"
| "erase_phis (e # es) =
     rt_bind (replaceAllUsesWith e ConstantPointerNull) (\<lambda>_.
     rt_bind (rt_modify (\<lambda>s. s\<lparr>expr_phis := (case e of Inst _ n \<Rightarrow> (expr_phis s)(n := None) | _ \<Rightarrow> expr_phis s)\<rparr>)) (\<lambda>_.
     erase_phis es))"

definition finalizePHINodes :: "unit build" where
  "finalizePHINodes =
     rt_bind (rt_get phiNodes) (\<lambda>phis.
     rt_bind (finalize_phis phis) (\<lambda>erased.
     rt_bind (erase_phis erased) (\<lambda>_.
     rt_modify (\<lambda>s. s\<lparr>symbolicExpressions := Map.empty\<rparr>))))"

end
