(* ===== verification/Short_Circuit.thy ===== *)
theory Short_Circuit
  imports Symbolizer
begin

text \<open>
  \<open>Symbolizer::shortCircuitExpressionUses\<close>: every recorded computation is rewritten to happen only if one
  of its inputs has an expression, and to build expressions for the inputs that have none. A computation
  occupies a run of consecutive instructions at one insertion point, from its first to its last
  instruction; the rewritten code is the null checks, a branch around the slow path, and the PHI node
  that takes the place of the last instruction.
\<close>

subsection \<open>Finding instructions\<close>

fun emitted_stmt :: "stmt \<Rightarrow> emitted list" where
  "emitted_stmt (Ins i) = [i]"
| "emitted_stmt (Guard p c body phis) = concat (map emitted_stmt body)"

definition all_emitted :: "symbolizer \<Rightarrow> emitted list" where
  "all_emitted s = concat (map (\<lambda>(p, c). concat (map emitted_stmt c)) (inserted s))"

text \<open>\<open>Input::getSymbolicOperand\<close> and \<open>replaceOperand\<close>.\<close>

definition getSymbolicOperand :: "input \<Rightarrow> llvm_value build" where
  "getSymbolicOperand inp =
     rt_bind (rt_get (\<lambda>s. find (\<lambda>i. e_name i = user inp) (all_emitted s))) (\<lambda>found.
     case found of
       None \<Rightarrow> rt_raise Undefined_behaviour
     | Some i \<Rightarrow>
         if operandIndex inp < length (e_args i) then rt_return (e_args i ! operandIndex inp)
         else rt_raise Undefined_behaviour)"

fun symbolic_operands :: "input list \<Rightarrow> llvm_value list build" where
  "symbolic_operands [] = rt_return []"
| "symbolic_operands (inp # inps) =
     rt_bind (getSymbolicOperand inp) (\<lambda>v.
     rt_bind (symbolic_operands inps) (\<lambda>vs. rt_return (v # vs)))"

definition replaceOperands :: "((nat \<times> nat) \<times> llvm_value) list \<Rightarrow> emitted \<Rightarrow> emitted" where
  "replaceOperands new i =
     i\<lparr>e_args := map (\<lambda>(k, v). case map_of new (e_name i, k) of None \<Rightarrow> v | Some w \<Rightarrow> w)
       (enumerate 0 (e_args i))\<rparr>"

text \<open>\<open>use_empty\<close>: whether any inserted instruction, branch or PHI node refers to a value.\<close>

fun uses_value :: "llvm_value \<Rightarrow> stmt \<Rightarrow> bool" where
  "uses_value v (Ins i) = (v \<in> set (e_args i))"
| "uses_value v (Guard p c body phis) =
     (c = v \<or> (\<exists>x \<in> set body. uses_value v x) \<or> (\<exists>q \<in> set phis. phi_direct q = v \<or> phi_body q = v))"

definition value_used :: "llvm_value \<Rightarrow> symbolizer \<Rightarrow> bool" where
  "value_used v s =
     ((\<exists>(p, c) \<in> set (inserted s). \<exists>x \<in> set c. uses_value v x) \<or>
      (\<exists>n \<in> {..<next_name s}. case expr_phis s n of None \<Rightarrow> False | Some incoming \<Rightarrow> v \<in> fst ` set incoming))"

subsection \<open>The pieces of the rewritten code\<close>

fun null_checks :: "llvm_value list \<Rightarrow> llvm_value list build" where
  "null_checks [] = rt_return []"
| "null_checks (v # vs) =
     rt_bind (emit ICmpEQ (IntegerTy 1) [ConstantPointerNull, v]) (\<lambda>c.
     rt_bind (null_checks vs) (\<lambda>cs. rt_return (c # cs)))"

fun all_concrete :: "llvm_value \<Rightarrow> llvm_value list \<Rightarrow> llvm_value build" where
  "all_concrete acc [] = rt_return acc"
| "all_concrete acc (c # cs) =
     rt_bind (emit IBoolAnd (IntegerTy 1) [acc, c]) (\<lambda>acc'. all_concrete acc' cs)"

text \<open>
  The expression of one input in the slow path. An operand that is not known to be null is checked at
  run time, and a PHI node chooses between the operand and the new expression.
\<close>

definition complete_input ::
    "'a data_layout_scheme \<Rightarrow> llvm_value \<Rightarrow> llvm_value \<Rightarrow> llvm_value \<Rightarrow> llvm_value build" where
  "complete_input dl V original nullCheck =
     (if original \<noteq> ConstantPointerNull then
        rt_bind (capture (createValueExpression dl V)) (\<lambda>(new, body).
        rt_bind fresh (\<lambda>n.
        rt_bind (rt_modify (\<lambda>s. s\<lparr>code := code s @
          [Guard False nullCheck body [\<lparr>phi_name = n, phi_direct = original, phi_body = new\<rparr>]]\<rparr>)) (\<lambda>_.
        rt_return (Inst PointerTy n))))
      else createValueExpression dl V)"

fun complete_inputs ::
    "'a data_layout_scheme \<Rightarrow> nat \<Rightarrow> (input \<times> llvm_value \<times> llvm_value) list \<Rightarrow>
     ((nat \<times> nat) \<times> llvm_value) list build" where
  "complete_inputs dl numUnknownConcreteness [] = rt_return []"
| "complete_inputs dl numUnknownConcreteness ((inp, original, nullCheck) # rest) =
     (if original \<noteq> ConstantPointerNull \<and> numUnknownConcreteness = 1
      then complete_inputs dl numUnknownConcreteness rest
      else
        rt_bind (complete_input dl (concreteValue inp) original nullCheck) (\<lambda>final.
        rt_bind (complete_inputs dl numUnknownConcreteness rest) (\<lambda>new.
        rt_return (((user inp, operandIndex inp), final) # new))))"

subsection \<open>Rewriting one computation\<close>

fun take_range :: "nat \<Rightarrow> stmt list \<Rightarrow> emitted list \<times> stmt list" where
  "take_range n (Ins i # xs) =
     (if e_name i = n then ([i], xs) else let (run, rest) = take_range n xs in (i # run, rest))"
| "take_range n xs = ([], xs)"

fun rewrite_stmt :: "nat \<Rightarrow> nat \<Rightarrow> (emitted list \<Rightarrow> stmt list) \<Rightarrow> stmt \<Rightarrow> stmt"
  and rewrite_range :: "nat \<Rightarrow> nat \<Rightarrow> (emitted list \<Rightarrow> stmt list) \<Rightarrow> stmt list \<Rightarrow> stmt list"
  where
  "rewrite_stmt fst_name lst_name f (Ins i) = Ins i"
| "rewrite_stmt fst_name lst_name f (Guard p c body phis) = Guard p c (rewrite_range fst_name lst_name f body) phis"
| "rewrite_range fst_name lst_name f [] = []"
| "rewrite_range fst_name lst_name f (x # xs) =
     (case x of
        Ins i \<Rightarrow>
          if e_name i = fst_name then let (run, rest) = take_range lst_name (x # xs) in f run @ rest
          else x # rewrite_range fst_name lst_name f xs
      | Guard _ _ _ _ \<Rightarrow> rewrite_stmt fst_name lst_name f x # rewrite_range fst_name lst_name f xs)"

definition slow_path ::
    "llvm_value \<Rightarrow> stmt list \<Rightarrow> stmt list \<Rightarrow> ((nat \<times> nat) \<times> llvm_value) list \<Rightarrow> expr_phi list \<Rightarrow>
     emitted list \<Rightarrow> stmt list" where
  "slow_path allConcrete checks fills new phis run =
     checks @ [Guard True allConcrete (fills @ map (\<lambda>i. Ins (replaceOperands new i)) run) phis]"

definition final_expression :: "llvm_value \<Rightarrow> expr_phi list build" where
  "final_expression lastInst =
     rt_bind (rt_get (value_used lastInst)) (\<lambda>used.
     if used then
       rt_bind fresh (\<lambda>n.
       rt_bind (replaceAllUsesWith lastInst (Inst PointerTy n)) (\<lambda>_.
       rt_return [\<lparr>phi_name = n, phi_direct = ConstantPointerNull, phi_body = lastInst\<rparr>]))
     else rt_return [])"

text \<open>The null checks and their conjunction, and the code that completes the inputs.\<close>

definition computation_pieces ::
    "'a data_layout_scheme \<Rightarrow> input list \<Rightarrow> llvm_value list \<Rightarrow>
     (llvm_value \<times> stmt list \<times> stmt list \<times> ((nat \<times> nat) \<times> llvm_value) list) build" where
  "computation_pieces dl inps operands =
     rt_bind (capture (rt_bind (null_checks operands) (\<lambda>cs.
       rt_bind (all_concrete (hd cs) (tl cs)) (\<lambda>allConcrete. rt_return (cs, allConcrete)))))
       (\<lambda>((nullChecks, allConcrete), checks).
     rt_bind (capture (complete_inputs dl (length (filter (\<lambda>v. v \<noteq> ConstantPointerNull) operands))
       (zip inps (zip operands nullChecks)))) (\<lambda>(new, fills).
     rt_return (allConcrete, checks, fills, new)))"

definition short_circuit :: "'a data_layout_scheme \<Rightarrow> SymbolicComputation \<Rightarrow> unit build" where
  "short_circuit dl sc =
     rt_bind (rt_assert ''Symbolic computation has no inputs'' (inputs sc \<noteq> [])) (\<lambda>_.
     case (firstInstruction sc, lastInstruction sc) of
       (Some (Inst _ fst_name), Some (Inst t lst_name)) \<Rightarrow>
         rt_bind (symbolic_operands (inputs sc)) (\<lambda>operands.
         rt_bind (computation_pieces dl (inputs sc) operands) (\<lambda>(allConcrete, checks, fills, new).
         rt_bind (final_expression (Inst t lst_name)) (\<lambda>phis.
         rt_modify (\<lambda>s. s\<lparr>inserted := map (\<lambda>(p, c).
           (p, rewrite_range fst_name lst_name (slow_path allConcrete checks fills new phis) c)) (inserted s)\<rparr>))))
     | _ \<Rightarrow> rt_raise Undefined_behaviour)"

fun short_circuit_all :: "'a data_layout_scheme \<Rightarrow> SymbolicComputation list \<Rightarrow> unit build" where
  "short_circuit_all dl [] = rt_return ()"
| "short_circuit_all dl (sc # scs) =
     rt_bind (short_circuit dl sc) (\<lambda>_. short_circuit_all dl scs)"

definition shortCircuitExpressionUses :: "'a data_layout_scheme \<Rightarrow> unit build" where
  "shortCircuitExpressionUses dl =
     rt_bind (rt_get expressionUses) (\<lambda>uses. short_circuit_all dl uses)"

end
