(* ===== verification/IR_Exec.thy ===== *)
theory IR_Exec
  imports Short_Circuit Simple_Backend_Laws Runtime_Memory
begin

text \<open>
  What the inserted code does when the instrumented program runs. A frame gives every instruction its
  last result, and the arguments and other leaves of the function their values; the calls go to the
  run-time library, which is an argument. \<open>simple_call\<close> is the library with the simple backend: each
  imported name bound to the function of that name. How LLVM widens or narrows a floating-point
  number to \<open>double\<close> is an argument of the semantics.
\<close>

subsection \<open>Values at run time\<close>

datatype 'e rvalue =
    VExpr "'e option"
  | VInt nat int
  | VFloat fp_kind int
  | VStruct "'e rvalue list"
  | VString string
  | VCell nat
  | VVoid

record 'e frame =
  regs :: "nat \<Rightarrow> 'e rvalue"
  leaves :: "llvm_value \<Rightarrow> 'e rvalue"
  cells :: "nat \<Rightarrow> 'e rvalue"

fun eval_value :: "'e frame \<Rightarrow> llvm_value \<Rightarrow> 'e rvalue" where
  "eval_value fr (ConstantInt n i) = VInt n (take_bit n i)"
| "eval_value fr ConstantPointerNull = VExpr None"
| "eval_value fr (ConstantFP k b) = VFloat k b"
| "eval_value fr (ConstantStruct vs) = VStruct (map (eval_value fr) vs)"
| "eval_value fr (GlobalStringPtr s) = VString s"
| "eval_value fr (Inst t n) = regs fr n"
| "eval_value fr (UndefValue t) = leaves fr (UndefValue t)"
| "eval_value fr (OtherConstant t s) = leaves fr (OtherConstant t s)"
| "eval_value fr (Argument t n) = leaves fr (Argument t n)"

subsection \<open>Instructions\<close>

fun icmp_value :: "'e rvalue list \<Rightarrow> bool option" where
  "icmp_value [VExpr a, VExpr b] = Some (a = b)"
| "icmp_value [VInt n a, VInt m b] = Some (a = b)"
| "icmp_value _ = None"

fun int_value :: "'e rvalue \<Rightarrow> int option" where
  "int_value (VInt n a) = Some a"
| "int_value (VExpr None) = Some 0"
| "int_value _ = None"

definition resize_value :: "ty \<Rightarrow> 'e rvalue list \<Rightarrow> 'e rvalue option" where
  "resize_value t args =
     (case (getIntegerBitWidth t, args) of
        (Some n, [v]) \<Rightarrow> map_option (\<lambda>a. VInt n (take_bit n a)) (int_value v)
      | _ \<Rightarrow> None)"

definition pure_op :: "(fp_kind \<Rightarrow> int \<Rightarrow> int) \<Rightarrow> ir_op \<Rightarrow> ty \<Rightarrow> 'e rvalue list \<Rightarrow> 'e rvalue option" where
  "pure_op to_double opc t args =
     (case opc of
        ICmpEQ \<Rightarrow> map_option (\<lambda>b. VInt 1 (of_bool b)) (icmp_value args)
      | ICmpNE \<Rightarrow> map_option (\<lambda>b. VInt 1 (of_bool (\<not> b))) (icmp_value args)
      | IBoolAnd \<Rightarrow> (case args of [VInt n a, VInt m b] \<Rightarrow> Some (VInt n (of_bool (a \<noteq> 0 \<and> b \<noteq> 0))) | _ \<Rightarrow> None)
      | ISelect \<Rightarrow> (case args of [VInt n c, a, b] \<Rightarrow> Some (if c = 0 then b else a) | _ \<Rightarrow> None)
      | IPtrToInt \<Rightarrow> resize_value t args
      | IZExtOrTrunc \<Rightarrow> resize_value t args
      | ITrunc \<Rightarrow> resize_value t args
      | ILShr \<Rightarrow> (case args of [VInt n a, VInt m k] \<Rightarrow> Some (VInt n (a div 2 ^ nat k)) | _ \<Rightarrow> None)
      | IFPCast \<Rightarrow> (case args of [VFloat k b] \<Rightarrow> Some (VFloat FP_double (to_double k b)) | _ \<Rightarrow> None)
      | IExtractValue i \<Rightarrow> (case args of [VStruct vs] \<Rightarrow> if i < length vs then Some (vs ! i) else None | _ \<Rightarrow> None)
      | _ \<Rightarrow> None)"

type_synonym ('s, 'e) library = "sym_fn \<Rightarrow> 'e rvalue list \<Rightarrow> ('s, 'e rvalue) rt"
type_synonym ('s, 'e, 'a) exec = "('e frame \<times> 's, 'a) rt"

definition on_library :: "('s, 'a) rt \<Rightarrow> ('s, 'e, 'a) exec" where
  "on_library m = (\<lambda>(fr, s). case m s of Inl e \<Rightarrow> Inl e | Inr (x, s') \<Rightarrow> Inr (x, fr, s'))"

definition set_reg :: "nat \<Rightarrow> 'e rvalue \<Rightarrow> ('s, 'e, unit) exec" where
  "set_reg n x = rt_modify (\<lambda>(fr, s). (fr\<lparr>regs := (regs fr)(n := x)\<rparr>, s))"

definition exec_emitted ::
    "(fp_kind \<Rightarrow> int \<Rightarrow> int) \<Rightarrow> ('s, 'e) library \<Rightarrow> emitted \<Rightarrow> ('s, 'e, unit) exec" where
  "exec_emitted to_double R i =
     rt_bind (rt_get fst) (\<lambda>fr.
     let args = map (eval_value fr) (e_args i) in
     case e_op i of
       Call f \<Rightarrow> rt_bind (on_library (R f args)) (\<lambda>x. set_reg (e_name i) x)
     | IAlloca \<Rightarrow> set_reg (e_name i) (VCell (e_name i))
     | ILoad \<Rightarrow> (case args of [VCell n] \<Rightarrow> set_reg (e_name i) (cells fr n) | _ \<Rightarrow> rt_raise Undefined_behaviour)
     | IStore \<Rightarrow> (case args of
           [v, VCell n] \<Rightarrow> rt_modify (\<lambda>(fr, s). (fr\<lparr>cells := (cells fr)(n := v)\<rparr>, s))
         | _ \<Rightarrow> rt_raise Undefined_behaviour)
     | opc \<Rightarrow> (case pure_op to_double opc (e_type i) args of
           None \<Rightarrow> rt_raise Undefined_behaviour
         | Some x \<Rightarrow> set_reg (e_name i) x))"

definition set_phis :: "(expr_phi \<Rightarrow> llvm_value) \<Rightarrow> expr_phi list \<Rightarrow> ('s, 'e, unit) exec" where
  "set_phis incoming phis =
     rt_modify (\<lambda>(fr, s). (fr\<lparr>regs := fold (\<lambda>p r. r(phi_name p := eval_value fr (incoming p))) phis (regs fr)\<rparr>, s))"

fun exec_stmt :: "(fp_kind \<Rightarrow> int \<Rightarrow> int) \<Rightarrow> ('s, 'e) library \<Rightarrow> stmt \<Rightarrow> ('s, 'e, unit) exec"
  and exec_code :: "(fp_kind \<Rightarrow> int \<Rightarrow> int) \<Rightarrow> ('s, 'e) library \<Rightarrow> stmt list \<Rightarrow> ('s, 'e, unit) exec"
  where
  "exec_stmt to_double R (Ins i) = exec_emitted to_double R i"
| "exec_stmt to_double R (Guard p c body phis) =
     rt_bind (rt_get fst) (\<lambda>fr.
     case eval_value fr c of
       VInt n k \<Rightarrow>
         if (k \<noteq> 0) = p then set_phis phi_direct phis
         else rt_bind (exec_code to_double R body) (\<lambda>_. set_phis phi_body phis)
     | _ \<Rightarrow> rt_raise Undefined_behaviour)"
| "exec_code to_double R [] = rt_return ()"
| "exec_code to_double R (x # xs) = rt_bind (exec_stmt to_double R x) (\<lambda>_. exec_code to_double R xs)"

subsection \<open>The library with the simple backend\<close>

type_synonym 'e simple_runtime = "('e simple_state, 'e) runtime"

definition expr_result :: "('e simple_state, 'e option) rt \<Rightarrow> ('e simple_runtime, 'e rvalue) rt" where
  "expr_result m = rt_bind (on_backend m) (\<lambda>e. rt_return (VExpr e))"

definition no_result :: "('s, unit) rt \<Rightarrow> ('s, 'e rvalue) rt" where
  "no_result m = rt_bind m (\<lambda>_. rt_return VVoid)"

text \<open>The shapes of argument lists: expressions, then numbers.\<close>

fun expr_args :: "'e rvalue list \<Rightarrow> 'e option list" where
  "expr_args (VExpr e # args) = e # expr_args args"
| "expr_args _ = []"

fun int_args :: "'e rvalue list \<Rightarrow> int list" where
  "int_args (VInt n k # args) = k # int_args args"
| "int_args (VExpr e # args) = int_args args"
| "int_args _ = []"

definition with_e1 :: "('e option \<Rightarrow> ('s, 'a) rt) \<Rightarrow> 'e rvalue list \<Rightarrow> ('s, 'a) rt" where
  "with_e1 g args = (case expr_args args of [a] \<Rightarrow> g a | _ \<Rightarrow> rt_raise Undefined_behaviour)"

definition with_e2 :: "('e option \<Rightarrow> 'e option \<Rightarrow> ('s, 'a) rt) \<Rightarrow> 'e rvalue list \<Rightarrow> ('s, 'a) rt" where
  "with_e2 g args = (case expr_args args of [a, b] \<Rightarrow> g a b | _ \<Rightarrow> rt_raise Undefined_behaviour)"

definition with_e3 :: "('e option \<Rightarrow> 'e option \<Rightarrow> 'e option \<Rightarrow> ('s, 'a) rt) \<Rightarrow> 'e rvalue list \<Rightarrow> ('s, 'a) rt" where
  "with_e3 g args = (case expr_args args of [a, b, c] \<Rightarrow> g a b c | _ \<Rightarrow> rt_raise Undefined_behaviour)"

definition with_i1 :: "(int \<Rightarrow> ('s, 'a) rt) \<Rightarrow> 'e rvalue list \<Rightarrow> ('s, 'a) rt" where
  "with_i1 g args = (case int_args args of [i] \<Rightarrow> g i | _ \<Rightarrow> rt_raise Undefined_behaviour)"

definition with_i2 :: "(int \<Rightarrow> int \<Rightarrow> ('s, 'a) rt) \<Rightarrow> 'e rvalue list \<Rightarrow> ('s, 'a) rt" where
  "with_i2 g args = (case int_args args of [i, j] \<Rightarrow> g i j | _ \<Rightarrow> rt_raise Undefined_behaviour)"

definition pointers :: "(u64 \<Rightarrow> u64 \<Rightarrow> u64 \<Rightarrow> ('s, 'a) rt) \<Rightarrow> 'e rvalue list \<Rightarrow> ('s, 'a) rt" where
  "pointers g args =
     (case map int_value args of
        [Some a, Some b, Some n] \<Rightarrow> g (of_int a) (of_int b) (of_int n)
      | _ \<Rightarrow> rt_raise Undefined_behaviour)"

fun binary_builder :: "'e z3 \<Rightarrow> binary_op \<Rightarrow> 'e option \<Rightarrow> 'e option \<Rightarrow> ('e simple_state, 'e option) rt" where
  "binary_builder z BAdd = sym_build_binary z SAdd"
| "binary_builder z BSub = sym_build_binary z SSub"
| "binary_builder z BMul = sym_build_binary z SMul"
| "binary_builder z BUDiv = sym_build_binary z SUnsigned_div"
| "binary_builder z BSDiv = sym_build_binary z SSigned_div"
| "binary_builder z BURem = sym_build_binary z SUnsigned_rem"
| "binary_builder z BSRem = sym_build_binary z SSigned_rem"
| "binary_builder z BShl = sym_build_binary z SShift_left"
| "binary_builder z BLShr = sym_build_binary z SLogical_shift_right"
| "binary_builder z BAShr = sym_build_binary z SArithmetic_shift_right"
| "binary_builder z BAnd = sym_build_binary z SAnd"
| "binary_builder z BOr = sym_build_binary z SOr"
| "binary_builder z BXor = sym_build_binary z SXor"
| "binary_builder z BFAdd = sym_build_fp_add z"
| "binary_builder z BFSub = sym_build_fp_sub z"
| "binary_builder z BFMul = sym_build_fp_mul z"
| "binary_builder z BFDiv = sym_build_fp_div z"
| "binary_builder z BFRem = sym_build_fp_rem z"

fun comparison_builder :: "'e z3 \<Rightarrow> predicate \<Rightarrow> 'e option \<Rightarrow> 'e option \<Rightarrow> ('e simple_state, 'e option) rt" where
  "comparison_builder z ICMP_EQ = sym_build_binary z SEqual"
| "comparison_builder z ICMP_NE = sym_build_binary z SNot_equal"
| "comparison_builder z ICMP_UGT = sym_build_binary z SUnsigned_greater_than"
| "comparison_builder z ICMP_UGE = sym_build_binary z SUnsigned_greater_equal"
| "comparison_builder z ICMP_ULT = sym_build_binary z SUnsigned_less_than"
| "comparison_builder z ICMP_ULE = sym_build_binary z SUnsigned_less_equal"
| "comparison_builder z ICMP_SGT = sym_build_binary z SSigned_greater_than"
| "comparison_builder z ICMP_SGE = sym_build_binary z SSigned_greater_equal"
| "comparison_builder z ICMP_SLT = sym_build_binary z SSigned_less_than"
| "comparison_builder z ICMP_SLE = sym_build_binary z SSigned_less_equal"
| "comparison_builder z FCMP_OGT = sym_build_binary z SFloat_ordered_greater_than"
| "comparison_builder z FCMP_OGE = sym_build_binary z SFloat_ordered_greater_equal"
| "comparison_builder z FCMP_OLT = sym_build_binary z SFloat_ordered_less_than"
| "comparison_builder z FCMP_OLE = sym_build_binary z SFloat_ordered_less_equal"
| "comparison_builder z FCMP_OEQ = sym_build_binary z SFloat_ordered_equal"
| "comparison_builder z FCMP_ONE = sym_build_float_ordered_not_equal z"
| "comparison_builder z FCMP_ORD = sym_build_float_ordered z"
| "comparison_builder z FCMP_UNO = sym_build_float_unordered z"
| "comparison_builder z FCMP_UGT = sym_build_float_unordered_greater_than z"
| "comparison_builder z FCMP_UGE = sym_build_float_unordered_greater_equal z"
| "comparison_builder z FCMP_ULT = sym_build_float_unordered_less_than z"
| "comparison_builder z FCMP_ULE = sym_build_float_unordered_less_equal z"
| "comparison_builder z FCMP_UEQ = sym_build_float_unordered_equal z"
| "comparison_builder z FCMP_UNE = sym_build_float_unordered_not_equal z"
| "comparison_builder z _ = (\<lambda>a b. rt_raise Undefined_behaviour)"

text \<open>
  Every imported name, bound to the function of that name in the library. The builders for
  mathematical integers and for \<open>float\<close> are imported but never called by the instrumentation.
\<close>

primrec simple_call :: "'e z3 \<Rightarrow> sym_fn \<Rightarrow> 'e rvalue list \<Rightarrow> ('e simple_runtime, 'e rvalue) rt" where
  "simple_call z BuildInteger = (\<lambda>args. with_i2 (\<lambda>v w. expr_result (sym_build_integer z (of_int v) (of_int w))) args)"
| "simple_call z BuildInteger128 = (\<lambda>args. with_i2 (\<lambda>h l. expr_result (sym_build_integer128 z (of_int h) (of_int l))) args)"
| "simple_call z BuildFloat = (\<lambda>args. case args of
       [VFloat k b, VInt n d] \<Rightarrow> expr_result (sym_build_float z (of_int b) (d \<noteq> 0))
     | _ \<Rightarrow> rt_raise Undefined_behaviour)"
| "simple_call z BuildNullPointer = (\<lambda>args. expr_result sym_build_null_pointer)"
| "simple_call z BuildTrue = (\<lambda>args. expr_result sym_build_true)"
| "simple_call z BuildFalse = (\<lambda>args. expr_result sym_build_false)"
| "simple_call z BuildBool = (\<lambda>args. with_i1 (\<lambda>b. expr_result (sym_build_bool (b \<noteq> 0))) args)"
| "simple_call z BuildSExt = (\<lambda>args. with_e1 (\<lambda>e. with_i1 (\<lambda>w. expr_result (sym_build_sext z e (of_int w))) args) args)"
| "simple_call z BuildZExt = (\<lambda>args. with_e1 (\<lambda>e. with_i1 (\<lambda>w. expr_result (sym_build_zext z e (of_int w))) args) args)"
| "simple_call z BuildTrunc = (\<lambda>args. with_e1 (\<lambda>e. with_i1 (\<lambda>w. expr_result (sym_build_trunc z e (of_int w))) args) args)"
| "simple_call z BuildBswap = (\<lambda>args. with_e1 (\<lambda>e. expr_result (sym_build_bswap (simple_backend z) e)) args)"
| "simple_call z BuildIntToFloat = (\<lambda>args. with_e1 (\<lambda>e. with_i2 (\<lambda>d s. expr_result (sym_build_int_to_float z e (d \<noteq> 0) (s \<noteq> 0))) args) args)"
| "simple_call z BuildFloatToFloat = (\<lambda>args. with_e1 (\<lambda>e. with_i1 (\<lambda>d. expr_result (sym_build_float_to_float z e (d \<noteq> 0))) args) args)"
| "simple_call z BuildBitsToFloat = (\<lambda>args. with_e1 (\<lambda>e. with_i1 (\<lambda>d. expr_result (sym_build_bits_to_float z e (d \<noteq> 0))) args) args)"
| "simple_call z BuildFloatToBits = (\<lambda>args. with_e1 (\<lambda>e. expr_result (sym_build_float_to_bits z e)) args)"
| "simple_call z BuildFloatToSignedInt = (\<lambda>args. with_e1 (\<lambda>e. with_i1 (\<lambda>w. expr_result (sym_build_float_to_signed_integer z e (of_int w))) args) args)"
| "simple_call z BuildFloatToUnsignedInt = (\<lambda>args. with_e1 (\<lambda>e. with_i1 (\<lambda>w. expr_result (sym_build_float_to_unsigned_integer z e (of_int w))) args) args)"
| "simple_call z BuildFloatAbs = (\<lambda>args. with_e1 (\<lambda>e. expr_result (sym_build_fp_abs z e)) args)"
| "simple_call z BuildBoolAnd = (\<lambda>args. with_e2 (\<lambda>a b. expr_result (sym_build_binary z SBool_and a b)) args)"
| "simple_call z BuildBoolOr = (\<lambda>args. with_e2 (\<lambda>a b. expr_result (sym_build_binary z SBool_or a b)) args)"
| "simple_call z BuildBoolXor = (\<lambda>args. with_e2 (\<lambda>a b. expr_result (sym_build_binary z SBool_xor a b)) args)"
| "simple_call z BuildBoolToBit = (\<lambda>args. with_e1 (\<lambda>e. expr_result (sym_build_bool_to_bit z e)) args)"
| "simple_call z BuildBitToBool = (\<lambda>args. with_e1 (\<lambda>e. expr_result (sym_build_bit_to_bool (simple_backend z) e)) args)"
| "simple_call z BuildConcat = (\<lambda>args. with_e2 (\<lambda>a b. expr_result (sym_concat_helper z a b)) args)"
| "simple_call z PushPathConstraint = (\<lambda>args. with_e1 (\<lambda>e. with_i2 (\<lambda>taken site. no_result (on_backend (sym_push_path_constraint e (taken \<noteq> 0) (of_int site)))) args) args)"
| "simple_call z PushPathConstraintWithLoc = (\<lambda>args. case args of
       [VExpr e, VInt n taken, VInt m site, VString filename, VInt k line, VInt l slot] \<Rightarrow>
         no_result (on_backend (sym_push_path_constraint_with_loc z e taken (of_int site) filename
           (sint (of_int line :: 32 word)) (sint (of_int slot :: 32 word))))
     | _ \<Rightarrow> rt_raise Undefined_behaviour)"
| "simple_call z BuildAddOverflow = (\<lambda>args. with_e2 (\<lambda>a b. with_i2 (\<lambda>s le. expr_result (sym_build_add_overflow (simple_backend z) a b (s \<noteq> 0) (le \<noteq> 0))) args) args)"
| "simple_call z BuildSubOverflow = (\<lambda>args. with_e2 (\<lambda>a b. with_i2 (\<lambda>s le. expr_result (sym_build_sub_overflow (simple_backend z) a b (s \<noteq> 0) (le \<noteq> 0))) args) args)"
| "simple_call z BuildMulOverflow = (\<lambda>args. with_e2 (\<lambda>a b. with_i2 (\<lambda>s le. expr_result (sym_build_mul_overflow (simple_backend z) a b (s \<noteq> 0) (le \<noteq> 0))) args) args)"
| "simple_call z BuildSAddSat = (\<lambda>args. with_e2 (\<lambda>a b. expr_result (sym_build_sadd_sat (simple_backend z) a b)) args)"
| "simple_call z BuildUAddSat = (\<lambda>args. with_e2 (\<lambda>a b. expr_result (sym_build_uadd_sat (simple_backend z) a b)) args)"
| "simple_call z BuildSSubSat = (\<lambda>args. with_e2 (\<lambda>a b. expr_result (sym_build_ssub_sat (simple_backend z) a b)) args)"
| "simple_call z BuildUSubSat = (\<lambda>args. with_e2 (\<lambda>a b. expr_result (sym_build_usub_sat (simple_backend z) a b)) args)"
| "simple_call z BuildSShlSat = (\<lambda>args. with_e2 (\<lambda>a b. expr_result (sym_build_sshl_sat (simple_backend z) a b)) args)"
| "simple_call z BuildUShlSat = (\<lambda>args. with_e2 (\<lambda>a b. expr_result (sym_build_ushl_sat (simple_backend z) a b)) args)"
| "simple_call z BuildFshl = (\<lambda>args. with_e3 (\<lambda>a b c. expr_result (sym_build_funnel_shift_left (simple_backend z) a b c)) args)"
| "simple_call z BuildFshr = (\<lambda>args. with_e3 (\<lambda>a b c. expr_result (sym_build_funnel_shift_right (simple_backend z) a b c)) args)"
| "simple_call z BuildAbs = (\<lambda>args. with_e1 (\<lambda>e. expr_result (sym_build_abs (simple_backend z) e)) args)"
| "simple_call z SetParameterExpression = (\<lambda>args. case args of
       [VInt n k, VExpr e] \<Rightarrow> no_result (sym_set_parameter_expression (of_int k) e)
     | _ \<Rightarrow> rt_raise Undefined_behaviour)"
| "simple_call z GetParameterExpression = (\<lambda>args. with_i1 (\<lambda>k. rt_bind (sym_get_parameter_expression (of_int k)) (\<lambda>e. rt_return (VExpr e))) args)"
| "simple_call z SetReturnExpression = (\<lambda>args. with_e1 (\<lambda>e. no_result (sym_set_return_expression e)) args)"
| "simple_call z GetReturnExpression = (\<lambda>args. rt_bind sym_get_return_expression (\<lambda>e. rt_return (VExpr e)))"
| "simple_call z LocalizeBranchInstruction = (\<lambda>args. case args of
       [VString filename, VInt n line] \<Rightarrow>
         no_result (on_backend (sym_localize_branch_instruction filename (sint (of_int line :: 32 word))))
     | _ \<Rightarrow> rt_raise Undefined_behaviour)"
| "simple_call z (BinaryOperatorHandler opc) = (\<lambda>args. with_e2 (\<lambda>a b. expr_result (binary_builder z opc a b)) args)"
| "simple_call z (BinaryOperatorHandlerForInt opc) = (\<lambda>args. rt_raise Undefined_behaviour)"
| "simple_call z (BinaryOperatorHandlerForFloat opc) = (\<lambda>args. rt_raise Undefined_behaviour)"
| "simple_call z UnaryOperatorHandler = (\<lambda>args. with_e1 (\<lambda>e. expr_result (sym_build_fp_neg z e)) args)"
| "simple_call z (ComparisonHandler p) = (\<lambda>args. with_e2 (\<lambda>a b. expr_result (comparison_builder z p a b)) args)"
| "simple_call z Memcpy = (\<lambda>args. pointers (\<lambda>d s n. no_result (sym_memcpy d s n)) args)"
| "simple_call z Memset = (\<lambda>args. case args of
       [d, VExpr v, n] \<Rightarrow> (case (int_value d, int_value n) of
           (Some d, Some n) \<Rightarrow> no_result (sym_memset (of_int d) v (of_int n))
         | _ \<Rightarrow> rt_raise Undefined_behaviour)
     | _ \<Rightarrow> rt_raise Undefined_behaviour)"
| "simple_call z Memmove = (\<lambda>args. pointers (\<lambda>d s n. no_result (sym_memmove d s n)) args)"
| "simple_call z ReadMemory = (\<lambda>args. case args of
       [VInt n addr, VInt m len, VInt k le] \<Rightarrow>
         rt_bind (sym_read_memory (simple_backend z) (of_int addr) (of_int len) (le \<noteq> 0)) (\<lambda>e. rt_return (VExpr e))
     | _ \<Rightarrow> rt_raise Undefined_behaviour)"
| "simple_call z WriteMemory = (\<lambda>args. case args of
       [VInt n addr, VInt m len, VExpr e, VInt k le] \<Rightarrow>
         no_result (sym_write_memory (simple_backend z) (of_int addr) (of_int len) e (le \<noteq> 0))
     | _ \<Rightarrow> rt_raise Undefined_behaviour)"
| "simple_call z BuildZeroBytes = (\<lambda>args. with_i1 (\<lambda>n. expr_result (sym_build_zero_bytes (simple_backend z) (nat n))) args)"
| "simple_call z BuildInsert = (\<lambda>args. with_e2 (\<lambda>a b. with_i2 (\<lambda>off le. expr_result (sym_build_insert (simple_backend z) a b (nat off) (le \<noteq> 0))) args) args)"
| "simple_call z BuildExtract = (\<lambda>args. case args of
       [VExpr e, VInt n off, VInt m len, VInt k le] \<Rightarrow>
         expr_result (sym_build_extract (simple_backend z) e (nat off) (nat len) (le \<noteq> 0))
     | _ \<Rightarrow> rt_raise Undefined_behaviour)"
| "simple_call z NotifyCall = (\<lambda>args. rt_return VVoid)"
| "simple_call z NotifyRet = (\<lambda>args. rt_return VVoid)"
| "simple_call z NotifyBasicBlock = (\<lambda>args. rt_return VVoid)"

end
