(* ===== verification/Staging.thy ===== *)
theory Staging
  imports IR_Exec
begin

text \<open>
  Reasoning about code that is built now and run later. \<open>builds\<close> is a Hoare triple across the two
  stages: the builder succeeds, only appends code, and running the appended code from the given frame
  and library state ends in a state with the postcondition, without touching a register that had a
  name before. Sequencing the builder sequences the code, so the rules follow the builder's monad.
\<close>

named_theorems frame_simps "values in frames"

subsection \<open>Names and frames\<close>

fun below :: "nat \<Rightarrow> llvm_value \<Rightarrow> bool" where
  "below k (Inst t n) = (n < k)"
| "below k (ConstantStruct vs) = (\<forall>v \<in> set vs. below k v)"
| "below k _ = True"

lemma below_mono: "below k v \<Longrightarrow> k \<le> k' \<Longrightarrow> below k' v"
  by (induction k v rule: below.induct) auto

definition agree :: "nat \<Rightarrow> 'e frame \<Rightarrow> 'e frame \<Rightarrow> bool" where
  "agree k fr fr' \<longleftrightarrow> leaves fr' = leaves fr \<and> cells fr' = cells fr \<and> (\<forall>n < k. regs fr' n = regs fr n)"

lemma agree_refl [simp]: "agree k fr fr"
  by (simp add: agree_def)

lemma agree_trans: "agree k fr fr' \<Longrightarrow> agree k' fr' fr'' \<Longrightarrow> k \<le> k' \<Longrightarrow> agree k fr fr''"
  by (simp add: agree_def)

lemma agree_mono: "agree k fr fr' \<Longrightarrow> j \<le> k \<Longrightarrow> agree j fr fr'"
  by (simp add: agree_def)

lemma agree_eval: "below k v \<Longrightarrow> agree k fr fr' \<Longrightarrow> eval_value fr' v = eval_value fr v"
  by (induction k v rule: below.induct) (auto simp: agree_def)

abbreviation set_register :: "'e frame \<Rightarrow> nat \<Rightarrow> 'e rvalue \<Rightarrow> 'e frame" where
  "set_register fr n x \<equiv> fr\<lparr>regs := (regs fr)(n := x)\<rparr>"

lemma agree_set [simp]: "k \<le> n \<Longrightarrow> agree k fr (set_register fr n x)"
  by (simp add: agree_def)

lemma agree_set_trans: "agree k fr fr' \<Longrightarrow> k \<le> n \<Longrightarrow> agree k fr (set_register fr' n x)"
  by (simp add: agree_def)

lemma eval_set_below [frame_simps]: "below k v \<Longrightarrow> k \<le> n \<Longrightarrow> eval_value (set_register fr n x) v = eval_value fr v"
  using agree_eval agree_set by blast

subsection \<open>Sequencing\<close>

lemma rt_bind_assoc: "rt_bind (rt_bind m f) g = rt_bind m (\<lambda>x. rt_bind (f x) g)"
  by (auto simp: fun_eq_iff rt_bind_def split: sum.splits)

lemma rt_bind_return_right [simp]: "rt_bind m rt_return = m" "rt_bind m (\<lambda>x. rt_return x) = m"
  by (auto simp: fun_eq_iff rt_bind_def rt_return_def split: sum.splits)

lemma exec_code_append: "exec_code D R (xs @ ys) = rt_bind (exec_code D R xs) (\<lambda>_. exec_code D R ys)"
  by (induction xs) (simp_all add: rt_bind_assoc)

text \<open>What a builder of straight-line code may change: the code grows, names are used up.\<close>

definition emits :: "symbolizer \<Rightarrow> symbolizer \<Rightarrow> stmt list \<Rightarrow> bool" where
  "emits st st' new \<longleftrightarrow>
     st' = st\<lparr>code := code st @ new, next_name := next_name st'\<rparr> \<and> next_name st \<le> next_name st'"

lemma emits_refl [simp]: "emits st st []"
  by (simp add: emits_def)

lemma emits_trans:
  assumes "emits st st' xs" "emits st' st'' ys"
  shows "emits st st'' (xs @ ys)"
proof -
  obtain n' n'' where "st' = st\<lparr>code := code st @ xs, next_name := n'\<rparr>" "next_name st \<le> n'"
    "st'' = st'\<lparr>code := code st' @ ys, next_name := n''\<rparr>" "next_name st' \<le> n''"
    using assms unfolding emits_def by blast
  then show ?thesis by (simp add: emits_def)
qed

definition same_env :: "symbolizer \<Rightarrow> symbolizer \<Rightarrow> bool" where
  "same_env st st' \<longleftrightarrow> symbolicExpressions st' = symbolicExpressions st \<and> inserted st' = inserted st \<and>
     expressionUses st' = expressionUses st \<and> next_name st \<le> next_name st'"

lemma emits_same_env: "emits st st' xs \<Longrightarrow> same_env st st'"
proof -
  assume "emits st st' xs"
  then obtain n where "st' = st\<lparr>code := code st @ xs, next_name := n\<rparr>" "next_name st \<le> n"
    unfolding emits_def by blast
  then show ?thesis by (simp add: same_env_def)
qed

lemma same_env_trans: "same_env st st' \<Longrightarrow> same_env st' st'' \<Longrightarrow> same_env st st''"
  by (simp add: same_env_def)

subsection \<open>Triples\<close>

definition builds ::
    "(fp_kind \<Rightarrow> int \<Rightarrow> int) \<Rightarrow> ('s, 'e) library \<Rightarrow> 'a build \<Rightarrow> symbolizer \<Rightarrow> 'e frame \<Rightarrow> 's \<Rightarrow>
     ('a \<Rightarrow> symbolizer \<Rightarrow> 'e frame \<Rightarrow> 's \<Rightarrow> bool) \<Rightarrow> bool" where
  "builds D R m st fr s P \<longleftrightarrow>
     (\<exists>v st' new. m st = Inr (v, st') \<and> emits st st' new \<and>
       rt_ok (exec_code D R new) (fr, s) (\<lambda>_ (fr', s'). agree (next_name st) fr fr' \<and> P v st' fr' s'))"

lemma builds_mono:
  "builds D R m st fr s P \<Longrightarrow>
   (\<And>v st' fr' s'. same_env st st' \<Longrightarrow> agree (next_name st) fr fr' \<Longrightarrow> P v st' fr' s' \<Longrightarrow> Q v st' fr' s') \<Longrightarrow>
   builds D R m st fr s Q"
  unfolding builds_def by (fastforce intro: rt_ok_mono emits_same_env)

lemma builds_return: "P v st fr s \<Longrightarrow> builds D R (rt_return v) st fr s P"
  unfolding builds_def by (rule exI [of _ v], rule exI [of _ st], rule exI [of _ "[]"])
    (simp add: rt_return_def rt_simps)

lemma builds_get: "P (f st) st fr s \<Longrightarrow> builds D R (rt_get f) st fr s P"
  unfolding builds_def by (rule exI [of _ "f st"], rule exI [of _ st], rule exI [of _ "[]"])
    (simp add: rt_get_def rt_simps)

lemma builds_assert: "b \<Longrightarrow> P () st fr s \<Longrightarrow> builds D R (rt_assert msg b) st fr s P"
  by (simp add: rt_assert_def builds_return)

lemma builds_bind:
  assumes "builds D R m st fr s P"
    and "\<And>v st' fr' s'. same_env st st' \<Longrightarrow> agree (next_name st) fr fr' \<Longrightarrow> P v st' fr' s' \<Longrightarrow>
      builds D R (k v) st' fr' s' Q"
  shows "builds D R (rt_bind m k) st fr s Q"
proof -
  obtain v st' new where m: "m st = Inr (v, st')" "emits st st' new"
    and run: "rt_ok (exec_code D R new) (fr, s) (\<lambda>_ (fr', s'). agree (next_name st) fr fr' \<and> P v st' fr' s')"
    using assms(1) by (auto simp: builds_def)
  obtain fr' s' where 1: "exec_code D R new (fr, s) = Inr ((), fr', s')" "agree (next_name st) fr fr'" "P v st' fr' s'"
    using run by (auto simp: rt_ok_def)
  obtain w st'' new' where 2: "k v st' = Inr (w, st'')" "emits st' st'' new'"
    and run': "rt_ok (exec_code D R new') (fr', s')
      (\<lambda>_ (fr'', s''). agree (next_name st') fr' fr'' \<and> Q w st'' fr'' s'')"
    using assms(2) [OF emits_same_env [OF m(2)] 1(2,3)] by (auto simp: builds_def)
  have le: "next_name st \<le> next_name st'" using m(2) by (simp add: emits_def)
  have "rt_ok (exec_code D R (new @ new')) (fr, s)
      (\<lambda>_ (fr'', s''). agree (next_name st) fr fr'' \<and> Q w st'' fr'' s'')"
    unfolding exec_code_append rt_ok_bind
    using 1 run' le by (auto simp: rt_ok_def intro: agree_trans)
  then show ?thesis
    unfolding builds_def using m 2 emits_trans [OF m(2) 2(2)] by (auto simp: rt_bind_def)
qed

lemma builds_emit:
  assumes "pure_op D opc t (map (eval_value fr) args) = Some x"
    and "\<And>st'. next_name st' = Suc (next_name st) \<Longrightarrow> same_env st st' \<Longrightarrow>
      P (Inst t (next_name st)) st' (set_register fr (next_name st) x) s"
  shows "builds D R (emit opc t args) st fr s P"
proof -
  let ?i = "\<lparr>e_name = next_name st, e_type = t, e_op = opc, e_args = args\<rparr>"
  let ?st = "st\<lparr>next_name := Suc (next_name st), code := code st @ [Ins ?i]\<rparr>"
  have op: "opc \<noteq> IAlloca" "opc \<noteq> ILoad" "opc \<noteq> IStore" "\<And>f. opc \<noteq> Call f"
    using assms(1) by (auto simp: pure_op_def)
  have run: "exec_emitted D R ?i (fr, s) = Inr ((), set_register fr (next_name st) x, s)"
    using assms(1) op
    by (cases opc) (auto simp: exec_emitted_def rt_bind_def rt_get_def set_reg_def rt_modify_def pure_op_def)
  have e: "emit opc t args st = Inr (Inst t (next_name st), ?st)"
    by (simp add: emit_def fresh_def rt_bind_def rt_get_def rt_modify_def rt_return_def)
  have "emits st ?st [Ins ?i]" by (simp add: emits_def)
  then show ?thesis
    unfolding builds_def using e run assms(2) [of ?st] emits_same_env [of st ?st]
    by (auto simp: rt_ok_def rt_bind_def rt_return_def)
qed

lemma builds_call:
  assumes "call_type dl f = Some t"
    and "rt_ok (R f (map (eval_value fr) args)) s (\<lambda>x s'. \<forall>st'. next_name st' = Suc (next_name st) \<longrightarrow>
      same_env st st' \<longrightarrow> P (Inst t (next_name st)) st' (set_register fr (next_name st) x) s')"
  shows "builds D R (CreateCall dl f args) st fr s P"
proof -
  let ?i = "\<lparr>e_name = next_name st, e_type = t, e_op = Call f, e_args = args\<rparr>"
  let ?st = "st\<lparr>next_name := Suc (next_name st), code := code st @ [Ins ?i]\<rparr>"
  obtain x s' where x: "R f (map (eval_value fr) args) s = Inr (x, s')"
    "P (Inst t (next_name st)) ?st (set_register fr (next_name st) x) s'"
    using assms(2) by (auto simp: rt_ok_def same_env_def)
  have run: "exec_emitted D R ?i (fr, s) = Inr ((), set_register fr (next_name st) x, s')"
    using x(1) by (simp add: exec_emitted_def rt_bind_def rt_get_def set_reg_def rt_modify_def on_library_def)
  have e: "CreateCall dl f args st = Inr (Inst t (next_name st), ?st)"
    using assms(1) by (simp add: CreateCall_def emit_def fresh_def rt_bind_def rt_get_def rt_modify_def rt_return_def)
  have "emits st ?st [Ins ?i]" by (simp add: emits_def)
  then show ?thesis
    unfolding builds_def using e run x(2) by (auto simp: rt_ok_def rt_bind_def rt_return_def)
qed

text \<open>An instruction followed by more code.\<close>

lemma builds_emit_bind:
  assumes "pure_op D opc t (map (eval_value fr) args) = Some x"
    and "\<And>st'. next_name st' = Suc (next_name st) \<Longrightarrow> same_env st st' \<Longrightarrow>
      builds D R (k (Inst t (next_name st))) st' (set_register fr (next_name st) x) s Q"
  shows "builds D R (rt_bind (emit opc t args) k) st fr s Q"
  by (rule builds_bind [where P = "\<lambda>v st' fr' s'. v = Inst t (next_name st) \<and> next_name st' = Suc (next_name st) \<and>
      fr' = set_register fr (next_name st) x \<and> s' = s"], rule builds_emit [OF assms(1)])
    (use assms(2) in auto)

end
