(* ===== verification/Value_Exprs.thy ===== *)
theory Value_Exprs
  imports Staging Simple_Inputs
begin

text \<open>
  \<open>createValueExpression\<close> does what its name says: run with the simple backend, the code it emits for an
  integer or a pointer yields an expression that denotes the concrete value.
\<close>

subsection \<open>Types of calls\<close>

lemma call_type_builders [simp]:
  "call_type dl BuildInteger = Some PointerTy" "call_type dl BuildInteger128 = Some PointerTy"
  "call_type dl BuildBool = Some PointerTy" "call_type dl BuildNullPointer = Some PointerTy"
  "call_type dl BuildSExt = Some PointerTy" "call_type dl BuildZExt = Some PointerTy"
  "call_type dl BuildTrunc = Some PointerTy" "call_type dl BuildBoolToBit = Some PointerTy"
  "call_type dl BuildBitToBool = Some PointerTy" "call_type dl BuildConcat = Some PointerTy"
  "call_type dl BuildBswap = Some PointerTy" "call_type dl BuildBoolAnd = Some PointerTy"
  "call_type dl BuildBoolOr = Some PointerTy" "call_type dl BuildBoolXor = Some PointerTy"
  by (simp_all add: call_type_def runtime_member_groups builder_imports_def Let_def)

lemma call_type_handlers [simp]: "call_type dl (BinaryOperatorHandler opc) = Some PointerTy"
  using member_operator [of dl opc] by (auto simp: call_type_def)

lemma call_type_comparisons [simp]:
  "p \<noteq> FCMP_FALSE \<Longrightarrow> p \<noteq> FCMP_TRUE \<Longrightarrow> call_type dl (ComparisonHandler p) = Some PointerTy"
  using member_comparison(1) [of p dl] by (auto simp: call_type_def)

subsection \<open>The constants of the backend\<close>

definition constants :: "'e simple_state \<Rightarrow> 'e option \<times> 'e option \<times> 'e option" where
  "constants s = (g_true s, g_false s, g_null_pointer s)"

definition keeping :: "('e simple_state, 'a) rt \<Rightarrow> bool" where
  "keeping m \<longleftrightarrow> (\<forall>s. rt_post m s (\<lambda>_ s'. constants s' = constants s))"

named_theorems keeping_rules "operations that keep the constants of the backend"

lemma keeping_basic [keeping_rules]:
  "keeping (rt_return x)" "keeping (rt_raise e)" "keeping (rt_get f)" "keeping (rt_assert msg b)"
  "keeping (z3_call c)" "keeping (inc_ref r)" "keeping (dec_ref r)"
  by (simp_all add: keeping_def post_simps inc_ref_def dec_ref_def constants_def)

lemma keeping_bind [keeping_rules]: "keeping m \<Longrightarrow> (\<And>x. keeping (f x)) \<Longrightarrow> keeping (rt_bind m f)"
  unfolding keeping_def rt_post_bind by (auto simp: rt_post_def)

lemma keeping_if [keeping_rules]: "keeping m1 \<Longrightarrow> keeping m2 \<Longrightarrow> keeping (if b then m1 else m2)"
  by simp

lemma keeping_option [keeping_rules]:
  "keeping m \<Longrightarrow> (\<And>x. keeping (f x)) \<Longrightarrow> keeping (case r of None \<Rightarrow> m | Some x \<Rightarrow> f x)"
  by (cases r) simp_all

lemma keeping_register [keeping_rules]: "keeping (registerExpression e)"
  by (simp add: keeping_def registerExpression_def post_simps inc_ref_def constants_def)

lemma keeping_z3 [keeping_rules]: "keeping (of_z3 r)" "keeping (z3_mk z op xs)"
  unfolding of_z3_def z3_mk_def by (intro keeping_rules)+

lemma keeping_calls [keeping_rules]:
  "keeping m \<Longrightarrow> (\<And>x. keeping (f x)) \<Longrightarrow> keeping (rt_call1 f m)"
  "keeping m1 \<Longrightarrow> keeping m2 \<Longrightarrow> (\<And>x y. keeping (g x y)) \<Longrightarrow> keeping (rt_call2 g m1 m2)"
  "keeping m1 \<Longrightarrow> keeping m2 \<Longrightarrow> keeping m3 \<Longrightarrow> (\<And>x y w. keeping (h x y w)) \<Longrightarrow> keeping (rt_call3 h m1 m2 m3)"
  unfolding rt_call1_def rt_call2_def rt_call3_def by (intro keeping_rules; assumption)+

lemma keeping_builders [keeping_rules]:
  "keeping (build z op xs)" "keeping m \<Longrightarrow> keeping (with_sort srt m)"
  unfolding build_def with_sort_def by (intro keeping_rules; assumption?)+

lemma keeping_simple [keeping_rules]:
  "keeping (sym_build_integer z v w)" "keeping (sym_build_integer128 z h l)"
  "keeping (sym_build_bool b)" "keeping sym_build_null_pointer"
  "keeping (sym_build_binary z op x y)" "keeping (sym_build_ite z x y e)"
  "keeping (sym_build_sext z x w)" "keeping (sym_build_zext z x w)" "keeping (sym_build_trunc z x w)"
  "keeping (sym_concat_helper z x y)" "keeping (sym_extract_helper z x hi lo)" "keeping (sym_bits_helper z x)"
  unfolding sym_build_integer_def sym_build_integer128_def sym_build_bool_def sym_build_null_pointer_def
    sym_build_binary_def sym_build_not_equal_def sym_build_not_def sym_build_ite_def sym_build_sext_def sym_build_zext_def sym_build_trunc_def
    sym_concat_helper_def sym_extract_helper_def sym_bits_helper_def
  by (intro keeping_rules)+

lemma keeping_bool_to_bit [keeping_rules]: "keeping (sym_build_bool_to_bit z x)"
  unfolding sym_build_bool_to_bit_def by (intro keeping_rules)

lemma keeping_bit_to_bool [keeping_rules]: "keeping (sym_build_bit_to_bool (simple_backend z) x)"
  by (simp add: sym_build_bit_to_bool_def simple_backend_def keeping_rules)

subsection \<open>Calls that build expressions\<close>

definition lib_step :: "'e simple_runtime \<Rightarrow> 'e simple_runtime \<Rightarrow> bool" where
  "lib_step s s' \<longleftrightarrow> s' = s\<lparr>backend_state := backend_state s'\<rparr> \<and>
     live_exprs (backend_state s) \<subseteq> live_exprs (backend_state s') \<and>
     constants (backend_state s') = constants (backend_state s)"

lemma lib_step_refl [simp]: "lib_step s s"
  by (simp add: lib_step_def)

lemma lib_step_trans: "lib_step s s' \<Longrightarrow> lib_step s' s'' \<Longrightarrow> lib_step s s''"
proof -
  assume "lib_step s s'" "lib_step s' s''"
  then obtain b' b'' where "s' = s\<lparr>backend_state := b'\<rparr>" "s'' = s'\<lparr>backend_state := b''\<rparr>"
    "live_exprs (backend_state s) \<subseteq> live_exprs b'" "live_exprs b' \<subseteq> live_exprs b''"
    "constants b' = constants (backend_state s)" "constants b'' = constants b'"
    unfolding lib_step_def by (metis runtime.simps(11) runtime.select_convs(11) runtime.update_convs(11))
  then show ?thesis by (auto simp: lib_step_def)
qed

definition expr_value :: "('m \<Rightarrow> 'e \<Rightarrow> smt_value) \<Rightarrow> 'e simple_runtime \<Rightarrow> 'e rvalue \<Rightarrow> ('m \<Rightarrow> smt_value) \<Rightarrow> bool" where
  "expr_value sem s x F \<longleftrightarrow> (\<exists>e. x = VExpr (Some e) \<and> e \<in> live_exprs (backend_state s) \<and> (\<forall>\<sigma>. sem \<sigma> e = F \<sigma>))"

lemma expr_value_step: "expr_value sem s x F \<Longrightarrow> lib_step s s' \<Longrightarrow> expr_value sem s' x F"
  by (auto simp: expr_value_def lib_step_def)

lemma expr_call:
  assumes "denotes live_exprs sem m (backend_state s) F" "keeping m"
  shows "rt_ok (expr_result m) s (\<lambda>x s'. lib_step s s' \<and> expr_value sem s' x F)"
proof -
  obtain e b where b: "m (backend_state s) = Inr (Some e, b)" "e \<in> live_exprs b"
    "live_exprs (backend_state s) \<subseteq> live_exprs b" "\<And>\<sigma>. sem \<sigma> e = F \<sigma>"
    using assms(1) by (rule denotesE) blast
  moreover have "constants b = constants (backend_state s)"
    using assms(2) b(1) by (auto simp: keeping_def rt_post_def)
  ultimately show ?thesis
    by (simp add: expr_result_def rt_ok_def rt_bind_def on_backend_def rt_return_def lib_step_def expr_value_def)
qed

text \<open>The library after \<open>_sym_initialize\<close>: the constants exist and are referenced.\<close>

definition ready :: "'e z3 \<Rightarrow> ('m \<Rightarrow> 'e \<Rightarrow> smt_value) \<Rightarrow> 'e simple_runtime \<Rightarrow> bool" where
  "ready z sem s \<longleftrightarrow>
     (\<exists>t f n. constants (backend_state s) = (Some t, Some f, Some n) \<and>
       {t, f, n} \<subseteq> live_exprs (backend_state s) \<and>
       (\<forall>\<sigma>. sem \<sigma> t = BoolV True \<and> sem \<sigma> f = BoolV False \<and> sem \<sigma> n = BVV 64 0))"

lemma ready_step: "ready z sem s \<Longrightarrow> lib_step s s' \<Longrightarrow> ready z sem s'"
  unfolding ready_def lib_step_def by (metis subset_trans)

lemma ready_bool: "ready z sem s \<Longrightarrow> denotes live_exprs sem (sym_build_bool b) (backend_state s) (\<lambda>_. BoolV b)"
  by (auto simp: ready_def denotes_def sym_build_bool_def constants_def rt_simps)

lemma ready_null: "ready z sem s \<Longrightarrow> denotes live_exprs sem sym_build_null_pointer (backend_state s) (\<lambda>_. BVV 64 0)"
  by (auto simp: ready_def denotes_def sym_build_null_pointer_def constants_def rt_simps)

subsection \<open>Concrete values\<close>

text \<open>The value that an expression of a given type has to denote; pointers have \<open>ptrBits\<close> bits.\<close>

fun smt_of :: "nat \<Rightarrow> ty \<Rightarrow> 'e rvalue \<Rightarrow> smt_value option" where
  "smt_of ptrBits (IntegerTy n) (VInt m k) =
     (if 0 < n \<and> 0 \<le> k \<and> k < 2 ^ n then
        if n = 1 then Some (BoolV (k \<noteq> 0))
        else if n \<le> 64 \<or> n = 128 then Some (BVV n k) else None
      else None)"
| "smt_of ptrBits PointerTy (VInt m k) =
     (if 0 < ptrBits \<and> ptrBits \<le> 64 \<and> 0 \<le> k \<and> k < 2 ^ ptrBits then Some (BVV ptrBits k) else None)"
| "smt_of ptrBits PointerTy (VExpr None) = (if ptrBits = 64 then Some (BVV 64 0) else None)"
| "smt_of ptrBits _ _ = None"

lemma take_bit_small: "0 \<le> k \<Longrightarrow> k < 2 ^ n \<Longrightarrow> n \<le> m \<Longrightarrow> take_bit m k = (k::int)"
  by (simp add: take_bit_int_eq_self order_less_le_trans power_increasing)

lemma unat_bits: "w \<le> 255 \<Longrightarrow> unat (of_int (take_bit 8 (int w)) :: u8) = w"
  by (simp add: take_bit_int_eq_self unat_of_nat take_bit_nat_eq_self)

lemma uint_word64: "0 \<le> k \<Longrightarrow> k < 2 ^ 64 \<Longrightarrow> uint (of_int k :: u64) = k"
  by (simp add: uint_word_of_int_eq take_bit_int_eq_self)

context z3_laws
begin

lemma integer_call:
  assumes "0 < w" "w \<le> 64" "0 \<le> k" "k < 2 ^ w"
  shows "rt_ok (simple_call z BuildInteger [VInt n k, eval_value fr (getInt8 w)]) s
    (\<lambda>x s'. lib_step s s' \<and> expr_value sem s' x (\<lambda>_. BVV w k))"
proof -
  have w: "unat (of_int (take_bit 8 (int w)) :: u8) = w" using assms(2) by (intro unat_bits) simp
  have k: "uint (of_int k :: u64) = k" "take_bit w k = k"
    using assms power_increasing [of w 64 "2::int"] by (auto intro!: uint_word64 take_bit_small)
  have "denotes live_exprs sem (sym_build_integer z (of_int k) (of_int (take_bit 8 (int w)))) (backend_state s)
      (\<lambda>_. BVV w k)"
    using expr_backend.law_integer [OF simple_contract, of "of_int (take_bit 8 (int w))" "of_int k" "backend_state s"]
      w k assms(1,2) by (simp add: simple_backend_def)
  from expr_call [OF this keeping_simple(1)] show ?thesis by (simp add: with_i2_def getInt8_def)
qed

lemma integer128_call:
  assumes "0 \<le> k" "k < 2 ^ 128"
  shows "rt_ok (simple_call z BuildInteger128 [VInt n (take_bit 64 (k div 2 ^ 64)), VInt m (take_bit 64 k)]) s
    (\<lambda>x s'. lib_step s s' \<and> expr_value sem s' x (\<lambda>_. BVV 128 k))"
proof -
  note C = simple_contract
  let ?h = "of_int (take_bit 64 (k div 2 ^ 64)) :: u64" and ?l = "of_int (take_bit 64 k) :: u64"
  have h: "0 \<le> k div 2 ^ 64" "k div 2 ^ 64 < 2 ^ 64" using assms by simp_all
  have u: "uint ?h = k div 2 ^ 64" "uint ?l = k mod 2 ^ 64"
    using h by (simp_all add: uint_word64 take_bit_eq_mod)
  have 64: "denotes live_exprs sem (sym_build_integer z v 64) b (\<lambda>_. BVV 64 (uint v))" for v b
    using expr_backend.law_integer [OF C, of 64 v b] unsigned_less [of v, where ?'a = int]
    by (simp add: simple_backend_def take_bit_int_eq_self)
  have "denotes live_exprs sem (sym_build_integer128 z ?h ?l) (backend_state s) (\<lambda>_. BVV 128 k)"
    unfolding sym_build_integer128_def
  proof (rule comp_denotes [OF comp_call2 [where L = "{}"]])
    show "comp live_exprs sem {} (sym_build_integer z ?h 64) (\<lambda>_. BVV 64 (k div 2 ^ 64))"
      "comp live_exprs sem {} (sym_build_integer z ?l 64) (\<lambda>_. BVV 64 (k mod 2 ^ 64))"
      using 64 [of ?h] 64 [of ?l] unfolding u comp_def by simp_all
    fix x y L' assume x: "\<And>\<sigma>. sem \<sigma> x = BVV 64 (k div 2 ^ 64)" "\<And>\<sigma>. sem \<sigma> y = BVV 64 (k mod 2 ^ 64)"
    have "push_bit 64 (k div 2 ^ 64) + k mod 2 ^ 64 = k" by (simp add: push_bit_eq_mult)
    then show "comp live_exprs sem L' (build z Z_concat [Some x, Some y]) (\<lambda>_. BVV 128 k)"
      using x by (auto simp: comp_def z3_sem_def binary_sem_def bv_concat_def intro!: denotes_build2)
  qed simp
  from expr_call [OF this keeping_simple(2)] show ?thesis by (simp add: with_i2_def)
qed

text \<open>The expression of a value whose type is an integer of up to 64 bits or of 128 bits, or a pointer.\<close>

definition made :: "'e simple_runtime \<Rightarrow> smt_value \<Rightarrow> llvm_value \<Rightarrow> symbolizer \<Rightarrow> 'e frame \<Rightarrow> 'e simple_runtime \<Rightarrow> bool" where
  "made s c v st' fr' s' \<longleftrightarrow> getType v = PointerTy \<and> below (next_name st') v \<and> lib_step s s' \<and>
     expr_value sem s' (eval_value fr' v) (\<lambda>_. c)"

lemma made_call:
  assumes "call_type dl f = Some PointerTy"
    and "rt_ok (simple_call z f (map (eval_value fr) args)) s (\<lambda>x s'. lib_step s s' \<and> expr_value sem s' x (\<lambda>_. c))"
  shows "builds D (simple_call z) (CreateCall dl f args) st fr s (made s c)"
  by (rule builds_call [OF assms(1)], rule rt_ok_mono [OF assms(2)]) (auto simp: made_def)

lemma scalar_builds:
  assumes "smt_of (getPointerSizeInBits dl) t (eval_value fr V) = Some c" "t = getType V" "ready z sem s"
    and "V \<noteq> ConstantPointerNull" "below (next_name st) V"
  shows "builds D (simple_call z) (scalar_expression dl t V) st fr s (made s c)"
proof (cases t)
  case (IntegerTy n)
  then obtain m k where k: "eval_value fr V = VInt m k" "0 < n" "0 \<le> k" "k < 2 ^ n"
    using assms(1) by (cases "eval_value fr V") (auto split: if_splits)
  consider "n = 1" "c = BoolV (k \<noteq> 0)" | "n \<noteq> 1" "n \<le> 64" "c = BVV n k" | "n = 128" "c = BVV n k"
    using assms(1) k IntegerTy by (auto split: if_splits)
  then show ?thesis
  proof cases
    case 1
    have "rt_ok (simple_call z BuildBool [VInt m k]) s (\<lambda>x s'. lib_step s s' \<and> expr_value sem s' x (\<lambda>_. c))"
      using expr_call [OF ready_bool [OF assms(3)] keeping_simple(3)] 1(2) by (simp add: with_i1_def)
    then show ?thesis using 1 IntegerTy k(1) by (auto simp: scalar_expression_def intro!: made_call)
  next
    case 2
    have "k < 2 ^ 64" using k(4) 2(2) power_increasing [of n 64 "2::int"] by simp
    then have "pure_op D IZExtOrTrunc (IntegerTy 64) [eval_value fr V] = Some (VInt 64 k)"
      using k by (simp add: pure_op_def resize_value_def take_bit_int_eq_self)
    moreover have "builds D (simple_call z) (CreateCall dl BuildInteger [Inst (IntegerTy 64) (next_name st), getInt8 n])
        st' (set_register fr (next_name st) (VInt 64 k)) s (made s c)" for st'
      using integer_call [OF k(2) 2(2) k(3,4), of 64 _ s] 2(3) by (intro made_call) simp_all
    ultimately show ?thesis
      using 2 IntegerTy by (auto simp: scalar_expression_def intro!: builds_emit_bind)
  next
    case 3
    let ?n = "next_name st"
    have ops: "pure_op D ILShr t [VInt m k, VInt 128 64] = Some (VInt m (k div 2 ^ 64))"
      "pure_op D ITrunc (IntegerTy 64) [VInt w i] = Some (VInt 64 (take_bit 64 i))" for w i
      by (simp_all add: pure_op_def resize_value_def)
    have "builds D (simple_call z) (CreateCall dl BuildInteger128 [Inst (IntegerTy 64) (Suc ?n), Inst (IntegerTy 64) (Suc (Suc ?n))])
        st' (fr\<lparr>regs := (regs fr)(?n := VInt m (k div 2 ^ 64), Suc ?n := VInt 64 (take_bit 64 (k div 2 ^ 64)),
          Suc (Suc ?n) := VInt 64 (take_bit 64 k))\<rparr>) s (made s c)" for st'
      using integer128_call [of k 64 64 s] k 3 by (intro made_call) simp_all
    moreover have "eval_value (fr\<lparr>regs := (regs fr)(?n := a, Suc ?n := b)\<rparr>) V = VInt m k" for a b
      using agree_eval [OF assms(5), of fr] k(1) by (simp add: agree_def)
    ultimately show ?thesis
      using 3 IntegerTy k(1) ops(1)
      by (auto simp: scalar_expression_def ops(2) intro!: builds_emit_bind)
  qed
next
  case PointerTy
  then obtain k where k: "int_value (eval_value fr V) = Some k" "0 < getPointerSizeInBits dl"
      "getPointerSizeInBits dl \<le> 64" "0 \<le> k" "k < 2 ^ getPointerSizeInBits dl" "c = BVV (getPointerSizeInBits dl) k"
    using assms(1) by (cases "eval_value fr V" rule: int_value.cases) (auto split: if_splits)
  have "k < 2 ^ 64" using k power_increasing [of "getPointerSizeInBits dl" 64 "2::int"] by simp
  then have "pure_op D IPtrToInt (IntegerTy 64) [eval_value fr V] = Some (VInt 64 k)"
    using k by (simp add: pure_op_def resize_value_def take_bit_int_eq_self)
  moreover have "builds D (simple_call z)
      (CreateCall dl BuildInteger [Inst (IntegerTy 64) (next_name st), getInt8 (getPointerSizeInBits dl)])
      st' (set_register fr (next_name st) (VInt 64 k)) s (made s c)" for st'
    using integer_call [OF k(2,3,4,5), of 64 _ s] k(6) by (intro made_call) simp_all
  ultimately show ?thesis
    using PointerTy by (auto simp: scalar_expression_def intro!: builds_emit_bind)
qed (use assms(1) in simp_all)

lemma value_builds:
  assumes "smt_of (getPointerSizeInBits dl) (getType V) (eval_value fr V) = Some c" "ready z sem s"
    and "below (next_name st) V"
  shows "builds D (simple_call z) (createValueExpression dl V) st fr s (made s c)"
proof -
  let ?m = "if V = ConstantPointerNull then CreateCall dl BuildNullPointer [] else scalar_expression dl (getType V) V"
  have "builds D (simple_call z) (CreateCall dl BuildNullPointer []) st fr s (made s (BVV 64 0))"
    using expr_call [OF ready_null [OF assms(2)] keeping_simple(4)] by (intro made_call) simp_all
  then have m: "builds D (simple_call z) ?m st fr s (made s c)"
    using scalar_builds [OF assms(1) refl assms(2) _ assms(3)] assms(1) by (auto split: if_splits)
  have "value_expression dl (getType V) V = rt_bind ?m (\<lambda>e. rt_return (Some e))"
    using assms(1) by (cases "getType V") simp_all
  then show ?thesis
    unfolding createValueExpression_def
    using m by (simp add: rt_bind_assoc)
qed

end

subsection \<open>Emitting code for values\<close>

text \<open>Types for which \<open>createValueExpression\<close> succeeds without looking at the elements of a structure.\<close>

definition scalar_type :: "ty \<Rightarrow> bool" where
  "scalar_type t \<longleftrightarrow> (\<exists>n. t = IntegerTy n) \<or> t = PointerTy \<or> (\<exists>k. t = FloatingTy k)"

definition creatable :: "'a build \<Rightarrow> ('a \<Rightarrow> nat \<Rightarrow> bool) \<Rightarrow> bool" where
  "creatable m P \<longleftrightarrow> (\<forall>st. \<exists>v st' new. m st = Inr (v, st') \<and> emits st st' new \<and> P v (next_name st'))"

lemma creatable_return: "(\<And>n. P v n) \<Longrightarrow> creatable (rt_return v) P"
  unfolding creatable_def rt_return_def by (metis emits_refl)

lemma creatable_bind:
  assumes "creatable m P" "\<And>v n. P v n \<Longrightarrow> creatable (k v) Q"
  shows "creatable (rt_bind m k) Q"
  unfolding creatable_def
proof
  fix st
  obtain v st' new where 1: "m st = Inr (v, st')" "emits st st' new" "P v (next_name st')"
    using assms(1) unfolding creatable_def by blast
  obtain w st'' new' where "k v st' = Inr (w, st'')" "emits st' st'' new'" "Q w (next_name st'')"
    using assms(2) [OF 1(3)] unfolding creatable_def by blast
  then show "\<exists>v st' new. rt_bind m k st = Inr (v, st') \<and> emits st st' new \<and> Q v (next_name st')"
    using 1 emits_trans [OF 1(2)] by (auto simp: rt_bind_def)
qed

lemma creatable_emit: "creatable (emit opc t args) (\<lambda>v n. getType v = t \<and> below n v)"
  unfolding creatable_def
proof
  fix st :: symbolizer
  let ?i = "\<lparr>e_name = next_name st, e_type = t, e_op = opc, e_args = args\<rparr>"
  let ?st = "st\<lparr>next_name := Suc (next_name st), code := code st @ [Ins ?i]\<rparr>"
  have "emit opc t args st = Inr (Inst t (next_name st), ?st)" "emits st ?st [Ins ?i]"
    by (simp_all add: emit_def fresh_def rt_bind_def rt_get_def rt_modify_def rt_return_def emits_def)
  then show "\<exists>v st' new. emit opc t args st = Inr (v, st') \<and> emits st st' new \<and> getType v = t \<and> below (next_name st') v"
    by (intro exI [of _ "Inst t (next_name st)"] exI [of _ ?st] exI [of _ "[Ins ?i]"]) simp
qed

lemma creatable_call:
  "call_type dl f = Some PointerTy \<Longrightarrow> creatable (CreateCall dl f args) (\<lambda>v n. getType v = PointerTy \<and> below n v)"
  by (simp add: CreateCall_def creatable_emit)

lemma call_type_float [simp]: "call_type dl BuildFloat = Some PointerTy"
  by (simp add: call_type_def runtime_member_groups builder_imports_def Let_def)

lemma creatable_value:
  assumes "scalar_type (getType V)"
  shows "creatable (createValueExpression dl V) (\<lambda>v n. getType v = PointerTy \<and> below n v)"
proof -
  let ?P = "\<lambda>v n. getType v = PointerTy \<and> below n v"
  have "creatable (scalar_expression dl (getType V) V) ?P"
    using assms unfolding scalar_type_def scalar_expression_def
    by (auto intro!: creatable_call creatable_bind [OF creatable_emit])
  then have "creatable (if V = ConstantPointerNull then CreateCall dl BuildNullPointer []
      else scalar_expression dl (getType V) V) ?P" by (simp add: creatable_call)
  moreover have "value_expression dl (getType V) V =
      rt_bind (if V = ConstantPointerNull then CreateCall dl BuildNullPointer [] else scalar_expression dl (getType V) V)
        (\<lambda>e. rt_return (Some e))"
    using assms by (auto simp: scalar_type_def)
  ultimately show ?thesis
    unfolding createValueExpression_def by (simp add: rt_bind_assoc)
qed

end
