(* ===== verification/Short_Circuit_Laws.thy ===== *)
theory Short_Circuit_Laws
  imports Value_Exprs
begin

text \<open>
  What the rewritten code of a symbolic computation does: nothing at all when every input is concrete,
  and the original computation on inputs that all have expressions otherwise, where the expressions
  of the concrete inputs denote their values.
\<close>

subsection \<open>Tracked inputs\<close>

text \<open>
  \<open>x\<close> is the (possibly null) expression of the value \<open>V\<close>, whose meaning is \<open>F\<close>: a live expression
  that denotes \<open>F\<close>, or null, and then \<open>F\<close> is the concrete value.
\<close>

definition tracked ::
    "('m \<Rightarrow> 'e \<Rightarrow> smt_value) \<Rightarrow> nat \<Rightarrow> 'e simple_runtime \<Rightarrow> 'e frame \<Rightarrow> llvm_value \<Rightarrow> 'e rvalue \<Rightarrow>
     ('m \<Rightarrow> smt_value) \<Rightarrow> bool" where
  "tracked sem ptrBits s fr V x F \<longleftrightarrow>
     expr_value sem s x F \<or>
     x = VExpr None \<and> (\<forall>\<sigma>. smt_of ptrBits (getType V) (eval_value fr V) = Some (F \<sigma>))"

lemma tracked_step:
  "tracked sem w s fr V x F \<Longrightarrow> lib_step s s' \<Longrightarrow> eval_value fr' V = eval_value fr V \<Longrightarrow> tracked sem w s' fr' V x F"
  by (auto simp: tracked_def expr_value_step)

definition input_ok ::
    "('m \<Rightarrow> 'e \<Rightarrow> smt_value) \<Rightarrow> nat \<Rightarrow> nat \<Rightarrow> 'e frame \<Rightarrow> 'e simple_runtime \<Rightarrow>
     input \<times> llvm_value \<times> llvm_value \<Rightarrow> ('m \<Rightarrow> smt_value) \<Rightarrow> bool" where
  "input_ok sem w n fr s = (\<lambda>(inp, original, nullCheck) F.
     scalar_type (getType (concreteValue inp)) \<and> below n (concreteValue inp) \<and> below n original \<and>
     below n nullCheck \<and> tracked sem w s fr (concreteValue inp) (eval_value fr original) F \<and>
     eval_value fr nullCheck = VInt 1 (of_bool (eval_value fr original = VExpr None)))"

lemma input_ok_step:
  assumes "input_ok sem w n fr s x F" "agree n fr fr'" "lib_step s s'" "n \<le> n'"
  shows "input_ok sem w n' fr' s' x F"
proof -
  obtain inp original nullCheck where x: "x = (inp, original, nullCheck)" by (cases x)
  have b: "below n (concreteValue inp)" "below n original" "below n nullCheck"
    and tr: "tracked sem w s fr (concreteValue inp) (eval_value fr original) F"
    using assms(1) by (auto simp: x input_ok_def)
  note ev = b [THEN agree_eval, OF assms(2)]
  have "tracked sem w s' fr' (concreteValue inp) (eval_value fr original) F"
    using tracked_step [OF tr assms(3) ev(1)] .
  then show ?thesis
    using assms(1) ev b [THEN below_mono, OF assms(4)] by (simp add: x input_ok_def)
qed

lemma inputs_ok_step:
  "list_all2 (input_ok sem w n fr s) xs Fs \<Longrightarrow> agree n fr fr' \<Longrightarrow> lib_step s s' \<Longrightarrow> n \<le> n' \<Longrightarrow>
   list_all2 (input_ok sem w n' fr' s') xs Fs"
  by (auto elim!: list_all2_mono intro: input_ok_step)

lemma inputs_ok_below:
  "list_all2 (input_ok sem w n fr s) xs Fs \<Longrightarrow> (inp, original, c) \<in> set xs \<Longrightarrow> below n original"
  by (induction rule: list_all2_induct) (auto simp: input_ok_def)

lemma constant_meaning:
  assumes "\<forall>\<sigma>. r = Some (F \<sigma>)"
  obtains c where "r = Some c" "\<And>\<sigma>. F \<sigma> = c"
  using assms by (metis option.inject)

text \<open>The operand that an input has in the slow path.\<close>

definition new_operand :: "((nat \<times> nat) \<times> llvm_value) list \<Rightarrow> input \<times> llvm_value \<times> llvm_value \<Rightarrow> llvm_value" where
  "new_operand new = (\<lambda>(inp, original, _).
     case map_of new (user inp, operandIndex inp) of None \<Rightarrow> original | Some w \<Rightarrow> w)"

definition input_key :: "input \<times> llvm_value \<times> llvm_value \<Rightarrow> nat \<times> nat" where
  "input_key = (\<lambda>(inp, _). (user inp, operandIndex inp))"

subsection \<open>Completing inputs\<close>

lemma capture_emits:
  assumes "m (st\<lparr>code := []\<rparr>) = Inr (x, st')" "emits (st\<lparr>code := []\<rparr>) st' new"
  shows "capture m st = Inr ((x, new), st\<lparr>next_name := next_name st'\<rparr>)"
proof -
  obtain n where "st' = st\<lparr>code := new, next_name := n\<rparr>" using assms(2) unfolding emits_def by auto
  then show ?thesis
    using assms(1) by (simp add: capture_def rt_bind_def rt_get_def rt_modify_def rt_return_def)
qed

lemma complete_input_run:
  assumes "createValueExpression dl V (st\<lparr>code := []\<rparr>) = Inr (v, st1)" "emits (st\<lparr>code := []\<rparr>) st1 new"
    and "original \<noteq> ConstantPointerNull"
  shows "complete_input dl V original nullCheck st = Inr (Inst PointerTy (next_name st1),
    st\<lparr>code := code st @ [Guard False nullCheck new
         [\<lparr>phi_name = next_name st1, phi_direct = original, phi_body = v\<rparr>]],
       next_name := Suc (next_name st1)\<rparr>)"
  using capture_emits [where m = "createValueExpression dl V", OF assms(1,2)] assms(3)
  by (simp add: complete_input_def fresh_def rt_bind_def rt_get_def rt_modify_def rt_return_def)

context z3_laws
begin

definition completed ::
    "'e simple_runtime \<Rightarrow> ('m \<Rightarrow> smt_value) \<Rightarrow> llvm_value \<Rightarrow> symbolizer \<Rightarrow> 'e frame \<Rightarrow> 'e simple_runtime \<Rightarrow> bool" where
  "completed s F v st' fr' s' \<longleftrightarrow> below (next_name st') v \<and> lib_step s s' \<and> expr_value sem s' (eval_value fr' v) F"

lemma complete_input_builds:
  assumes ok: "input_ok sem (getPointerSizeInBits dl) (next_name st) fr s (inp, original, nullCheck) F"
    and "ready z sem s"
  shows "builds D (simple_call z) (complete_input dl (concreteValue inp) original nullCheck) st fr s (completed s F)"
proof (cases "original = ConstantPointerNull")
  case True
  then have smt: "\<forall>\<sigma>. smt_of (getPointerSizeInBits dl) (getType (concreteValue inp)) (eval_value fr (concreteValue inp)) = Some (F \<sigma>)"
    using ok by (simp add: input_ok_def tracked_def expr_value_def)
  then obtain c where c: "smt_of (getPointerSizeInBits dl) (getType (concreteValue inp)) (eval_value fr (concreteValue inp)) = Some c"
    "\<And>\<sigma>. F \<sigma> = c" by (rule constant_meaning) blast
  have "builds D (simple_call z) (createValueExpression dl (concreteValue inp)) st fr s (made s c)"
    using ok assms(2) c(1) by (intro value_builds) (auto simp: input_ok_def)
  then show ?thesis
    using True c(2) by (auto simp: complete_input_def made_def completed_def expr_value_def elim!: builds_mono)
next
  case False
  let ?V = "concreteValue inp" and ?st = "st\<lparr>code := []\<rparr>"
  show ?thesis
  proof (cases "eval_value fr original = VExpr None")
    case True
    then have smt: "\<forall>\<sigma>. smt_of (getPointerSizeInBits dl) (getType ?V) (eval_value fr ?V) = Some (F \<sigma>)"
      using ok by (simp add: input_ok_def tracked_def expr_value_def)
    then obtain c where c: "smt_of (getPointerSizeInBits dl) (getType ?V) (eval_value fr ?V) = Some c"
      "\<And>\<sigma>. F \<sigma> = c" by (rule constant_meaning) blast
    have "builds D (simple_call z) (createValueExpression dl ?V) ?st fr s (made s c)"
      using ok assms(2) c(1) by (intro value_builds) (auto simp: input_ok_def)
    then obtain v st1 new fr' s' where v: "createValueExpression dl ?V ?st = Inr (v, st1)" "emits ?st st1 new"
      "exec_code D (simple_call z) new (fr, s) = Inr ((), fr', s')" "agree (next_name st) fr fr'" "made s c v st1 fr' s'"
      by (auto simp: builds_def rt_ok_def)
    have le: "next_name st \<le> next_name st1" using v(2) by (simp add: emits_def)
    have run: "exec_stmt D (simple_call z) (Guard False nullCheck new
        [\<lparr>phi_name = next_name st1, phi_direct = original, phi_body = v\<rparr>]) (fr, s) =
        Inr ((), set_register fr' (next_name st1) (eval_value fr' v), s')"
      using ok v(3) True by (simp add: input_ok_def rt_bind_def rt_get_def set_phis_def rt_modify_def)
    show ?thesis
      unfolding builds_def complete_input_run [OF v(1,2) False]
      by (rule exI, rule exI, rule exI, rule conjI, rule refl)
        (use run v(4,5) le c(2) in \<open>auto simp: emits_def rt_ok_def rt_bind_def rt_return_def completed_def made_def
          expr_value_def intro: agree_set_trans\<close>)
  next
    case nonnull: False
    then have ex: "expr_value sem s (eval_value fr original) F" using ok by (simp add: input_ok_def tracked_def)
    obtain v st1 new where v: "createValueExpression dl ?V ?st = Inr (v, st1)" "emits ?st st1 new"
      using creatable_value [of ?V dl] ok unfolding creatable_def input_ok_def by blast
    have le: "next_name st \<le> next_name st1" using v(2) by (simp add: emits_def)
    have run: "exec_stmt D (simple_call z) (Guard False nullCheck new
        [\<lparr>phi_name = next_name st1, phi_direct = original, phi_body = v\<rparr>]) (fr, s) =
        Inr ((), set_register fr (next_name st1) (eval_value fr original), s)"
      using ok nonnull by (simp add: input_ok_def rt_bind_def rt_get_def set_phis_def rt_modify_def)
    show ?thesis
      unfolding builds_def complete_input_run [OF v(1,2) False]
      by (rule exI, rule exI, rule exI, rule conjI, rule refl)
        (use run le ex in \<open>auto simp: emits_def rt_ok_def rt_bind_def rt_return_def completed_def
          expr_value_def intro: agree_set_trans\<close>)
  qed
qed

definition inputs_completed ::
    "(input \<times> llvm_value \<times> llvm_value) list \<Rightarrow> ('m \<Rightarrow> smt_value) list \<Rightarrow> 'e simple_runtime \<Rightarrow>
     ((nat \<times> nat) \<times> llvm_value) list \<Rightarrow> symbolizer \<Rightarrow> 'e frame \<Rightarrow> 'e simple_runtime \<Rightarrow> bool" where
  "inputs_completed xs Fs s new st' fr' s' \<longleftrightarrow>
     lib_step s s' \<and> fst ` set new \<subseteq> input_key ` set xs \<and> (\<forall>(k, v) \<in> set new. below (next_name st') v) \<and>
     list_all2 (\<lambda>x F. expr_value sem s' (eval_value fr' (new_operand new x)) F) xs Fs"

lemma expr_values_step:
  assumes "list_all2 (\<lambda>x F. expr_value sem s (eval_value fr (g x)) F) xs Fs" "lib_step s s'" "agree n fr fr'"
    and "\<And>x. x \<in> set xs \<Longrightarrow> below n (g x)"
  shows "list_all2 (\<lambda>x F. expr_value sem s' (eval_value fr' (g x)) F) xs Fs"
  using assms by (auto simp: list_all2_conv_all_nth agree_eval [OF _ assms(3)] intro: expr_value_step)

lemma new_operand_cons:
  "input_key x \<noteq> key \<Longrightarrow> new_operand ((key, w) # new) x = new_operand new x"
  "new_operand ((input_key x, w) # new) x = w"
  by (auto simp: new_operand_def input_key_def split: prod.splits)

lemma new_operand_original:
  "input_key (inp, original, c) \<notin> fst ` set new \<Longrightarrow> new_operand new (inp, original, c) = original"
  by (auto simp: new_operand_def input_key_def map_of_eq_None_iff [symmetric])

lemma inputs_completed_cons:
  assumes key: "input_key (inp, original, c) \<notin> input_key ` set xs" and w: "completed s F w st' fr' s'"
    and le: "same_env st' st''" "agree (next_name st') fr' fr''" and new: "inputs_completed xs Gs s' new st'' fr'' s''"
  shows "inputs_completed ((inp, original, c) # xs) (F # Gs) s (((user inp, operandIndex inp), w) # new) st'' fr'' s''"
proof -
  let ?x = "(inp, original, c)"
  have wb: "below (next_name st') w" "lib_step s s'" "expr_value sem s' (eval_value fr' w) F"
    using w by (auto simp: completed_def)
  have all: "list_all2 (\<lambda>x F. expr_value sem s'' (eval_value fr'' (new_operand new x)) F) xs Gs"
    and st: "lib_step s' s''" "fst ` set new \<subseteq> input_key ` set xs" "\<forall>(k, v) \<in> set new. below (next_name st'') v"
    using new by (auto simp: inputs_completed_def)
  have "list_all2 (\<lambda>x F. expr_value sem s'' (eval_value fr'' (new_operand ((input_key ?x, w) # new) x)) F) xs Gs"
  proof (rule list_all2_all_nthI)
    fix i assume i: "i < length xs"
    then have "input_key (xs ! i) \<noteq> input_key ?x" using key nth_mem by (metis imageI)
    then show "expr_value sem s'' (eval_value fr'' (new_operand ((input_key ?x, w) # new) (xs ! i))) (Gs ! i)"
      using list_all2_nthD [OF all i] by (simp add: new_operand_cons)
  qed (use all in \<open>simp add: list_all2_lengthD\<close>)
  moreover have "expr_value sem s'' (eval_value fr'' w) F"
    using expr_value_step [OF wb(3) st(1)] agree_eval [OF wb(1) le(2)] by simp
  moreover have "below (next_name st'') w" using below_mono [OF wb(1)] le(1) by (simp add: same_env_def)
  moreover have "(user inp, operandIndex inp) = input_key ?x" by (simp add: input_key_def)
  ultimately show ?thesis
    using st lib_step_trans [OF wb(2) st(1)] by (simp add: inputs_completed_def new_operand_cons) blast
qed

lemma complete_inputs_builds:
  assumes "list_all2 (input_ok sem (getPointerSizeInBits dl) (next_name st) fr s) xs Fs"
    and "distinct (map input_key xs)" "ready z sem s"
    and "unknown = 1 \<Longrightarrow> \<forall>(inp, original, c) \<in> set xs. original \<noteq> ConstantPointerNull \<longrightarrow> eval_value fr original \<noteq> VExpr None"
  shows "builds D (simple_call z) (complete_inputs dl unknown xs) st fr s (inputs_completed xs Fs s)"
  using assms
proof (induction xs arbitrary: Fs st fr s)
  case Nil
  then show ?case by (auto simp: inputs_completed_def intro!: builds_return)
next
  case (Cons x xs)
  obtain inp original c where x: "x = (inp, original, c)" by (cases x)
  obtain F Gs where Fs: "Fs = F # Gs" using Cons.prems(1) by (cases Fs) auto
  have ok: "input_ok sem (getPointerSizeInBits dl) (next_name st) fr s (inp, original, c) F"
    and oks: "list_all2 (input_ok sem (getPointerSizeInBits dl) (next_name st) fr s) xs Gs"
    using Cons.prems(1) by (auto simp: Fs x)
  have key: "input_key x \<notin> input_key ` set xs" "distinct (map input_key xs)" using Cons.prems(2) by auto
  have b: "below (next_name st) original" using ok by (simp add: input_ok_def)
  show ?case
  proof (cases "original \<noteq> ConstantPointerNull \<and> unknown = 1")
    case True
    then have "eval_value fr original \<noteq> VExpr None" using Cons.prems(4) by (auto simp: x)
    then have ex: "expr_value sem s (eval_value fr original) F" using ok by (simp add: input_ok_def tracked_def)
    have "builds D (simple_call z) (complete_inputs dl unknown xs) st fr s (inputs_completed xs Gs s)"
      using Cons.IH [OF oks key(2) Cons.prems(3)] Cons.prems(4) by auto
    moreover have "inputs_completed (x # xs) Fs s new st' fr' s'"
      if "agree (next_name st) fr fr'" "inputs_completed xs Gs s new st' fr' s'" for new st' fr' s'
    proof -
      have "new_operand new (inp, original, c) = original"
        using that(2) key(1) by (intro new_operand_original) (auto simp: inputs_completed_def x)
      then show ?thesis
        using that agree_eval [OF b that(1)] expr_value_step [OF ex]
        by (auto simp: inputs_completed_def Fs x)
    qed
    ultimately show ?thesis using True by (auto simp: x elim!: builds_mono)
  next
    case False
    have first: "builds D (simple_call z) (complete_input dl (concreteValue inp) original c) st fr s (completed s F)"
      by (rule complete_input_builds [OF ok Cons.prems(3)])
    have rest: "builds D (simple_call z) (complete_inputs dl unknown xs) st' fr' s' (inputs_completed xs Gs s')"
      if "same_env st st'" "agree (next_name st) fr fr'" "completed s F w st' fr' s'" for w st' fr' s'
    proof (rule Cons.IH)
      have le: "next_name st \<le> next_name st'" "lib_step s s'" using that by (auto simp: same_env_def completed_def)
      show "list_all2 (input_ok sem (getPointerSizeInBits dl) (next_name st') fr' s') xs Gs"
        by (rule inputs_ok_step [OF oks that(2) le(2,1)])
      show "ready z sem s'" using ready_step [OF Cons.prems(3) le(2)] .
      show "\<forall>(inp, original, c) \<in> set xs. original \<noteq> ConstantPointerNull \<longrightarrow> eval_value fr' original \<noteq> VExpr None"
        if "unknown = 1"
        using Cons.prems(4) [OF that] agree_eval [OF inputs_ok_below [OF oks] \<open>agree (next_name st) fr fr'\<close>] by fastforce
    qed (rule key(2))
    have eq: "complete_inputs dl unknown (x # xs) =
        rt_bind (complete_input dl (concreteValue inp) original c) (\<lambda>final.
        rt_bind (complete_inputs dl unknown xs) (\<lambda>new. rt_return (((user inp, operandIndex inp), final) # new)))"
      using False by (auto simp: x)
    show ?thesis
      unfolding eq unfolding Fs x
      by (rule builds_bind [OF first], rule builds_bind [OF rest], assumption+, rule builds_return,
          rule inputs_completed_cons [OF key(1) [unfolded x]]; assumption)
  qed
qed

end

subsection \<open>The null checks\<close>

lemma null_checks_builds:
  assumes "\<forall>v \<in> set vs. below (next_name st) v \<and> (\<exists>e. eval_value fr v = VExpr e)"
  shows "builds D R (null_checks vs) st fr s (\<lambda>cs st' fr' s'. s' = s \<and>
    list_all2 (\<lambda>v c. below (next_name st') c \<and>
      eval_value fr' c = VInt 1 (of_bool (eval_value fr v = VExpr None))) vs cs)"
  using assms
proof (induction vs arbitrary: st fr)
  case Nil
  then show ?case by (auto intro!: builds_return)
next
  case (Cons v vs)
  let ?n = "next_name st" and ?x = "VInt 1 (of_bool (eval_value fr v = VExpr None))"
  let ?fr = "set_register fr ?n ?x"
  obtain e where e: "eval_value fr v = VExpr e" using Cons.prems by auto
  then have op: "pure_op D ICmpEQ (IntegerTy 1) (map (eval_value fr) [ConstantPointerNull, v]) = Some ?x"
    by (auto simp: pure_op_def)
  have ev: "eval_value ?fr w = eval_value fr w" if "w \<in> set vs" for w
    using Cons.prems that by (intro eval_set_below [of ?n]) auto
  have "builds D R (rt_bind (null_checks vs) (\<lambda>cs. rt_return (Inst (IntegerTy 1) ?n # cs))) st' ?fr s
      (\<lambda>cs st' fr' s'. s' = s \<and> list_all2 (\<lambda>v c. below (next_name st') c \<and>
        eval_value fr' c = VInt 1 (of_bool (eval_value fr v = VExpr None))) (v # vs) cs)"
    if st': "next_name st' = Suc ?n" "same_env st st'" for st'
  proof (rule builds_bind [OF Cons.IH])
    show "\<forall>v \<in> set vs. below (next_name st') v \<and> (\<exists>e. eval_value ?fr v = VExpr e)"
      using Cons.prems st'(1) ev by (auto intro: below_mono)
  next
    fix cs st'' fr' s'
    assume st'': "same_env st' st''" and ag: "agree (next_name st') ?fr fr'"
      and cs: "s' = s \<and> list_all2 (\<lambda>v c. below (next_name st'') c \<and>
        eval_value fr' c = VInt 1 (of_bool (eval_value ?fr v = VExpr None))) vs cs"
    have "regs fr' ?n = ?x" "?n < next_name st''" using ag st'(1) st'' by (auto simp: agree_def same_env_def)
    moreover have "list_all2 (\<lambda>v c. below (next_name st'') c \<and>
        eval_value fr' c = VInt 1 (of_bool (eval_value fr v = VExpr None))) vs cs"
      using cs ev by (auto simp: list_all2_conv_all_nth)
    ultimately show "builds D R (rt_return (Inst (IntegerTy 1) ?n # cs)) st'' fr' s'
        (\<lambda>cs st' fr' s'. s' = s \<and> list_all2 (\<lambda>v c. below (next_name st') c \<and>
          eval_value fr' c = VInt 1 (of_bool (eval_value fr v = VExpr None))) (v # vs) cs)"
      using cs by (intro builds_return) simp
  qed
  then show ?case unfolding null_checks.simps by (rule builds_emit_bind [OF op])
qed

lemma all_concrete_builds:
  assumes "\<forall>c \<in> set cs. below (next_name st) c \<and> eval_value fr c = VInt 1 (of_bool (q c))"
    and "below (next_name st) acc" "eval_value fr acc = VInt 1 (of_bool p)"
  shows "builds D R (all_concrete acc cs) st fr s (\<lambda>v st' fr' s'. s' = s \<and> below (next_name st') v \<and>
    eval_value fr' v = VInt 1 (of_bool (p \<and> (\<forall>c \<in> set cs. q c))))"
  using assms
proof (induction cs arbitrary: st fr acc p)
  case Nil
  then show ?case by (auto intro!: builds_return)
next
  case (Cons c cs)
  let ?n = "next_name st" and ?x = "VInt 1 (of_bool (p \<and> q c))"
  let ?fr = "set_register fr ?n ?x"
  have op: "pure_op D IBoolAnd (IntegerTy 1) (map (eval_value fr) [acc, c]) = Some ?x"
    using Cons.prems by (simp add: pure_op_def)
  have ev: "eval_value ?fr w = eval_value fr w" if "w \<in> set cs" for w
    using Cons.prems that by (intro eval_set_below [of ?n]) auto
  have "builds D R (all_concrete (Inst (IntegerTy 1) ?n) cs) st' ?fr s (\<lambda>v st' fr' s'. s' = s \<and>
      below (next_name st') v \<and> eval_value fr' v = VInt 1 (of_bool ((p \<and> q c) \<and> (\<forall>c \<in> set cs. q c))))"
    if st': "next_name st' = Suc ?n" for st'
  proof (rule Cons.IH)
    show "\<forall>c \<in> set cs. below (next_name st') c \<and> eval_value ?fr c = VInt 1 (of_bool (q c))"
      using Cons.prems(1) ev st' by (auto intro: below_mono)
  qed (simp_all add: st')
  then show ?case
    unfolding all_concrete.simps by (intro builds_emit_bind [OF op]) (simp add: conj_assoc)
qed

definition build_checks :: "llvm_value list \<Rightarrow> (llvm_value list \<times> llvm_value) build" where
  "build_checks operands = rt_bind (null_checks operands) (\<lambda>cs.
     rt_bind (all_concrete (hd cs) (tl cs)) (\<lambda>allConcrete. rt_return (cs, allConcrete)))"

text \<open>What the checks leave in the registers.\<close>

definition checked ::
    "llvm_value list \<Rightarrow> 'e frame \<Rightarrow> llvm_value list \<times> llvm_value \<Rightarrow> nat \<Rightarrow> 'e frame \<Rightarrow> bool" where
  "checked operands fr = (\<lambda>(cs, allConcrete) n fr'.
     eval_value fr' allConcrete = VInt 1 (of_bool (\<forall>v \<in> set operands. eval_value fr v = VExpr None)) \<and>
     list_all2 (\<lambda>v c. below n c \<and> eval_value fr' c = VInt 1 (of_bool (eval_value fr v = VExpr None))) operands cs)"

lemma checked_step:
  assumes "list_all2 (\<lambda>v c. below n c \<and> eval_value fr' c = x v) vs cs" "agree n fr' fr''" "n \<le> n'"
  shows "list_all2 (\<lambda>v c. below n' c \<and> eval_value fr'' c = x v) vs cs"
  using assms by (auto simp: agree_eval [OF _ assms(2)] elim!: list_all2_mono intro: below_mono)

lemma build_checks_builds:
  fixes fr :: "'e frame" and s :: 's
  assumes "\<forall>v \<in> set vs. below (next_name st) v \<and> (\<exists>e. eval_value fr v = VExpr e)" "vs \<noteq> []"
  shows "builds D R (build_checks vs) st fr s (\<lambda>r st' fr' s'. s' = s \<and> checked vs fr r (next_name st') fr')"
  unfolding build_checks_def
proof (rule builds_bind [OF null_checks_builds [OF assms(1)]])
  let ?null = "\<lambda>v. eval_value fr v = VExpr None"
  fix cs and st' :: symbolizer and fr' :: "'e frame" and s' :: 's
  assume "s' = s \<and> list_all2 (\<lambda>v c. below (next_name st') c \<and> eval_value fr' c = VInt 1 (of_bool (?null v))) vs cs"
  then have s: "s' = s" and cs: "list_all2 (\<lambda>v c. below (next_name st') c \<and> eval_value fr' c = VInt 1 (of_bool (?null v))) vs cs"
    by auto
  obtain v vs' c cs' where eq: "vs = v # vs'" "cs = c # cs'"
    using assms(2) cs by (cases vs; cases cs) auto
  have all: "\<forall>c \<in> set cs. below (next_name st') c \<and> eval_value fr' c = VInt 1 (of_bool (eval_value fr' c = VInt 1 1))"
    using cs by (fastforce simp: list_all2_conv_all_nth in_set_conv_nth)
  have "(\<forall>c \<in> set cs. eval_value fr' c = VInt 1 1) \<longleftrightarrow> (\<forall>v \<in> set vs. ?null v)"
    using cs by (induction rule: list_all2_induct) auto
  then have conj: "(eval_value fr' c = VInt 1 1 \<and> (\<forall>c \<in> set cs'. eval_value fr' c = VInt 1 1)) \<longleftrightarrow> (\<forall>v \<in> set vs. ?null v)"
    by (simp add: eq(2))
  have "builds D R (all_concrete c cs') st' fr' s (\<lambda>a st'' fr'' s''. s'' = s \<and> below (next_name st'') a \<and>
      eval_value fr'' a = VInt 1 (of_bool (eval_value fr' c = VInt 1 1 \<and> (\<forall>c \<in> set cs'. eval_value fr' c = VInt 1 1))))"
    using all by (intro all_concrete_builds) (auto simp: eq(2))
  then have "builds D R (all_concrete c cs') st' fr' s (\<lambda>a st'' fr'' s''. s'' = s \<and> checked vs fr (cs, a) (next_name st'') fr'')"
    unfolding conj
    by (rule builds_mono) (use checked_step [OF cs] in \<open>auto simp: checked_def same_env_def simp del: One_nat_def\<close>)
  then show "builds D R (rt_bind (all_concrete (hd cs) (tl cs)) (\<lambda>allConcrete. rt_return (cs, allConcrete))) st' fr' s'
      (\<lambda>r st' fr' s'. s' = s \<and> checked vs fr r (next_name st') fr')"
    unfolding s eq(2) list.sel by (rule builds_bind) (auto intro: builds_return)
qed

subsection \<open>The rewritten code\<close>

lemma slow_path_exec:
  assumes "exec_code D R checks (fr, s) = Inr ((), fr1, s1)" "eval_value fr1 allConcrete = VInt 1 (of_bool p)"
  shows "p \<Longrightarrow> exec_code D R (slow_path allConcrete checks fills new phis run) (fr, s) = set_phis phi_direct phis (fr1, s1)"
    and "\<not> p \<Longrightarrow> exec_code D R (slow_path allConcrete checks fills new phis run) (fr, s) =
      rt_bind (exec_code D R (fills @ map (\<lambda>i. Ins (replaceOperands new i)) run)) (\<lambda>_. set_phis phi_body phis) (fr1, s1)"
  using assms by (simp_all add: slow_path_def exec_code_append rt_bind_def rt_get_def)

text \<open>
  The pieces of a computation whose operands evaluate to expressions: with every operand null, the
  code of the computation is skipped, no call reaches the library (whatever the library is), and the
  PHI nodes take their direct values.
\<close>

lemma pieces_cases:
  assumes "computation_pieces dl inps operands st = Inr ((allConcrete, checks, fills, new), st')"
    and "\<forall>v \<in> set operands. below (next_name st) v \<and> (\<exists>e. eval_value fr v = VExpr e)" "operands \<noteq> []"
  obtains cs st1 fr1 where
    "exec_code D R checks (fr, s) = Inr ((), fr1, s)" "agree (next_name st) fr fr1"
    "checked operands fr (cs, allConcrete) (next_name st1) fr1" "same_env st st1"
    "capture (complete_inputs dl (length (filter (\<lambda>v. v \<noteq> ConstantPointerNull) operands))
       (zip inps (zip operands cs))) st1 = Inr ((new, fills), st')"
proof -
  have "builds D R (build_checks operands) (st\<lparr>code := []\<rparr>) fr s
      (\<lambda>r st' fr' s'. s' = s \<and> checked operands fr r (next_name st') fr')"
    using assms(2,3) by (intro build_checks_builds) auto
  then obtain cs a st1 code1 fr1 where b: "build_checks operands (st\<lparr>code := []\<rparr>) = Inr ((cs, a), st1)"
    "emits (st\<lparr>code := []\<rparr>) st1 code1" "exec_code D R code1 (fr, s) = Inr ((), fr1, s)"
    "agree (next_name st) fr fr1" "checked operands fr (cs, a) (next_name st1) fr1"
    by (auto simp: builds_def rt_ok_def)
  let ?st = "st\<lparr>next_name := next_name st1\<rparr>"
  have "capture (build_checks operands) st = Inr (((cs, a), code1), ?st)"
    by (rule capture_emits [where m = "build_checks operands", OF b(1,2)])
  then have "a = allConcrete" "code1 = checks"
    "capture (complete_inputs dl (length (filter (\<lambda>v. v \<noteq> ConstantPointerNull) operands))
       (zip inps (zip operands cs))) ?st = Inr ((new, fills), st')"
    using assms(1)
    by (auto simp: computation_pieces_def build_checks_def rt_bind_def rt_return_def split: sum.splits)
  moreover have "same_env st ?st" using b(2) by (simp add: emits_def same_env_def)
  ultimately show ?thesis using that [of fr1 cs ?st] b(3-5) by simp
qed

lemma short_circuit_fast:
  assumes "computation_pieces dl inps operands st = Inr ((allConcrete, checks, fills, new), st')"
    and "\<forall>v \<in> set operands. below (next_name st) v \<and> eval_value fr v = VExpr None" "operands \<noteq> []"
  shows "rt_ok (exec_code D R (slow_path allConcrete checks fills new phis run)) (fr, s) (\<lambda>_ (fr', s').
    s' = s \<and> (\<exists>fr1. agree (next_name st) fr fr1 \<and> set_phis phi_direct phis (fr1, s) = Inr ((), fr', s)))"
proof -
  obtain cs fr1 and st1 :: symbolizer where c: "exec_code D R checks (fr, s) = Inr ((), fr1, s)" "agree (next_name st) fr fr1"
    "checked operands fr (cs, allConcrete) (next_name st1) fr1"
    by (rule pieces_cases [OF assms(1) _ assms(3), where fr = fr and D = D and R = R and s = s])
      (use assms(2) in auto)
  have "eval_value fr1 allConcrete = VInt 1 (of_bool True)" using c(3) assms(2) by (auto simp: checked_def)
  from slow_path_exec(1) [OF c(1) this TrueI] show ?thesis
    using c(2) by (auto simp: rt_ok_def set_phis_def rt_modify_def)
qed

text \<open>Inputs before the checks: the operand is the expression, possibly null, of the concrete value.\<close>

definition operand_ok ::
    "('m \<Rightarrow> 'e \<Rightarrow> smt_value) \<Rightarrow> nat \<Rightarrow> nat \<Rightarrow> 'e frame \<Rightarrow> 'e simple_runtime \<Rightarrow>
     input \<times> llvm_value \<Rightarrow> ('m \<Rightarrow> smt_value) \<Rightarrow> bool" where
  "operand_ok sem w n fr s = (\<lambda>(inp, original) F.
     scalar_type (getType (concreteValue inp)) \<and> below n (concreteValue inp) \<and> below n original \<and>
     tracked sem w s fr (concreteValue inp) (eval_value fr original) F)"

definition slow_operand :: "((nat \<times> nat) \<times> llvm_value) list \<Rightarrow> input \<times> llvm_value \<Rightarrow> llvm_value" where
  "slow_operand new = (\<lambda>(inp, original).
     case map_of new (user inp, operandIndex inp) of None \<Rightarrow> original | Some w \<Rightarrow> w)"

lemma zip_input_ok:
  assumes ok: "list_all2 (operand_ok sem w n fr s) (zip inps operands) Fs" and len: "length inps = length operands"
    and ch: "list_all2 (\<lambda>v c. below n' c \<and> eval_value fr1 c = VInt 1 (of_bool (eval_value fr v = VExpr None))) operands cs"
    and ag: "agree n fr fr1" "n \<le> n'"
  shows "list_all2 (input_ok sem w n' fr1 s) (zip inps (zip operands cs)) Fs"
proof (rule list_all2_all_nthI)
  have l: "length cs = length operands" "length Fs = length operands"
    using ok ch len by (auto dest: list_all2_lengthD)
  then show "length (zip inps (zip operands cs)) = length Fs" using len by simp
  fix i assume "i < length (zip inps (zip operands cs))"
  then have i: "i < length operands" using len l by simp
  have o: "operand_ok sem w n fr s (inps ! i, operands ! i) (Fs ! i)"
    using list_all2_nthD [OF ok, of i] i len by simp
  have c: "below n' (cs ! i)" "eval_value fr1 (cs ! i) = VInt 1 (of_bool (eval_value fr (operands ! i) = VExpr None))"
    using list_all2_nthD [OF ch i] by simp_all
  have "eval_value fr1 (operands ! i) = eval_value fr (operands ! i)"
    "eval_value fr1 (concreteValue (inps ! i)) = eval_value fr (concreteValue (inps ! i))"
    using o agree_eval [OF _ ag(1)] by (auto simp: operand_ok_def)
  then show "input_ok sem w n' fr1 s (zip inps (zip operands cs) ! i) (Fs ! i)"
    using o c i l len ag(2) below_mono tracked_step [OF _ lib_step_refl]
    by (auto simp: operand_ok_def input_ok_def)
qed

lemma single_unknown:
  assumes "length (filter (\<lambda>v. v \<noteq> ConstantPointerNull) vs) = 1" "\<exists>v \<in> set vs. eval_value fr v \<noteq> VExpr None"
    and "v \<in> set vs" "v \<noteq> ConstantPointerNull"
  shows "eval_value fr v \<noteq> VExpr None"
proof -
  obtain u where eq: "filter (\<lambda>v. v \<noteq> ConstantPointerNull) vs = [u]"
    using assms(1) by (auto simp: length_Suc_conv)
  have u: "y = u" if "y \<in> set vs" "y \<noteq> ConstantPointerNull" for y
  proof -
    have "y \<in> set (filter (\<lambda>v. v \<noteq> ConstantPointerNull) vs)" using that by simp
    then show ?thesis by (simp add: eq)
  qed
  obtain x where x: "x \<in> set vs" "eval_value fr x \<noteq> VExpr None" using assms(2) by blast
  then have "x \<noteq> ConstantPointerNull" by auto
  then show ?thesis using u [OF assms(3,4)] u [OF x(1)] x(2) by simp
qed

context z3_laws
begin

lemma short_circuit_slow:
  assumes pieces: "computation_pieces dl inps operands st = Inr ((allConcrete, checks, fills, new), st')"
    and ok: "list_all2 (operand_ok sem (getPointerSizeInBits dl) (next_name st) fr s) (zip inps operands) Fs"
    and len: "length inps = length operands" and key: "distinct (map (\<lambda>inp. (user inp, operandIndex inp)) inps)"
    and "ready z sem s" and some: "\<exists>v \<in> set operands. eval_value fr v \<noteq> VExpr None"
    and run: "\<And>fr' s'. agree (next_name st) fr fr' \<Longrightarrow> lib_step s s' \<Longrightarrow>
      fst ` set new \<subseteq> (\<lambda>inp. (user inp, operandIndex inp)) ` set inps \<Longrightarrow>
      list_all2 (\<lambda>x F. expr_value sem s' (eval_value fr' (slow_operand new x)) F) (zip inps operands) Fs \<Longrightarrow>
      rt_ok (rt_bind (exec_code D (simple_call z) (map (\<lambda>i. Ins (replaceOperands new i)) run)) (\<lambda>_. set_phis phi_body phis))
        (fr', s') Q"
  shows "rt_ok (exec_code D (simple_call z) (slow_path allConcrete checks fills new phis run)) (fr, s) Q"
proof -
  let ?null = "length (filter (\<lambda>v. v \<noteq> ConstantPointerNull) operands)"
  have exprs: "\<forall>v \<in> set operands. below (next_name st) v \<and> (\<exists>e. eval_value fr v = VExpr e)"
    using ok len by (force simp: list_all2_conv_all_nth in_set_conv_nth operand_ok_def tracked_def expr_value_def)
  from exprs obtain cs fr1 and st1 :: symbolizer where c: "exec_code D (simple_call z) checks (fr, s) = Inr ((), fr1, s)"
    "agree (next_name st) fr fr1" "checked operands fr (cs, allConcrete) (next_name st1) fr1" "same_env st st1"
    and cap: "capture (complete_inputs dl ?null (zip inps (zip operands cs))) st1 = Inr ((new, fills), st')"
    by (rule pieces_cases [OF pieces, where D = D and R = "simple_call z" and s = s]) (use some in auto)
  have lens: "length cs = length operands" using c(3) by (auto simp: checked_def dest: list_all2_lengthD)
  have zip: "map (\<lambda>x. (fst x, fst (snd x))) (zip inps (zip operands cs)) = zip inps operands"
    using len lens by (simp add: list_eq_iff_nth_eq)
  have "builds D (simple_call z) (complete_inputs dl ?null (zip inps (zip operands cs))) (st1\<lparr>code := []\<rparr>) fr1 s
      (inputs_completed (zip inps (zip operands cs)) Fs s)"
  proof (rule complete_inputs_builds)
    show "list_all2 (input_ok sem (getPointerSizeInBits dl) (next_name (st1\<lparr>code := []\<rparr>)) fr1 s) (zip inps (zip operands cs)) Fs"
      using zip_input_ok [OF ok len _ c(2)] c(3,4) by (simp add: checked_def same_env_def)
    show "distinct (map input_key (zip inps (zip operands cs)))"
    proof -
      have "map input_key (zip inps (zip operands cs)) = map (\<lambda>inp. (user inp, operandIndex inp)) inps"
        using len lens by (simp add: list_eq_iff_nth_eq input_key_def)
      then show ?thesis using key by simp
    qed
    show "\<forall>(inp, original, c) \<in> set (zip inps (zip operands cs)). original \<noteq> ConstantPointerNull \<longrightarrow>
        eval_value fr1 original \<noteq> VExpr None" if "?null = 1"
    proof clarify
      fix inp original c'
      assume o: "(inp, original, c') \<in> set (zip inps (zip operands cs))" "original \<noteq> ConstantPointerNull"
        "eval_value fr1 original = VExpr None"
      then have "original \<in> set operands" by (meson set_zip_leftD set_zip_rightD)
      then show False
        using single_unknown [OF that some _ o(2)] exprs agree_eval [OF _ c(2), of original] o(3) by auto
    qed
  qed (rule assms(5))
  then obtain new' fills' st2 fr2 s2 where f: "complete_inputs dl ?null (zip inps (zip operands cs)) (st1\<lparr>code := []\<rparr>) = Inr (new', st2)"
    "emits (st1\<lparr>code := []\<rparr>) st2 fills'" "exec_code D (simple_call z) fills' (fr1, s) = Inr ((), fr2, s2)"
    "agree (next_name st1) fr1 fr2" "inputs_completed (zip inps (zip operands cs)) Fs s new' st2 fr2 s2"
    by (auto simp: builds_def rt_ok_def)
  have eq: "new' = new" "fills' = fills"
    using capture_emits [where m = "complete_inputs dl ?null (zip inps (zip operands cs))", OF f(1,2)] cap by auto
  have "rt_ok (rt_bind (exec_code D (simple_call z) (map (\<lambda>i. Ins (replaceOperands new i)) run)) (\<lambda>_. set_phis phi_body phis))
      (fr2, s2) Q"
  proof (rule run)
    show "agree (next_name st) fr fr2" using agree_trans [OF c(2) f(4)] c(4) by (simp add: same_env_def)
    show "lib_step s s2" using f(5) by (simp add: inputs_completed_def)
    have "input_key ` set (zip inps (zip operands cs)) \<subseteq> (\<lambda>inp. (user inp, operandIndex inp)) ` set inps"
      by (auto simp: input_key_def dest!: set_zip_leftD)
    moreover have "fst ` set new \<subseteq> input_key ` set (zip inps (zip operands cs))"
      using f(5) unfolding inputs_completed_def eq by simp
    ultimately show "fst ` set new \<subseteq> (\<lambda>inp. (user inp, operandIndex inp)) ` set inps"
      by (rule order_trans [rotated])
    have "list_all2 (\<lambda>x F. expr_value sem s2 (eval_value fr2 (slow_operand new x)) F)
        (map (\<lambda>x. (fst x, fst (snd x))) (zip inps (zip operands cs))) Fs"
      using f(5) by (simp add: inputs_completed_def eq list_all2_map1 new_operand_def slow_operand_def case_prod_unfold cong: option.case_cong)
    then show "list_all2 (\<lambda>x F. expr_value sem s2 (eval_value fr2 (slow_operand new x)) F) (zip inps operands) Fs"
      by (simp only: zip)
  qed
  moreover have "eval_value fr1 allConcrete = VInt 1 (of_bool False)" using c(3) some by (auto simp: checked_def)
  ultimately show ?thesis
    using slow_path_exec(2) [OF c(1), where p = False] f(3)
    by (simp add: rt_ok_def exec_code_append rt_bind_assoc eq) (simp add: rt_bind_def)
qed

end

end
