(* ===== verification/Symbolizer_Laws.thy ===== *)
theory Symbolizer_Laws
  imports Short_Circuit_Laws
begin

text \<open>
  The visitors together with short-circuiting: the code that the instrumentation ends up with for one
  instruction, run with the simple backend, tracks the instruction. Null in, null out; and as soon as
  one operand has an expression, so has the result, and it denotes the operation on the meanings of
  the operands.
\<close>

subsection \<open>One computation\<close>

text \<open>The code that short-circuiting puts in the place of a computation, and the value of its result.\<close>

fun run_operands :: "emitted list \<Rightarrow> input list \<Rightarrow> llvm_value list" where
  "run_operands run [] = []"
| "run_operands run (inp # inps) =
     (case find (\<lambda>i. e_name i = user inp) run of
        None \<Rightarrow> ConstantPointerNull
      | Some i \<Rightarrow> e_args i ! operandIndex inp) # run_operands run inps"

definition rewritten ::
    "'a data_layout_scheme \<Rightarrow> SymbolicComputation \<Rightarrow> emitted list \<Rightarrow> (stmt list \<times> llvm_value) build" where
  "rewritten dl sc run =
     rt_bind (computation_pieces dl (inputs sc) (run_operands run (inputs sc))) (\<lambda>(allConcrete, checks, fills, new).
     rt_bind fresh (\<lambda>n.
     rt_return (slow_path allConcrete checks fills new
       [\<lparr>phi_name = n, phi_direct = ConstantPointerNull, phi_body = the (lastInstruction sc)\<rparr>] run,
       Inst PointerTy n)))"

text \<open>
  Running that code: null operands give a null result and leave the library alone, and otherwise the
  result is a live expression that denotes \<open>H\<close>.
\<close>

definition tracks_result ::
    "('m \<Rightarrow> 'e \<Rightarrow> smt_value) \<Rightarrow> bool \<Rightarrow> ('m \<Rightarrow> smt_value) \<Rightarrow> 'e simple_runtime \<Rightarrow> 'e rvalue \<Rightarrow> 'e simple_runtime \<Rightarrow> bool" where
  "tracks_result sem concrete H s x s' \<longleftrightarrow>
     (if concrete then x = VExpr None \<and> s' = s else lib_step s s' \<and> expr_value sem s' x H)"

text \<open>The inputs of a call: its first arguments are the expressions of the values \<open>as\<close>.\<close>

definition call_inputs :: "nat \<Rightarrow> llvm_value list \<Rightarrow> input list" where
  "call_inputs n as = map (\<lambda>(i, a). \<lparr>concreteValue = a, operandIndex = i, user = n\<rparr>) (enumerate 0 as)"

lemma call_inputs_simps [simp]:
  "length (call_inputs n as) = length as"
  "i < length as \<Longrightarrow> call_inputs n as ! i = \<lparr>concreteValue = as ! i, operandIndex = i, user = n\<rparr>"
  "distinct (map (\<lambda>inp. (user inp, operandIndex inp)) (call_inputs n as))"
  by (simp_all add: call_inputs_def nth_enumerate_eq distinct_conv_nth)

lemma call_inputs_keys: "(\<lambda>inp. (user inp, operandIndex inp)) ` set (call_inputs n as) = {n} \<times> {..<length as}"
proof (intro equalityI subsetI)
  fix x assume "x \<in> {n} \<times> {..<length as}"
  then obtain i where i: "x = (n, i)" "i < length as" by auto
  then show "x \<in> (\<lambda>inp. (user inp, operandIndex inp)) ` set (call_inputs n as)"
    using nth_mem [of i "call_inputs n as"] by force
qed (auto simp: call_inputs_def in_set_enumerate_eq)

lemma run_operands_call:
  assumes "length es = length as" "e_name call = n" "e_args call = es @ cs"
  shows "run_operands (call # rest) (call_inputs n as) = es"
proof -
  have "run_operands (call # rest) inps = map (\<lambda>inp. e_args call ! operandIndex inp) inps"
    if "\<forall>inp \<in> set inps. user inp = n" for inps
    using that assms(2) by (induction inps) auto
  moreover have "\<forall>inp \<in> set (call_inputs n as). user inp = n" by (auto simp: call_inputs_def)
  ultimately show ?thesis
    using assms by (auto simp: call_inputs_def list_eq_iff_nth_eq nth_enumerate_eq nth_append)
qed

lemma replaced_args:
  assumes "fst ` set new \<subseteq> {n} \<times> {..<length es}" "e_name call = n" "e_args call = es @ cs" "length as = length es"
  shows "e_args (replaceOperands new call) = map (slow_operand new) (zip (call_inputs n as) es) @ cs"
proof (rule nth_equalityI)
  show "length (e_args (replaceOperands new call)) = length (map (slow_operand new) (zip (call_inputs n as) es) @ cs)"
    using assms by (simp add: replaceOperands_def)
  fix k assume "k < length (e_args (replaceOperands new call))"
  then have k: "k < length es + length cs" using assms(3) by (simp add: replaceOperands_def)
  have "map_of new (n, k) = None" if "\<not> k < length es"
    using assms(1) that by (auto simp: map_of_eq_None_iff)
  then show "e_args (replaceOperands new call) ! k = (map (slow_operand new) (zip (call_inputs n as) es) @ cs) ! k"
    using k assms by (auto simp: replaceOperands_def nth_enumerate_eq nth_append slow_operand_def)
qed

lemma replaceOperands_other:
  assumes "\<And>k. (e_name i, k) \<notin> fst ` set new"
  shows "replaceOperands new i = i"
proof -
  have "map_of new (e_name i, k) = None" for k using assms by (auto simp: map_of_eq_None_iff)
  then have "e_args (replaceOperands new i) = e_args i"
    by (simp add: replaceOperands_def list_eq_iff_nth_eq nth_enumerate_eq)
  then show ?thesis by (simp add: replaceOperands_def)
qed

lemma creatable_complete_inputs:
  assumes "\<forall>(inp, original, c) \<in> set xs. scalar_type (getType (concreteValue inp))"
  shows "creatable (complete_inputs dl unknown xs) (\<lambda>_ _. True)"
  using assms
proof (induction xs)
  case (Cons x xs)
  obtain inp original c where x: "x = (inp, original, c)" by (cases x)
  have v: "creatable (createValueExpression dl (concreteValue inp)) (\<lambda>v n. getType v = PointerTy \<and> below n v)"
    using Cons.prems by (intro creatable_value) (simp add: x)
  have "creatable (complete_input dl (concreteValue inp) original c) (\<lambda>_ _. True)"
    unfolding creatable_def
  proof
    fix st :: symbolizer
    obtain e st1 new where "createValueExpression dl (concreteValue inp) (st\<lparr>code := []\<rparr>) = Inr (e, st1)"
      "emits (st\<lparr>code := []\<rparr>) st1 new" using v unfolding creatable_def by blast
    note run = complete_input_run [OF this]
    have "next_name st \<le> next_name st1" using \<open>emits _ st1 new\<close> by (simp add: emits_def)
    then show "\<exists>v st' new. complete_input dl (concreteValue inp) original c st = Inr (v, st') \<and> emits st st' new \<and> True"
      using v run [of original c] unfolding creatable_def complete_input_def
      by (cases "original = ConstantPointerNull") (fastforce simp: emits_def complete_input_def)+
  qed
  then show ?case
    using Cons by (auto simp: x intro!: creatable_bind [where P = "\<lambda>_ _. True"] creatable_return)
qed (simp add: creatable_return)

lemma creatable_null_checks: "creatable (null_checks vs) (\<lambda>_ _. True)"
  by (induction vs) (auto intro!: creatable_return creatable_bind [OF creatable_emit] creatable_bind)

lemma creatable_all_concrete: "creatable (all_concrete acc cs) (\<lambda>_ _. True)"
  by (induction cs arbitrary: acc) (auto intro!: creatable_return creatable_bind [OF creatable_emit])

lemma creatable_capture:
  assumes "creatable m P"
  obtains v new n where "capture m st = Inr ((v, new), st\<lparr>next_name := n\<rparr>)" "next_name st \<le> n"
proof -
  obtain v st' new where "m (st\<lparr>code := []\<rparr>) = Inr (v, st')" "emits (st\<lparr>code := []\<rparr>) st' new"
    using assms unfolding creatable_def by blast
  then show ?thesis using that capture_emits [of m] by (fastforce simp: emits_def)
qed

lemma pieces_exist:
  assumes "\<forall>inp \<in> set inps. scalar_type (getType (concreteValue inp))"
  obtains allConcrete checks fills new n where
    "computation_pieces dl inps operands st = Inr ((allConcrete, checks, fills, new), st\<lparr>next_name := n\<rparr>)"
    "next_name st \<le> n"
proof -
  have "creatable (build_checks operands) (\<lambda>_ _. True)"
    unfolding build_checks_def
    by (auto intro!: creatable_bind [OF creatable_null_checks] creatable_bind [OF creatable_all_concrete] creatable_return)
  then obtain cs a checks n where 1: "capture (build_checks operands) st = Inr (((cs, a), checks), st\<lparr>next_name := n\<rparr>)"
    "next_name st \<le> n" by (rule creatable_capture [where st = st]) auto
  have "creatable (complete_inputs dl (length (filter (\<lambda>v. v \<noteq> ConstantPointerNull) operands)) (zip inps (zip operands cs)))
      (\<lambda>_ _. True)"
    using assms by (intro creatable_complete_inputs) (auto dest: set_zip_leftD)
  then obtain new fills n' where
    "capture (complete_inputs dl (length (filter (\<lambda>v. v \<noteq> ConstantPointerNull) operands)) (zip inps (zip operands cs)))
      (st\<lparr>next_name := n\<rparr>) = Inr ((new, fills), st\<lparr>next_name := n'\<rparr>)" "n \<le> n'"
    by (rule creatable_capture [where st = "st\<lparr>next_name := n\<rparr>"]) auto
  then show ?thesis
    using that 1 by (simp add: computation_pieces_def build_checks_def rt_bind_def rt_return_def)
qed

lemma exec_call:
  assumes "e_op i = Call f" "R f (map (eval_value fr) (e_args i)) s = Inr (x, s')" "e_name i = n"
  shows "exec_emitted D R i (fr, s) = Inr ((), set_register fr n x, s')"
  using assms by (simp add: exec_emitted_def rt_bind_def rt_get_def on_library_def set_reg_def rt_modify_def)

context z3_laws
begin

lemma run_tracked:
  assumes call: "call = \<lparr>e_name = n, e_type = PointerTy, e_op = Call f, e_args = es @ cs\<rparr>"
    and len: "length es = length as" "length Fs = length as" "as \<noteq> []" and n: "n < next_name st"
    and args: "\<And>i. i < length as \<Longrightarrow> scalar_type (getType (as ! i)) \<and> below n (as ! i) \<and> below n (es ! i) \<and>
      tracked sem (getPointerSizeInBits dl) s fr (as ! i) (eval_value fr (es ! i)) (Fs ! i)"
    and cst: "\<forall>c \<in> set cs. below n c" and "ready z sem s"
    and call_ok: "\<And>xs s'. list_all2 (expr_value sem s') xs Fs \<Longrightarrow> lib_step s s' \<Longrightarrow>
      rt_ok (simple_call z f (xs @ map (eval_value fr) cs)) s' (\<lambda>x s''. lib_step s' s'' \<and> expr_value sem s'' x H1)"
    and rest: "\<forall>i \<in> set rest. n < e_name i" and result: "m < next_name st"
    and rest_ok: "\<And>fr' s'. agree n fr fr' \<Longrightarrow> expr_value sem s' (regs fr' n) H1 \<Longrightarrow>
      rt_ok (exec_code D (simple_call z) (map Ins rest)) (fr', s') (\<lambda>_ (fr'', s'').
        agree n fr fr'' \<and> lib_step s' s'' \<and> expr_value sem s'' (regs fr'' m) H)"
  obtains code v st' where
    "rewritten dl \<lparr>firstInstruction = Some (e_value call), lastInstruction = Some (Inst PointerTy m),
       inputs = call_inputs n as\<rparr> (call # rest) st = Inr ((code, v), st')"
    "rt_ok (exec_code D (simple_call z) code) (fr, s) (\<lambda>_ (fr', s'). agree n fr fr' \<and>
       tracks_result sem (\<forall>e \<in> set es. eval_value fr e = VExpr None) H s (eval_value fr' v) s')"
proof -
  let ?inps = "call_inputs n as" and ?run = "call # rest"
  have ops: "run_operands ?run ?inps = es" using len call by (intro run_operands_call) simp_all
  obtain a checks fills new k where pieces:
    "computation_pieces dl ?inps es st = Inr ((a, checks, fills, new), st\<lparr>next_name := k\<rparr>)" "next_name st \<le> k"
    by (rule pieces_exist [where st = st and dl = dl and inps = ?inps and operands = es])
      (use args in \<open>auto simp: call_inputs_def in_set_enumerate_eq\<close>)
  let ?phis = "[\<lparr>phi_name = k, phi_direct = ConstantPointerNull, phi_body = Inst PointerTy m\<rparr>]"
  let ?code = "slow_path a checks fills new ?phis ?run"
  have rew: "rewritten dl \<lparr>firstInstruction = Some (e_value call), lastInstruction = Some (Inst PointerTy m),
       inputs = ?inps\<rparr> ?run st = Inr ((?code, Inst PointerTy k), st\<lparr>next_name := Suc k\<rparr>)"
    using pieces(1) by (simp add: rewritten_def ops fresh_def rt_bind_def rt_get_def rt_modify_def rt_return_def)
  have below: "below (next_name st) (as ! i)" "below (next_name st) (es ! i)" if "i < length as" for i
    using args [OF that] n by (auto intro: below_mono)
  have nk: "n < k" "m < k" using n result pieces(2) by simp_all
  let ?Q = "\<lambda>_ (fr', s'). agree n fr fr' \<and>
    tracks_result sem (\<forall>e \<in> set es. eval_value fr e = VExpr None) H s (regs fr' k) s'"
  have "rt_ok (exec_code D (simple_call z) ?code) (fr, s) ?Q"
  proof (cases "\<forall>e \<in> set es. eval_value fr e = VExpr None")
    case True
    have "\<forall>v \<in> set es. below (next_name st) v \<and> eval_value fr v = VExpr None"
      using True below(2) len(1) by (auto simp: in_set_conv_nth)
    moreover have "es \<noteq> []" using len(1,3) by auto
    ultimately obtain fr1 where fr1: "agree (next_name st) fr fr1"
      "exec_code D (simple_call z) ?code (fr, s) = Inr ((), set_register fr1 k (VExpr None), s)"
      using short_circuit_fast [OF pieces(1), of fr D "simple_call z" ?phis ?run s]
      by (auto simp: rt_ok_def set_phis_def rt_modify_def)
    then show ?thesis
      using True n nk by (simp add: rt_ok_def tracks_result_def agree_def)
  next
    case False
    show ?thesis
    proof (rule short_circuit_slow [OF pieces(1), where Fs = Fs])
      show "list_all2 (operand_ok sem (getPointerSizeInBits dl) (next_name st) fr s) (zip ?inps es) Fs"
        using args below len by (auto simp: list_all2_conv_all_nth operand_ok_def)
    next
      fix fr' s'
      assume ag: "agree (next_name st) fr fr'" and st: "lib_step s s'"
        and new: "fst ` set new \<subseteq> (\<lambda>inp. (user inp, operandIndex inp)) ` set ?inps"
        and vals: "list_all2 (\<lambda>x F. expr_value sem s' (eval_value fr' (slow_operand new x)) F) (zip ?inps es) Fs"
      let ?xs = "map (eval_value fr') (map (slow_operand new) (zip ?inps es))"
      have arg: "map (eval_value fr') (e_args (replaceOperands new call)) = ?xs @ map (eval_value fr) cs"
      proof -
        have "e_args (replaceOperands new call) = map (slow_operand new) (zip ?inps es) @ cs"
          using new len(1) by (intro replaced_args) (simp_all add: call call_inputs_keys)
        moreover have "map (eval_value fr') cs = map (eval_value fr) cs"
          using cst agree_eval [OF _ agree_mono [OF ag]] n by (intro map_cong refl) auto
        ultimately show ?thesis by (simp only: map_append)
      qed
      obtain x s'' where x: "simple_call z f (?xs @ map (eval_value fr) cs) s' = Inr (x, s'')" "lib_step s' s''"
        "expr_value sem s'' x H1"
        using call_ok [OF _ st, of ?xs] vals unfolding rt_ok_def list_all2_map1 by blast
      have ex: "exec_emitted D (simple_call z) (replaceOperands new call) (fr', s') = Inr ((), set_register fr' n x, s'')"
        by (rule exec_call) (use arg x(1) call in \<open>simp_all add: replaceOperands_def\<close>)
      have rest_same: "map (\<lambda>i. Ins (replaceOperands new i)) rest = map Ins rest"
        using new rest by (intro map_cong refl arg_cong [where f = Ins] replaceOperands_other)
          (fastforce simp: call_inputs_keys)
      have "agree n fr (set_register fr' n x)" using agree_mono [OF ag] n by (intro agree_set_trans) simp_all
      moreover have "expr_value sem s'' (regs (set_register fr' n x) n) H1" using x(3) by simp
      ultimately obtain fr2 s2 where r: "exec_code D (simple_call z) (map Ins rest) (set_register fr' n x, s'') = Inr ((), fr2, s2)"
        "agree n fr fr2" "lib_step s'' s2" "expr_value sem s2 (regs fr2 m) H"
        using rest_ok by (force simp: rt_ok_def)
      have "rt_bind (exec_code D (simple_call z) (map (\<lambda>i. Ins (replaceOperands new i)) ?run))
          (\<lambda>_. set_phis phi_body ?phis) (fr', s') = Inr ((), set_register fr2 k (regs fr2 m), s2)"
        using ex r(1) by (simp add: rest_same rt_bind_def rt_return_def set_phis_def rt_modify_def)
      moreover have "agree n fr (set_register fr2 k (regs fr2 m))" using r(2) nk by (intro agree_set_trans) simp_all
      moreover have "tracks_result sem (\<forall>e \<in> set es. eval_value fr e = VExpr None) H s (regs fr2 m) s2"
        unfolding tracks_result_def if_not_P [OF False] using r lib_step_trans [OF st lib_step_trans [OF x(2)]] by blast
      ultimately show "rt_ok (rt_bind (exec_code D (simple_call z) (map (\<lambda>i. Ins (replaceOperands new i)) ?run))
          (\<lambda>_. set_phis phi_body ?phis)) (fr', s') ?Q"
        by (simp add: rt_ok_def)
    qed (use len False \<open>ready z sem s\<close> in auto)
  qed
  then show ?thesis using that [OF rew] by simp
qed

end

subsection \<open>What the visitors record\<close>

text \<open>Expressions are pointers, and their names are in use.\<close>

definition wf_exprs :: "symbolizer \<Rightarrow> bool" where
  "wf_exprs st \<longleftrightarrow> (\<forall>V e. symbolicExpressions st V = Some e \<longrightarrow> getType e = PointerTy \<and> below (next_name st) e)"

lemma wf_expression_or_null:
  "wf_exprs st \<Longrightarrow> getType (expression_or_null st V) = PointerTy \<and> below (next_name st) (expression_or_null st V)"
  by (auto simp: wf_exprs_def expression_or_null_def split: option.splits)

lemma wf_exprs_mono:
  "wf_exprs st \<Longrightarrow> symbolicExpressions st' = symbolicExpressions st \<Longrightarrow> next_name st \<le> next_name st' \<Longrightarrow> wf_exprs st'"
  using below_mono by (force simp: wf_exprs_def)

lemma expression_or_null_code [simp]:
  "expression_or_null (st\<lparr>code := c\<rparr>) = expression_or_null st"
  "expression_or_null (st\<lparr>next_name := n\<rparr>) = expression_or_null st"
  by (simp_all add: fun_eq_iff expression_or_null_def)

lemma argument_values_run:
  "argument_values (map (\<lambda>a. (a, True)) as @ map (\<lambda>c. (c, False)) cs) st =
   Inr (map (expression_or_null st) as @ cs, st)"
proof (induction as)
  case Nil
  show ?case by (induction cs) (simp_all add: rt_return_def rt_bind_def)
next
  case (Cons a as)
  then show ?case
    by (simp add: rt_return_def rt_bind_def getSymbolicExpressionOrNull_def getSymbolicExpression_def rt_get_def
        expression_or_null_def)
qed

lemma make_inputs_run:
  assumes "\<forall>e \<in> set es. getType e = PointerTy" "length es = length as"
  shows "make_inputs i (map (\<lambda>a. (a, True)) as @ map (\<lambda>c. (c, False)) cs) (es @ cs) (Inst t n) st =
    Inr (map (\<lambda>(k, a). \<lparr>concreteValue = a, operandIndex = k, user = n\<rparr>) (enumerate i as), st)"
  using assms
proof (induction as arbitrary: i es)
  case Nil
  have "make_inputs i (map (\<lambda>c. (c, False)) cs) cs (Inst t n) st = Inr ([], st)"
    by (induction cs arbitrary: i) (simp_all add: rt_return_def)
  then show ?case using Nil by simp
next
  case (Cons a as)
  then obtain e es' where "es = e # es'" by (cases es) auto
  then show ?case
    using Cons by (simp add: make_input_def rt_bind_def rt_return_def rt_assert_def)
qed

lemma force_call_run:
  assumes "call_type dl f = Some t" "wf_exprs st"
  shows "forceBuildRuntimeCall dl f (map (\<lambda>a. (a, True)) as @ map (\<lambda>c. (c, False)) cs) st =
    Inr (\<lparr>firstInstruction = Some (Inst t (next_name st)), lastInstruction = Some (Inst t (next_name st)),
           inputs = call_inputs (next_name st) as\<rparr>,
      st\<lparr>next_name := Suc (next_name st), code := code st @
        [Ins \<lparr>e_name = next_name st, e_type = t, e_op = Call f, e_args = map (expression_or_null st) as @ cs\<rparr>]\<rparr>)"
proof -
  have "\<forall>e \<in> set (map (expression_or_null st) as). getType e = PointerTy"
    using wf_expression_or_null [OF assms(2)] by auto
  from make_inputs_run [OF this, of as 0 cs t "next_name st"] show ?thesis
    using assms(1)
    by (simp add: forceBuildRuntimeCall_def argument_values_run rt_bind_def CreateCall_def emit_def fresh_def
        rt_get_def rt_modify_def rt_return_def call_inputs_def)
qed

lemma build_call_run:
  assumes "call_type dl f = Some t" "wf_exprs st" "\<exists>a \<in> set as. symbolicExpressions st a \<noteq> None"
  shows "buildRuntimeCall dl f (map (\<lambda>a. (a, True)) as @ map (\<lambda>c. (c, False)) cs) st =
    Inr (Some \<lparr>firstInstruction = Some (Inst t (next_name st)), lastInstruction = Some (Inst t (next_name st)),
           inputs = call_inputs (next_name st) as\<rparr>,
      st\<lparr>next_name := Suc (next_name st), code := code st @
        [Ins \<lparr>e_name = next_name st, e_type = t, e_op = Call f, e_args = map (expression_or_null st) as @ cs\<rparr>]\<rparr>)"
proof -
  let ?args = "map (\<lambda>a. (a, True)) as @ map (\<lambda>c. (c, False)) cs"
  obtain a where "a \<in> set as" "symbolicExpressions st a \<noteq> None" using assms(3) by blast
  then have "(a, True) \<in> set ?args" "\<not> (case (a, True) of (arg, _) \<Rightarrow> symbolicExpressions st arg = None)" by auto
  then have "\<not> (\<forall>(arg, _) \<in> set ?args. symbolicExpressions st arg = None)" by blast
  then show ?thesis
    using force_call_run [OF assms(1,2), of as cs]
    by (simp only: buildRuntimeCall_def rt_bind_def rt_get_def rt_return_def prod.case sum.case if_False)
qed

text \<open>A call whose result becomes the expression of the instruction.\<close>

definition recorded_call ::
    "sym_fn \<Rightarrow> llvm_value list \<Rightarrow> llvm_value list \<Rightarrow> symbolizer \<Rightarrow> emitted" where
  "recorded_call f as cs st = \<lparr>e_name = next_name st, e_type = PointerTy, e_op = Call f,
     e_args = map (expression_or_null st) as @ cs\<rparr>"

lemma cast_call_run:
  assumes "call_type C f = Some PointerTy" "wf_exprs st" "\<exists>a \<in> set as. symbolicExpressions st a \<noteq> None"
  shows "IRBuilder p (rt_bind (buildRuntimeCall C f (map (\<lambda>a. (a, True)) as @ map (\<lambda>c. (c, False)) cs))
      (\<lambda>r. registerOptional r (Some V))) st =
    Inr ((), st\<lparr>next_name := Suc (next_name st),
      symbolicExpressions := (symbolicExpressions st)(V \<mapsto> Inst PointerTy (next_name st)),
      expressionUses := expressionUses st @ [\<lparr>firstInstruction = Some (Inst PointerTy (next_name st)),
        lastInstruction = Some (Inst PointerTy (next_name st)), inputs = call_inputs (next_name st) as\<rparr>],
      inserted := update_code p (\<lambda>old. old @ [Ins (recorded_call f as cs st)]) (inserted st)\<rparr>)"
proof -
  have "wf_exprs (st\<lparr>code := []\<rparr>)" using assms(2) by (simp add: wf_exprs_def)
  from build_call_run [OF assms(1) this, of as cs] show ?thesis
    using assms(3)
    by (simp add: IRBuilder_def capture_def rt_bind_def rt_get_def rt_modify_def rt_return_def registerOptional_def
        registerSymbolicComputation_def set_expression_def recorded_call_def)
qed

lemma code_at_update: "code_at (st\<lparr>inserted := update_code p f (inserted st)\<rparr>) p = f (code_at st p)"
proof -
  have "map_of (update_code p f xs) p = Some (f (case map_of xs p of None \<Rightarrow> [] | Some c \<Rightarrow> c))" for xs
    by (induction xs) auto
  then show ?thesis by (simp add: code_at_def)
qed

text \<open>
  The code for one instruction, after its visitor and the short-circuiting of the computation that the
  visitor recorded, with the value that holds the expression of the result.
\<close>

definition instrument_one :: "compile_env \<Rightarrow> instruction \<Rightarrow> (stmt list \<times> llvm_value) build" where
  "instrument_one C I =
     rt_bind (rt_get (\<lambda>s. length (code_at s (Before (i_name I))))) (\<lambda>k.
     rt_bind (visit C I) (\<lambda>_.
     rt_bind (rt_get id) (\<lambda>s.
     rewritten C (last (expressionUses s)) (concat (map emitted_stmt (drop k (code_at s (Before (i_name I)))))))))"

text \<open>The operands of an instruction: tracked values whose expressions the symbolizer knows.\<close>

definition operands_ok ::
    "('m \<Rightarrow> 'e \<Rightarrow> smt_value) \<Rightarrow> 'a data_layout_scheme \<Rightarrow> symbolizer \<Rightarrow> 'e frame \<Rightarrow> 'e simple_runtime \<Rightarrow>
     llvm_value list \<Rightarrow> ('m \<Rightarrow> smt_value) list \<Rightarrow> bool" where
  "operands_ok sem dl st fr s as Fs \<longleftrightarrow>
     wf_exprs st \<and> (\<exists>a \<in> set as. symbolicExpressions st a \<noteq> None) \<and>
     list_all2 (\<lambda>a F. scalar_type (getType a) \<and> below (next_name st) a \<and>
       tracked sem (getPointerSizeInBits dl) s fr a (eval_value fr (expression_or_null st a)) F) as Fs"

definition all_null :: "symbolizer \<Rightarrow> 'e frame \<Rightarrow> llvm_value list \<Rightarrow> bool" where
  "all_null st fr as \<longleftrightarrow> (\<forall>a \<in> set as. eval_value fr (expression_or_null st a) = VExpr None)"

text \<open>
  The instrumentation of an instruction tracks it: the inserted code runs to its end, keeps the
  registers of the program, and leaves the expression of the result in the value it returns.
\<close>

definition tracks_instruction ::
    "(fp_kind \<Rightarrow> int \<Rightarrow> int) \<Rightarrow> 'e z3 \<Rightarrow> ('m \<Rightarrow> 'e \<Rightarrow> smt_value) \<Rightarrow> compile_env \<Rightarrow> instruction \<Rightarrow> symbolizer \<Rightarrow>
     'e frame \<Rightarrow> 'e simple_runtime \<Rightarrow> llvm_value list \<Rightarrow> ('m \<Rightarrow> smt_value) \<Rightarrow> bool" where
  "tracks_instruction D z sem C I st fr s as H \<longleftrightarrow>
     (\<exists>code v st'. instrument_one C I st = Inr ((code, v), st') \<and>
       rt_ok (exec_code D (simple_call z) code) (fr, s) (\<lambda>_ (fr', s').
         agree (next_name st) fr fr' \<and> tracks_result sem (all_null st fr as) H s (eval_value fr' v) s'))"

lemma instrument_one_run:
  assumes "visit C I st = Inr ((), st1)" "code_at st1 (Before (i_name I)) = code_at st (Before (i_name I)) @ map Ins run"
    and "expressionUses st1 = expressionUses st @ [sc]"
  shows "instrument_one C I st = rewritten C sc run st1"
proof -
  have "concat (map emitted_stmt (map Ins run)) = run" by (induction run) simp_all
  then show ?thesis using assms by (simp add: instrument_one_def rt_bind_def rt_get_def)
qed

context z3_laws
begin

lemma call_instrumented:
  assumes visit: "visit C I st = IRBuilder (Before (i_name I))
      (rt_bind (buildRuntimeCall C f (map (\<lambda>a. (a, True)) as @ map (\<lambda>c. (c, False)) cs))
        (\<lambda>r. registerOptional r (Some V))) st"
    and ct: "call_type C f = Some PointerTy" and args: "operands_ok sem C st fr s as Fs"
    and cst: "\<forall>c \<in> set cs. below (next_name st) c" and "ready z sem s"
    and call_ok: "\<And>xs s'. list_all2 (expr_value sem s') xs Fs \<Longrightarrow>
      rt_ok (simple_call z f (xs @ map (eval_value fr) cs)) s' (\<lambda>x s''. lib_step s' s'' \<and> expr_value sem s'' x H)"
  shows "tracks_instruction D z sem C I st fr s as H"
proof -
  let ?n = "next_name st" and ?call = "recorded_call f as cs st"
  let ?sc = "\<lparr>firstInstruction = Some (e_value ?call), lastInstruction = Some (Inst PointerTy ?n),
    inputs = call_inputs ?n as\<rparr>"
  have wf: "wf_exprs st" and some: "\<exists>a \<in> set as. symbolicExpressions st a \<noteq> None" and "as \<noteq> []"
    and all: "list_all2 (\<lambda>a F. scalar_type (getType a) \<and> below ?n a \<and>
       tracked sem (getPointerSizeInBits C) s fr a (eval_value fr (expression_or_null st a)) F) as Fs"
    using args by (auto simp: operands_ok_def)
  define st1 where "st1 = st\<lparr>next_name := Suc ?n,
      symbolicExpressions := (symbolicExpressions st)(V \<mapsto> Inst PointerTy ?n),
      expressionUses := expressionUses st @ [?sc],
      inserted := update_code (Before (i_name I)) (\<lambda>old. old @ [Ins ?call]) (inserted st)\<rparr>"
  have v: "visit C I st = Inr ((), st1)"
    using cast_call_run [OF ct wf some] unfolding visit st1_def by (simp add: e_value_def recorded_call_def)
  have "code_at st1 (Before (i_name I)) = code_at st (Before (i_name I)) @ map Ins [?call]"
    using code_at_update [where st = st and p = "Before (i_name I)" and f = "\<lambda>old. old @ [Ins ?call]"]
    by (simp add: st1_def code_at_def)
  then have one: "instrument_one C I st = rewritten C ?sc [?call] st1"
    by (rule instrument_one_run [OF v]) (simp add: st1_def)
  obtain code v st' where r: "rewritten C ?sc [?call] st1 = Inr ((code, v), st')"
    "rt_ok (exec_code D (simple_call z) code) (fr, s) (\<lambda>_ (fr', s'). agree ?n fr fr' \<and>
       tracks_result sem (\<forall>e \<in> set (map (expression_or_null st) as). eval_value fr e = VExpr None) H s (eval_value fr' v) s')"
  proof (rule run_tracked [where call = ?call and n = ?n and f = f and as = as and Fs = Fs and st = st1 and dl = C and rest = "[]"
        and es = "map (expression_or_null st) as" and cs = cs and s = s and fr = fr and m = ?n and ?H1.0 = H and H = H and D = D])
    show "scalar_type (getType (as ! i)) \<and> below ?n (as ! i) \<and> below ?n (map (expression_or_null st) as ! i) \<and>
        tracked sem (getPointerSizeInBits C) s fr (as ! i) (eval_value fr (map (expression_or_null st) as ! i)) (Fs ! i)"
      if "i < length as" for i
      using list_all2_nthD [OF all that] wf_expression_or_null [OF wf] that by simp
    show "rt_ok (exec_code D (simple_call z) (map Ins [])) (fr', s') (\<lambda>_ (fr'', s'').
        agree ?n fr fr'' \<and> lib_step s' s'' \<and> expr_value sem s'' (regs fr'' ?n) H)"
      if "agree ?n fr fr'" "expr_value sem s' (regs fr' ?n) H" for fr' s'
      using that by (simp add: rt_ok_def rt_return_def)
  qed (use cst \<open>ready z sem s\<close> call_ok list_all2_lengthD [OF all] \<open>as \<noteq> []\<close> in \<open>simp_all add: recorded_call_def st1_def\<close>)
  then show ?thesis unfolding tracks_instruction_def one all_null_def by auto
qed

end

end
