(* ===== verification/Operator_Laws.thy ===== *)
theory Operator_Laws
  imports Symbolizer_Laws
begin

text \<open>
  The instrumentation of operators, comparisons and casts on integers tracks what LLVM computes: the
  meaning of the instructions is defined independently of the solver, and the expression that the
  inserted code builds has that meaning.
\<close>

subsection \<open>What the instructions compute\<close>

text \<open>
  Values of type \<open>iN\<close> are numbers below \<open>2 ^ N\<close>. \<open>None\<close> stands for undefined behaviour and poison: division
  by zero, the overflow of a signed division, and shifts by the width or more.
\<close>

fun llvm_binary :: "binary_op \<Rightarrow> nat \<Rightarrow> int \<Rightarrow> int \<Rightarrow> int option" where
  "llvm_binary BAdd n x y = Some (take_bit n (x + y))"
| "llvm_binary BSub n x y = Some (take_bit n (x - y))"
| "llvm_binary BMul n x y = Some (take_bit n (x * y))"
| "llvm_binary BUDiv n x y = (if y = 0 then None else Some (x div y))"
| "llvm_binary BSDiv n x y =
     (if y = 0 \<or> (sval n x = - (2 ^ (n - 1)) \<and> sval n y = - 1) then None
      else Some (take_bit n (sval n x sdiv sval n y)))"
| "llvm_binary BURem n x y = (if y = 0 then None else Some (x mod y))"
| "llvm_binary BSRem n x y =
     (if y = 0 \<or> (sval n x = - (2 ^ (n - 1)) \<and> sval n y = - 1) then None
      else Some (take_bit n (sval n x smod sval n y)))"
| "llvm_binary BShl n x y = (if y < int n then Some (take_bit n (x * 2 ^ nat y)) else None)"
| "llvm_binary BLShr n x y = (if y < int n then Some (x div 2 ^ nat y) else None)"
| "llvm_binary BAShr n x y = (if y < int n then Some (take_bit n (sval n x div 2 ^ nat y)) else None)"
| "llvm_binary BAnd n x y = Some (x AND y)"
| "llvm_binary BOr n x y = Some (x OR y)"
| "llvm_binary BXor n x y = Some (x XOR y)"
| "llvm_binary _ n x y = None"

fun llvm_icmp :: "predicate \<Rightarrow> nat \<Rightarrow> int \<Rightarrow> int \<Rightarrow> bool option" where
  "llvm_icmp ICMP_EQ n x y = Some (x = y)"
| "llvm_icmp ICMP_NE n x y = Some (x \<noteq> y)"
| "llvm_icmp ICMP_UGT n x y = Some (x > y)"
| "llvm_icmp ICMP_UGE n x y = Some (x \<ge> y)"
| "llvm_icmp ICMP_ULT n x y = Some (x < y)"
| "llvm_icmp ICMP_ULE n x y = Some (x \<le> y)"
| "llvm_icmp ICMP_SGT n x y = Some (sval n x > sval n y)"
| "llvm_icmp ICMP_SGE n x y = Some (sval n x \<ge> sval n y)"
| "llvm_icmp ICMP_SLT n x y = Some (sval n x < sval n y)"
| "llvm_icmp ICMP_SLE n x y = Some (sval n x \<le> sval n y)"
| "llvm_icmp _ n x y = None"

fun llvm_cast :: "cast_op \<Rightarrow> nat \<Rightarrow> nat \<Rightarrow> int \<Rightarrow> int option" where
  "llvm_cast CZExt n m x = (if n < m then Some x else None)"
| "llvm_cast CSExt n m x = (if n < m then Some (take_bit m (sval n x)) else None)"
| "llvm_cast CTrunc n m x = (if m < n then Some (take_bit m x) else None)"
| "llvm_cast _ n m x = None"

text \<open>How the solver represents a value of type \<open>iN\<close>: Booleans have a sort of their own.\<close>

definition int_smt :: "nat \<Rightarrow> int \<Rightarrow> smt_value" where
  "int_smt n k = (if n = 1 then BoolV (k \<noteq> 0) else BVV n k)"

definition integer_op :: "binary_op \<Rightarrow> bool" where
  "integer_op opc \<longleftrightarrow> opc \<notin> {BFAdd, BFSub, BFMul, BFDiv, BFRem}"

definition boolean_op :: "binary_op \<Rightarrow> bool" where
  "boolean_op opc \<longleftrightarrow> opc \<in> {BAnd, BOr, BXor}"

subsection \<open>Calls with expressions as arguments\<close>

lemma call_one:
  assumes "list_all2 (expr_value sem s) xs [F]"
    and "\<And>x. x \<in> live_exprs (backend_state s) \<Longrightarrow> (\<And>\<sigma>. sem \<sigma> x = F \<sigma>) \<Longrightarrow>
      denotes live_exprs sem (m (Some x)) (backend_state s) H" "\<And>x. keeping (m x)"
  obtains x where "xs = [VExpr (Some x)]"
    "rt_ok (expr_result (m (Some x))) s (\<lambda>x s'. lib_step s s' \<and> expr_value sem s' x H)"
proof -
  obtain x where x: "xs = [VExpr (Some x)]" "x \<in> live_exprs (backend_state s)" "\<And>\<sigma>. sem \<sigma> x = F \<sigma>"
    using assms(1) by (auto simp: list_all2_Cons2 expr_value_def)
  show ?thesis using that x(1) expr_call [OF assms(2) assms(3), OF x(2,3)] by blast
qed

lemma call_two:
  assumes "list_all2 (expr_value sem s) xs [F, G]"
    and "\<And>x y. x \<in> live_exprs (backend_state s) \<Longrightarrow> y \<in> live_exprs (backend_state s) \<Longrightarrow>
      (\<And>\<sigma>. sem \<sigma> x = F \<sigma>) \<Longrightarrow> (\<And>\<sigma>. sem \<sigma> y = G \<sigma>) \<Longrightarrow>
      denotes live_exprs sem (m (Some x) (Some y)) (backend_state s) H" "\<And>x y. keeping (m x y)"
  shows "rt_ok (with_e2 (\<lambda>a b. expr_result (m a b)) xs) s (\<lambda>x s'. lib_step s s' \<and> expr_value sem s' x H)"
proof -
  obtain x y where xy: "xs = [VExpr (Some x), VExpr (Some y)]" "x \<in> live_exprs (backend_state s)"
    "y \<in> live_exprs (backend_state s)" "\<And>\<sigma>. sem \<sigma> x = F \<sigma>" "\<And>\<sigma>. sem \<sigma> y = G \<sigma>"
    using assms(1) by (auto simp: list_all2_Cons2 expr_value_def)
  show ?thesis
    using expr_call [OF assms(2) assms(3), OF xy(2-5)] by (simp add: xy(1) with_e2_def)
qed

subsection \<open>Operators\<close>

text \<open>The builder of an operator, and its meaning where LLVM defines the result.\<close>

fun builder_of :: "binary_op \<Rightarrow> sym_binary" where
  "builder_of BAdd = SAdd" | "builder_of BSub = SSub" | "builder_of BMul = SMul"
| "builder_of BUDiv = SUnsigned_div" | "builder_of BSDiv = SSigned_div"
| "builder_of BURem = SUnsigned_rem" | "builder_of BSRem = SSigned_rem"
| "builder_of BShl = SShift_left" | "builder_of BLShr = SLogical_shift_right"
| "builder_of BAShr = SArithmetic_shift_right"
| "builder_of BAnd = SAnd" | "builder_of BOr = SOr" | "builder_of _ = SXor"

lemma binary_builder_of: "integer_op opc \<Longrightarrow> binary_builder z opc = sym_build_binary z (builder_of opc)"
  by (cases opc) (simp_all add: integer_op_def)

definition operator_sem :: "binary_op \<Rightarrow> nat \<Rightarrow> int \<Rightarrow> int \<Rightarrow> smt_value" where
  "operator_sem opc n x y = the (z3_sem (z3_name (builder_of opc)) [BVV n x, BVV n y])"

lemma operator_sem:
  assumes "integer_op opc" "0 < n"
  shows "z3_sem (z3_name (builder_of opc)) [BVV n x, BVV n y] = Some (operator_sem opc n x y)"
    and "llvm_binary opc n x y = Some k \<Longrightarrow> operator_sem opc n x y = BVV n k"
proof -
  show "z3_sem (z3_name (builder_of opc)) [BVV n x, BVV n y] = Some (operator_sem opc n x y)"
    using assms(1) by (cases opc) (simp_all add: operator_sem_def z3_sem_def binary_sem_def integer_op_def)
  assume "llvm_binary opc n x y = Some k"
  then have "bv_binary (builder_of opc) n x y = Some (BVV n k)"
    using assms(1) by (cases opc) (auto simp: integer_op_def split: if_splits)
  moreover have "builder_of opc \<noteq> SNot_equal" by (cases opc) simp_all
  ultimately show "operator_sem opc n x y = BVV n k"
    using bv_table assms(2) by (simp add: operator_sem_def)
qed

text \<open>The Boolean operators.\<close>

fun bool_builder_of :: "binary_op \<Rightarrow> sym_binary" where
  "bool_builder_of BAnd = SBool_and" | "bool_builder_of BOr = SBool_or" | "bool_builder_of _ = SBool_xor"

fun bool_fn_of :: "binary_op \<Rightarrow> sym_fn" where
  "bool_fn_of BAnd = BuildBoolAnd" | "bool_fn_of BOr = BuildBoolOr" | "bool_fn_of _ = BuildBoolXor"

lemma bool_operator_sem:
  assumes "boolean_op opc" "x \<in> {0, 1}" "y \<in> {0, 1}" "llvm_binary opc 1 x y = Some k"
  shows "bool_binary (bool_builder_of opc) (x \<noteq> 0) (y \<noteq> 0) = Some (BoolV (k \<noteq> 0))"
  using assms by (auto simp: boolean_op_def)

context z3_laws
begin

lemma operator_call:
  assumes "list_all2 (expr_value sem s) xs [\<lambda>\<sigma>. BVV n (i \<sigma>), \<lambda>\<sigma>. BVV n (j \<sigma>)]" "integer_op opc" "0 < n"
  shows "rt_ok (simple_call z (BinaryOperatorHandler opc) xs) s
    (\<lambda>x s'. lib_step s s' \<and> expr_value sem s' x (\<lambda>\<sigma>. operator_sem opc n (i \<sigma>) (j \<sigma>)))"
proof -
  have "builder_of opc \<noteq> SNot_equal" by (cases opc) simp_all
  then have d: "denotes live_exprs sem (sym_build_binary z (builder_of opc) (Some x) (Some y)) b
      (\<lambda>\<sigma>. operator_sem opc n (i \<sigma>) (j \<sigma>))"
    if "\<And>\<sigma>. sem \<sigma> x = BVV n (i \<sigma>)" "\<And>\<sigma>. sem \<sigma> y = BVV n (j \<sigma>)" for x y b
    using that operator_sem(1) [OF assms(2,3)] by (simp add: sym_build_binary_def denotes_build2)
  show ?thesis
    unfolding simple_call.simps binary_builder_of [OF assms(2)]
    by (rule call_two [OF assms(1)], rule d, assumption+, rule keeping_simple)
qed

lemma boolean_call:
  assumes "list_all2 (expr_value sem s) xs [\<lambda>\<sigma>. BoolV (p \<sigma>), \<lambda>\<sigma>. BoolV (q \<sigma>)]" "boolean_op opc"
  shows "rt_ok (simple_call z (bool_fn_of opc) xs) s
    (\<lambda>x s'. lib_step s s' \<and> expr_value sem s' x (\<lambda>\<sigma>. the (bool_binary (bool_builder_of opc) (p \<sigma>) (q \<sigma>))))"
proof -
  have d: "denotes live_exprs sem (sym_build_binary z (bool_builder_of opc) (Some x) (Some y)) b
      (\<lambda>\<sigma>. the (bool_binary (bool_builder_of opc) (p \<sigma>) (q \<sigma>)))"
    if "\<And>\<sigma>. sem \<sigma> x = BoolV (p \<sigma>)" "\<And>\<sigma>. sem \<sigma> y = BoolV (q \<sigma>)" for x y b
    using that assms(2) by (intro denotes_binary) (auto simp: boolean_op_def)
  have "rt_ok (with_e2 (\<lambda>a b. expr_result (sym_build_binary z (bool_builder_of opc) a b)) xs) s
    (\<lambda>x s'. lib_step s s' \<and> expr_value sem s' x (\<lambda>\<sigma>. the (bool_binary (bool_builder_of opc) (p \<sigma>) (q \<sigma>))))"
    by (rule call_two [OF assms(1)], rule d, assumption+, rule keeping_simple)
  then show ?thesis using assms(2) by (auto simp: boolean_op_def)
qed

text \<open>
  An operator on integers of the same type. On Booleans the solver knows only \<open>and\<close>, \<open>or\<close> and \<open>xor\<close>, and
  the visitor gives up on every other operator.
\<close>

lemma visit_binary:
  assumes "i_kind I = BinaryOperator opc a b" "getType a = IntegerTy n" "n = 1 \<longrightarrow> boolean_op opc"
  shows "visit C I st = IRBuilder (Before (i_name I))
      (rt_bind (buildRuntimeCall C (if n = 1 then bool_fn_of opc else BinaryOperatorHandler opc)
        (map (\<lambda>a. (a, True)) [a, b] @ map (\<lambda>c. (c, False)) []))
        (\<lambda>r. registerOptional r (Some (result_of I)))) st"
proof -
  have "runtime_member C (BinaryOperatorHandler opc) \<noteq> None" "runtime_member C (bool_fn_of opc) \<noteq> None"
    using call_type_handlers [of C opc] call_type_builders(12-14) [of C]
    by (cases opc; auto simp: call_type_def)+
  moreover have "binary_handler (IntegerTy n) opc = rt_return (if n = 1 then bool_fn_of opc else BinaryOperatorHandler opc)"
    using assms(3) by (auto simp: binary_handler_def boolean_op_def)
  ultimately show ?thesis
    using assms(1,2)
    by (auto simp: visit_def Symbolizer.visitBinaryOperator_def symbolic_call_def symbolic_args_def rt_bind_def rt_return_def rt_assert_def)
qed

lemma binary_operator_tracked:
  assumes I: "i_kind I = BinaryOperator opc a b" "getType a = IntegerTy n" "integer_op opc" "0 < n" "n = 1 \<longrightarrow> boolean_op opc"
    and args: "operands_ok sem C st fr s [a, b] [\<lambda>\<sigma>. int_smt n (i \<sigma>), \<lambda>\<sigma>. int_smt n (j \<sigma>)]" and "ready z sem s"
    and bits: "n = 1 \<longrightarrow> (\<forall>\<sigma>. i \<sigma> \<in> {0, 1} \<and> j \<sigma> \<in> {0, 1})"
  shows "\<exists>H. (\<forall>\<sigma> k. llvm_binary opc n (i \<sigma>) (j \<sigma>) = Some k \<longrightarrow> H \<sigma> = int_smt n k) \<and>
    tracks_instruction D z sem C I st fr s [a, b] H"
proof -
  let ?f = "if n = 1 then bool_fn_of opc else BinaryOperatorHandler opc"
  let ?H = "\<lambda>\<sigma>. if n = 1 then the (bool_binary (bool_builder_of opc) (i \<sigma> \<noteq> 0) (j \<sigma> \<noteq> 0))
    else operator_sem opc n (i \<sigma>) (j \<sigma>)"
  have "tracks_instruction D z sem C I st fr s [a, b] ?H"
  proof (rule call_instrumented [OF visit_binary [OF I(1,2,5)] _ args _ assms(7)])
    show "call_type C ?f = Some PointerTy" by (cases opc) simp_all
    fix xs s' assume xs: "list_all2 (expr_value sem s') xs [\<lambda>\<sigma>. int_smt n (i \<sigma>), \<lambda>\<sigma>. int_smt n (j \<sigma>)]"
    show "rt_ok (simple_call z ?f (xs @ map (eval_value fr) [])) s' (\<lambda>x s''. lib_step s' s'' \<and> expr_value sem s'' x ?H)"
    proof (cases "n = 1")
      case True
      have "list_all2 (expr_value sem s') xs [\<lambda>\<sigma>. BoolV (i \<sigma> \<noteq> 0), \<lambda>\<sigma>. BoolV (j \<sigma> \<noteq> 0)]"
        using xs by (simp add: True int_smt_def)
      from boolean_call [OF this] show ?thesis using I(5) unfolding True if_P [OF refl] by simp
    next
      case False
      have "list_all2 (expr_value sem s') xs [\<lambda>\<sigma>. BVV n (i \<sigma>), \<lambda>\<sigma>. BVV n (j \<sigma>)]"
        using xs unfolding int_smt_def if_not_P [OF False] .
      from operator_call [OF this I(3,4)] show ?thesis unfolding if_not_P [OF False] by simp
    qed
  qed simp_all
  moreover have "?H \<sigma> = int_smt n k" if "llvm_binary opc n (i \<sigma>) (j \<sigma>) = Some k" for \<sigma> k
  proof (cases "n = 1")
    case True
    have "bool_binary (bool_builder_of opc) (i \<sigma> \<noteq> 0) (j \<sigma> \<noteq> 0) = Some (BoolV (k \<noteq> 0))"
      using that I(5) bits True by (intro bool_operator_sem) simp_all
    then show ?thesis by (simp add: True int_smt_def)
  next
    case False
    show ?thesis unfolding int_smt_def if_not_P [OF False] by (rule operator_sem(2) [OF I(3,4) that])
  qed
  ultimately show ?thesis by (intro exI [of _ ?H] conjI allI impI)
qed

end

subsection \<open>Comparisons\<close>

text \<open>Integers, and pointers as integers of the pointer width.\<close>

fun value_smt :: "'a data_layout_scheme \<Rightarrow> ty \<Rightarrow> int \<Rightarrow> smt_value" where
  "value_smt dl (IntegerTy n) k = int_smt n k"
| "value_smt dl PointerTy k = BVV (getPointerSizeInBits dl) k"
| "value_smt dl _ k = BVV 0 k"

fun value_width :: "'a data_layout_scheme \<Rightarrow> ty \<Rightarrow> nat" where
  "value_width dl (IntegerTy n) = n"
| "value_width dl PointerTy = getPointerSizeInBits dl"
| "value_width dl _ = 0"

fun comparison_of :: "predicate \<Rightarrow> sym_binary" where
  "comparison_of ICMP_EQ = SEqual" | "comparison_of ICMP_NE = SNot_equal"
| "comparison_of ICMP_UGT = SUnsigned_greater_than" | "comparison_of ICMP_UGE = SUnsigned_greater_equal"
| "comparison_of ICMP_ULT = SUnsigned_less_than" | "comparison_of ICMP_ULE = SUnsigned_less_equal"
| "comparison_of ICMP_SGT = SSigned_greater_than" | "comparison_of ICMP_SGE = SSigned_greater_equal"
| "comparison_of ICMP_SLT = SSigned_less_than" | "comparison_of _ = SSigned_less_equal"

lemma comparison_builder_of: "llvm_icmp p n x y = Some b \<Longrightarrow> comparison_builder z p = sym_build_binary z (comparison_of p)"
  by (cases p) simp_all

lemma comparison_sem:
  assumes "llvm_icmp p (value_width dl t) x y = Some b" "isIntegerTy t \<or> t = PointerTy"
    and "t = IntegerTy 1 \<longrightarrow> p \<in> {ICMP_EQ, ICMP_NE} \<and> x \<in> {0, 1} \<and> y \<in> {0, 1}"
  shows "smt_binary (comparison_of p) (value_smt dl t x) (value_smt dl t y) = Some (BoolV b)"
proof (cases "t = IntegerTy 1")
  case True
  then show ?thesis using assms by (auto simp: int_smt_def)
next
  case False
  then have "value_smt dl t k = BVV (value_width dl t) k" for k
    using assms(2) by (cases t) (auto simp: int_smt_def)
  then show ?thesis using assms(1) by (cases p) simp_all
qed

lemma visit_comparison:
  assumes "i_kind I = CmpInst p a b" "llvm_icmp p n x y = Some c"
  shows "visit C I st = IRBuilder (Before (i_name I))
      (rt_bind (buildRuntimeCall C (ComparisonHandler p) (map (\<lambda>a. (a, True)) [a, b] @ map (\<lambda>c. (c, False)) []))
        (\<lambda>r. registerOptional r (Some (result_of I)))) st" "call_type C (ComparisonHandler p) = Some PointerTy"
proof -
  show c: "call_type C (ComparisonHandler p) = Some PointerTy"
    using assms(2) by (intro call_type_comparisons) auto
  then have "runtime_member C (ComparisonHandler p) \<noteq> None" by (auto simp: call_type_def)
  then show "visit C I st = IRBuilder (Before (i_name I))
      (rt_bind (buildRuntimeCall C (ComparisonHandler p) (map (\<lambda>a. (a, True)) [a, b] @ map (\<lambda>c. (c, False)) []))
        (\<lambda>r. registerOptional r (Some (result_of I)))) st"
    using assms(1)
    by (auto simp: visit_def visitCmpInst_def symbolic_call_def symbolic_args_def rt_bind_def rt_return_def rt_assert_def)
qed

context z3_laws
begin

text \<open>An integer comparison; on Booleans the solver knows only equality.\<close>

lemma comparison_tracked:
  assumes I: "i_kind I = CmpInst p a b" "isIntegerTy t \<or> t = PointerTy"
    and args: "operands_ok sem C st fr s [a, b] [\<lambda>\<sigma>. value_smt C t (i \<sigma>), \<lambda>\<sigma>. value_smt C t (j \<sigma>)]" and "ready z sem s"
    and c: "\<And>\<sigma>. llvm_icmp p (value_width C t) (i \<sigma>) (j \<sigma>) = Some (c \<sigma>)"
    and bits: "t = IntegerTy 1 \<longrightarrow> p \<in> {ICMP_EQ, ICMP_NE} \<and> (\<forall>\<sigma>. i \<sigma> \<in> {0, 1} \<and> j \<sigma> \<in> {0, 1})"
  shows "tracks_instruction D z sem C I st fr s [a, b] (\<lambda>\<sigma>. BoolV (c \<sigma>))"
proof (rule call_instrumented [OF visit_comparison(1) [OF I(1) c] visit_comparison(2) [OF I(1) c] args _ assms(4)])
  fix xs s' assume xs: "list_all2 (expr_value sem s') xs [\<lambda>\<sigma>. value_smt C t (i \<sigma>), \<lambda>\<sigma>. value_smt C t (j \<sigma>)]"
  have d: "denotes live_exprs sem (sym_build_binary z (comparison_of p) (Some x) (Some y)) b (\<lambda>\<sigma>. BoolV (c \<sigma>))"
    if "\<And>\<sigma>. sem \<sigma> x = value_smt C t (i \<sigma>)" "\<And>\<sigma>. sem \<sigma> y = value_smt C t (j \<sigma>)" for x y b
    using that comparison_sem [OF c I(2)] bits by (intro denotes_binary) simp
  have "rt_ok (simple_call z (ComparisonHandler p) xs) s' (\<lambda>x s''. lib_step s' s'' \<and> expr_value sem s'' x (\<lambda>\<sigma>. BoolV (c \<sigma>)))"
    unfolding simple_call.simps comparison_builder_of [OF c]
    by (rule call_two [OF xs], rule d, assumption+, rule keeping_simple)
  then show "rt_ok (simple_call z (ComparisonHandler p) (xs @ map (eval_value fr) [])) s'
      (\<lambda>x s''. lib_step s' s'' \<and> expr_value sem s'' x (\<lambda>\<sigma>. BoolV (c \<sigma>)))" by simp
qed simp

end

subsection \<open>Casts\<close>

text \<open>A computation of two calls, the second on the result of the first.\<close>

definition two_calls ::
    "compile_env \<Rightarrow> instruction \<Rightarrow> sym_fn \<Rightarrow> llvm_value \<Rightarrow> llvm_value list \<Rightarrow> sym_fn \<Rightarrow> llvm_value list \<Rightarrow> unit build" where
  "two_calls C I f a cs g ds =
     rt_bind (forceBuildRuntimeCall C f ((a, True) # map (\<lambda>c. (c, False)) cs)) (\<lambda>one.
     rt_bind (last_value one) (\<lambda>e.
     rt_bind (forceBuildRuntimeCall C g ((e, False) # map (\<lambda>c. (c, False)) ds)) (\<lambda>two.
     registerSymbolicComputation (merge_computation one two) (Some (result_of I)))))"

definition second_call :: "sym_fn \<Rightarrow> llvm_value list \<Rightarrow> symbolizer \<Rightarrow> emitted" where
  "second_call g ds st = \<lparr>e_name = Suc (next_name st), e_type = PointerTy, e_op = Call g,
     e_args = Inst PointerTy (next_name st) # ds\<rparr>"

lemma two_calls_run:
  assumes "call_type C f = Some PointerTy" "call_type C g = Some PointerTy" "wf_exprs st"
  shows "IRBuilder p (two_calls C I f a cs g ds) st =
    Inr ((), st\<lparr>next_name := Suc (Suc (next_name st)),
      symbolicExpressions := (symbolicExpressions st)(result_of I \<mapsto> Inst PointerTy (Suc (next_name st))),
      expressionUses := expressionUses st @ [\<lparr>firstInstruction = Some (Inst PointerTy (next_name st)),
        lastInstruction = Some (Inst PointerTy (Suc (next_name st))), inputs = call_inputs (next_name st) [a]\<rparr>],
      inserted := update_code p (\<lambda>old. old @ [Ins (recorded_call f [a] cs st), Ins (second_call g ds st)]) (inserted st)\<rparr>)"
proof -
  have wf: "wf_exprs (st\<lparr>code := []\<rparr>)" using assms(3) by (simp add: wf_exprs_def)
  let ?st = "st\<lparr>next_name := Suc (next_name st), code := [Ins (recorded_call f [a] cs st)]\<rparr>"
  have "wf_exprs ?st" using assms(3) by (rule wf_exprs_mono) simp_all
  from force_call_run [OF assms(2) this, of "[]" "Inst PointerTy (next_name st) # ds"]
  have two: "forceBuildRuntimeCall C g ((Inst PointerTy (next_name st), False) # map (\<lambda>c. (c, False)) ds) ?st =
      Inr (\<lparr>firstInstruction = Some (Inst PointerTy (Suc (next_name st))),
        lastInstruction = Some (Inst PointerTy (Suc (next_name st))), inputs = []\<rparr>,
        ?st\<lparr>next_name := Suc (Suc (next_name st)), code := code ?st @ [Ins (second_call g ds st)]\<rparr>)"
    by (simp add: call_inputs_def second_call_def)
  from force_call_run [OF assms(1) wf, of "[a]" cs] two show ?thesis
    by (simp add: two_calls_def IRBuilder_def capture_def rt_bind_def rt_get_def rt_modify_def rt_return_def last_value_def
        registerSymbolicComputation_def set_expression_def merge_computation_def recorded_call_def)
qed

context z3_laws
begin

lemma two_calls_instrumented:
  assumes visit: "visit C I st = IRBuilder (Before (i_name I)) (two_calls C I f a cs g ds) st"
    and ct: "call_type C f = Some PointerTy" "call_type C g = Some PointerTy"
    and args: "operands_ok sem C st fr s [a] [F]"
    and cst: "\<forall>c \<in> set (cs @ ds). below (next_name st) c" and "ready z sem s"
    and first: "\<And>x s'. expr_value sem s' x F \<Longrightarrow>
      rt_ok (simple_call z f (x # map (eval_value fr) cs)) s' (\<lambda>x s''. lib_step s' s'' \<and> expr_value sem s'' x H1)"
    and second: "\<And>x s'. expr_value sem s' x H1 \<Longrightarrow>
      rt_ok (simple_call z g (x # map (eval_value fr) ds)) s' (\<lambda>x s''. lib_step s' s'' \<and> expr_value sem s'' x H)"
  shows "tracks_instruction D z sem C I st fr s [a] H"
proof -
  let ?n = "next_name st" and ?call = "recorded_call f [a] cs st" and ?next = "second_call g ds st"
  let ?sc = "\<lparr>firstInstruction = Some (e_value ?call), lastInstruction = Some (Inst PointerTy (Suc ?n)),
    inputs = call_inputs ?n [a]\<rparr>"
  have wf: "wf_exprs st" and a: "scalar_type (getType a)" "below ?n a"
    "tracked sem (getPointerSizeInBits C) s fr a (eval_value fr (expression_or_null st a)) F"
    using args by (auto simp: operands_ok_def)
  define st1 where "st1 = st\<lparr>next_name := Suc (Suc ?n),
      symbolicExpressions := (symbolicExpressions st)(result_of I \<mapsto> Inst PointerTy (Suc ?n)),
      expressionUses := expressionUses st @ [?sc],
      inserted := update_code (Before (i_name I)) (\<lambda>old. old @ [Ins ?call, Ins ?next]) (inserted st)\<rparr>"
  have v: "visit C I st = Inr ((), st1)"
    using two_calls_run [OF ct wf] unfolding visit st1_def by (simp add: e_value_def recorded_call_def)
  have "code_at st1 (Before (i_name I)) = code_at st (Before (i_name I)) @ map Ins [?call, ?next]"
    using code_at_update [where st = st and p = "Before (i_name I)" and f = "\<lambda>old. old @ [Ins ?call, Ins ?next]"]
    by (simp add: st1_def code_at_def)
  then have one: "instrument_one C I st = rewritten C ?sc [?call, ?next] st1"
    by (rule instrument_one_run [OF v]) (simp add: st1_def)
  obtain code v st' where r: "rewritten C ?sc [?call, ?next] st1 = Inr ((code, v), st')"
    "rt_ok (exec_code D (simple_call z) code) (fr, s) (\<lambda>_ (fr', s'). agree ?n fr fr' \<and>
       tracks_result sem (\<forall>e \<in> set [expression_or_null st a]. eval_value fr e = VExpr None) H s (eval_value fr' v) s')"
  proof (rule run_tracked [where call = ?call and n = ?n and f = f and as = "[a]" and Fs = "[F]" and st = st1 and dl = C
        and rest = "[?next]" and es = "[expression_or_null st a]" and cs = cs and s = s and fr = fr and m = "Suc ?n"
        and ?H1.0 = H1 and H = H and D = D])
    show "scalar_type (getType ([a] ! i)) \<and> below ?n ([a] ! i) \<and> below ?n ([expression_or_null st a] ! i) \<and>
        tracked sem (getPointerSizeInBits C) s fr ([a] ! i) (eval_value fr ([expression_or_null st a] ! i)) ([F] ! i)"
      if "i < length [a]" for i
      using a wf_expression_or_null [OF wf] that by simp
    show "rt_ok (simple_call z f (xs @ map (eval_value fr) cs)) s' (\<lambda>x s''. lib_step s' s'' \<and> expr_value sem s'' x H1)"
      if "list_all2 (expr_value sem s') xs [F]" for xs s'
      using that first by (auto simp: list_all2_Cons2)
    show "rt_ok (exec_code D (simple_call z) (map Ins [?next])) (fr', s') (\<lambda>_ (fr'', s'').
        agree ?n fr fr'' \<and> lib_step s' s'' \<and> expr_value sem s'' (regs fr'' (Suc ?n)) H)"
      if ag: "agree ?n fr fr'" and x: "expr_value sem s' (regs fr' ?n) H1" for fr' s'
    proof -
      have "map (eval_value fr') ds = map (eval_value fr) ds"
        using cst agree_eval [OF _ ag] by (intro map_cong refl) simp
      then have next_args: "map (eval_value fr') (e_args ?next) = regs fr' ?n # map (eval_value fr) ds"
        by (simp add: second_call_def)
      obtain y s'' where y: "simple_call z g (regs fr' ?n # map (eval_value fr) ds) s' = Inr (y, s'')"
        "lib_step s' s''" "expr_value sem s'' y H"
        using second [OF x] by (auto simp: rt_ok_def)
      have "exec_emitted D (simple_call z) ?next (fr', s') = Inr ((), set_register fr' (Suc ?n) y, s'')"
      proof (rule exec_call)
        show "simple_call z g (map (eval_value fr') (e_args ?next)) s' = Inr (y, s'')" by (simp only: next_args y(1))
      qed (simp_all add: second_call_def)
      then show ?thesis
        using y agree_set_trans [OF ag] by (simp add: rt_ok_def rt_bind_def rt_return_def)
    qed
  qed (use cst \<open>ready z sem s\<close> in \<open>simp_all add: recorded_call_def second_call_def st1_def\<close>)
  then show ?thesis unfolding tracks_instruction_def one all_null_def by auto
qed

text \<open>The calls of the casts; widths are passed in eight bits.\<close>

lemma width_call:
  assumes "expr_value sem s x (\<lambda>\<sigma>. BVV n (i \<sigma>))" "w \<le> 255"
  shows "rt_ok (simple_call z BuildZExt [x, eval_value fr (getInt8 w)]) s
      (\<lambda>x s'. lib_step s s' \<and> expr_value sem s' x (\<lambda>\<sigma>. BVV (n + w) (i \<sigma>)))"
    and "rt_ok (simple_call z BuildSExt [x, eval_value fr (getInt8 w)]) s
      (\<lambda>x s'. lib_step s s' \<and> expr_value sem s' x (\<lambda>\<sigma>. BVV (n + w) (take_bit (n + w) (sval n (i \<sigma>)))))"
    and "0 < w \<Longrightarrow> w \<le> n \<Longrightarrow> rt_ok (simple_call z BuildTrunc [x, eval_value fr (getInt8 w)]) s
      (\<lambda>x s'. lib_step s s' \<and> expr_value sem s' x (\<lambda>\<sigma>. BVV w (take_bit w (i \<sigma>))))"
proof -
  obtain e where e: "x = VExpr (Some e)" "e \<in> live_exprs (backend_state s)" "\<And>\<sigma>. sem \<sigma> e = BVV n (i \<sigma>)"
    using assms(1) by (auto simp: expr_value_def)
  let ?w = "of_int (take_bit 8 (int w)) :: u8"
  note B = simple_contract
  have w: "unat ?w = w" using assms(2) by (rule unat_bits)
  have args: "simple_call z BuildZExt [x, eval_value fr (getInt8 w)] = expr_result (sym_build_zext z (Some e) ?w)"
    "simple_call z BuildSExt [x, eval_value fr (getInt8 w)] = expr_result (sym_build_sext z (Some e) ?w)"
    "simple_call z BuildTrunc [x, eval_value fr (getInt8 w)] = expr_result (sym_build_trunc z (Some e) ?w)"
    by (simp_all add: e(1) with_e1_def with_i1_def getInt8_def)
  have fields: "build_zext (simple_backend z) = sym_build_zext z" "build_sext (simple_backend z) = sym_build_sext z"
    "build_trunc (simple_backend z) = sym_build_trunc z" by (simp_all add: simple_backend_def)
  show "rt_ok (simple_call z BuildZExt [x, eval_value fr (getInt8 w)]) s
      (\<lambda>x s'. lib_step s s' \<and> expr_value sem s' x (\<lambda>\<sigma>. BVV (n + w) (i \<sigma>)))"
    unfolding args
    by (rule expr_call [OF expr_backend.law_zext [OF B e(2,3), of ?w, unfolded fields w] keeping_simple(8)])
  show "rt_ok (simple_call z BuildSExt [x, eval_value fr (getInt8 w)]) s
      (\<lambda>x s'. lib_step s s' \<and> expr_value sem s' x (\<lambda>\<sigma>. BVV (n + w) (take_bit (n + w) (sval n (i \<sigma>)))))"
    unfolding args
    by (rule expr_call [OF expr_backend.law_sext [OF B e(2,3), of ?w, unfolded fields w] keeping_simple(7)])
  show "rt_ok (simple_call z BuildTrunc [x, eval_value fr (getInt8 w)]) s
      (\<lambda>x s'. lib_step s s' \<and> expr_value sem s' x (\<lambda>\<sigma>. BVV w (take_bit w (i \<sigma>))))" if "0 < w" "w \<le> n"
    unfolding args
    using that by (intro expr_call [OF expr_backend.law_trunc [OF B e(2,3), of ?w, unfolded fields w] keeping_simple(9)])
qed

lemma bool_bit_calls:
  shows "expr_value sem s x (\<lambda>\<sigma>. BoolV (p \<sigma>)) \<Longrightarrow> rt_ok (simple_call z BuildBoolToBit [x]) s
      (\<lambda>x s'. lib_step s s' \<and> expr_value sem s' x (\<lambda>\<sigma>. BVV 1 (of_bool (p \<sigma>))))"
    and "expr_value sem s x (\<lambda>\<sigma>. BVV n (i \<sigma>)) \<Longrightarrow> n \<le> 64 \<Longrightarrow> rt_ok (simple_call z BuildBitToBool [x]) s
      (\<lambda>x s'. lib_step s s' \<and> expr_value sem s' x (\<lambda>\<sigma>. BoolV (i \<sigma> \<noteq> 0)))"
proof -
  note B = simple_contract
  have f: "build_bool_to_bit (simple_backend z) = sym_build_bool_to_bit z" by (simp add: simple_backend_def)
  assume "expr_value sem s x (\<lambda>\<sigma>. BoolV (p \<sigma>))"
  then obtain e where e: "x = VExpr (Some e)" "e \<in> live_exprs (backend_state s)" "\<And>\<sigma>. sem \<sigma> e = BoolV (p \<sigma>)"
    by (auto simp: expr_value_def)
  from expr_call [OF expr_backend.law_bool_to_bit [OF B e(2,3), unfolded f] keeping_bool_to_bit] e(1)
  show "rt_ok (simple_call z BuildBoolToBit [x]) s
      (\<lambda>x s'. lib_step s s' \<and> expr_value sem s' x (\<lambda>\<sigma>. BVV 1 (of_bool (p \<sigma>))))" by (simp add: with_e1_def)
next
  note B = simple_contract
  assume "expr_value sem s x (\<lambda>\<sigma>. BVV n (i \<sigma>))" "n \<le> 64"
  then obtain e where e: "x = VExpr (Some e)" "e \<in> live_exprs (backend_state s)" "\<And>\<sigma>. sem \<sigma> e = BVV n (i \<sigma>)"
    by (auto simp: expr_value_def)
  have "denotes live_exprs sem (sym_build_bit_to_bool (simple_backend z) (Some e)) (backend_state s) (\<lambda>\<sigma>. BoolV (i \<sigma> \<noteq> 0))"
    by (rule comp_denotes [where L = "{e}", OF expr_backend.comp_bit_to_bool [OF B]]) (use e \<open>n \<le> 64\<close> in auto)
  from expr_call [OF this keeping_bit_to_bool] e(1)
  show "rt_ok (simple_call z BuildBitToBool [x]) s
      (\<lambda>x s'. lib_step s s' \<and> expr_value sem s' x (\<lambda>\<sigma>. BoolV (i \<sigma> \<noteq> 0)))" by (simp add: with_e1_def)
qed

end

fun extension_fn :: "cast_op \<Rightarrow> sym_fn" where
  "extension_fn CSExt = BuildSExt" | "extension_fn _ = BuildZExt"

lemma visit_cast:
  assumes "i_kind I = CastInst opc a" "getType a = IntegerTy n" "i_type I = IntegerTy m"
  shows "opc \<in> {CZExt, CSExt} \<Longrightarrow> n \<noteq> 1 \<Longrightarrow> visit C I st = IRBuilder (Before (i_name I))
      (rt_bind (buildRuntimeCall C (extension_fn opc) (map (\<lambda>a. (a, True)) [a] @ map (\<lambda>c. (c, False)) [getInt8 (m - n)]))
        (\<lambda>r. registerOptional r (Some (result_of I)))) st"
    and "opc \<in> {CZExt, CSExt} \<Longrightarrow> n = 1 \<Longrightarrow>
      visit C I st = IRBuilder (Before (i_name I)) (two_calls C I BuildBoolToBit a [] (extension_fn opc) [getInt8 (m - 1)]) st"
    and "opc = CTrunc \<Longrightarrow> m = 1 \<Longrightarrow> symbolicExpressions st a \<noteq> None \<Longrightarrow>
      visit C I st = IRBuilder (Before (i_name I)) (two_calls C I BuildTrunc a [getInt8 m] BuildBitToBool []) st"
    and "opc = CTrunc \<Longrightarrow> m \<noteq> 1 \<Longrightarrow> symbolicExpressions st a \<noteq> None \<Longrightarrow> visit C I st = IRBuilder (Before (i_name I))
      (rt_bind (buildRuntimeCall C BuildTrunc (map (\<lambda>a. (a, True)) [a] @ map (\<lambda>c. (c, False)) [getInt8 m]))
        (\<lambda>r. registerOptional r (Some (result_of I)))) st"
proof -
  have width: "bit_width (getType a) = rt_return n" "bit_width (i_type I) = rt_return m"
    using assms(2,3) by (simp_all add: bit_width_def)
  have expr: "rt_bind (getSymbolicExpression a) k st = k (symbolicExpressions st a) st" for k
    by (simp add: getSymbolicExpression_def rt_bind_def rt_get_def)
  note kind = visit_def assms(1) width
  show "opc \<in> {CZExt, CSExt} \<Longrightarrow> n \<noteq> 1 \<Longrightarrow> visit C I st = IRBuilder (Before (i_name I))
      (rt_bind (buildRuntimeCall C (extension_fn opc) (map (\<lambda>a. (a, True)) [a] @ map (\<lambda>c. (c, False)) [getInt8 (m - n)]))
        (\<lambda>r. registerOptional r (Some (result_of I)))) st"
    by (auto simp: kind visitExtension_def cast_call_def)
  show "opc \<in> {CZExt, CSExt} \<Longrightarrow> n = 1 \<Longrightarrow>
      visit C I st = IRBuilder (Before (i_name I)) (two_calls C I BuildBoolToBit a [] (extension_fn opc) [getInt8 (m - 1)]) st"
    by (auto simp: kind visitExtension_def two_calls_def)
  show "opc = CTrunc \<Longrightarrow> m = 1 \<Longrightarrow> symbolicExpressions st a \<noteq> None \<Longrightarrow>
      visit C I st = IRBuilder (Before (i_name I)) (two_calls C I BuildTrunc a [getInt8 m] BuildBitToBool []) st"
    by (auto simp: kind visitTruncInst_def two_calls_def expr rt_bind_assoc)
  assume "opc = CTrunc" "m \<noteq> 1" "symbolicExpressions st a \<noteq> None"
  then show "visit C I st = IRBuilder (Before (i_name I))
      (rt_bind (buildRuntimeCall C BuildTrunc (map (\<lambda>a. (a, True)) [a] @ map (\<lambda>c. (c, False)) [getInt8 m]))
        (\<lambda>r. registerOptional r (Some (result_of I)))) st"
    by (simp add: kind visitTruncInst_def expr buildRuntimeCall_def)
      (auto simp: IRBuilder_def capture_def rt_bind_def rt_get_def rt_return_def rt_modify_def registerOptional_def split: sum.split)
qed

context z3_laws
begin

lemma cast_tracked:
  assumes I: "i_kind I = CastInst opc a" "getType a = IntegerTy n" "i_type I = IntegerTy m" "0 < n" "0 < m" "n \<le> 255" "m \<le> 255"
    and args: "operands_ok sem C st fr s [a] [\<lambda>\<sigma>. int_smt n (i \<sigma>)]" and ready: "ready z sem s"
    and c: "\<And>\<sigma>. llvm_cast opc n m (i \<sigma>) = Some (c \<sigma>)" and bits: "n = 1 \<longrightarrow> (\<forall>\<sigma>. i \<sigma> \<in> {0, 1})"
  shows "tracks_instruction D z sem C I st fr s [a] (\<lambda>\<sigma>. int_smt m (c \<sigma>))"
proof -
  have some: "symbolicExpressions st a \<noteq> None" using args by (simp add: operands_ok_def)
  consider (ext) "opc \<in> {CZExt, CSExt}" "n \<noteq> 1" | (bool) "opc \<in> {CZExt, CSExt}" "n = 1" | (trunc) "opc = CTrunc" "m \<noteq> 1"
    | (to_bool) "opc = CTrunc" "m = 1"
    using c by (cases opc) auto
  then show ?thesis
  proof cases
    case ext
    have nm: "n < m" "n + (m - n) = m" using c [of undefined] ext(1) by (auto split: if_splits)
    then have c': "c = (\<lambda>\<sigma>. if opc = CZExt then i \<sigma> else take_bit m (sval n (i \<sigma>)))"
      using c ext(1) by (auto simp: fun_eq_iff)
    show ?thesis
    proof (rule call_instrumented [OF visit_cast(1) [OF I(1-3) ext] _ args _ ready])
      fix xs s' assume "list_all2 (expr_value sem s') xs [\<lambda>\<sigma>. int_smt n (i \<sigma>)]"
      then obtain x where x: "xs = [x]" "expr_value sem s' x (\<lambda>\<sigma>. BVV n (i \<sigma>))"
        using ext(2) by (auto simp: list_all2_Cons2 int_smt_def)
      show "rt_ok (simple_call z (extension_fn opc) (xs @ map (eval_value fr) [getInt8 (m - n)])) s'
          (\<lambda>x s''. lib_step s' s'' \<and> expr_value sem s'' x (\<lambda>\<sigma>. int_smt m (c \<sigma>)))"
        using width_call(1,2) [OF x(2), of "m - n" fr] I(4,7) nm ext
        by (auto simp: x(1) c' int_smt_def simp del: simple_call.simps)
    qed (use ext(1) in \<open>auto simp: getInt8_def\<close>)
  next
    case bool
    have m: "1 < m" "1 + (m - 1) = m" using c [of undefined] bool by (auto split: if_splits)
    have "i \<sigma> = of_bool (i \<sigma> \<noteq> 0)" for \<sigma> using bits bool(2) by (cases "i \<sigma> = 0") auto
    moreover have "c \<sigma> = (if opc = CZExt then i \<sigma> else take_bit m (sval 1 (i \<sigma>)))" for \<sigma>
      using c [of \<sigma>] bool m by auto
    ultimately have c': "c = (\<lambda>\<sigma>. if opc = CZExt then of_bool (i \<sigma> \<noteq> 0) else take_bit m (sval 1 (of_bool (i \<sigma> \<noteq> 0))))"
      unfolding fun_eq_iff by metis
    show ?thesis
    proof (rule two_calls_instrumented [OF visit_cast(2) [OF I(1-3) bool] _ _ args _ ready])
      show "rt_ok (simple_call z BuildBoolToBit (x # map (eval_value fr) [])) s' (\<lambda>x s''. lib_step s' s'' \<and>
          expr_value sem s'' x (\<lambda>\<sigma>. BVV 1 (of_bool (i \<sigma> \<noteq> 0))))"
        if "expr_value sem s' x (\<lambda>\<sigma>. int_smt n (i \<sigma>))" for x s'
        using bool_bit_calls(1) [of s' x "\<lambda>\<sigma>. i \<sigma> \<noteq> 0"] that bool(2) by (simp add: int_smt_def del: simple_call.simps)
      show "rt_ok (simple_call z (extension_fn opc) (x # map (eval_value fr) [getInt8 (m - 1)])) s'
          (\<lambda>x s''. lib_step s' s'' \<and> expr_value sem s'' x (\<lambda>\<sigma>. int_smt m (c \<sigma>)))"
        if "expr_value sem s' x (\<lambda>\<sigma>. BVV 1 (of_bool (i \<sigma> \<noteq> 0)))" for x s'
        using width_call(1,2) [OF that, of "m - 1" fr] I(7) m bool(1) unfolding m(2)
        by (auto simp: c' int_smt_def simp del: simple_call.simps)
    qed (use bool(1) in \<open>auto simp: getInt8_def\<close>)
  next
    case trunc
    have m: "m < n" using c [of undefined] trunc by (auto split: if_splits)
    then have c': "c = (\<lambda>\<sigma>. take_bit m (i \<sigma>))" using c trunc by (auto simp: fun_eq_iff)
    show ?thesis
    proof (rule call_instrumented [OF visit_cast(4) [OF I(1-3) trunc some] _ args _ ready])
      fix xs s' assume "list_all2 (expr_value sem s') xs [\<lambda>\<sigma>. int_smt n (i \<sigma>)]"
      then obtain x where x: "xs = [x]" "expr_value sem s' x (\<lambda>\<sigma>. BVV n (i \<sigma>))"
        using m I(5) by (auto simp: list_all2_Cons2 int_smt_def)
      show "rt_ok (simple_call z BuildTrunc (xs @ map (eval_value fr) [getInt8 m])) s'
          (\<lambda>x s''. lib_step s' s'' \<and> expr_value sem s'' x (\<lambda>\<sigma>. int_smt m (c \<sigma>)))"
        using width_call(3) [OF x(2) I(7,5), of fr] m trunc(2) by (simp add: x(1) c' int_smt_def del: simple_call.simps)
    qed (auto simp: getInt8_def)
  next
    case to_bool
    have m: "m < n" using c [of undefined] to_bool by (auto split: if_splits)
    then have c': "c = (\<lambda>\<sigma>. take_bit m (i \<sigma>))" using c to_bool by (auto simp: fun_eq_iff)
    show ?thesis
    proof (rule two_calls_instrumented [OF visit_cast(3) [OF I(1-3) to_bool some] _ _ args _ ready])
      show "rt_ok (simple_call z BuildTrunc (x # map (eval_value fr) [getInt8 m])) s' (\<lambda>x s''. lib_step s' s'' \<and>
          expr_value sem s'' x (\<lambda>\<sigma>. BVV m (take_bit m (i \<sigma>))))"
        if "expr_value sem s' x (\<lambda>\<sigma>. int_smt n (i \<sigma>))" for x s'
        using width_call(3) [of s' x n i m fr] that m I(5,7) by (simp add: int_smt_def del: simple_call.simps)
      show "rt_ok (simple_call z BuildBitToBool (x # map (eval_value fr) [])) s'
          (\<lambda>x s''. lib_step s' s'' \<and> expr_value sem s'' x (\<lambda>\<sigma>. int_smt m (c \<sigma>)))"
        if "expr_value sem s' x (\<lambda>\<sigma>. BVV m (take_bit m (i \<sigma>)))" for x s'
        using bool_bit_calls(2) [OF that] to_bool(2) by (simp add: c' int_smt_def del: simple_call.simps)
    qed (auto simp: getInt8_def)
  qed
qed

end

end
