(* ===== verification/Rewriting_Laws.thy ===== *)
theory Rewriting_Laws
  imports Symbolizer_Laws
begin

text \<open>
  Short-circuiting rewrites a computation where it stands and nothing else: among instructions with
  distinct names, the run of the computation is replaced by the rewritten code, and uses of its result
  elsewhere become uses of the PHI node behind it.
\<close>

subsection \<open>Rewriting one run\<close>

definition names :: "stmt list \<Rightarrow> nat list" where
  "names c = map e_name (concat (map emitted_stmt c))"

lemma names_simps [simp]:
  "names [] = []" "names (Ins i # c) = e_name i # names c" "names (Guard p v body phis # c) = names body @ names c"
  "names (c @ c') = names c @ names c'" "names (map Ins run) = map e_name run"
proof -
  show "names (map Ins run) = map e_name run" by (induction run) (simp_all add: names_def)
qed (simp_all add: names_def)

lemma rewrite_absent:
  shows "f \<notin> set (names [x]) \<Longrightarrow> rewrite_stmt f l g x = x"
    and "f \<notin> set (names c) \<Longrightarrow> rewrite_range f l g c = c"
  by (induction f l g x and f l g c rule: rewrite_stmt_rewrite_range.induct) (auto split: stmt.splits)

lemma rewrite_range_skip:
  "f \<notin> set (names pre) \<Longrightarrow> rewrite_range f l g (pre @ c) = pre @ rewrite_range f l g c"
proof (induction pre)
  case (Cons x pre)
  then show ?case
    using rewrite_absent(1) [of f x l g] by (cases x) auto
qed simp

lemma take_range_run:
  "run \<noteq> [] \<Longrightarrow> l = e_name (last run) \<Longrightarrow> distinct (map e_name run) \<Longrightarrow> take_range l (map Ins run @ post) = (run, post)"
proof (induction run)
  case (Cons i run)
  show ?case
  proof (cases "run = []")
    case False
    then have l: "l = e_name (last run)" "l \<in> e_name ` set run" using Cons.prems(2) by simp_all
    then have "take_range l (map Ins run @ post) = (run, post)" "e_name i \<noteq> l"
      using Cons.IH False Cons.prems(3) by auto
    then show ?thesis by simp
  qed (use Cons.prems in simp)
qed simp

lemma rewrite_range_run:
  assumes "f \<notin> set (names pre)" "run \<noteq> []" "f = e_name (hd run)" "l = e_name (last run)" "distinct (map e_name run)"
  shows "rewrite_range f l g (pre @ map Ins run @ post) = pre @ g run @ post"
proof -
  obtain i run' where run: "run = i # run'" using assms(2) by (cases run) auto
  have "rewrite_range f l g (map Ins run @ post) = g run @ post"
    using take_range_run [OF assms(2,4,5), of post] assms(3) by (simp add: run del: take_range.simps)
  then show ?thesis by (simp only: rewrite_range_skip [OF assms(1)])
qed

subsection \<open>Replacing uses\<close>

lemma names_replace [simp]: "names (map (replace_stmt old new) c) = names c"
proof -
  have "map e_name (emitted_stmt (replace_stmt old new x)) = map e_name (emitted_stmt x)" for x
  proof (induction x)
    case (Guard p v body phis)
    then show ?case by (induction body) simp_all
  qed (simp add: replace_emitted_def)
  then show ?thesis by (induction c) (simp_all add: names_def)
qed

lemma replace_unused: "old \<notin> set (e_args i) \<Longrightarrow> replace_emitted old new i = i"
proof -
  assume "old \<notin> set (e_args i)"
  then have "map (replace_value old new) (e_args i) = e_args i"
    by (intro map_idI) (auto simp: replace_value_def)
  then show ?thesis by (simp add: replace_emitted_def)
qed

lemma replace_stmt_run: "\<forall>i \<in> set run. old \<notin> set (e_args i) \<Longrightarrow> map (replace_stmt old new) (map Ins run) = map Ins run"
  by (induction run) (simp_all add: replace_unused)

subsection \<open>Short-circuiting in place\<close>

lemma all_emitted_split:
  assumes "inserted st = A @ (p, pre @ map Ins run @ post) # B"
  shows "\<exists>xs ys. all_emitted st = xs @ run @ ys"
proof -
  have "concat (map emitted_stmt (map Ins run)) = run" by (induction run) simp_all
  then show ?thesis using assms by (simp add: all_emitted_def) (metis append_assoc)
qed

lemma find_unique:
  "distinct (map g xs) \<Longrightarrow> i \<in> set xs \<Longrightarrow> find (\<lambda>j. g j = g i) xs = Some i"
  by (induction xs) (auto simp: image_iff)

lemma symbolic_operands_run:
  assumes "distinct (map e_name (all_emitted st))" "inserted st = A @ (p, pre @ map Ins run @ post) # B"
    and "\<forall>inp \<in> set inps. \<exists>i \<in> set run. e_name i = user inp \<and> operandIndex inp < length (e_args i)"
  shows "symbolic_operands inps st = Inr (run_operands run inps, st)"
  using assms(3)
proof (induction inps)
  case (Cons inp inps)
  obtain i where i: "i \<in> set run" "e_name i = user inp" "operandIndex inp < length (e_args i)" using Cons.prems by auto
  obtain xs ys where e: "all_emitted st = xs @ run @ ys" using all_emitted_split [OF assms(2)] by blast
  have "find (\<lambda>j. e_name j = user inp) (all_emitted st) = Some i" "find (\<lambda>j. e_name j = user inp) run = Some i"
    using find_unique [OF assms(1), of i] find_unique [of e_name run i] i assms(1) by (simp_all add: e)
  then show ?case
    using Cons i(3) by (simp add: getSymbolicOperand_def rt_bind_def rt_get_def rt_return_def)
qed (simp add: rt_return_def)

lemma names_in: "(q, c) \<in> set X \<Longrightarrow> x \<in> set (names c) \<Longrightarrow> x \<in> set (concat (map (\<lambda>(q, c). names c) X))"
  by (induction X) auto

lemma distinct_middle:
  "distinct (a @ b @ r @ c @ d) \<Longrightarrow> x \<in> set r \<Longrightarrow> x \<notin> set a \<and> x \<notin> set b \<and> x \<notin> set c \<and> x \<notin> set d"
  by auto

lemma short_circuit_in_place:
  assumes names: "distinct (map e_name (all_emitted st))" and ins: "inserted st = A @ (p, pre @ map Ins run @ post) # B"
    and run: "run \<noteq> []" "\<forall>i \<in> set run. Inst t (e_name (last run)) \<notin> set (e_args i)"
    and sc: "sc = \<lparr>firstInstruction = Some (Inst t' (e_name (hd run))), lastInstruction = Some (Inst t (e_name (last run))),
      inputs = inps\<rparr>" "inps \<noteq> []"
    and inps: "\<forall>inp \<in> set inps. \<exists>i \<in> set run. e_name i = user inp \<and> operandIndex inp < length (e_args i)"
    and scalar: "\<forall>inp \<in> set inps. scalar_type (getType (concreteValue inp))"
    and used: "value_used (Inst t (e_name (last run))) st"
  obtains code v st1 st' where "rewritten dl sc run st = Inr ((code, v), st1)" "short_circuit dl sc st = Inr ((), st')"
    "inserted st' = map (\<lambda>(q, c). (q, map (replace_stmt (Inst t (e_name (last run))) v) c)) A @
       (p, map (replace_stmt (Inst t (e_name (last run))) v) pre @ code @ map (replace_stmt (Inst t (e_name (last run))) v) post) #
       map (\<lambda>(q, c). (q, map (replace_stmt (Inst t (e_name (last run))) v) c)) B"
proof -
  let ?f = "e_name (hd run)" and ?l = "e_name (last run)"
  obtain a checks fills new k where pieces:
    "computation_pieces dl inps (run_operands run inps) st = Inr ((a, checks, fills, new), st\<lparr>next_name := k\<rparr>)" "next_name st \<le> k"
    by (rule pieces_exist [OF scalar, where st = st and dl = dl and operands = "run_operands run inps"])
  let ?v = "Inst PointerTy k" and ?r = "\<lambda>c. map (replace_stmt (Inst t ?l) (Inst PointerTy k)) c"
  let ?code = "slow_path a checks fills new [\<lparr>phi_name = k, phi_direct = ConstantPointerNull, phi_body = Inst t ?l\<rparr>]"
  have ops: "symbolic_operands inps st = Inr (run_operands run inps, st)"
    using symbolic_operands_run [OF names ins inps] .
  have "value_used (Inst t ?l) (st\<lparr>next_name := k\<rparr>)" using used pieces(2) by (force simp: value_used_def)
  then have fin: "final_expression (Inst t ?l) (st\<lparr>next_name := k\<rparr>) =
      Inr ([\<lparr>phi_name = k, phi_direct = ConstantPointerNull, phi_body = Inst t ?l\<rparr>],
        st\<lparr>next_name := Suc k, inserted := map (\<lambda>(q, c). (q, ?r c)) (inserted st),
          expr_phis := (\<lambda>n. map_option (map (\<lambda>(v, b). (replace_value (Inst t ?l) ?v v, b))) (expr_phis st n))\<rparr>)"
    by (simp add: final_expression_def replaceAllUsesWith_def fresh_def rt_bind_def rt_get_def rt_modify_def rt_return_def)
  let ?st' = "st\<lparr>next_name := Suc k,
    expr_phis := (\<lambda>n. map_option (map (\<lambda>(v, b). (replace_value (Inst t ?l) ?v v, b))) (expr_phis st n)),
    inserted := map (\<lambda>(q, c). (q, rewrite_range ?f ?l ?code (?r c))) (inserted st)\<rparr>"
  have short: "short_circuit dl sc st = Inr ((), ?st')"
    using ops pieces(1) fin sc
    by (simp add: short_circuit_def rt_bind_def rt_assert_def rt_return_def rt_modify_def case_prod_unfold comp_def)
  have rew: "rewritten dl sc run st = Inr ((?code run, ?v), st\<lparr>next_name := Suc k\<rparr>)"
    using pieces(1) sc by (simp add: rewritten_def fresh_def rt_bind_def rt_get_def rt_modify_def rt_return_def)
  have "concat (map (\<lambda>(q, c). names c) xs) = map e_name (concat (map (\<lambda>(q, c). concat (map emitted_stmt c)) xs))"
    for xs :: "(point \<times> stmt list) list" by (induction xs) (auto simp: names_def)
  then have dist: "distinct (concat (map (\<lambda>(q, c). names c) (inserted st)))"
    using names by (simp add: all_emitted_def)
  have f: "?f \<in> set (map e_name run)" using run(1) by simp
  let ?N = "\<lambda>X. concat (map (\<lambda>(q, c). names c) X)"
  have dist': "distinct (?N A @ names pre @ map e_name run @ names post @ ?N B)" using dist unfolding ins by simp
  note out = distinct_middle [OF dist' f]
  have away: "?f \<notin> set (names c)" if "(q, c) \<in> set A \<or> (q, c) \<in> set B" for q c
    using that out names_in [of q c A ?f] names_in [of q c B ?f] by blast
  have same: "map (\<lambda>(q, c). (q, rewrite_range ?f ?l ?code (?r c))) X = map (\<lambda>(q, c). (q, ?r c)) X"
    if "X = A \<or> X = B" for X
  proof (intro map_cong refl)
    fix x assume "x \<in> set X"
    then have "?f \<notin> set (names (?r (snd x)))" using that away [of "fst x" "snd x"] by auto
    from rewrite_absent(2) [OF this]
    show "(case x of (q, c) \<Rightarrow> (q, rewrite_range ?f ?l ?code (?r c))) = (case x of (q, c) \<Rightarrow> (q, ?r c))"
      by (simp only: case_prod_unfold)
  qed
  have pre: "?f \<notin> set (names (?r pre))" using out by simp
  have d: "distinct (map e_name run)" using dist' by (simp only: distinct_append)
  have here: "rewrite_range ?f ?l ?code (?r (pre @ map Ins run @ post)) = ?r pre @ ?code run @ ?r post"
    using rewrite_range_run [OF pre run(1) refl refl d, of ?code "?r post"]
    by (simp only: map_append replace_stmt_run [OF run(2)])
  have "inserted ?st' = map (\<lambda>(q, c). (q, rewrite_range ?f ?l ?code (?r c))) (inserted st)" by simp
  also have "\<dots> = map (\<lambda>(q, c). (q, ?r c)) A @ (p, ?r pre @ ?code run @ ?r post) # map (\<lambda>(q, c). (q, ?r c)) B"
    unfolding ins map_append [of _ A] list.map prod.case here same [OF disjI1 [OF refl]] same [OF disjI2 [OF refl]] ..
  finally show ?thesis using that [OF rew short] by blast
qed

end
