(* ===== verification/Constraint_Laws.thy ===== *)
theory Constraint_Laws
  imports Rewriting_Laws
begin

text \<open>
  Path constraints. The code that a conditional branch ends up with calls the run-time library exactly
  when the condition has an expression, with the concrete condition as the direction taken; the branch
  of a loop does so once per activation of the function.
\<close>

subsection \<open>Inserted code and fresh names\<close>

definition all_code :: "symbolizer \<Rightarrow> stmt list" where
  "all_code st = concat (map snd (inserted st))"

lemma all_emitted_code: "all_emitted st = concat (map emitted_stmt (all_code st))"
proof -
  have "concat (map (\<lambda>(q, c). concat (map emitted_stmt c)) xs) = concat (map emitted_stmt (concat (map snd xs)))"
    for xs :: "(point \<times> stmt list) list"
  proof (induction xs)
    case (Cons x xs)
    then show ?case by (cases x) simp
  qed simp
  then show ?thesis by (simp add: all_emitted_def all_code_def)
qed

lemma value_used_code:
  "value_used v st \<longleftrightarrow> (\<exists>x \<in> set (all_code st). uses_value v x) \<or>
     (\<exists>n < next_name st. case expr_phis st n of None \<Rightarrow> False | Some incoming \<Rightarrow> v \<in> fst ` set incoming)"
proof -
  have "(\<exists>(q, c) \<in> set xs. \<exists>x \<in> set c. uses_value v x) \<longleftrightarrow> (\<exists>x \<in> set (concat (map snd xs)). uses_value v x)"
    for xs :: "(point \<times> stmt list) list"
  proof (induction xs)
    case (Cons x xs)
    then show ?case by (cases x) (simp only: list.set ball_simps bex_simps list.map concat.simps set_append bex_Un snd_conv prod.case)
  qed simp
  then show ?thesis by (simp only: value_used_def all_code_def lessThan_iff Bex_def)
qed

lemma code_at_subset: "set (code_at st q) \<subseteq> set (all_code st)"
proof (cases "map_of (inserted st) q")
  case (Some c)
  then have "c \<in> snd ` set (inserted st)" by (force dest: map_of_SomeD)
  then show ?thesis using Some by (auto simp: code_at_def all_code_def)
qed (simp add: code_at_def)

lemma all_code_update:
  assumes "inserted st' = update_code p f (inserted st)" "\<And>old. set (f old) = set old \<union> set new"
  shows "set (all_code st') = set (all_code st) \<union> set new"
proof -
  have "set (concat (map snd (update_code p f xs))) = set (concat (map snd xs)) \<union> set new" for xs
  proof (induction xs)
    case (Cons x xs)
    then show ?case by (cases x) (auto simp: assms(2))
  qed (simp add: assms(2))
  then show ?thesis by (simp only: assms(1) all_code_def)
qed

lemma code_at_updated:
  assumes "inserted st' = update_code p f (inserted st)"
  shows "code_at st' q = (if q = p then f (code_at st p) else code_at st q)"
proof -
  have "map_of (update_code p f xs) q = (if q = p then Some (f (case map_of xs p of None \<Rightarrow> [] | Some c \<Rightarrow> c)) else map_of xs q)"
    for xs by (induction xs) auto
  then show ?thesis by (simp add: code_at_def assms)
qed

text \<open>Names at or above the counter are not in use, neither as results nor as operands.\<close>

definition code_below :: "symbolizer \<Rightarrow> bool" where
  "code_below st \<longleftrightarrow>
     (\<forall>i \<in> set (all_emitted st). e_name i < next_name st) \<and>
     (\<forall>t k. next_name st \<le> k \<longrightarrow> \<not> value_used (Inst t k) st) \<and> (\<forall>n \<ge> next_name st. expr_phis st n = None)"

lemma code_below_names:
  assumes "code_below st"
  shows "\<forall>k \<in> set (names (code_at st q)). k < next_name st"
proof -
  have "set (concat (map emitted_stmt (code_at st q))) \<subseteq> set (all_emitted st)"
    using code_at_subset [of st q] by (auto simp: all_emitted_code)
  then have "set (names (code_at st q)) \<subseteq> e_name ` set (all_emitted st)" unfolding names_def by auto
  moreover have "\<forall>i \<in> set (all_emitted st). e_name i < next_name st" using assms unfolding code_below_def by (rule conjunct1)
  ultimately show ?thesis by blast
qed

lemma find_only:
  assumes "x \<in> set xs" "P x" "\<And>y. y \<in> set xs \<Longrightarrow> P y \<Longrightarrow> y = x"
  shows "find P xs = Some x"
proof (cases "find P xs")
  case None
  then show ?thesis using assms(1,2) by (auto simp: find_None_iff)
next
  case (Some y)
  then have "y \<in> set xs" "P y" by (auto simp: find_Some_iff)
  then show ?thesis using assms(3) Some by simp
qed

subsection \<open>A call with one input and no result\<close>

text \<open>Such a call ends up behind a check of its input, and needs no code to complete it.\<close>

definition null_check :: "llvm_value \<Rightarrow> nat \<Rightarrow> emitted" where
  "null_check e n = \<lparr>e_name = n, e_type = IntegerTy 1, e_op = ICmpEQ, e_args = [ConstantPointerNull, e]\<rparr>"

definition checked_call :: "llvm_value \<Rightarrow> nat \<Rightarrow> emitted \<Rightarrow> stmt list" where
  "checked_call e n call = [Ins (null_check e n), Guard True (Inst (IntegerTy 1) n) [Ins call] []]"

lemma single_pieces:
  assumes "e \<noteq> ConstantPointerNull"
  shows "computation_pieces dl [inp] [e] st =
    Inr ((Inst (IntegerTy 1) (next_name st), [Ins (null_check e (next_name st))], [], []), st\<lparr>next_name := Suc (next_name st)\<rparr>)"
  using assms
  by (simp add: computation_pieces_def capture_def emit_def fresh_def null_check_def rt_bind_def rt_get_def rt_modify_def rt_return_def)

lemma short_circuit_unused:
  assumes call: "call \<in> set (all_emitted st)" "\<And>i. i \<in> set (all_emitted st) \<Longrightarrow> e_name i = e_name call \<Longrightarrow> i = call"
    "e_args call = e # rest" "e \<noteq> ConstantPointerNull"
    and unused: "\<not> value_used (Inst t (e_name call)) (st\<lparr>next_name := Suc (next_name st)\<rparr>)"
    and sc: "sc = \<lparr>firstInstruction = Some (Inst t (e_name call)), lastInstruction = Some (Inst t (e_name call)),
      inputs = call_inputs (e_name call) [a]\<rparr>"
  obtains st' where "short_circuit dl sc st = Inr ((), st')"
    "\<And>q. code_at st' q = rewrite_range (e_name call) (e_name call) (slow_path (Inst (IntegerTy 1) (next_name st))
      [Ins (null_check e (next_name st))] [] [] []) (code_at st q)"
proof -
  let ?n = "e_name call" and ?k = "next_name st"
  let ?g = "slow_path (Inst (IntegerTy 1) ?k) [Ins (null_check e ?k)] [] [] []"
  have inps: "inputs sc = [\<lparr>concreteValue = a, operandIndex = 0, user = ?n\<rparr>]" by (simp add: sc call_inputs_def)
  have "find (\<lambda>i. e_name i = ?n) (all_emitted st) = Some call" using call(1,2) by (intro find_only) auto
  then have ops: "symbolic_operands (inputs sc) st = Inr ([e], st)"
    unfolding inps using call(3) by (simp add: getSymbolicOperand_def rt_bind_def rt_get_def rt_return_def)
  let ?st' = "st\<lparr>next_name := Suc ?k, inserted := map (\<lambda>(p, c). (p, rewrite_range ?n ?n ?g c)) (inserted st)\<rparr>"
  have "short_circuit dl sc st = Inr ((), ?st')"
    using ops single_pieces [OF call(4), of dl "\<lparr>concreteValue = a, operandIndex = 0, user = ?n\<rparr>" st] unused
    by (simp add: short_circuit_def sc call_inputs_def final_expression_def rt_bind_def rt_assert_def rt_get_def
        rt_return_def rt_modify_def)
  moreover have "code_at ?st' q = rewrite_range ?n ?n ?g (code_at st q)" for q
    by (simp add: code_at_def map_of_map split: option.split)
  ultimately show ?thesis using that by blast
qed

lemma exec_checked_call:
  assumes "eval_value fr e = VExpr x" "e_op call = Call f" "below n e" "\<forall>v \<in> set (e_args call). below n v"
  shows "exec_code D R (checked_call e n call) (fr, s) =
    (case x of
       None \<Rightarrow> Inr ((), set_register fr n (VInt 1 1), s)
     | Some _ \<Rightarrow> (case R f (map (eval_value fr) (e_args call)) s of
         Inl err \<Rightarrow> Inl err
       | Inr (y, s') \<Rightarrow> Inr ((), set_register (set_register fr n (VInt 1 0)) (e_name call) y, s')))"
proof -
  have args: "map (eval_value (set_register fr n y)) (e_args call) = map (eval_value fr) (e_args call)" for y
    using assms(4) eval_set_below [of n, OF _ order_refl] by (intro map_cong refl) blast
  show ?thesis
    using assms(1,2)
    by (auto simp: args checked_call_def null_check_def exec_emitted_def pure_op_def set_reg_def on_library_def set_phis_def
        rt_bind_def rt_get_def rt_modify_def rt_return_def split: option.split sum.split)
qed

lemma unused_update:
  assumes "set (all_code st') = set (all_code st) \<union> new" "\<forall>x \<in> new. \<not> uses_value v x"
    "expr_phis st' = expr_phis st" "\<not> value_used v st" "\<forall>k \<ge> next_name st. expr_phis st k = None"
  shows "\<not> value_used v (st'\<lparr>next_name := k\<rparr>)"
proof -
  have "all_code (st'\<lparr>next_name := k\<rparr>) = all_code st'" by (simp add: all_code_def)
  moreover have "\<not> (\<exists>x \<in> set (all_code st'). uses_value v x)"
    using assms(2,4) assms(1) unfolding value_used_code by blast
  moreover have "\<not> (case expr_phis st n of None \<Rightarrow> False | Some incoming \<Rightarrow> v \<in> fst ` set incoming)" for n
    using assms(4,5) unfolding value_used_code by (cases "n < next_name st") auto
  ultimately show ?thesis unfolding value_used_code using assms(3) by simp
qed

subsection \<open>Branches\<close>

lemma constraint_call_type [simp]: "call_type dl PushPathConstraintWithLoc = Some VoidTy"
  by (simp add: call_type_def runtime_member_groups builder_imports_def constraint_imports_def Let_def)

text \<open>The call of \<open>_sym_push_path_constraint_with_loc\<close> for a condition, and the computation recorded for it.\<close>

definition constraint_consts :: "compile_env \<Rightarrow> instruction \<Rightarrow> llvm_value \<Rightarrow> int \<Rightarrow> llvm_value list" where
  "constraint_consts C I cond slot = [cond, getTargetPreferredInt C (inst_address C (i_name I)),
     GlobalStringPtr (fst (source_location I)), getInt32 (snd (source_location I)), getInt32 slot]"

definition constraint_call :: "compile_env \<Rightarrow> instruction \<Rightarrow> llvm_value \<Rightarrow> int \<Rightarrow> symbolizer \<Rightarrow> emitted" where
  "constraint_call C I cond slot st = \<lparr>e_name = next_name st, e_type = VoidTy, e_op = Call PushPathConstraintWithLoc,
     e_args = expression_or_null st cond # constraint_consts C I cond slot\<rparr>"

definition constraint_computation :: "symbolizer \<Rightarrow> llvm_value \<Rightarrow> SymbolicComputation" where
  "constraint_computation st cond = \<lparr>firstInstruction = Some (Inst VoidTy (next_name st)),
     lastInstruction = Some (Inst VoidTy (next_name st)), inputs = call_inputs (next_name st) [cond]\<rparr>"

lemma push_constraint_run:
  assumes "wf_exprs st" "symbolicExpressions st cond \<noteq> None"
  shows "push_constraint C I cond slot st = Inr ((), st\<lparr>next_name := Suc (next_name st),
    expressionUses := expressionUses st @ [constraint_computation st cond],
    code := code st @ [Ins (constraint_call C I cond slot st)]\<rparr>)"
proof -
  have args: "constraint_args C I cond slot = map (\<lambda>a. (a, True)) [cond] @ map (\<lambda>c. (c, False)) (constraint_consts C I cond slot)"
    by (simp add: constraint_args_def constraint_consts_def case_prod_unfold Let_def)
  show ?thesis
    unfolding push_constraint_def args
    using build_call_run [OF constraint_call_type assms(1), where dl = C and as = "[cond]" and cs = "constraint_consts C I cond slot"] assms(2)
    by (simp add: registerOptional_def registerSymbolicComputation_def constraint_computation_def constraint_call_def
        rt_bind_def rt_return_def rt_modify_def)
qed

lemma constraint_args_below:
  assumes "wf_exprs st" "below (next_name st) cond"
  shows "\<forall>v \<in> set (e_args (constraint_call C I cond slot st)). below (next_name st) v"
  using assms wf_expression_or_null [OF assms(1)]
  by (simp add: constraint_call_def constraint_consts_def getTargetPreferredInt_def getInt32_def)

lemma below_unused: "below n v \<Longrightarrow> n \<le> k \<Longrightarrow> v \<noteq> Inst t k"
  by (cases v) auto

lemma checked_rewrite:
  "slow_path (Inst (IntegerTy 1) k) [Ins (null_check e k)] [] [] [] [call] = checked_call e k call"
  by (simp add: slow_path_def checked_call_def replaceOperands_other)

text \<open>
  A conditional branch that does not control a loop, after its visitor and the short-circuiting of the
  computation the visitor recorded: the new code stands before the branch, and all other code is as it was.
\<close>

lemma branch_code:
  assumes I: "i_kind I = BranchInst cond S0 S1" "\<not> is_loop_condition C I S0 S1"
    and st: "wf_exprs st" "code_below st" "below (next_name st) cond"
    and e: "symbolicExpressions st cond = Some e" "e \<noteq> ConstantPointerNull"
  obtains st1 st2 where "visit C I st = Inr ((), st1)" "expressionUses st1 = expressionUses st @ [constraint_computation st cond]"
    "short_circuit C (constraint_computation st cond) st1 = Inr ((), st2)"
    "code_at st2 (Before (i_name I)) = code_at st (Before (i_name I)) @
       checked_call e (Suc (next_name st)) (constraint_call C I cond (sint (ucast (slot_ID st) :: 32 word) + check_offset (i_check I)) st)"
    "\<And>q. q \<noteq> Before (i_name I) \<Longrightarrow> code_at st2 q = code_at st q"
proof -
  let ?p = "Before (i_name I)" and ?n = "next_name st"
  let ?slot = "sint (ucast (slot_ID st) :: 32 word) + check_offset (i_check I)"
  let ?call = "constraint_call C I cond ?slot st"
  define st1 where "st1 = st\<lparr>slot_ID := slot_ID st + 1, next_name := Suc ?n,
    expressionUses := expressionUses st @ [constraint_computation st cond],
    inserted := update_code ?p (\<lambda>old. old @ [Ins ?call]) (inserted st)\<rparr>"
  let ?st0 = "st\<lparr>slot_ID := slot_ID st + 1, code := []\<rparr>"
  have "wf_exprs ?st0" using st(1) by (rule wf_exprs_mono) simp_all
  moreover have "constraint_call C I cond ?slot ?st0 = ?call" "constraint_computation ?st0 cond = constraint_computation st cond"
    by (simp_all add: constraint_call_def constraint_computation_def expression_or_null_def)
  ultimately have push: "push_constraint C I cond ?slot ?st0 = Inr ((), ?st0\<lparr>next_name := Suc ?n,
      expressionUses := expressionUses st @ [constraint_computation st cond], code := [Ins ?call]\<rparr>)"
    using push_constraint_run [of ?st0 cond C I ?slot] e(1) by simp
  have v: "visit C I st = Inr ((), st1)"
    using I push
    by (simp add: visit_def visitBranchInst_def next_slot_def IRBuilder_def capture_def rt_bind_def rt_get_def rt_modify_def
        rt_return_def st1_def)
  have ins: "inserted st1 = update_code ?p (\<lambda>old. old @ [Ins ?call]) (inserted st)" by (simp add: st1_def)
  have codes: "set (all_code st1) = set (all_code st) \<union> {Ins ?call}" 
    using all_code_update [OF ins, of "[Ins ?call]"] by simp
  then have emitted: "set (all_emitted st1) = insert ?call (set (all_emitted st))"
    by (auto simp: all_emitted_code)
  have name: "e_name ?call = ?n" "e_args ?call = e # constraint_consts C I cond ?slot"
    using e(1) by (simp_all add: constraint_call_def expression_or_null_def)
  have "\<not> value_used (Inst VoidTy ?n) st" "\<forall>k \<ge> ?n. expr_phis st k = None" "\<And>i. i \<in> set (all_emitted st) \<Longrightarrow> e_name i < ?n"
    using st(2) by (simp_all add: code_below_def)
  note old = this
  have "\<not> uses_value (Inst VoidTy ?n) (Ins ?call)"
    using bspec [OF constraint_args_below [OF st(1,3), of C I ?slot], of "Inst VoidTy ?n"] by auto
  then have unused: "\<not> value_used (Inst VoidTy ?n) (st1\<lparr>next_name := Suc (next_name st1)\<rparr>)"
    by (intro unused_update [OF codes _ _ old(1,2)]) (simp_all add: st1_def)
  have sc_eq: "constraint_computation st cond = \<lparr>firstInstruction = Some (Inst VoidTy (e_name ?call)),
      lastInstruction = Some (Inst VoidTy (e_name ?call)), inputs = call_inputs (e_name ?call) [cond]\<rparr>"
    by (simp add: constraint_computation_def name)
  have only: "i = ?call" if "i \<in> set (all_emitted st1)" "e_name i = e_name ?call" for i
    using that old(3) [of i] unfolding emitted name by auto
  have n1: "next_name st1 = Suc ?n" by (simp add: st1_def)
  have mem: "?call \<in> set (all_emitted st1)" using emitted by blast
  have un: "\<not> value_used (Inst VoidTy (e_name ?call)) (st1\<lparr>next_name := Suc (next_name st1)\<rparr>)"
    unfolding name by (rule unused)
  obtain st2 where sc: "short_circuit C (constraint_computation st cond) st1 = Inr ((), st2)"
    and code: "\<And>q. code_at st2 q = rewrite_range ?n ?n (slow_path (Inst (IntegerTy 1) (Suc ?n))
      [Ins (null_check e (Suc ?n))] [] [] []) (code_at st1 q)"
    by (rule short_circuit_unused [OF mem only name(2) e(2) un sc_eq, where dl = C, unfolded name(1) n1]) (assumption | rule that)+
  have absent: "?n \<notin> set (names (code_at st q))" for q using code_below_names [OF st(2), of q] by blast
  let ?g = "slow_path (Inst (IntegerTy 1) (Suc ?n)) [Ins (null_check e (Suc ?n))] [] [] []"
  have "rewrite_range ?n ?n ?g (code_at st ?p @ map Ins [?call] @ []) = code_at st ?p @ ?g [?call] @ []"
    by (rule rewrite_range_run [OF absent]) (simp_all add: name(1))
  then have here: "code_at st2 ?p = code_at st ?p @ checked_call e (Suc ?n) ?call"
    unfolding code code_at_updated [OF ins] if_P [OF refl] checked_rewrite append_Nil2 list.map .
  have others: "code_at st2 q = code_at st q" if "q \<noteq> ?p" for q
    unfolding code code_at_updated [OF ins] if_not_P [OF that] by (rule rewrite_absent(2) [OF absent])
  have "expressionUses st1 = expressionUses st @ [constraint_computation st cond]" by (simp add: st1_def)
  from that [OF v this sc here others] show ?thesis .
qed

subsection \<open>Branches of loops\<close>

text \<open>
  The flag of a loop branch: a variable that the entry of the function sets to false. Before the branch,
  the constraint is pushed behind a check of the flag, and the flag is set.
\<close>

definition flag_code :: "nat \<Rightarrow> stmt list" where
  "flag_code n = [Ins \<lparr>e_name = n, e_type = PointerTy, e_op = IAlloca, e_args = []\<rparr>,
     Ins \<lparr>e_name = Suc n, e_type = VoidTy, e_op = IStore, e_args = [getInt1 False, Inst PointerTy n]\<rparr>]"

definition guard_code :: "nat \<Rightarrow> stmt list \<Rightarrow> stmt list" where
  "guard_code n push = [Ins \<lparr>e_name = n + 2, e_type = IntegerTy 1, e_op = ILoad, e_args = [Inst PointerTy n]\<rparr>,
     Guard True (Inst (IntegerTy 1) (n + 2))
       (push @ [Ins \<lparr>e_name = n + 4, e_type = VoidTy, e_op = IStore, e_args = [getInt1 True, Inst PointerTy n]\<rparr>]) []]"

definition named_from :: "nat \<Rightarrow> symbolizer \<Rightarrow> symbolizer" where
  "named_from k st = st\<lparr>next_name := next_name st + k\<rparr>"

lemma visit_loop_branch:
  assumes I: "i_kind I = BranchInst cond S0 S1" "is_loop_condition C I S0 S1" "\<not> i_guarded I"
    and st: "wf_exprs st" "i_name I \<notin> set (guarded_branches st)" "LoopSeenFlag st (i_name I) = None"
    and e: "symbolicExpressions st cond \<noteq> None"
  obtains st1 where "visit C I st = Inr ((), st1)" "next_name st1 = next_name st + 5" "expr_phis st1 = expr_phis st"
    "expressionUses st1 = expressionUses st @ [constraint_computation (named_from 3 st) cond]"
    "inserted st1 = update_code (Before (i_name I))
       (\<lambda>old. old @ guard_code (next_name st) [Ins (constraint_call C I cond (- 1) (named_from 3 st))])
       (update_code (Before (getFirstInsertionPt C 0)) (\<lambda>old. flag_code (next_name st) @ old) (inserted st))"
proof -
  let ?n = "next_name st" and ?F = "Inst PointerTy (next_name st)"
  let ?st = "\<lambda>ins. st\<lparr>slot_ID := slot_ID st + 1, inserted := ins, LoopSeenFlag := (LoopSeenFlag st)(i_name I \<mapsto> ?F),
    next_name := ?n + 3, code := [], guarded_branches := i_name I # guarded_branches st\<rparr>"
  let ?ins = "update_code (Before (getFirstInsertionPt C 0)) (\<lambda>old. flag_code ?n @ old) (inserted st)"
  have "wf_exprs (?st ?ins)" using st(1) by (rule wf_exprs_mono) simp_all
  moreover have "constraint_call C I cond (- 1) (?st ?ins) = constraint_call C I cond (- 1) (named_from 3 st)"
    "constraint_computation (?st ?ins) cond = constraint_computation (named_from 3 st) cond"
    by (simp_all add: constraint_call_def constraint_computation_def expression_or_null_def named_from_def)
  ultimately have push: "push_constraint C I cond (- 1) (?st ?ins) = Inr ((), (?st ?ins)\<lparr>next_name := ?n + 4,
      expressionUses := expressionUses st @ [constraint_computation (named_from 3 st) cond],
      code := [Ins (constraint_call C I cond (- 1) (named_from 3 st))]\<rparr>)"
    using push_constraint_run [of "?st ?ins" cond C I "- 1"] e by simp
  have "\<exists>st1. visit C I st = Inr ((), st1) \<and> next_name st1 = ?n + 5 \<and> expr_phis st1 = expr_phis st \<and>
      expressionUses st1 = expressionUses st @ [constraint_computation (named_from 3 st) cond] \<and>
      inserted st1 = update_code (Before (i_name I))
        (\<lambda>old. old @ guard_code ?n [Ins (constraint_call C I cond (- 1) (named_from 3 st))]) ?ins"
    using I st(2,3) push
    by (simp add: visit_def visitBranchInst_def next_slot_def loop_seen_flag_def IRBuilder_def
        IRBuilder_front_def emit_guard_def capture_def emit_def fresh_def rt_bind_def rt_get_def rt_modify_def rt_return_def
        flag_code_def [symmetric] guard_code_def eval_nat_numeral)
  then show ?thesis using that by blast
qed

lemma guard_code_names: "names (guard_code n push) = (n + 2) # names push @ [n + 4]"
  by (simp add: guard_code_def)

lemma rewrite_guard:
  assumes "f \<notin> set (names pre)" "f = n + 3" "e_name call = f"
  shows "rewrite_range f f g (pre @ guard_code n [Ins call]) = pre @ guard_code n (g [call])"
  unfolding rewrite_range_skip [OF assms(1)] using assms(2,3) by (simp add: guard_code_def)

lemma loop_branch_code:
  assumes I: "i_kind I = BranchInst cond S0 S1" "is_loop_condition C I S0 S1" "\<not> i_guarded I"
    and point: "getFirstInsertionPt C 0 \<noteq> i_name I"
    and st: "wf_exprs st" "code_below st" "below (next_name st) cond" "i_name I \<notin> set (guarded_branches st)"
      "LoopSeenFlag st (i_name I) = None"
    and e: "symbolicExpressions st cond = Some e" "e \<noteq> ConstantPointerNull"
  obtains st1 st2 where "visit C I st = Inr ((), st1)"
    "expressionUses st1 = expressionUses st @ [constraint_computation (named_from 3 st) cond]"
    "short_circuit C (constraint_computation (named_from 3 st) cond) st1 = Inr ((), st2)"
    "code_at st2 (Before (i_name I)) = code_at st (Before (i_name I)) @
       guard_code (next_name st) (checked_call e (next_name st + 5) (constraint_call C I cond (- 1) (named_from 3 st)))"
    "code_at st2 (Before (getFirstInsertionPt C 0)) = flag_code (next_name st) @ code_at st (Before (getFirstInsertionPt C 0))"
proof -
  let ?p = "Before (i_name I)" and ?q = "Before (getFirstInsertionPt C 0)" and ?n = "next_name st"
  let ?call = "constraint_call C I cond (- 1) (named_from 3 st)" and ?sc = "constraint_computation (named_from 3 st) cond"
  have pq: "?q \<noteq> ?p" using point by simp
  have some: "symbolicExpressions st cond \<noteq> None" using e(1) by simp
  obtain st1 where v: "visit C I st = Inr ((), st1)" and n1: "next_name st1 = ?n + 5" and phis: "expr_phis st1 = expr_phis st"
    and uses: "expressionUses st1 = expressionUses st @ [?sc]"
    and ins: "inserted st1 = update_code ?p (\<lambda>old. old @ guard_code ?n [Ins ?call])
      (update_code ?q (\<lambda>old. flag_code ?n @ old) (inserted st))"
    using visit_loop_branch [OF I st(1,4,5) some] .
  let ?mid = "st\<lparr>inserted := update_code ?q (\<lambda>old. flag_code ?n @ old) (inserted st)\<rparr>"
  have ins0: "inserted ?mid = update_code ?q (\<lambda>old. flag_code ?n @ old) (inserted st)" by simp
  have ins1: "inserted st1 = update_code ?p (\<lambda>old. old @ guard_code ?n [Ins ?call]) (inserted ?mid)" using ins by simp
  let ?new = "guard_code ?n [Ins ?call] @ flag_code ?n"
  have codes: "set (all_code st1) = set (all_code st) \<union> set ?new"
    using all_code_update [OF ins1, of "guard_code ?n [Ins ?call]"] all_code_update [OF ins0, of "flag_code ?n"] by auto
  have name: "e_name ?call = ?n + 3" "e_args ?call = e # constraint_consts C I cond (- 1)"
    using e(1) by (simp_all add: constraint_call_def expression_or_null_def named_from_def)
  have old: "\<not> value_used (Inst VoidTy (?n + 3)) st" "\<forall>k \<ge> ?n. expr_phis st k = None" "\<And>i. i \<in> set (all_emitted st) \<Longrightarrow> e_name i < ?n"
    using st(2) by (simp_all add: code_below_def)
  have emitted: "i = ?call" if "i \<in> set (all_emitted st1)" "e_name i = e_name ?call" for i
  proof -
    have "i \<in> set (all_emitted st) \<or> i \<in> set (concat (map emitted_stmt ?new))"
      using that(1) codes unfolding all_emitted_code by auto
    then show ?thesis using that(2) old(3) [of i] by (auto simp: name(1) guard_code_def flag_code_def)
  qed
  have mem: "?call \<in> set (all_emitted st1)" using codes by (auto simp: all_emitted_code guard_code_def)
  have "wf_exprs (named_from 3 st)" "below (next_name (named_from 3 st)) cond"
    using st(1,3) below_mono by (auto simp: named_from_def intro: wf_exprs_mono [OF st(1)])
  from bspec [OF constraint_args_below [OF this, of C I "- 1"], of "Inst VoidTy (?n + 3)"]
  have "\<forall>x \<in> set ?new. \<not> uses_value (Inst VoidTy (?n + 3)) x"
    by (auto simp: guard_code_def flag_code_def named_from_def getInt1_def)
  then have un: "\<not> value_used (Inst VoidTy (e_name ?call)) (st1\<lparr>next_name := Suc (next_name st1)\<rparr>)"
    unfolding name by (intro unused_update [OF codes _ phis old(1,2)])
  have sc_eq: "?sc = \<lparr>firstInstruction = Some (Inst VoidTy (e_name ?call)),
      lastInstruction = Some (Inst VoidTy (e_name ?call)), inputs = call_inputs (e_name ?call) [cond]\<rparr>"
    unfolding name(1) by (simp add: constraint_computation_def named_from_def)
  let ?g = "slow_path (Inst (IntegerTy 1) (?n + 5)) [Ins (null_check e (?n + 5))] [] [] []"
  obtain st2 where sc: "short_circuit C ?sc st1 = Inr ((), st2)"
    and code: "\<And>q. code_at st2 q = rewrite_range (?n + 3) (?n + 3) ?g (code_at st1 q)"
    by (rule short_circuit_unused [OF mem emitted name(2) e(2) un sc_eq, where dl = C, unfolded name(1) n1]) (assumption | rule that)+
  have absent: "?n + 3 \<notin> set (names (code_at st q))" for q using code_below_names [OF st(2), of q] by force
  have at: "code_at st1 ?p = code_at st ?p @ guard_code ?n [Ins ?call]" "code_at st1 ?q = flag_code ?n @ code_at st ?q"
    using code_at_updated [OF ins1] code_at_updated [OF ins0] pq by simp_all
  have "code_at st2 ?p = code_at st ?p @ guard_code ?n (checked_call e (?n + 5) ?call)"
    unfolding code at(1) checked_rewrite [symmetric] by (rule rewrite_guard [OF absent refl name(1)])
  moreover have "code_at st2 ?q = flag_code ?n @ code_at st ?q"
    unfolding code at(2) by (rule rewrite_absent(2)) (use absent [of ?q] in \<open>simp add: flag_code_def\<close>)
  ultimately show ?thesis by (rule that [OF v uses sc])
qed

text \<open>Running the code: the first time, the constraint is pushed and the flag set; later, nothing happens.\<close>

lemma exec_flag_code:
  "exec_code D R (flag_code n) (fr, s) =
   Inr ((), fr\<lparr>regs := (regs fr)(n := VCell n), cells := (cells fr)(n := VInt 1 0)\<rparr>, s)"
  by (simp add: flag_code_def exec_emitted_def set_reg_def getInt1_def rt_bind_def rt_get_def rt_modify_def rt_return_def)

lemma exec_guard_seen:
  assumes "regs fr n = VCell n" "cells fr n = VInt 1 1"
  shows "exec_code D R (guard_code n push) (fr, s) = Inr ((), set_register fr (n + 2) (VInt 1 1), s)"
  using assms
  by (simp add: guard_code_def exec_emitted_def set_reg_def set_phis_def rt_bind_def rt_get_def rt_modify_def rt_return_def)

lemma exec_guard_first:
  assumes "regs fr n = VCell n" "cells fr n = VInt 1 0"
    and "exec_code D R push (set_register fr (n + 2) (VInt 1 0), s) = Inr ((), fr', s')" "regs fr' n = VCell n"
  shows "exec_code D R (guard_code n push) (fr, s) = Inr ((), fr'\<lparr>cells := (cells fr')(n := VInt 1 1)\<rparr>, s')"
  using assms
  by (simp add: guard_code_def exec_emitted_def set_reg_def set_phis_def getInt1_def exec_code_append
      rt_bind_def rt_get_def rt_modify_def rt_return_def)

end
