(* ===== verification/Call_Laws.thy ===== *)
theory Call_Laws
  imports Symbolizer_Laws
begin

text \<open>
  The protocol of calls. The caller stores the expressions of the arguments in the run-time library, and
  an instrumented callee reads them at its entry; the callee stores the expression of its result, and the
  caller reads it behind the call.
\<close>

subsection \<open>Storing the arguments\<close>

lemma protocol_types [simp]:
  "call_type dl SetParameterExpression = Some VoidTy" "call_type dl GetParameterExpression = Some PointerTy"
  "call_type dl SetReturnExpression = Some VoidTy" "call_type dl GetReturnExpression = Some PointerTy"
  by (simp_all add: call_type_def runtime_member_groups builder_imports_def constraint_imports_def arithmetic_imports_def Let_def)

fun set_from :: "nat \<Rightarrow> 'a list \<Rightarrow> 'a list \<Rightarrow> 'a list" where
  "set_from n [] gs = gs"
| "set_from n (x # xs) gs = set_from (Suc n) xs (gs[n := x])"

lemma length_set_from [simp]: "length (set_from n xs gs) = length gs"
  by (induction n xs gs rule: set_from.induct) simp_all

lemma set_from_before: "k < n \<Longrightarrow> set_from n xs gs ! k = gs ! k"
  by (induction n xs gs rule: set_from.induct) simp_all

lemma set_from_nth: "i < length xs \<Longrightarrow> n + length xs \<le> length gs \<Longrightarrow> set_from n xs gs ! (n + i) = xs ! i"
proof (induction n xs gs arbitrary: i rule: set_from.induct)
  case (2 n x xs gs)
  show ?case
  proof (cases i)
    case 0
    then show ?thesis using 2(3) set_from_before [of n "Suc n" xs "gs[n := x]"] by simp
  next
    case (Suc j)
    then show ?thesis using 2(1) [of j] 2(2,3) by simp
  qed
qed simp

definition expr_of :: "'e rvalue \<Rightarrow> 'e option" where
  "expr_of x = (case x of VExpr e \<Rightarrow> e | _ \<Rightarrow> None)"

definition is_expr :: "'e rvalue \<Rightarrow> bool" where
  "is_expr x \<longleftrightarrow> x = VExpr (expr_of x)"

lemma index_small: "n < 256 \<Longrightarrow> unat (of_int (take_bit 8 (int n)) :: u8) = n"
  by (rule unat_bits) simp

lemma set_parameter_call:
  assumes "n < 256" "is_expr x"
  shows "simple_call z SetParameterExpression [eval_value fr (getInt8 n), x] s =
    Inr (VVoid, s\<lparr>g_function_arguments := (g_function_arguments s)[n := expr_of x]\<rparr>)"
proof -
  obtain e where "x = VExpr e" using assms(2) by (simp add: is_expr_def)
  then show ?thesis
    using index_small [OF assms(1)]
    by (simp add: getInt8_def no_result_def sym_set_parameter_expression_def expr_of_def rt_bind_def rt_modify_def rt_return_def)
qed

lemma set_parameters_builds:
  assumes "wf_exprs st" "n + length args \<le> 256" "\<forall>a \<in> set args. is_expr (eval_value fr (expression_or_null st a))"
  shows "builds D (simple_call z) (set_parameters C n args) st fr s (\<lambda>_ st' fr' s'. s' = s\<lparr>g_function_arguments :=
    set_from n (map (\<lambda>a. expr_of (eval_value fr (expression_or_null st a))) args) (g_function_arguments s)\<rparr>)"
  using assms
proof (induction args arbitrary: n st fr s)
  case Nil
  then show ?case by (simp add: builds_return)
next
  case (Cons a args)
  let ?e = "expression_or_null st a" and ?s = "s\<lparr>g_function_arguments := (g_function_arguments s)[n := expr_of (eval_value fr (expression_or_null st a))]\<rparr>"
  have get: "set_parameters C n (a # args) st = rt_bind (CreateCall C SetParameterExpression [getInt8 n, ?e]) (\<lambda>_. set_parameters C (n + 1) args) st"
    by (simp add: getSymbolicExpressionOrNull_def getSymbolicExpression_def rt_bind_def rt_get_def rt_return_def expression_or_null_def)
  have "builds D (simple_call z) (CreateCall C SetParameterExpression [getInt8 n, ?e]) st fr s
      (\<lambda>_ st' fr' s'. s' = ?s \<and> fr' = set_register fr (next_name st) VVoid)"
    using set_parameter_call [of n "eval_value fr ?e" z fr s] Cons.prems(2,3)
    by (intro builds_call [where t = VoidTy]) (simp_all add: rt_ok_def del: simple_call.simps)
  then have "builds D (simple_call z) (rt_bind (CreateCall C SetParameterExpression [getInt8 n, ?e]) (\<lambda>_. set_parameters C (n + 1) args))
      st fr s (\<lambda>_ st' fr' s'. s' = s\<lparr>g_function_arguments :=
        set_from n (map (\<lambda>a. expr_of (eval_value fr (expression_or_null st a))) (a # args)) (g_function_arguments s)\<rparr>)"
  proof (rule builds_bind)
    fix v st' fr' s' assume env: "same_env st st'" and s': "s' = ?s \<and> fr' = set_register fr (next_name st) VVoid"
    have ex: "expression_or_null st' = expression_or_null st" using env by (simp add: same_env_def fun_eq_iff expression_or_null_def)
    have ev: "eval_value fr' (expression_or_null st b) = eval_value fr (expression_or_null st b)" for b
      using s' wf_expression_or_null [OF Cons.prems(1), of b] eval_set_below [OF _ order_refl] by blast
    have "builds D (simple_call z) (set_parameters C (n + 1) args) st' fr' s' (\<lambda>_ st'' fr'' s''. s'' = s'\<lparr>g_function_arguments :=
        set_from (n + 1) (map (\<lambda>a. expr_of (eval_value fr' (expression_or_null st' a))) args) (g_function_arguments s')\<rparr>)"
      using Cons.prems env by (intro Cons.IH) (auto simp: ex ev same_env_def intro: wf_exprs_mono [OF Cons.prems(1)])
    then show "builds D (simple_call z) (set_parameters C (n + 1) args) st' fr' s' (\<lambda>_ st' fr' s'. s' = s\<lparr>g_function_arguments :=
        set_from n (map (\<lambda>a. expr_of (eval_value fr (expression_or_null st a))) (a # args)) (g_function_arguments s)\<rparr>)"
      unfolding ex ev conjunct1 [OF s'] by simp
  qed
  then show ?case unfolding builds_def get .
qed

subsection \<open>Reading the parameters\<close>

text \<open>The code at the entry of the callee; parameters that are not used are left alone.\<close>

definition parameter_read ::
    "symbolizer \<Rightarrow> 'e frame \<Rightarrow> 'e option list \<Rightarrow> nat \<Rightarrow> ty \<times> bool \<Rightarrow> bool" where
  "parameter_read st fr gs n = (\<lambda>(t, used). used \<longrightarrow>
     (\<exists>e. symbolicExpressions st (Argument t n) = Some e \<and> below (next_name st) e \<and> eval_value fr e = VExpr (gs ! n)))"

lemma get_parameter_call:
  "n < 256 \<Longrightarrow> simple_call z GetParameterExpression [eval_value fr (getInt8 n)] s = Inr (VExpr (g_function_arguments s ! n), s)"
  using index_small
  by (simp add: getInt8_def with_i1_def sym_get_parameter_expression_def rt_bind_def rt_get_def rt_return_def)

lemma symbolize_args_other:
  "symbolize_args C n params st = Inr ((), st') \<Longrightarrow> k < n \<Longrightarrow> symbolicExpressions st' (Argument t k) = symbolicExpressions st (Argument t k)"
proof (induction params arbitrary: n st)
  case (Cons p params)
  obtain t' used where p: "p = (t', used)" by (cases p)
  show ?case
  proof (cases used)
    case False
    then show ?thesis using Cons p by (simp add: rt_bind_def rt_return_def)
  next
    case True
    then obtain st1 where "symbolize_args C (Suc n) params st1 = Inr ((), st')"
      "symbolicExpressions st1 (Argument t k) = symbolicExpressions st (Argument t k)"
      using Cons.prems p
      by (auto simp: CreateCall_def emit_def fresh_def set_expression_def rt_bind_def rt_get_def rt_modify_def rt_return_def)
    then show ?thesis using Cons.IH [of "Suc n" st1] Cons.prems(2) by simp
  qed
qed (simp add: rt_return_def)

lemma symbolize_args_reads:
  assumes "n + length params \<le> 256"
  shows "\<exists>st' new. symbolize_args C n params st = Inr ((), st') \<and> code st' = code st @ new \<and> next_name st \<le> next_name st' \<and>
    (\<forall>fr s. rt_ok (exec_code D (simple_call z) new) (fr, s) (\<lambda>_ (fr', s'). s' = s \<and> agree (next_name st) fr fr' \<and>
      (\<forall>i < length params. parameter_read st' fr' (g_function_arguments s) (n + i) (params ! i))))"
  using assms
proof (induction params arbitrary: n st)
  case Nil
  then show ?case by (auto simp: rt_return_def rt_ok_def)
next
  case (Cons p params)
  obtain t used where p: "p = (t, used)" by (cases p)
  show ?case
  proof (cases used)
    case False
    then show ?thesis
      using Cons.IH [of "Suc n" st] Cons.prems p
      by (simp add: All_less_Suc2 parameter_read_def)
  next
    case True
    let ?k = "next_name st" and ?x = "\<lparr>e_name = next_name st, e_type = PointerTy, e_op = Call GetParameterExpression, e_args = [getInt8 n]\<rparr>"
    let ?st = "st\<lparr>next_name := Suc ?k, code := code st @ [Ins ?x],
      symbolicExpressions := (symbolicExpressions st)(Argument t n \<mapsto> Inst PointerTy ?k)\<rparr>"
    have step: "symbolize_args C n (p # params) st = symbolize_args C (Suc n) params ?st"
      using True p
      by (simp add: CreateCall_def emit_def fresh_def set_expression_def rt_bind_def rt_get_def rt_modify_def rt_return_def)
    obtain st' new where r: "symbolize_args C (Suc n) params ?st = Inr ((), st')" "code st' = code ?st @ new" "Suc ?k \<le> next_name st'"
      and run: "\<And>fr s. rt_ok (exec_code D (simple_call z) new) (fr, s) (\<lambda>_ (fr', s'). s' = s \<and> agree (Suc ?k) fr fr' \<and>
        (\<forall>i < length params. parameter_read st' fr' (g_function_arguments s) (Suc n + i) (params ! i)))"
      using Cons.IH [of "Suc n" ?st] Cons.prems by auto
    have own: "symbolicExpressions st' (Argument t n) = Some (Inst PointerTy ?k)"
      using symbolize_args_other [OF r(1), of n t] by simp
    have "rt_ok (exec_code D (simple_call z) (Ins ?x # new)) (fr, s) (\<lambda>_ (fr', s'). s' = s \<and> agree ?k fr fr' \<and>
        (\<forall>i < length (p # params). parameter_read st' fr' (g_function_arguments s) (n + i) ((p # params) ! i)))" for fr s
    proof -
      let ?fr = "set_register fr ?k (VExpr (g_function_arguments s ! n))"
      have "exec_emitted D (simple_call z) ?x (fr, s) = Inr ((), ?fr, s)"
        using get_parameter_call [of n z fr s] Cons.prems
        by (intro exec_call) (simp_all del: simple_call.simps)
      moreover obtain fr' where fr': "exec_code D (simple_call z) new (?fr, s) = Inr ((), fr', s)" "agree (Suc ?k) ?fr fr'"
        "\<And>i. i < length params \<Longrightarrow> parameter_read st' fr' (g_function_arguments s) (Suc n + i) (params ! i)"
        using run [of ?fr s] by (auto simp: rt_ok_def)
      moreover have "parameter_read st' fr' (g_function_arguments s) n p"
        using own r(3) fr'(2) by (simp add: parameter_read_def p agree_def)
      moreover have "agree ?k fr fr'" using fr'(2) by (simp add: agree_def)
      ultimately show ?thesis by (simp add: rt_ok_def rt_bind_def All_less_Suc2)
    qed
    then show ?thesis
      using r step by (intro exI [of _ st'] exI [of _ "Ins ?x # new"]) simp
  qed
qed

end
