(* ===== verification/Symbolizer_Invariants.thy ===== *)
theory Symbolizer_Invariants
  imports Call_Laws
begin

text \<open>
  An invariant of the class \<open>Symbolizer\<close> over all visitors: expressions are pointers to values that exist,
  and every recorded computation has inputs, a first and a last instruction, so that the assertions of
  \<open>Input\<close> and of \<open>shortCircuitExpressionUses\<close> hold.
\<close>

subsection \<open>The invariant\<close>

definition computation_ok :: "nat \<Rightarrow> SymbolicComputation \<Rightarrow> bool" where
  "computation_ok n c \<longleftrightarrow> inputs c \<noteq> [] \<and> (\<exists>t k. firstInstruction c = Some (Inst t k) \<and> k < n) \<and>
     (\<exists>t k. lastInstruction c = Some (Inst t k) \<and> k < n)"

definition symbolizer_inv :: "symbolizer \<Rightarrow> bool" where
  "symbolizer_inv st \<longleftrightarrow> wf_exprs st \<and> (\<forall>c \<in> set (expressionUses st). computation_ok (next_name st) c)"

text \<open>
  \<open>keeps_inv n m P\<close>: from a state with at least \<open>n\<close> names in use, \<open>m\<close> keeps the invariant, uses names up only,
  and establishes \<open>P\<close> of its result and the number of names.
\<close>

definition keeps_inv :: "nat \<Rightarrow> 'a build \<Rightarrow> ('a \<Rightarrow> nat \<Rightarrow> bool) \<Rightarrow> bool" where
  "keeps_inv n m P \<longleftrightarrow> (\<forall>st v st'. symbolizer_inv st \<longrightarrow> n \<le> next_name st \<longrightarrow> m st = Inr (v, st') \<longrightarrow>
     symbolizer_inv st' \<and> next_name st \<le> next_name st' \<and> P v (next_name st'))"

definition expr_ok :: "nat \<Rightarrow> llvm_value \<Rightarrow> bool" where
  "expr_ok n e \<longleftrightarrow> getType e = PointerTy \<and> below n e"

lemma computation_ok_mono: "computation_ok n c \<Longrightarrow> n \<le> m \<Longrightarrow> computation_ok m c"
  unfolding computation_ok_def by (meson order_less_le_trans)

lemma expr_ok_mono: "expr_ok n e \<Longrightarrow> n \<le> m \<Longrightarrow> expr_ok m e"
  by (auto simp: expr_ok_def intro: below_mono)

lemma expr_ok_null [simp]: "expr_ok n ConstantPointerNull"
  by (simp add: expr_ok_def)

lemma inv_unchanged:
  assumes "symbolizer_inv st" "symbolicExpressions st' = symbolicExpressions st" "expressionUses st' = expressionUses st"
    "next_name st \<le> next_name st'"
  shows "symbolizer_inv st'"
  using assms wf_exprs_mono computation_ok_mono by (auto simp: symbolizer_inv_def)

subsection \<open>Rules\<close>

named_theorems inv_rules "builders that keep the invariant"

lemma keeps_return: "(\<And>n'. n \<le> n' \<Longrightarrow> P v n') \<Longrightarrow> keeps_inv n (rt_return v) P"
  by (auto simp: keeps_inv_def rt_return_def)

lemma keeps_raise [inv_rules]: "keeps_inv n (rt_raise e) P"
  by (simp add: keeps_inv_def rt_raise_def)

lemma keeps_assert: "(\<And>n'. n \<le> n' \<Longrightarrow> b \<Longrightarrow> P () n') \<Longrightarrow> keeps_inv n (rt_assert msg b) P"
  by (auto simp: rt_assert_def keeps_return keeps_raise)

lemma keeps_bind:
  assumes "keeps_inv n m P" "\<And>v n'. n \<le> n' \<Longrightarrow> P v n' \<Longrightarrow> keeps_inv n' (k v) Q"
  shows "keeps_inv n (rt_bind m k) Q"
  unfolding keeps_inv_def
proof (intro allI impI)
  fix st v st' assume st: "symbolizer_inv st" "n \<le> next_name st" "rt_bind m k st = Inr (v, st')"
  then obtain w st1 where 1: "m st = Inr (w, st1)" "k w st1 = Inr (v, st')"
    by (auto simp: rt_bind_def split: sum.splits)
  have 2: "symbolizer_inv st1" "next_name st \<le> next_name st1" "P w (next_name st1)"
    using assms(1) st 1(1) by (auto simp: keeps_inv_def)
  have "keeps_inv (next_name st1) (k w) Q" using assms(2) 2 st(2) by simp
  then show "symbolizer_inv st' \<and> next_name st \<le> next_name st' \<and> Q v (next_name st')"
    using 1(2) 2 by (fastforce simp: keeps_inv_def)
qed

lemma keeps_mono: "keeps_inv n m P \<Longrightarrow> (\<And>v n'. n \<le> n' \<Longrightarrow> P v n' \<Longrightarrow> Q v n') \<Longrightarrow> keeps_inv n m Q"
  unfolding keeps_inv_def by (meson order_trans)

lemma keeps_get: "(\<And>st. symbolizer_inv st \<Longrightarrow> P (f st) (next_name st)) \<Longrightarrow> keeps_inv n (rt_get f) P"
  by (auto simp: keeps_inv_def rt_get_def)

lemma keeps_modify:
  assumes "\<And>st. symbolicExpressions (f st) = symbolicExpressions st" "\<And>st. expressionUses (f st) = expressionUses st"
    "\<And>st. next_name (f st) = next_name st"
  shows "keeps_inv n (rt_modify f) (\<lambda>_ _. True)"
  using assms inv_unchanged by (auto simp: keeps_inv_def rt_modify_def)

lemma keeps_fresh [inv_rules]: "keeps_inv n fresh (\<lambda>k n'. k < n')"
  unfolding keeps_inv_def
  using inv_unchanged by (auto simp: fresh_def rt_bind_def rt_get_def rt_modify_def rt_return_def)

lemma keeps_emit [inv_rules]: "keeps_inv n (emit opc t args) (\<lambda>v n'. \<exists>k. v = Inst t k \<and> k < n')"
  unfolding emit_def
  by (rule keeps_bind [OF keeps_fresh], rule keeps_bind [OF keeps_modify])
    (auto intro: keeps_return)

lemma keeps_CreateCall [inv_rules]:
  "keeps_inv n (CreateCall dl f args) (\<lambda>v n'. \<exists>t k. v = Inst t k \<and> k < n' \<and> call_type dl f = Some t)"
  unfolding CreateCall_def by (auto split: option.split intro: keeps_raise keeps_mono [OF keeps_emit])

lemma keeps_capture:
  assumes "keeps_inv n m P"
  shows "keeps_inv n (capture m) (\<lambda>r n'. P (fst r) n')"
proof -
  show ?thesis
    unfolding keeps_inv_def
  proof (intro allI impI)
    fix st v st' assume st: "symbolizer_inv st" "n \<le> next_name st" "capture m st = Inr (v, st')"
    then obtain x st1 where 1: "m (st\<lparr>code := []\<rparr>) = Inr (x, st1)" "v = (x, code st1)" "st' = st1\<lparr>code := code st\<rparr>"
      by (auto simp: capture_def rt_bind_def rt_get_def rt_modify_def rt_return_def split: sum.splits)
    have "symbolizer_inv (st\<lparr>code := []\<rparr>)" using st(1) by (rule inv_unchanged) simp_all
    then have 2: "symbolizer_inv st1" "next_name st \<le> next_name st1" "P x (next_name st1)"
      using assms st(2) 1(1) by (fastforce simp: keeps_inv_def)+
    then show "symbolizer_inv st' \<and> next_name st \<le> next_name st' \<and> P (fst v) (next_name st')"
      using 1 inv_unchanged [OF 2(1), of st'] by simp
  qed
qed

lemma keeps_IRBuilder:
  assumes "keeps_inv n m P" "\<And>v n' n''. P v n' \<Longrightarrow> n' \<le> n'' \<Longrightarrow> P v n''"
  shows "keeps_inv n (IRBuilder p m) P" "keeps_inv n (IRBuilder_front p m) P"
  unfolding IRBuilder_def IRBuilder_front_def
  by (rule keeps_bind [OF keeps_capture [OF assms(1)]], clarsimp, rule keeps_bind [OF keeps_modify],
      simp_all, rule keeps_return, erule assms(2), simp)+

lemma keeps_guard:
  assumes "keeps_inv n m P"
  shows "keeps_inv n (emit_guard b c m) (\<lambda>_ _. True)"
  unfolding emit_guard_def
  by (rule keeps_bind [OF keeps_capture [OF assms]], clarsimp, rule keeps_modify) simp_all

subsection \<open>Expressions and computations\<close>

lemma keeps_getSymbolicExpression: "keeps_inv n (getSymbolicExpression V) (\<lambda>r n'. \<forall>e. r = Some e \<longrightarrow> expr_ok n' e)"
  unfolding getSymbolicExpression_def
  by (rule keeps_get) (auto simp: symbolizer_inv_def wf_exprs_def expr_ok_def)

lemma keeps_OrNull: "keeps_inv n (getSymbolicExpressionOrNull V) (\<lambda>e n'. expr_ok n' e)"
  unfolding getSymbolicExpressionOrNull_def
  by (rule keeps_bind [OF keeps_getSymbolicExpression], rule keeps_return)
    (auto split: option.split intro: expr_ok_mono)

lemma keeps_exprs: "keeps_inv n (rt_get symbolicExpressions) (\<lambda>f n'. \<forall>V e. f V = Some e \<longrightarrow> expr_ok n' e)"
  by (rule keeps_get) (auto simp: symbolizer_inv_def wf_exprs_def expr_ok_def)

lemma keeps_set_expression:
  assumes "\<And>e. r = Some e \<Longrightarrow> expr_ok n e"
  shows "keeps_inv n (set_expression V r) (\<lambda>_ _. True)"
proof -
  have "wf_exprs (st\<lparr>symbolicExpressions := (symbolicExpressions st)(V := r)\<rparr>)" if "wf_exprs st" "n \<le> next_name st" for st
    using that assms by (auto simp: wf_exprs_def expr_ok_def intro: below_mono)
  then show ?thesis
    unfolding keeps_inv_def set_expression_def by (auto simp: rt_modify_def symbolizer_inv_def)
qed

lemma keeps_make_input: "keeps_inv n (make_input V e i call) (\<lambda>_ _. True)"
  unfolding make_input_def
  by (rule keeps_bind [OF keeps_assert [where P = "\<lambda>_ _. True"]]) (auto split: llvm_value.split intro: keeps_return keeps_raise)

lemma keeps_argument_values: "keeps_inv n (argument_values args) (\<lambda>vs n'. length vs = length args)"
proof (induction args arbitrary: n)
  case (Cons a args)
  obtain v b where a: "a = (v, b)" by (cases a)
  have "keeps_inv n (if b then getSymbolicExpressionOrNull v else rt_return v) (\<lambda>_ _. True)"
    by (auto intro: keeps_mono [OF keeps_OrNull] keeps_return)
  then show ?case
    unfolding a argument_values.simps
    by (rule keeps_bind) (rule keeps_bind [OF Cons], auto intro: keeps_return)
qed (simp add: keeps_return)

lemma keeps_make_inputs:
  assumes "length vs = length args"
  shows "keeps_inv n (make_inputs i args vs call) (\<lambda>inps n'. (\<exists>a \<in> set args. snd a) \<longrightarrow> inps \<noteq> [])"
  using assms
proof (induction args arbitrary: n i vs)
  case (Cons a args)
  obtain x b where a: "a = (x, b)" by (cases a)
  obtain v vs' where vs: "vs = v # vs'" using Cons.prems by (cases vs) auto
  have IH: "keeps_inv n' (make_inputs (Suc i) args vs' call) (\<lambda>inps n'. (\<exists>a \<in> set args. snd a) \<longrightarrow> inps \<noteq> [])" for n'
    using Cons vs by simp
  show ?case
  proof (cases b)
    case True
    then show ?thesis
      unfolding a vs by (auto intro!: keeps_bind [OF keeps_make_input] keeps_bind [OF IH] keeps_return)
  next
    case False
    then show ?thesis unfolding a vs by (auto intro!: keeps_mono [OF IH [of n]])
  qed
qed (simp add: keeps_return)

text \<open>A computation that ends in a call of a function of the given result type.\<close>

definition ends_in :: "ty option \<Rightarrow> nat \<Rightarrow> SymbolicComputation \<Rightarrow> bool" where
  "ends_in t n c \<longleftrightarrow> (\<exists>t' k. lastInstruction c = Some (Inst t' k) \<and> k < n \<and> t = Some t') \<and>
     (\<exists>t' k. firstInstruction c = Some (Inst t' k) \<and> k < n)"

lemma ends_in_mono: "ends_in t n c \<Longrightarrow> n \<le> m \<Longrightarrow> ends_in t m c"
  unfolding ends_in_def by fastforce

lemma keeps_force:
  "keeps_inv n (forceBuildRuntimeCall dl f args) (\<lambda>c n'. ends_in (call_type dl f) n' c \<and> ((\<exists>a \<in> set args. snd a) \<longrightarrow> inputs c \<noteq> []))"
  unfolding forceBuildRuntimeCall_def
  by (rule keeps_bind [OF keeps_argument_values], rule keeps_bind [OF keeps_CreateCall],
      rule keeps_bind [OF keeps_make_inputs], simp, rule keeps_return)
    (fastforce simp: ends_in_def)

lemma keeps_build:
  "keeps_inv n (buildRuntimeCall dl f args) (\<lambda>r n'. \<forall>c. r = Some c \<longrightarrow>
     ends_in (call_type dl f) n' c \<and> ((\<exists>a \<in> set args. snd a) \<longrightarrow> inputs c \<noteq> []))"
  unfolding buildRuntimeCall_def
  by (rule keeps_bind [OF keeps_exprs]) (auto intro!: keeps_return keeps_bind [OF keeps_force] intro: ends_in_mono)

lemma keeps_register:
  assumes "ends_in t n c" "inputs c \<noteq> []" "concrete \<noteq> None \<Longrightarrow> t = Some PointerTy"
  shows "keeps_inv n (registerSymbolicComputation c concrete) (\<lambda>_ _. True)"
proof -
  have expr: "expr_ok n' e" if "n \<le> n'" "lastInstruction c = Some e" "concrete \<noteq> None" for n' e
    using assms(1,3) that by (auto simp: ends_in_def expr_ok_def)
  have "computation_ok n c" using assms(1,2) by (auto simp: computation_ok_def ends_in_def)
  then have use: "keeps_inv n' (rt_modify (\<lambda>s. s\<lparr>expressionUses := expressionUses s @ [c]\<rparr>)) (\<lambda>_ _. True)" if "n \<le> n'" for n'
    using that computation_ok_mono
    by (force simp: keeps_inv_def rt_modify_def symbolizer_inv_def wf_exprs_def)
  show ?thesis
    unfolding registerSymbolicComputation_def
  proof (rule keeps_bind [where P = "\<lambda>_ _. True"])
    show "keeps_inv n (case concrete of None \<Rightarrow> rt_return () | Some V \<Rightarrow> set_expression V (lastInstruction c)) (\<lambda>_ _. True)"
      using expr [of n] by (auto split: option.split intro: keeps_return keeps_set_expression)
  qed (rule use)
qed

lemma keeps_registerOptional:
  assumes "\<And>c. r = Some c \<Longrightarrow> ends_in t n c \<and> inputs c \<noteq> []" "concrete \<noteq> None \<Longrightarrow> t = Some PointerTy"
  shows "keeps_inv n (registerOptional r concrete) (\<lambda>_ _. True)"
  using assms unfolding registerOptional_def
  by (auto split: option.split intro: keeps_return keeps_register)

subsection \<open>Visitors\<close>

lemma more_call_types [simp]:
  "call_type dl BuildFloatAbs = Some PointerTy" "call_type dl BuildBitsToFloat = Some PointerTy"
  "call_type dl BuildFloatToBits = Some PointerTy" "call_type dl BuildIntToFloat = Some PointerTy"
  "call_type dl BuildFloatToFloat = Some PointerTy" "call_type dl BuildFloatToSignedInt = Some PointerTy"
  "call_type dl BuildFloatToUnsignedInt = Some PointerTy" "call_type dl BuildAddOverflow = Some PointerTy"
  "call_type dl BuildSubOverflow = Some PointerTy" "call_type dl BuildMulOverflow = Some PointerTy"
  "call_type dl BuildSAddSat = Some PointerTy" "call_type dl BuildUAddSat = Some PointerTy"
  "call_type dl BuildSSubSat = Some PointerTy" "call_type dl BuildUSubSat = Some PointerTy"
  "call_type dl BuildSShlSat = Some PointerTy" "call_type dl BuildUShlSat = Some PointerTy"
  "call_type dl BuildFshl = Some PointerTy" "call_type dl BuildFshr = Some PointerTy" "call_type dl BuildAbs = Some PointerTy"
  by (simp_all add: call_type_def runtime_member_groups builder_imports_def constraint_imports_def arithmetic_imports_def Let_def)

lemma memory_call_types [simp]:
  "call_type dl UnaryOperatorHandler = Some PointerTy" "call_type dl ReadMemory = Some PointerTy"
  "call_type dl BuildInsert = Some PointerTy" "call_type dl BuildExtract = Some PointerTy" "call_type dl BuildZeroBytes = Some PointerTy"
proof -
  have none: "map_of operator_imports f = None" "map_of numeric_imports f = None" "map_of comparison_imports f = None"
    if "f \<in> {UnaryOperatorHandler, ReadMemory, BuildInsert, BuildExtract, BuildZeroBytes}" for f
    using that by (auto simp: map_of_eq_None_iff operator_imports_def numeric_imports_def comparison_imports_def
        LOAD_BINARY_OPERATOR_HANDLER_def LOAD_BINARY_OPERATOR_HANDLER_FOR_NUM_def LOAD_COMPARISON_HANDLER_def)
  show "call_type dl UnaryOperatorHandler = Some PointerTy" "call_type dl ReadMemory = Some PointerTy"
    "call_type dl BuildInsert = Some PointerTy" "call_type dl BuildExtract = Some PointerTy" "call_type dl BuildZeroBytes = Some PointerTy"
    by (simp_all add: call_type_def runtime_member_groups builder_imports_def constraint_imports_def arithmetic_imports_def
        none unary_imports_def memory_imports_def Let_def)
qed

lemma call_type_comparison: "call_type dl (ComparisonHandler p) = Some t \<Longrightarrow> t = PointerTy"
  using call_type_comparisons [of p dl] member_comparison(2,3) [of dl]
  by (cases "p = FCMP_FALSE \<or> p = FCMP_TRUE") (auto simp: call_type_def)

lemma keeps_get_any: "keeps_inv n (rt_get f) (\<lambda>_ _. True)"
  by (rule keeps_get) simp

lemmas inv_binds =
  keeps_bind [OF keeps_getSymbolicExpression] keeps_bind [OF keeps_OrNull] keeps_bind [OF keeps_exprs]
  keeps_bind [OF keeps_CreateCall] keeps_bind [OF keeps_emit] keeps_bind [OF keeps_fresh]
  keeps_bind [OF keeps_build] keeps_bind [OF keeps_force] keeps_bind [OF keeps_make_input]

lemma keeps_IRBuilder_True: "keeps_inv n m (\<lambda>_ _. True) \<Longrightarrow> keeps_inv n (IRBuilder p m) (\<lambda>_ _. True)"
  by (rule keeps_IRBuilder(1))

lemma keeps_call_register:
  assumes "call_type dl f = Some PointerTy" "\<exists>a \<in> set args. snd a"
  shows "keeps_inv n (rt_bind (buildRuntimeCall dl f args) (\<lambda>r. registerOptional r V)) (\<lambda>_ _. True)"
  by (rule keeps_bind [OF keeps_build], rule keeps_registerOptional [where t = "call_type dl f"])
    (use assms in auto)

lemma keeps_symbolic_call:
  "call_type C f = Some PointerTy \<Longrightarrow> args \<noteq> [] \<Longrightarrow> keeps_inv n (symbolic_call C I f args) (\<lambda>_ _. True)"
  unfolding symbolic_call_def by (intro keeps_IRBuilder_True keeps_call_register) (auto simp: symbolic_args_def neq_Nil_conv)

lemma keeps_cast_call: "call_type C f = Some PointerTy \<Longrightarrow> keeps_inv n (cast_call C I f a cs) (\<lambda>_ _. True)"
  unfolding cast_call_def by (intro keeps_IRBuilder_True keeps_call_register) auto

lemma keeps_copy: "keeps_inv n (copy_expression I V) (\<lambda>_ _. True)"
  unfolding copy_expression_def
  by (rule keeps_bind [OF keeps_getSymbolicExpression]) (auto split: option.split intro: keeps_return keeps_set_expression)

lemma keeps_memory_call: "keeps_inv n (memory_call C I f d a l) (\<lambda>_ _. True)"
  unfolding memory_call_def by (intro keeps_IRBuilder_True inv_binds keeps_return) auto

lemma keeps_intrinsic: "keeps_inv n (handleIntrinsicCall C I i args) (\<lambda>_ _. True)"
  by (cases i)
    (auto simp: overflow_builder_def intro!: keeps_memory_call keeps_bind [OF keeps_OrNull] keeps_copy keeps_symbolic_call
      keeps_IRBuilder_True keeps_call_register keeps_return)

lemma keeps_set_parameters: "keeps_inv n (set_parameters C k args) (\<lambda>_ _. True)"
  by (induction args arbitrary: n k) (auto intro!: keeps_return keeps_bind [OF keeps_OrNull] keeps_bind [OF keeps_CreateCall])

lemma keeps_expr_call:
  "call_type dl f = Some PointerTy \<Longrightarrow> keeps_inv n (CreateCall dl f args) (\<lambda>e n'. expr_ok n' e)"
  by (rule keeps_mono [OF keeps_CreateCall]) (auto simp: expr_ok_def)

lemma keeps_function_call: "keeps_inv n (handleFunctionCall C I callee args p) (\<lambda>_ _. True)"
proof -
  have 1: "keeps_inv n' (IRBuilder p (CreateCall C NotifyRet [site])) (\<lambda>_ _. True)" for n' site
    by (rule keeps_IRBuilder_True) (rule keeps_mono [OF keeps_CreateCall], simp)
  have 2: "keeps_inv n' (IRBuilder q (rt_bind (CreateCall C NotifyCall [site]) (\<lambda>_.
      rt_bind (set_parameters C 0 args) (\<lambda>_. if u then rt_bind (CreateCall C SetReturnExpression [ConstantPointerNull]) (\<lambda>_. rt_return ())
        else rt_return ())))) (\<lambda>_ _. True)" for n' q site u
    by (intro keeps_IRBuilder_True keeps_bind [OF keeps_CreateCall] keeps_bind [OF keeps_set_parameters])
      (auto intro!: keeps_bind [OF keeps_CreateCall] keeps_return)
  have 3: "keeps_inv n' (IRBuilder p (CreateCall C GetReturnExpression [])) (\<lambda>e n'. expr_ok n' e)" for n'
    by (rule keeps_IRBuilder(1) [OF keeps_expr_call]) (auto intro: expr_ok_mono)
  show ?thesis
  proof (cases "i_used I")
    case True
    note 2 = 2 [where u = True, unfolded if_True]
    show ?thesis
      unfolding handleFunctionCall_def Let_def if_P [OF True]
      by (auto split: callee.split
          intro!: keeps_intrinsic keeps_bind [OF 1] keeps_bind [OF 2] keeps_bind [OF 3] keeps_set_expression)
  next
    case False
    note 2 = 2 [where u = False, unfolded if_False]
    show ?thesis
      unfolding handleFunctionCall_def Let_def if_not_P [OF False]
      by (auto split: callee.split intro!: keeps_intrinsic keeps_bind [OF 1] keeps_bind [OF 2] keeps_return
          keeps_IRBuilder_True keeps_bind [OF keeps_CreateCall] keeps_set_parameters)
  qed
qed

lemma keeps_push: "keeps_inv n (push_constraint C I cond slot) (\<lambda>_ _. True)"
  unfolding push_constraint_def
  by (rule keeps_bind [OF keeps_build], rule keeps_registerOptional [where t = "call_type C PushPathConstraintWithLoc"])
    (auto simp: constraint_args_def case_prod_unfold Let_def)

lemma keeps_next_slot: "keeps_inv n next_slot (\<lambda>_ _. True)"
  unfolding next_slot_def
  by (rule keeps_bind [OF keeps_get_any], rule keeps_bind [OF keeps_modify]) (auto intro: keeps_return)

lemma keeps_select: "keeps_inv n (visitSelectInst C I c a b) (\<lambda>_ _. True)"
  unfolding visitSelectInst_def
  by (rule keeps_bind [OF keeps_next_slot], rule keeps_IRBuilder_True, rule keeps_bind [OF keeps_push])
    (auto simp: expr_ok_def intro!: inv_binds keeps_return keeps_set_expression)

lemma keeps_flag: "keeps_inv n (loop_seen_flag C I) (\<lambda>_ _. True)"
proof -
  have 1: "keeps_inv n' (IRBuilder_front q (rt_bind (emit IAlloca PointerTy []) (\<lambda>Flag.
      rt_bind (emit IStore VoidTy [getInt1 False, Flag]) (\<lambda>_. rt_return Flag)))) (\<lambda>_ _. True)" for n' q
    by (rule keeps_IRBuilder(2)) (auto intro!: inv_binds keeps_return)
  have 2: "keeps_inv n' (rt_modify (\<lambda>s. s\<lparr>LoopSeenFlag := (LoopSeenFlag s)(i_name I \<mapsto> Flag)\<rparr>)) (\<lambda>_ _. True)" for n' Flag
    by (rule keeps_modify) simp_all
  show ?thesis
    unfolding loop_seen_flag_def
    by (rule keeps_bind [OF keeps_get_any]) (auto split: option.split intro!: keeps_return keeps_bind [OF 1] keeps_bind [OF 2])
qed

lemma keeps_branch: "keeps_inv n (visitBranchInst C I c S0 S1) (\<lambda>_ _. True)"
proof -
  have 1: "keeps_inv n' (rt_modify (\<lambda>s. s\<lparr>guarded_branches := i_name I # guarded_branches s\<rparr>)) (\<lambda>_ _. True)" for n'
    by (rule keeps_modify) simp_all
  show ?thesis
    unfolding visitBranchInst_def Let_def
    by (rule keeps_bind [OF keeps_next_slot])
      (auto intro!: keeps_bind [OF keeps_get_any] keeps_return keeps_bind [OF keeps_flag] keeps_IRBuilder_True
        keeps_bind [OF keeps_emit] keeps_guard [where P = "\<lambda>_ _. True"] keeps_bind [OF 1] keeps_bind [OF keeps_push] keeps_push)
qed

lemma keeps_bindT:
  "keeps_inv n m (\<lambda>_ _. True) \<Longrightarrow> (\<And>v n'. n \<le> n' \<Longrightarrow> keeps_inv n' (k v) Q) \<Longrightarrow> keeps_inv n (rt_bind m k) Q"
  by (rule keeps_bind)

lemma keeps_T: "keeps_inv n m P \<Longrightarrow> keeps_inv n m (\<lambda>_ _. True)"
  by (rule keeps_mono) simp_all

lemmas keeps_any =
  keeps_T [OF keeps_CreateCall] keeps_T [OF keeps_emit] keeps_T [OF keeps_OrNull] keeps_make_input keeps_raise
  keeps_return [where P = "\<lambda>_ _. True", OF TrueI]

subsection \<open>Expressions of concrete values\<close>

lemma keeps_to_bits:
  "keeps_inv n (convertExprForTypeToBitVectorExpr C V e) (\<lambda>r n'. \<forall>c. r = Some c \<longrightarrow> ends_in (Some PointerTy) n' c \<and> inputs c \<noteq> [])"
proof -
  have 1: "keeps_inv n' (rt_bind (make_input V x i call) (\<lambda>inp. rt_return (Some \<lparr>firstInstruction = Some (Inst t k),
      lastInstruction = Some (Inst PointerTy l), inputs = [inp]\<rparr>))) (\<lambda>r n'. \<forall>c. r = Some c \<longrightarrow> ends_in (Some PointerTy) n' c \<and> inputs c \<noteq> [])"
    if "k < n'" "l < n'" for n' x i call t k l
    using that by (intro keeps_bind [OF keeps_make_input] keeps_return) (auto simp: ends_in_def)
  show ?thesis
    unfolding convertExprForTypeToBitVectorExpr_def Let_def
    by (auto split: option.split intro!: keeps_return keeps_bind [OF keeps_CreateCall] 1)
qed

lemma keeps_from_bits:
  "expr_ok n e \<Longrightarrow> keeps_inv n (convertBitVectorExprForType C e t) (\<lambda>r n'. expr_ok n' r)"
  unfolding convertBitVectorExprForType_def
  by (auto intro!: keeps_expr_call keeps_bind [OF keeps_CreateCall] keeps_return intro: expr_ok_mono)

lemma keeps_append: "keeps_inv n (append_expr dl e e') (\<lambda>_ _. True)"
  unfolding append_expr_def by (auto split: option.split intro!: keeps_any keeps_bind [OF keeps_CreateCall])

lemma keeps_append_padding: "keeps_inv n (append_padding dl e p) (\<lambda>_ _. True)"
  unfolding append_padding_def by (auto intro!: keeps_any keeps_append keeps_bind [OF keeps_CreateCall])

lemma keeps_element_of: "keeps_inv n (element_of V i t) (\<lambda>_ _. True)"
  unfolding element_of_def by (auto split: llvm_value.split intro!: keeps_any)

lemma keeps_element_bytes: "keeps_inv n (element_bytes dl t V e) (\<lambda>_ _. True)"
  unfolding element_bytes_def Let_def
  by (rule keeps_bind [OF keeps_to_bits]) (auto split: option.split intro!: keeps_any keeps_bind [OF keeps_CreateCall])

lemma keeps_scalar: "keeps_inv n (scalar_expression dl t V) (\<lambda>_ _. True)"
  unfolding scalar_expression_def by (auto split: ty.split intro!: keeps_any keeps_bind [OF keeps_emit])

lemma keeps_value:
  "keeps_inv n (value_expression dl t V) (\<lambda>_ _. True)"
  "keeps_inv n (struct_elements dl ts us i V off e) (\<lambda>_ _. True)"
proof (induction dl t V and dl ts us i V off e arbitrary: n and n rule: value_expression_struct_elements.induct)
  case (1 dl ts V)
  then show ?case
    by (auto split: prod.split intro!: keeps_any keeps_bind [OF keeps_CreateCall] keeps_bindT keeps_append_padding)
next
  case (4 dl ts t rest i V offset expr)
  show ?case
    unfolding struct_elements.simps
    by (intro keeps_bindT keeps_append_padding keeps_element_of keeps_element_bytes keeps_append 4)
qed (auto intro!: keeps_any keeps_bindT keeps_scalar)

lemma keeps_createValueExpression: "keeps_inv n (createValueExpression dl V) (\<lambda>_ _. True)"
  unfolding createValueExpression_def
  by (rule keeps_bindT [OF keeps_value(1)]) (auto split: option.split intro!: keeps_any)

subsection \<open>Control flow and memory\<close>

lemma keeps_switch_cases: "keeps_inv n (switch_cases C I c e slot cs) (\<lambda>_ _. True)"
  by (induction cs arbitrary: n)
    (auto simp: Let_def split: prod.split intro!: keeps_any keeps_bind [OF keeps_emit] keeps_bind [OF keeps_CreateCall]
      keeps_bindT [OF keeps_createValueExpression])

lemma keeps_switch: "keeps_inv n (visitSwitchInst C I c cs) (\<lambda>_ _. True)"
  unfolding visitSwitchInst_def
  by (rule keeps_bind [OF keeps_getSymbolicExpression])
    (auto split: option.split intro!: keeps_any keeps_bind [OF keeps_next_slot] keeps_IRBuilder_True keeps_bind [OF keeps_emit]
      keeps_guard [OF keeps_switch_cases])

lemma keeps_return_inst: "keeps_inv n (visitReturnInst C I v) (\<lambda>_ _. True)"
  unfolding visitReturnInst_def
  by (auto split: option.split intro!: keeps_any keeps_IRBuilder_True keeps_bind [OF keeps_OrNull] keeps_bind [OF keeps_CreateCall])

lemma keeps_load: "keeps_inv n (visitLoadInst C I a) (\<lambda>_ _. True)"
  unfolding visitLoadInst_def
  by (auto intro!: keeps_IRBuilder_True keeps_bind [OF keeps_emit] keeps_bind [OF keeps_expr_call] keeps_bind [OF keeps_from_bits]
      keeps_set_expression)

lemma keeps_converted:
  assumes "\<And>c. r = Some c \<Longrightarrow> ends_in (Some PointerTy) n c"
  shows "keeps_inv n (converted r V) (\<lambda>e n'. expr_ok n' e)"
proof (cases r)
  case None
  then show ?thesis by (simp add: converted_def keeps_OrNull)
next
  case (Some c)
  then show ?thesis using assms by (auto simp: converted_def ends_in_def expr_ok_def intro!: keeps_return)
qed

lemma keeps_store: "keeps_inv n (visitStoreInst C I v a) (\<lambda>_ _. True)"
  unfolding visitStoreInst_def
  by (intro keeps_IRBuilder_True keeps_bind [OF keeps_getSymbolicExpression] keeps_bind [OF keeps_to_bits] keeps_bind [OF keeps_emit]
      keeps_bind [OF keeps_converted] keeps_bind [OF keeps_CreateCall] keeps_any) (auto intro: ends_in_mono)

subsection \<open>Merged computations\<close>

text \<open>A computation that is complete: it ends in an expression and depends on some value.\<close>

definition complete_computation :: "nat \<Rightarrow> SymbolicComputation \<Rightarrow> bool" where
  "complete_computation n c \<longleftrightarrow> ends_in (Some PointerTy) n c \<and> inputs c \<noteq> []"

lemma complete_mono: "complete_computation n c \<Longrightarrow> n \<le> m \<Longrightarrow> complete_computation m c"
  by (auto simp: complete_computation_def intro: ends_in_mono)

lemma complete_merge:
  assumes "complete_computation n c \<or> c = empty_computation \<and> inputs d \<noteq> []" "ends_in (Some PointerTy) n d"
  shows "complete_computation n (merge_computation c d)"
  using assms
  by (auto simp: complete_computation_def ends_in_def merge_computation_def empty_computation_def split: option.split)

lemma keeps_last: "ends_in t n c \<Longrightarrow> keeps_inv n (last_value c) (\<lambda>_ _. True)"
  unfolding last_value_def by (auto simp: ends_in_def intro!: keeps_any)

lemma keeps_register_complete:
  "complete_computation n c \<Longrightarrow> keeps_inv n (registerSymbolicComputation c V) (\<lambda>_ _. True)"
  by (rule keeps_register [where t = "Some PointerTy"]) (auto simp: complete_computation_def)

lemma keeps_force_complete:
  assumes "call_type C f = Some PointerTy" "\<exists>a \<in> set args. snd a"
  shows "keeps_inv n (forceBuildRuntimeCall C f args) (\<lambda>c n'. complete_computation n' c)"
  by (rule keeps_mono [OF keeps_force]) (use assms in \<open>auto simp: complete_computation_def\<close>)

lemma keeps_force_ends:
  "call_type C f = Some PointerTy \<Longrightarrow> keeps_inv n (forceBuildRuntimeCall C f args) (\<lambda>c n'. ends_in (Some PointerTy) n' c)"
  by (rule keeps_mono [OF keeps_force]) auto

lemma complete_ends: "complete_computation n c \<Longrightarrow> ends_in (Some PointerTy) n c"
  by (simp add: complete_computation_def)

subsection \<open>Address computations\<close>

definition gep_state :: "nat \<Rightarrow> SymbolicComputation \<Rightarrow> bool" where
  "gep_state n c \<longleftrightarrow> c = empty_computation \<or> complete_computation n c"

lemma gep_state_mono: "gep_state n c \<Longrightarrow> n \<le> m \<Longrightarrow> gep_state m c"
  by (auto simp: gep_state_def intro: complete_mono)

lemma gep_state_merge:
  assumes "gep_state n c" "complete_computation n d"
  shows "complete_computation n (merge_computation c d)"
  using assms by (intro complete_merge) (auto simp: gep_state_def complete_computation_def)

lemma keeps_gep_scale:
  assumes "gep_state n sc"
  shows "keeps_inv n (gep_scale C sc idx sz) (\<lambda>c n'. complete_computation n' c)"
proof -
  have 1: "keeps_inv n (rt_bind (forceBuildRuntimeCall C (BinaryOperatorHandler BMul) [(idx, True), s])
      (\<lambda>mul. rt_return (merge_computation sc mul))) (\<lambda>c n'. complete_computation n' c)" for s
    by (rule keeps_bind [OF keeps_force_complete], simp, simp, rule keeps_return, rule gep_state_merge)
      (use assms in \<open>auto intro: gep_state_mono complete_mono\<close>)
  have 2: "keeps_inv n (rt_bind (forceBuildRuntimeCall C BuildZExt [(idx, True), (k, False)]) (\<lambda>ext.
      rt_bind (last_value ext) (\<lambda>e. rt_bind (forceBuildRuntimeCall C (BinaryOperatorHandler BMul) [(e, False), s])
      (\<lambda>mul. rt_return (merge_computation (merge_computation sc ext) mul))))) (\<lambda>c n'. complete_computation n' c)" for k s
  proof (rule keeps_bind [OF keeps_force_complete], simp, simp)
    fix ext n' assume ext: "n \<le> n'" "complete_computation n' ext"
    have 3: "complete_computation n'' (merge_computation sc ext)" if "n' \<le> n''" for n''
      using assms ext that by (intro gep_state_merge) (auto intro: gep_state_mono complete_mono)
    show "keeps_inv n' (rt_bind (last_value ext) (\<lambda>e. rt_bind (forceBuildRuntimeCall C (BinaryOperatorHandler BMul) [(e, False), s])
      (\<lambda>mul. rt_return (merge_computation (merge_computation sc ext) mul)))) (\<lambda>c n'. complete_computation n' c)"
      by (rule keeps_bind [OF keeps_last [OF complete_ends [OF ext(2)]]], rule keeps_bind [OF keeps_force_ends], simp,
          rule keeps_return, rule complete_merge, rule disjI1, rule 3) (auto intro: ends_in_mono)
  qed
  show ?thesis
    unfolding gep_scale_def Let_def by (auto split: option.split intro: keeps_raise 1 2)
qed

lemma keeps_gep_add:
  assumes "gep_state n sc" "snd x \<or> snd y \<or> complete_computation n sc"
  shows "keeps_inv n (gep_add C sc x y) (\<lambda>c n'. complete_computation n' c)"
  unfolding gep_add_def
proof (rule keeps_bind [OF keeps_force])
  fix c n' assume "n \<le> n'"
    "ends_in (call_type C (BinaryOperatorHandler BAdd)) n' c \<and> ((\<exists>a \<in> set [x, y]. snd a) \<longrightarrow> inputs c \<noteq> [])"
  then have "complete_computation n' (merge_computation sc c)"
    using assms by (intro complete_merge) (auto simp: gep_state_def intro: complete_mono)
  then show "keeps_inv n' (rt_return (merge_computation sc c)) (\<lambda>c n'. complete_computation n' c)"
    by (intro keeps_return) (rule complete_mono)
qed

text \<open>The address so far is the pointer operand, or the expression that the steps before have ended in.\<close>

lemma keeps_gep_steps:
  assumes "gep_state n sc" "snd address \<or> complete_computation n sc"
  shows "keeps_inv n (gep_steps C idxs sc address) (\<lambda>c n'. gep_state n' c \<and>
    ((\<exists>i \<in> set idxs. \<not> isZero (index_value i)) \<or> complete_computation n sc \<longrightarrow> complete_computation n' c))"
  using assms
proof (induction C idxs sc address arbitrary: n rule: gep_steps.induct)
  case (1 C sc address)
  have "gep_state n' sc \<and> (complete_computation n sc \<longrightarrow> complete_computation n' sc)" if "n \<le> n'" for n'
    using gep_state_mono [OF 1(1) that] complete_mono that by blast
  then show ?case unfolding gep_steps.simps by (intro keeps_return) simp
next
  case (2 C ts w k rest sc address)
  have step: "keeps_inv n' (rt_bind (last_value c) (\<lambda>e. gep_steps C rest c (e, False))) (\<lambda>c n'. complete_computation n' c)"
    if "complete_computation n' c" for n' c
  proof (rule keeps_bind [OF keeps_last [OF complete_ends [OF that]]])
    fix e n2 assume "n' \<le> n2"
    with that have c: "complete_computation n2 c" by (rule complete_mono)
    show "keeps_inv n2 (gep_steps C rest c (e, False)) (\<lambda>c n'. complete_computation n' c)"
      by (rule keeps_mono [OF 2(1) [OF refl]]) (simp_all add: c gep_state_def)
  qed
  show ?case
    unfolding gep_steps.simps Let_def
    by (rule keeps_mono [OF keeps_bind [OF keeps_gep_add [OF 2(2)] step]]) (use 2(3) in \<open>auto simp: gep_state_def\<close>)
next
  case (4 C t idx rest sc address)
  show ?case
  proof (cases "isZero idx")
    case True
    show ?thesis
      using 4(1) [OF True 4(3,4)] True by simp
  next
    case False
    have step: "keeps_inv n' (rt_bind (last_value c) (\<lambda>e. gep_steps C rest c (e, False))) (\<lambda>c n'. complete_computation n' c)"
      if "complete_computation n' c" for n' c
    proof (rule keeps_bind [OF keeps_last [OF complete_ends [OF that]]])
      fix e n2 assume "n' \<le> n2"
      with that have c: "complete_computation n2 c" by (rule complete_mono)
      show "keeps_inv n2 (gep_steps C rest c (e, False)) (\<lambda>c n'. complete_computation n' c)"
        by (rule keeps_mono [OF 4(2) [OF False]]) (simp_all add: c gep_state_def)
    qed
    have add: "keeps_inv n' (rt_bind (last_value c) (\<lambda>x. rt_bind (gep_add C c (x, False) address)
        (\<lambda>c. rt_bind (last_value c) (\<lambda>e. gep_steps C rest c (e, False))))) (\<lambda>c n'. complete_computation n' c)"
      if "complete_computation n' c" for n' c
    proof (rule keeps_bind [OF keeps_last [OF complete_ends [OF that]]])
      fix x n2 assume "n' \<le> n2"
      with that have c: "complete_computation n2 c" by (rule complete_mono)
      show "keeps_inv n2 (rt_bind (gep_add C c (x, False) address)
        (\<lambda>c. rt_bind (last_value c) (\<lambda>e. gep_steps C rest c (e, False)))) (\<lambda>c n'. complete_computation n' c)"
        by (rule keeps_bind [OF keeps_gep_add step]) (simp_all add: c gep_state_def)
    qed
    show ?thesis
      unfolding gep_steps.simps if_not_P [OF False]
      by (rule keeps_mono [OF keeps_bind [OF keeps_gep_scale [OF 4(3)] add]]) (auto simp: gep_state_def)
  qed
qed (simp_all only: gep_steps.simps keeps_raise)

lemma keeps_gep: "keeps_inv n (visitGetElementPtrInst C I ptr idxs) (\<lambda>_ _. True)"
proof -
  have 1: "keeps_inv n' (IRBuilder (Before (i_name I)) (rt_bind (gep_steps C idxs empty_computation (ptr, True))
      (\<lambda>sc. registerSymbolicComputation sc (Some (result_of I))))) (\<lambda>_ _. True)"
    if "\<not> (\<forall>i \<in> set idxs. isZero (index_value i))" for n'
    by (rule keeps_IRBuilder_True, rule keeps_bind [OF keeps_gep_steps])
      (use that in \<open>auto simp: gep_state_def intro!: keeps_register_complete\<close>)
  show ?thesis
    unfolding visitGetElementPtrInst_def
    by (rule keeps_bind [OF keeps_exprs]) (auto simp del: index_value.simps intro!: keeps_any keeps_set_expression 1)
qed

subsection \<open>Casts, PHI nodes and aggregates\<close>

lemma keeps_bit_width: "keeps_inv n (bit_width t) (\<lambda>_ _. True)"
  unfolding bit_width_def by (auto split: option.split intro!: keeps_any)

lemma keeps_bitcast: "keeps_inv n (visitBitCastInst C I a) (\<lambda>_ _. True)"
proof -
  have 1: "keeps_inv n (rt_bind (rt_assert msg b) (\<lambda>_. copy_expression I a)) (\<lambda>_ _. True)" for msg b
    by (rule keeps_bindT [OF keeps_assert], simp, rule keeps_copy)
  have 2: "keeps_inv n (IRBuilder p (rt_bind (buildRuntimeCall C BuildFloatToBits [(a, True)])
      (\<lambda>r. registerOptional r None))) (\<lambda>_ _. True)" for p
    by (intro keeps_IRBuilder_True keeps_call_register) auto
  show ?thesis
    unfolding visitBitCastInst_def by (auto intro!: keeps_cast_call 1 2)
qed

lemma keeps_trunc: "keeps_inv n (visitTruncInst C I a) (\<lambda>_ _. True)"
proof -
  have 1: "keeps_inv n' (if b then rt_bind (last_value c) (\<lambda>e. rt_bind (forceBuildRuntimeCall C BuildBitToBool [(e, False)])
      (\<lambda>bool. rt_return (merge_computation c bool))) else rt_return c) (\<lambda>c n'. complete_computation n' c)"
    if "complete_computation n' c" for n' c b
    by (auto intro!: keeps_bind [OF keeps_last [OF complete_ends [OF that]]] keeps_bind [OF keeps_force_ends] keeps_return complete_merge
        intro: complete_mono that ends_in_mono)
  have 2: "keeps_inv n' (IRBuilder p (rt_bind (forceBuildRuntimeCall C BuildTrunc [(a, True), (k, False)]) (\<lambda>c.
      rt_bind (if b then rt_bind (last_value c) (\<lambda>e. rt_bind (forceBuildRuntimeCall C BuildBitToBool [(e, False)])
      (\<lambda>bool. rt_return (merge_computation c bool))) else rt_return c) (\<lambda>sc. registerSymbolicComputation sc r)))) (\<lambda>_ _. True)"
    for n' p k b r
    by (rule keeps_IRBuilder_True, rule keeps_bind [OF keeps_force_complete], simp, simp, rule keeps_bind [OF 1], assumption,
        rule keeps_register_complete)
  show ?thesis
    unfolding visitTruncInst_def
    by (rule keeps_bind [OF keeps_getSymbolicExpression]) (simp add: keeps_any keeps_bindT [OF keeps_bit_width] 2 del: if_split_asm split: if_split)
qed

lemma keeps_extension:
  assumes "call_type C f = Some PointerTy"
  shows "keeps_inv n (visitExtension C I f a) (\<lambda>_ _. True)"
proof -
  have 1: "keeps_inv n' (IRBuilder p (rt_bind (forceBuildRuntimeCall C BuildBoolToBit [(a, True)]) (\<lambda>bit.
      rt_bind (last_value bit) (\<lambda>e. rt_bind (forceBuildRuntimeCall C f [(e, False), (k, False)]) (\<lambda>ext.
      registerSymbolicComputation (merge_computation bit ext) r))))) (\<lambda>_ _. True)" for n' p k r
    by (rule keeps_IRBuilder_True, rule keeps_bind [OF keeps_force_complete], simp, simp,
        rule keeps_bind [OF keeps_last [OF complete_ends]], assumption, rule keeps_bind [OF keeps_force_ends], rule assms,
        rule keeps_register_complete, rule complete_merge) (auto intro: complete_mono ends_in_mono)
  show ?thesis
    unfolding visitExtension_def
    by (rule keeps_bindT [OF keeps_bit_width], rule keeps_bindT [OF keeps_bit_width]) (simp add: 1 keeps_cast_call [OF assms])
qed

lemma keeps_cast: "keeps_inv n (visitCastInst C I opc a) (\<lambda>_ _. True)"
  by (cases opc) (auto simp: visitSIToFPInst_def visitUIToFPInst_def visitFPExtInst_def visitFPTruncInst_def visitFPToSI_def visitFPToUI_def
      intro!: keeps_extension keeps_bitcast keeps_trunc keeps_copy keeps_cast_call keeps_bindT [OF keeps_bit_width] keeps_any)

lemma keeps_phi: "keeps_inv n (visitPHINode I inc) (\<lambda>_ _. True)"
  unfolding visitPHINode_def
  by (rule keeps_bind [OF keeps_fresh], rule keeps_bind [OF keeps_modify])
    (auto simp: expr_ok_def intro!: keeps_set_expression)

lemma keeps_offset: "keeps_inv n (aggregateMemberOffset dl t idxs) (\<lambda>_ _. True)"
  unfolding aggregateMemberOffset_def by (auto split: sum.split intro!: keeps_any)

lemma keeps_insert: "keeps_inv n (visitInsertValueInst C I a v idxs) (\<lambda>_ _. True)"
proof -
  have done_: "keeps_inv n' (registerSymbolicComputation \<lparr>firstInstruction = Some (Inst PointerTy k),
      lastInstruction = Some (Inst PointerTy k), inputs = [inp, inp']\<rparr> x) (\<lambda>_ _. True)"
    "keeps_inv n' (registerSymbolicComputation (merge_computation c \<lparr>firstInstruction = Some (Inst PointerTy k),
      lastInstruction = Some (Inst PointerTy k), inputs = [inp]\<rparr>) x) (\<lambda>_ _. True)"
    if "k < n'" "complete_computation n' c" for n' c k inp inp' x
    by (rule keeps_register_complete, use that in \<open>simp add: complete_computation_def ends_in_def\<close>,
        rule keeps_register_complete, rule complete_merge, use that in \<open>simp_all add: ends_in_def\<close>)
  have single: "keeps_inv n' (rt_bind (make_input v e i call) (\<lambda>inp'.
      registerSymbolicComputation \<lparr>firstInstruction = Some (Inst PointerTy k), lastInstruction = Some (Inst PointerTy k),
        inputs = [inp, inp']\<rparr> x)) (\<lambda>_ _. True)" if "k < n'" for n' e i call inp k x
    by (rule keeps_bind [OF keeps_make_input], rule keeps_register_complete)
      (use that in \<open>simp add: complete_computation_def ends_in_def\<close>)
  have rest: "keeps_inv n1 (rt_bind (getSymbolicExpressionOrNull a) (\<lambda>vt.
      rt_bind (converted r v) (\<lambda>e. rt_bind (aggregateMemberOffset C (getType a) idxs) (\<lambda>offset.
      rt_bind (CreateCall C BuildInsert [vt, e, getInt64 offset, le]) (\<lambda>insert.
      rt_bind (make_input a vt 0 insert) (\<lambda>inp.
      case r of
         None \<Rightarrow> rt_bind (make_input v e 1 insert) (\<lambda>inp'. registerSymbolicComputation
             \<lparr>firstInstruction = Some insert, lastInstruction = Some insert, inputs = [inp, inp']\<rparr> x)
       | Some c \<Rightarrow> registerSymbolicComputation (merge_computation c
             \<lparr>firstInstruction = Some insert, lastInstruction = Some insert, inputs = [inp]\<rparr>) x)))))) (\<lambda>_ _. True)"
    if r: "\<And>c. r = Some c \<Longrightarrow> complete_computation n1 c" for n1 r le x
  proof (intro keeps_bind [OF keeps_OrNull] keeps_bind [OF keeps_converted] keeps_bind [OF keeps_offset]
      keeps_bind [OF keeps_CreateCall] keeps_bind [OF keeps_make_input])
    fix n2 c assume "n1 \<le> n2" "r = Some c"
    then show "ends_in (Some PointerTy) n2 c" using complete_ends [OF complete_mono [OF r]] by blast
  next
    fix vt n2 e n3 offset n4 insert n5 inp n6
    assume n: "n1 \<le> n2" "n2 \<le> n3" "n3 \<le> n4" "n4 \<le> n5" "n5 \<le> n6"
      and ins: "\<exists>t k. insert = Inst t k \<and> k < n5 \<and> call_type C BuildInsert = Some t"
    obtain k where k: "insert = Inst PointerTy k" "k < n6" using ins n(5) by auto
    have c: "complete_computation n6 c" if "r = Some c" for c
      by (rule complete_mono [OF r [OF that]]) (use n in linarith)
    show "keeps_inv n6 (case r of
         None \<Rightarrow> rt_bind (make_input v e 1 insert) (\<lambda>inp'. registerSymbolicComputation
             \<lparr>firstInstruction = Some insert, lastInstruction = Some insert, inputs = [inp, inp']\<rparr> x)
       | Some c \<Rightarrow> registerSymbolicComputation (merge_computation c
             \<lparr>firstInstruction = Some insert, lastInstruction = Some insert, inputs = [inp]\<rparr>) x) (\<lambda>_ _. True)"
      by (cases r) (auto simp only: option.case k(1) intro!: single [OF k(2)] done_(2) [OF k(2) c])
  qed
  show ?thesis
    unfolding visitInsertValueInst_def Let_def SymbolicComputation.update_convs SymbolicComputation.select_convs append.simps
    by (rule keeps_bind [OF keeps_getSymbolicExpression], rule keeps_bind [OF keeps_getSymbolicExpression], split if_split,
        intro conjI impI keeps_any keeps_IRBuilder_True, rule keeps_bind [OF keeps_OrNull], rule keeps_bind [OF keeps_to_bits],
        rule rest) (simp add: complete_computation_def)
qed

lemma keeps_from_call:
  assumes "k < n"
  shows "keeps_inv n (convertBitVectorExprForType C (Inst PointerTy k) t) (\<lambda>r n'. \<exists>k. r = Inst PointerTy k \<and> k < n')"
  using assms unfolding convertBitVectorExprForType_def
  by (auto intro!: keeps_mono [OF keeps_CreateCall] keeps_bind [OF keeps_CreateCall] keeps_return)

lemma keeps_extract: "keeps_inv n (visitExtractValueInst C I a idxs) (\<lambda>_ _. True)"
proof -
  have 1: "keeps_inv n' (rt_bind (CreateCall C BuildExtract args) (\<lambda>bits.
      rt_bind (convertBitVectorExprForType C bits t) (\<lambda>result. rt_bind (make_input a e 0 bits) (\<lambda>inp.
      registerSymbolicComputation \<lparr>firstInstruction = Some bits, lastInstruction = Some result, inputs = [inp]\<rparr> r)))) (\<lambda>_ _. True)"
    for n' args t e r
  proof (rule keeps_bind [OF keeps_CreateCall], clarsimp)
    fix n2 k assume "n' \<le> n2" "k < n2"
    then show "keeps_inv n2 (rt_bind (convertBitVectorExprForType C (Inst PointerTy k) t) (\<lambda>result.
        rt_bind (make_input a e 0 (Inst PointerTy k)) (\<lambda>inp. registerSymbolicComputation
          \<lparr>firstInstruction = Some (Inst PointerTy k), lastInstruction = Some result, inputs = [inp]\<rparr> r))) (\<lambda>_ _. True)"
      by (intro keeps_bind [OF keeps_from_call] keeps_bind [OF keeps_make_input] keeps_register_complete)
        (auto simp: complete_computation_def ends_in_def)
  qed
  show ?thesis
    unfolding visitExtractValueInst_def
    by (rule keeps_bind [OF keeps_getSymbolicExpression])
      (auto split: option.split intro!: keeps_any keeps_IRBuilder_True keeps_bindT [OF keeps_offset] 1)
qed

subsection \<open>The visitor\<close>

lemma keeps_binary: "keeps_inv n (Symbolizer.visitBinaryOperator C I opc a b) (\<lambda>_ _. True)"
proof -
  have "keeps_inv n (binary_handler t opc) (\<lambda>f _. call_type C f = Some PointerTy)" for t
    unfolding binary_handler_def by (cases opc) (auto intro!: keeps_return keeps_raise)
  then show ?thesis
    unfolding Symbolizer.visitBinaryOperator_def
    by (rule keeps_bind) (rule keeps_bindT [OF keeps_assert], auto intro!: keeps_symbolic_call)
qed

lemma keeps_comparison: "keeps_inv n (visitCmpInst C I p a b) (\<lambda>_ _. True)"
proof (cases "p = FCMP_FALSE \<or> p = FCMP_TRUE")
  case True
  then have "runtime_member C (ComparisonHandler p) = None" using member_comparison(2,3) by auto
  then show ?thesis by (simp add: visitCmpInst_def rt_assert_def keeps_inv_def rt_bind_def rt_raise_def)
next
  case False
  show ?thesis
    unfolding visitCmpInst_def
    by (rule keeps_bindT [OF keeps_assert], use False in \<open>auto intro!: keeps_symbolic_call\<close>)
qed

lemma keeps_visit: "keeps_inv n (visit C I) (\<lambda>_ _. True)"
  unfolding visit_def visitCallInst_def visitInvokeInst_def handleInlineAssembly_def visitUnaryOperator_def
  by (cases "i_kind I")
    (auto intro!: keeps_binary keeps_comparison keeps_select keeps_return_inst keeps_branch keeps_function_call keeps_load keeps_store
      keeps_gep keeps_cast keeps_phi keeps_insert keeps_extract keeps_switch keeps_any keeps_bindT keeps_assert keeps_symbolic_call)

end
