(* ===== verification/Instrument.thy ===== *)
theory Instrument
  imports Symbolizer_Invariants Short_Circuit_Laws
begin

text \<open>
  \<open>compiler/Pass.cpp\<close>: what the passes do to a module and to a function. Lowering of intrinsics, expansion of
  inline assembly, the verifier of LLVM and its table of names are parameters; a function is the list of its
  blocks and instructions with the environment that the symbolizer reads.
\<close>

subsection \<open>Modules\<close>

definition kSymCtorName :: string where
  "kSymCtorName = ''__sym_ctor''"

record ir_module =
  function_names :: "string list"
  global_ctors :: "(string \<times> nat) list"
  ctor_calls :: "string \<rightharpoonup> string"

text \<open>
  \<open>Value::setName\<close> picks another name when the one it is given is taken; \<open>unique\<close> is that choice, given the
  other names of the module.
\<close>

fun rename_functions :: "(string set \<Rightarrow> string \<Rightarrow> string) \<Rightarrow> string list \<Rightarrow> string list \<Rightarrow> string list" where
  "rename_functions unique done_names [] = done_names"
| "rename_functions unique done_names (name # names) =
     (let name' = (if isInterceptedFunction name
                   then unique (set done_names \<union> set names) (name @ ''_symbolized'') else name)
      in rename_functions unique (done_names @ [name']) names)"

text \<open>\<open>createSanitizerCtorAndInitFunctions\<close>: a new function that calls \<open>_sym_initialize\<close>, run first.\<close>

definition instrumentModule :: "(string set \<Rightarrow> string \<Rightarrow> string) \<Rightarrow> ir_module \<Rightarrow> bool \<times> ir_module" where
  "instrumentModule unique M =
     (let names = rename_functions unique [] (function_names M);
          ctor = unique (set names) kSymCtorName
      in (True, M\<lparr>function_names := names @ [ctor], global_ctors := global_ctors M @ [(ctor, 0)],
            ctor_calls := (ctor_calls M)(ctor \<mapsto> ''_sym_initialize'')\<rparr>))"

subsection \<open>Functions\<close>

record ir_fn =
  f_name :: string
  f_args :: "(ty \<times> bool) list"
  f_blocks :: "nat list"
  f_insts :: "instruction list"
  f_env :: compile_env

text \<open>The parts of LLVM that the pass calls on a function.\<close>

record lowering =
  LowerIntrinsicCall :: "instruction \<Rightarrow> ir_fn \<Rightarrow> ir_fn"
  lookupTarget :: "ir_fn \<Rightarrow> bool"
  getSubtargetImpl :: "ir_fn \<Rightarrow> bool"
  getTargetLowering :: "ir_fn \<Rightarrow> bool"
  ExpandInlineAsm :: "instruction \<Rightarrow> ir_fn \<Rightarrow> ir_fn"
  verifyFunction :: "ir_fn \<Rightarrow> symbolizer \<Rightarrow> bool"

definition lowerable :: "string list" where
  "lowerable =
     [''ctpop'', ''ctlz'', ''cttz'', ''prefetch'', ''pcmarker'', ''dbg_declare'', ''dbg_label'', ''annotation'',
      ''ptr_annotation'', ''assume'', ''experimental_noalias_scope_decl'', ''var_annotation'', ''sqrt'', ''log'',
      ''log2'', ''log10'', ''exp'', ''exp2'', ''pow'', ''sin'', ''cos'', ''floor'', ''ceil'', ''trunc'', ''round'',
      ''roundeven'', ''copysign'', ''flt_rounds'', ''get_rounding'', ''invariant_start'', ''lifetime_start'',
      ''invariant_end'', ''lifetime_end'']"

fun canLower :: "callee \<Rightarrow> bool" where
  "canLower (Intrinsic I_expect) = True"
| "canLower (Intrinsic (I_other nm)) = (nm \<in> set lowerable)"
| "canLower _ = False"

definition liftInlineAssembly :: "lowering \<Rightarrow> instruction \<Rightarrow> ir_fn \<Rightarrow> ir_fn" where
  "liftInlineAssembly L CI F =
     (if \<not> lookupTarget L F then F
      else if \<not> getSubtargetImpl L F then F
      else if \<not> getTargetLowering L F then F
      else ExpandInlineAsm L CI F)"

definition lower_instruction :: "lowering \<Rightarrow> instruction \<Rightarrow> ir_fn \<Rightarrow> ir_fn" where
  "lower_instruction L I F =
     (case i_kind I of
        CallInst callee args \<Rightarrow> if canLower callee then LowerIntrinsicCall L I F else F
      | InlineAsmCall args \<Rightarrow> liftInlineAssembly L I F
      | _ \<Rightarrow> F)"

text \<open>The constructor of the symbolizer; new values are numbered after those of the program.\<close>

definition first_name :: "ir_fn \<Rightarrow> nat" where
  "first_name F = Suc (fold (\<lambda>I n. max n (i_name I)) (f_insts F) 0)"

definition new_symbolizer :: "nat \<Rightarrow> symbolizer" where
  "new_symbolizer n =
     \<lparr>slot_ID = 0, symbolicExpressions = Map.empty, phiNodes = [], expr_phis = Map.empty, expressionUses = [],
      LoopSeenFlag = Map.empty, guarded_branches = [], next_name = n, code = [], inserted = []\<rparr>"

fun notify_blocks :: "compile_env \<Rightarrow> nat list \<Rightarrow> unit build" where
  "notify_blocks C [] = rt_return ()"
| "notify_blocks C (B # Bs) = rt_bind (insertBasicBlockNotification C B) (\<lambda>_. notify_blocks C Bs)"

fun visit_all :: "compile_env \<Rightarrow> instruction list \<Rightarrow> unit build" where
  "visit_all C [] = rt_return ()"
| "visit_all C (I # Is) = rt_bind (visit C I) (\<lambda>_. visit_all C Is)"

text \<open>Arguments, blocks and instructions, in this order: everything before the PHI nodes are finished.\<close>

definition symbolize_body :: "compile_env \<Rightarrow> ir_fn \<Rightarrow> unit build" where
  "symbolize_body C F =
     rt_bind (symbolizeFunctionArguments C (f_name F) (f_args F)) (\<lambda>_.
     rt_bind (notify_blocks C (f_blocks F)) (\<lambda>_.
     visit_all C (f_insts F)))"

definition symbolize_function :: "compile_env \<Rightarrow> ir_fn \<Rightarrow> unit build" where
  "symbolize_function C F =
     rt_bind (symbolize_body C F) (\<lambda>_.
     rt_bind finalizePHINodes (\<lambda>_.
     shortCircuitExpressionUses C))"

text \<open>
  \<open>instrumentFunction\<close>; \<open>LI\<close> says whether the loop analysis is available. The result is whether the function
  changed, the function after lowering, and the code to insert.
\<close>

definition instrumentFunction ::
    "lowering \<Rightarrow> bool \<Rightarrow> ir_fn \<Rightarrow> rt_error + (bool \<times> ir_fn \<times> symbolizer option)" where
  "instrumentFunction L LI F =
     (if f_name F = kSymCtorName then Inr (False, F, None)
      else
        let F' = fold (lower_instruction L) (f_insts F) F;
            C = (f_env F')\<lparr>loop_info := LI\<rparr>
        in case symbolize_function C F' (new_symbolizer (first_name F')) of
             Inl e \<Rightarrow> Inl e
           | Inr (_, st) \<Rightarrow>
               if verifyFunction L F' st then Inr (True, F', Some st)
               else Inl (Assertion_failed ''SymbolizePass produced invalid bitcode''))"

definition SymbolizeLegacyPass_runOnFunction ::
    "lowering \<Rightarrow> ir_fn \<Rightarrow> rt_error + (bool \<times> ir_fn \<times> symbolizer option)" where
  "SymbolizeLegacyPass_runOnFunction L F = instrumentFunction L False F"

definition SymbolizePass_run ::
    "lowering \<Rightarrow> ir_fn \<Rightarrow> rt_error + (bool \<times> ir_fn \<times> symbolizer option)" where
  "SymbolizePass_run L F = instrumentFunction L True F"

subsection \<open>The invariant\<close>

lemma inv_new: "symbolizer_inv (new_symbolizer n)"
  by (simp add: symbolizer_inv_def new_symbolizer_def wf_exprs_def)

lemma keeps_symbolize_args: "keeps_inv n (symbolize_args dl k args) (\<lambda>_ _. True)"
proof (induction args arbitrary: n k)
  case (Cons a args)
  have "keeps_inv n (rt_bind (CreateCall dl GetParameterExpression [x]) (\<lambda>e. set_expression V (Some e))) (\<lambda>_ _. True)" for x V
    by (rule keeps_bind [OF keeps_expr_call]) (auto intro: keeps_set_expression)
  then have "keeps_inv n (if u then rt_bind (CreateCall dl GetParameterExpression [x]) (\<lambda>e. set_expression V (Some e))
      else rt_return ()) (\<lambda>_ _. True)" for u x V by (simp add: keeps_any)
  moreover obtain t u where "a = (t, u)" by (cases a)
  ultimately show ?case by (simp only: symbolize_args.simps) (rule keeps_bindT [OF _ Cons])
qed (simp add: keeps_any)

lemma keeps_arguments: "keeps_inv n (symbolizeFunctionArguments C nm args) (\<lambda>_ _. True)"
  unfolding symbolizeFunctionArguments_def by (auto intro!: keeps_any keeps_IRBuilder_True keeps_symbolize_args)

lemma keeps_notify: "keeps_inv n (insertBasicBlockNotification C B) (\<lambda>_ _. True)"
  unfolding insertBasicBlockNotification_def
  by (rule keeps_IRBuilder(2)) (auto intro!: keeps_bind [OF keeps_CreateCall] keeps_any)

lemma keeps_notify_blocks: "keeps_inv n (notify_blocks C Bs) (\<lambda>_ _. True)"
  by (induction Bs arbitrary: n) (auto intro!: keeps_any keeps_bindT [OF keeps_notify])

lemma keeps_visit_all: "keeps_inv n (visit_all C Is) (\<lambda>_ _. True)"
  by (induction Is arbitrary: n) (auto intro!: keeps_any keeps_bindT [OF keeps_visit])

lemma keeps_body: "keeps_inv n (symbolize_body C F) (\<lambda>_ _. True)"
  unfolding symbolize_body_def
  by (intro keeps_bindT [OF keeps_arguments] keeps_bindT [OF keeps_notify_blocks] keeps_visit_all)

lemma symbolize_body_inv:
  "symbolize_body C F (new_symbolizer n) = Inr (u, st) \<Longrightarrow> symbolizer_inv st \<and> n \<le> next_name st"
  using keeps_body [of n C F] inv_new [of n] unfolding keeps_inv_def by (fastforce simp: new_symbolizer_def)

subsection \<open>Names\<close>

text \<open>The name of a function after the pass, when no other function has it.\<close>

definition symbolized_name :: "string \<Rightarrow> string" where
  "symbolized_name nm = (if isInterceptedFunction nm then nm @ ''_symbolized'' else nm)"

lemma rename_functions_names:
  assumes "\<And>S nm. nm \<notin> S \<Longrightarrow> unique S nm = nm" "distinct names"
    and "\<And>nm. nm \<in> set names \<Longrightarrow> isInterceptedFunction nm \<Longrightarrow> nm @ ''_symbolized'' \<notin> set ds \<union> set names"
  shows "rename_functions unique ds names = ds @ map symbolized_name names"
  using assms(2,3)
proof (induction names arbitrary: ds)
  case (Cons nm names)
  have name: "(if isInterceptedFunction nm then unique (set ds \<union> set names) (nm @ ''_symbolized'') else nm) = symbolized_name nm"
    using Cons.prems(2) [of nm] by (simp add: symbolized_name_def assms(1))
  have "nm' @ ''_symbolized'' \<notin> set (ds @ [symbolized_name nm]) \<union> set names"
    if "nm' \<in> set names" "isInterceptedFunction nm'" for nm'
    using Cons.prems(2) [of nm'] Cons.prems(1) that by (auto simp: symbolized_name_def)
  then show ?case using Cons.IH [of "ds @ [symbolized_name nm]"] Cons.prems(1) by (simp add: name Let_def)
qed simp

text \<open>No intercepted function has a name that ends in the suffix of the wrappers.\<close>

lemma symbolized_not_intercepted: "\<not> isInterceptedFunction (symbolized_name nm)"
proof -
  have "\<forall>f \<in> set kInterceptedFunctions. length f < 11" by (simp add: kInterceptedFunctions_def)
  then have "\<not> isInterceptedFunction (nm @ ''_symbolized'')" by (auto simp: isInterceptedFunction_def)
  then show ?thesis by (simp add: symbolized_name_def)
qed

end
