(* ===== verification/Visitor_Totality.thy ===== *)
theory Visitor_Totality
  imports Instrument
begin

text \<open>
  The visitors never fail on the instructions they support: no assertion of the symbolizer is violated, no
  run-time function is called that was not imported, and no operand is taken apart that has another shape.
\<close>

subsection \<open>Rules\<close>

definition never_fails :: "nat \<Rightarrow> 'a build \<Rightarrow> bool" where
  "never_fails n m \<longleftrightarrow> (\<forall>st. symbolizer_inv st \<longrightarrow> n \<le> next_name st \<longrightarrow> (\<exists>r. m st = Inr r))"

lemma nf_bind:
  assumes "keeps_inv n m P" "never_fails n m" "\<And>v n'. n \<le> n' \<Longrightarrow> P v n' \<Longrightarrow> never_fails n' (k v)"
  shows "never_fails n (rt_bind m k)"
  unfolding never_fails_def
proof (intro allI impI)
  fix st assume st: "symbolizer_inv st" "n \<le> next_name st"
  then obtain v st1 where 1: "m st = Inr (v, st1)" using assms(2) by (fastforce simp: never_fails_def)
  then have 2: "symbolizer_inv st1" "next_name st \<le> next_name st1" "P v (next_name st1)"
    using assms(1) st by (auto simp: keeps_inv_def)
  then obtain r where "k v st1 = Inr r" using assms(3) [of "next_name st1" v] st(2) by (auto simp: never_fails_def)
  then show "\<exists>r. rt_bind m k st = Inr r" using 1 by (simp add: rt_bind_def)
qed

lemma nf_prims:
  "never_fails n (rt_return v)" "never_fails n (rt_get f)" "never_fails n (rt_modify g)" "never_fails n fresh"
  "never_fails n (set_expression V r)" "never_fails n (getSymbolicExpression V)" "never_fails n (getSymbolicExpressionOrNull V)"
  "never_fails n (emit opc t args)"
  by (simp_all add: never_fails_def rt_return_def rt_get_def rt_modify_def fresh_def rt_bind_def set_expression_def
      getSymbolicExpression_def getSymbolicExpressionOrNull_def emit_def)

lemma nf_assert: "b \<Longrightarrow> never_fails n (rt_assert msg b)"
  by (simp add: rt_assert_def nf_prims)

lemma nf_CreateCall: "call_type dl f \<noteq> None \<Longrightarrow> never_fails n (CreateCall dl f args)"
  by (auto simp: CreateCall_def nf_prims split: option.split)

lemma nf_capture:
  assumes "never_fails n m"
  shows "never_fails n (capture m)"
  unfolding never_fails_def
proof (intro allI impI)
  fix st assume st: "symbolizer_inv st" "n \<le> next_name st"
  have "symbolizer_inv (st\<lparr>code := []\<rparr>)" using st(1) by (rule inv_unchanged) simp_all
  then obtain v st1 where "m (st\<lparr>code := []\<rparr>) = Inr (v, st1)" using assms st(2) by (fastforce simp: never_fails_def)
  then show "\<exists>r. capture m st = Inr r"
    by (simp add: capture_def rt_bind_def rt_get_def rt_modify_def rt_return_def)
qed

lemma nf_IRBuilder:
  assumes "never_fails n m"
  shows "never_fails n (IRBuilder p m)" "never_fails n (IRBuilder_front p m)"
  using nf_capture [OF assms]
  by (fastforce simp: never_fails_def IRBuilder_def IRBuilder_front_def rt_bind_def rt_modify_def rt_return_def)+

lemma nf_guard:
  assumes "never_fails n m"
  shows "never_fails n (emit_guard b c m)"
  using nf_capture [OF assms]
  by (fastforce simp: never_fails_def emit_guard_def rt_bind_def rt_modify_def rt_return_def)

subsection \<open>Calls of run-time functions\<close>

lemma nf_make_input: "getType e = PointerTy \<Longrightarrow> never_fails n (make_input V e i (Inst t k))"
  unfolding make_input_def by (simp add: rt_assert_def nf_prims)

definition pointer_args :: "(llvm_value \<times> bool) list \<Rightarrow> llvm_value list \<Rightarrow> bool" where
  "pointer_args args vs \<longleftrightarrow> list_all2 (\<lambda>a v. snd a \<longrightarrow> getType v = PointerTy) args vs"

lemma keeps_pointer_args: "keeps_inv n (argument_values args) (\<lambda>vs _. pointer_args args vs)"
proof (induction args arbitrary: n)
  case (Cons a args)
  obtain v b where a: "a = (v, b)" by (cases a)
  have "keeps_inv n (if b then getSymbolicExpressionOrNull v else rt_return v) (\<lambda>x _. b \<longrightarrow> getType x = PointerTy)"
    by (auto intro: keeps_mono [OF keeps_OrNull] keeps_return simp: expr_ok_def)
  then show ?case
    unfolding a argument_values.simps
    by (rule keeps_bind) (rule keeps_bind [OF Cons], auto intro: keeps_return simp: pointer_args_def)
qed (simp add: keeps_return pointer_args_def)

lemma nf_argument_values: "never_fails n (argument_values args)"
proof (induction args arbitrary: n)
  case (Cons a args)
  obtain v b where a: "a = (v, b)" by (cases a)
  have k: "keeps_inv n (if b then getSymbolicExpressionOrNull v else rt_return v) (\<lambda>_ _. True)"
    by (auto intro: keeps_mono [OF keeps_OrNull] keeps_return)
  show ?case
    unfolding a argument_values.simps
    by (rule nf_bind [OF k], simp add: nf_prims, rule nf_bind [OF keeps_pointer_args Cons]) (rule nf_prims)
qed (simp add: nf_prims)

lemma nf_make_inputs: "pointer_args args vs \<Longrightarrow> never_fails n (make_inputs i args vs (Inst t k))"
proof (induction args arbitrary: n i vs)
  case (Cons a args)
  obtain x b where a: "a = (x, b)" by (cases a)
  obtain v vs' where vs: "vs = v # vs'" "pointer_args args vs'" "b \<Longrightarrow> getType v = PointerTy"
    using Cons.prems by (auto simp: pointer_args_def list_all2_Cons1 a)
  have len: "length vs' = length args" using vs(2) by (auto simp: pointer_args_def dest: list_all2_lengthD)
  show ?case
    unfolding a vs(1) make_inputs.simps
    using Cons.IH [OF vs(2)] vs(3)
    by (auto intro!: nf_bind [OF keeps_make_input nf_make_input] nf_bind [OF keeps_make_inputs [OF len]] nf_prims)
qed (simp add: nf_prims)

lemma nf_force:
  assumes "call_type dl f \<noteq> None"
  shows "never_fails n (forceBuildRuntimeCall dl f args)"
  unfolding forceBuildRuntimeCall_def
proof (rule nf_bind [OF keeps_pointer_args nf_argument_values], rule nf_bind [OF keeps_CreateCall nf_CreateCall [OF assms]], clarify)
  fix vs n' t k assume vs: "pointer_args args vs"
  then have "length vs = length args" by (auto simp: pointer_args_def dest: list_all2_lengthD)
  from nf_bind [OF keeps_make_inputs [OF this] nf_make_inputs [OF vs] nf_prims(1)]
  show "never_fails n' (rt_bind (make_inputs 0 args vs (Inst t k)) (\<lambda>inps.
      rt_return \<lparr>firstInstruction = Some (Inst t k), lastInstruction = Some (Inst t k), inputs = inps\<rparr>))" .
qed

lemma nf_build: "call_type dl f \<noteq> None \<Longrightarrow> never_fails n (buildRuntimeCall dl f args)"
  unfolding buildRuntimeCall_def
  by (rule nf_bind [OF keeps_exprs nf_prims(2)]) (auto intro!: nf_prims nf_bind [OF keeps_force nf_force])

lemma nf_register: "never_fails n (registerSymbolicComputation c V)" "never_fails n (registerOptional r V)"
  by (auto simp: never_fails_def registerSymbolicComputation_def registerOptional_def rt_bind_def rt_modify_def rt_return_def
      set_expression_def split: option.split)

lemma nf_call_register:
  "call_type dl f \<noteq> None \<Longrightarrow> never_fails n (rt_bind (buildRuntimeCall dl f args) (\<lambda>r. registerOptional r V))"
  by (rule nf_bind [OF keeps_build nf_build nf_register(2)])

lemma nf_symbolic_call: "call_type C f \<noteq> None \<Longrightarrow> never_fails n (symbolic_call C I f args)"
  unfolding symbolic_call_def by (intro nf_IRBuilder nf_call_register)

lemma nf_cast_call: "call_type C f \<noteq> None \<Longrightarrow> never_fails n (cast_call C I f a cs)"
  unfolding cast_call_def by (intro nf_IRBuilder nf_call_register)

lemma nf_copy: "never_fails n (copy_expression I V)"
  unfolding copy_expression_def
  by (rule nf_bind [OF keeps_getSymbolicExpression nf_prims(6)]) (auto intro: nf_prims split: option.split)

subsection \<open>Calls\<close>

lemma void_call_types [simp]:
  "call_type dl Memcpy = Some VoidTy" "call_type dl Memset = Some VoidTy" "call_type dl Memmove = Some VoidTy"
  "call_type dl WriteMemory = Some VoidTy" "call_type dl NotifyCall = Some VoidTy" "call_type dl NotifyRet = Some VoidTy"
  "call_type dl NotifyBasicBlock = Some VoidTy"
proof -
  have none: "map_of operator_imports f = None" "map_of numeric_imports f = None" "map_of comparison_imports f = None"
    if "f \<in> {Memcpy, Memset, Memmove, WriteMemory, NotifyCall, NotifyRet, NotifyBasicBlock}" for f
    using that by (auto simp: map_of_eq_None_iff operator_imports_def numeric_imports_def comparison_imports_def
        LOAD_BINARY_OPERATOR_HANDLER_def LOAD_BINARY_OPERATOR_HANDLER_FOR_NUM_def LOAD_COMPARISON_HANDLER_def)
  show "call_type dl Memcpy = Some VoidTy" "call_type dl Memset = Some VoidTy" "call_type dl Memmove = Some VoidTy"
    "call_type dl WriteMemory = Some VoidTy" "call_type dl NotifyCall = Some VoidTy" "call_type dl NotifyRet = Some VoidTy"
    "call_type dl NotifyBasicBlock = Some VoidTy"
    by (simp_all add: call_type_def runtime_member_groups builder_imports_def constraint_imports_def arithmetic_imports_def
        none unary_imports_def memory_imports_def Let_def)
qed

lemma push_type [simp]: "call_type dl PushPathConstraintWithLoc = Some VoidTy"
  by (simp add: call_type_def runtime_member_groups builder_imports_def constraint_imports_def Let_def)

lemma nf_memory_call: "call_type C f \<noteq> None \<Longrightarrow> never_fails n (memory_call C I f d a l)"
  unfolding memory_call_def
  by (intro nf_IRBuilder nf_bind [OF keeps_emit nf_prims(8)] nf_bind [OF keeps_CreateCall nf_CreateCall] nf_prims)

lemma nf_intrinsic: "never_fails n (handleIntrinsicCall C I i args)"
  by (cases i)
    (auto simp: overflow_builder_def intro!: nf_memory_call nf_bind [OF keeps_OrNull nf_prims(7)] nf_copy nf_symbolic_call
      nf_IRBuilder nf_call_register nf_prims)

lemma nf_set_parameters: "never_fails n (set_parameters C k args)"
  by (induction args arbitrary: n k)
    (auto intro!: nf_prims nf_bind [OF keeps_OrNull nf_prims(7)] nf_bind [OF keeps_CreateCall nf_CreateCall])

lemma keeps_any_bind: "keeps_inv n m (\<lambda>_ _. True) \<Longrightarrow> never_fails n m \<Longrightarrow> (\<And>v n'. n \<le> n' \<Longrightarrow> never_fails n' (k v)) \<Longrightarrow> never_fails n (rt_bind m k)"
  by (rule nf_bind)

lemma nf_function_call: "never_fails n (handleFunctionCall C I callee args p)"
proof -
  have u: "never_fails n' (if u then rt_bind (CreateCall C SetReturnExpression [ConstantPointerNull]) (\<lambda>_. rt_return ()) else rt_return ())" for n' u
    by (auto intro!: nf_prims nf_bind [OF keeps_CreateCall nf_CreateCall])
  have k: "keeps_inv n' (if u then rt_bind (CreateCall C SetReturnExpression [ConstantPointerNull]) (\<lambda>_. rt_return ()) else rt_return ()) (\<lambda>_ _. True)" for n' u
    by (auto intro!: keeps_any keeps_bind [OF keeps_CreateCall])
  have k2: "keeps_inv n' (IRBuilder q (rt_bind (CreateCall C NotifyCall [site]) (\<lambda>_. rt_bind (set_parameters C 0 args) (\<lambda>_.
      if i_used I then rt_bind (CreateCall C SetReturnExpression [ConstantPointerNull]) (\<lambda>_. rt_return ()) else rt_return ())))) (\<lambda>_ _. True)" for n' q site
    by (rule keeps_IRBuilder_True, rule keeps_bind [OF keeps_CreateCall], rule keeps_bind [OF keeps_set_parameters], rule k)
  have f2: "never_fails n' (IRBuilder q (rt_bind (CreateCall C NotifyCall [site]) (\<lambda>_. rt_bind (set_parameters C 0 args) (\<lambda>_.
      if i_used I then rt_bind (CreateCall C SetReturnExpression [ConstantPointerNull]) (\<lambda>_. rt_return ()) else rt_return ()))))" for n' q site
    by (rule nf_IRBuilder, rule nf_bind [OF keeps_CreateCall nf_CreateCall], simp, rule nf_bind [OF keeps_set_parameters nf_set_parameters], rule u)
  have ret: "never_fails n' (if i_used I then rt_bind (IRBuilder p (CreateCall C GetReturnExpression [])) (\<lambda>e. set_expression (result_of I) (Some e))
      else rt_return ())" for n'
    by (auto intro!: nf_prims keeps_any_bind [OF keeps_IRBuilder_True [OF keeps_T [OF keeps_CreateCall]] nf_IRBuilder(1) [OF nf_CreateCall]])
  have call: "never_fails n (let site = getTargetPreferredInt C (inst_address C (i_name I)) in
        rt_bind (IRBuilder p (CreateCall C NotifyRet [site])) (\<lambda>_.
        rt_bind (IRBuilder (Before (i_name I)) (rt_bind (CreateCall C NotifyCall [site]) (\<lambda>_. rt_bind (set_parameters C 0 args) (\<lambda>_.
           if i_used I then rt_bind (CreateCall C SetReturnExpression [ConstantPointerNull]) (\<lambda>_. rt_return ()) else rt_return ())))) (\<lambda>_.
        if i_used I then rt_bind (IRBuilder p (CreateCall C GetReturnExpression [])) (\<lambda>e. set_expression (result_of I) (Some e))
        else rt_return ())))"
    unfolding Let_def
    by (rule keeps_any_bind [OF keeps_IRBuilder_True [OF keeps_T [OF keeps_CreateCall]] nf_IRBuilder(1) [OF nf_CreateCall]], simp,
        rule keeps_any_bind [OF k2 f2], rule ret)
  show ?thesis
    unfolding handleFunctionCall_def using call by (cases callee) (simp_all only: callee.case nf_intrinsic)
qed

subsection \<open>Path constraints\<close>

lemma nf_push: "never_fails n (push_constraint C I cond slot)"
  unfolding push_constraint_def by (rule nf_call_register) simp

lemma nf_next_slot: "never_fails n next_slot"
  by (simp add: never_fails_def next_slot_def rt_bind_def rt_get_def rt_modify_def rt_return_def)

lemma nf_select: "never_fails n (visitSelectInst C I c a b)"
  unfolding visitSelectInst_def
  by (rule nf_bind [OF keeps_next_slot nf_next_slot], rule nf_IRBuilder, rule nf_bind [OF keeps_push nf_push])
    (auto intro!: nf_prims nf_bind [OF keeps_getSymbolicExpression nf_prims(6)] nf_bind [OF keeps_OrNull nf_prims(7)]
      nf_bind [OF keeps_emit nf_prims(8)])

lemma nf_flag: "never_fails n (loop_seen_flag C I)"
proof -
  have m: "never_fails n' (rt_bind (emit IAlloca PointerTy []) (\<lambda>Flag. rt_bind (emit IStore VoidTy [getInt1 False, Flag]) (\<lambda>_. rt_return Flag)))" for n'
    by (intro nf_bind [OF keeps_emit nf_prims(8)] nf_prims)
  have k: "keeps_inv n' (IRBuilder_front q (rt_bind (emit IAlloca PointerTy []) (\<lambda>Flag.
      rt_bind (emit IStore VoidTy [getInt1 False, Flag]) (\<lambda>_. rt_return Flag)))) (\<lambda>_ _. True)" for n' q
    by (rule keeps_IRBuilder(2)) (auto intro!: inv_binds keeps_return)
  have km: "keeps_inv n' (rt_modify (\<lambda>s. s\<lparr>LoopSeenFlag := (LoopSeenFlag s)(i_name I \<mapsto> Flag)\<rparr>)) (\<lambda>_ _. True)" for n' Flag
    by (rule keeps_modify) simp_all
  show ?thesis
    unfolding loop_seen_flag_def
    by (rule nf_bind [OF keeps_get_any nf_prims(2)])
      (auto split: option.split intro!: nf_prims keeps_any_bind [OF k nf_IRBuilder(2) [OF m]] keeps_any_bind [OF km nf_prims(3)])
qed

lemma nf_branch: "never_fails n (visitBranchInst C I c S0 S1)"
proof -
  have km: "keeps_inv n' (rt_modify (\<lambda>s. s\<lparr>guarded_branches := i_name I # guarded_branches s\<rparr>)) (\<lambda>_ _. True)" for n'
    by (rule keeps_modify) simp_all
  have g: "never_fails n' (emit_guard True Seen (rt_bind (rt_modify (\<lambda>s. s\<lparr>guarded_branches := i_name I # guarded_branches s\<rparr>)) (\<lambda>_.
      rt_bind (push_constraint C I c (- 1)) (\<lambda>_. rt_bind (emit IStore VoidTy [getInt1 True, Flag]) (\<lambda>_. rt_return ())))))" for n' Seen Flag
    by (intro nf_guard keeps_any_bind [OF km nf_prims(3)] keeps_any_bind [OF keeps_push nf_push] nf_bind [OF keeps_emit nf_prims(8)] nf_prims)
  show ?thesis
    unfolding visitBranchInst_def Let_def
    by (rule nf_bind [OF keeps_next_slot nf_next_slot])
      (auto intro!: nf_bind [OF keeps_get_any nf_prims(2)] nf_prims keeps_any_bind [OF keeps_flag nf_flag] nf_IRBuilder
        nf_bind [OF keeps_emit nf_prims(8)] g nf_push)
qed

lemma nf_scalar: "scalar_type t \<Longrightarrow> never_fails n (scalar_expression dl t V)"
  unfolding scalar_expression_def scalar_type_def
  by (auto intro!: nf_CreateCall nf_bind [OF keeps_emit nf_prims(8)])

lemma keeps_value_scalar:
  assumes "scalar_type t"
  shows "keeps_inv n (value_expression dl t V) (\<lambda>r _. r \<noteq> None)" "never_fails n (value_expression dl t V)"
proof -
  let ?m = "if V = ConstantPointerNull then CreateCall dl BuildNullPointer [] else scalar_expression dl t V"
  have eq: "value_expression dl t V = rt_bind ?m (\<lambda>e. rt_return (Some e))"
    using assms by (auto simp: scalar_type_def)
  have k: "keeps_inv n ?m (\<lambda>_ _. True)" by (auto intro: keeps_any keeps_scalar)
  show "keeps_inv n (value_expression dl t V) (\<lambda>r _. r \<noteq> None)"
    unfolding eq by (rule keeps_bindT [OF k]) (simp add: keeps_return)
  have "never_fails n ?m" by (simp add: nf_CreateCall nf_scalar [OF assms])
  then show "never_fails n (value_expression dl t V)" unfolding eq by (rule keeps_any_bind [OF k _ nf_prims(1)])
qed

lemma nf_createValueExpression: "scalar_type (getType V) \<Longrightarrow> never_fails n (createValueExpression dl V)"
  unfolding createValueExpression_def
  by (rule nf_bind [OF keeps_value_scalar(1) keeps_value_scalar(2)]) (auto intro: nf_prims)

lemma nf_switch_cases: "\<forall>c \<in> set cs. scalar_type (getType c) \<Longrightarrow> never_fails n (switch_cases C I c e slot cs)"
  by (induction cs arbitrary: n)
    (auto simp: Let_def split: prod.split intro!: nf_prims nf_bind [OF keeps_emit nf_prims(8)] nf_bind [OF keeps_CreateCall nf_CreateCall]
      keeps_any_bind [OF keeps_createValueExpression nf_createValueExpression])

lemma nf_switch: "\<forall>c \<in> set cs. scalar_type (getType c) \<Longrightarrow> never_fails n (visitSwitchInst C I c cs)"
  unfolding visitSwitchInst_def
  by (rule nf_bind [OF keeps_getSymbolicExpression nf_prims(6)])
    (auto split: option.split intro!: nf_prims nf_bind [OF keeps_next_slot nf_next_slot] nf_IRBuilder nf_bind [OF keeps_emit nf_prims(8)]
      nf_guard nf_switch_cases)

lemma nf_return_inst: "never_fails n (visitReturnInst C I v)"
  unfolding visitReturnInst_def
  by (auto split: option.split intro!: nf_prims nf_IRBuilder nf_bind [OF keeps_OrNull nf_prims(7)] nf_bind [OF keeps_CreateCall nf_CreateCall])

subsection \<open>Memory and addresses\<close>

lemma nf_from_bits: "never_fails n (convertBitVectorExprForType C e t)"
  unfolding convertBitVectorExprForType_def by (auto intro!: nf_CreateCall nf_bind [OF keeps_CreateCall] nf_prims)

lemma nf_to_bits:
  assumes "\<And>e. r = Some e \<Longrightarrow> getType e = PointerTy"
  shows "never_fails n (convertExprForTypeToBitVectorExpr C V r)"
  using assms unfolding convertExprForTypeToBitVectorExpr_def Let_def
  by (auto split: option.split intro!: nf_prims nf_bind [OF keeps_CreateCall nf_CreateCall] nf_bind [OF keeps_make_input nf_make_input])

lemma nf_converted:
  assumes "\<And>c. r = Some c \<Longrightarrow> ends_in (Some PointerTy) n c"
  shows "never_fails n (converted r V)"
  using assms unfolding converted_def by (auto split: option.split intro!: nf_prims simp: ends_in_def)

lemma nf_load: "never_fails n (visitLoadInst C I a)"
  unfolding visitLoadInst_def
  by (auto intro!: nf_IRBuilder nf_bind [OF keeps_emit nf_prims(8)] nf_bind [OF keeps_expr_call nf_CreateCall]
      nf_bind [OF keeps_from_bits nf_from_bits] nf_prims)

lemma nf_store: "never_fails n (visitStoreInst C I v a)"
  unfolding visitStoreInst_def
  by (intro nf_IRBuilder nf_bind [OF keeps_getSymbolicExpression nf_prims(6)] nf_bind [OF keeps_to_bits nf_to_bits]
      nf_bind [OF keeps_emit nf_prims(8)] nf_bind [OF keeps_converted nf_converted] nf_bind [OF keeps_CreateCall nf_CreateCall] nf_prims)
    (auto simp: expr_ok_def intro: ends_in_mono)

lemma nf_last: "ends_in t n c \<Longrightarrow> never_fails n (last_value c)"
  unfolding last_value_def by (auto simp: ends_in_def intro: nf_prims)

lemma nf_gep_scale:
  assumes "getIntegerBitWidth (getType idx) \<noteq> None"
  shows "never_fails n (gep_scale C sc idx sz)"
proof -
  have mul: "never_fails n' (rt_bind (forceBuildRuntimeCall C (BinaryOperatorHandler BMul) args) (\<lambda>mul. rt_return (merge_computation c mul)))"
    for n' args c by (rule nf_bind [OF keeps_force nf_force]) (simp_all add: nf_prims)
  have ext: "never_fails n (rt_bind (forceBuildRuntimeCall C BuildZExt args) (\<lambda>ext. rt_bind (last_value ext) (\<lambda>e.
      rt_bind (forceBuildRuntimeCall C (BinaryOperatorHandler BMul) [(e, False), s]) (\<lambda>mul.
      rt_return (merge_computation (merge_computation sc ext) mul)))))" for args s
    by (rule nf_bind [OF keeps_force_ends nf_force], simp, simp, rule nf_bind [OF keeps_last nf_last], assumption, assumption, rule mul)
  show ?thesis
    using assms unfolding gep_scale_def Let_def by (auto split: option.split intro!: mul ext)
qed

lemma nf_gep_add: "never_fails n (gep_add C sc x y)"
  unfolding gep_add_def by (rule nf_bind [OF keeps_force nf_force]) (simp_all add: nf_prims)

text \<open>The indices that the pass understands: constants for structures and integers for arrays and pointers.\<close>

fun supported_index :: "gep_index \<Rightarrow> bool" where
  "supported_index (Struct_member ts v) = (\<exists>w k. v = ConstantInt w k)"
| "supported_index (Element_of t v) = (getIntegerBitWidth (getType v) \<noteq> None)"

lemma nf_gep_steps:
  assumes "\<forall>i \<in> set idxs. supported_index i" "gep_state n sc" "snd address \<or> complete_computation n sc"
  shows "never_fails n (gep_steps C idxs sc address)"
  using assms
proof (induction C idxs sc address arbitrary: n rule: gep_steps.induct)
  case (2 C ts w k rest sc address)
  have step: "never_fails n' (rt_bind (last_value c) (\<lambda>e. gep_steps C rest c (e, False)))" if "complete_computation n' c" for n' c
  proof (rule nf_bind [OF keeps_last [OF complete_ends [OF that]] nf_last [OF complete_ends [OF that]]])
    fix e n2 assume "n' \<le> n2"
    with that have c: "complete_computation n2 c" by (rule complete_mono)
    show "never_fails n2 (gep_steps C rest c (e, False))"
      by (rule 2(1) [OF refl]) (use 2(2) in \<open>simp_all add: c gep_state_def\<close>)
  qed
  show ?case
    unfolding gep_steps.simps Let_def by (rule nf_bind [OF keeps_gep_add [OF 2(3)] nf_gep_add step]) simp
next
  case (4 C t idx rest sc address)
  show ?case
  proof (cases "isZero idx")
    case True
    show ?thesis using 4(1) [OF True _ 4(4,5)] 4(3) True by simp
  next
    case False
    have step: "never_fails n' (rt_bind (last_value c) (\<lambda>e. gep_steps C rest c (e, False)))" if "complete_computation n' c" for n' c
    proof (rule nf_bind [OF keeps_last [OF complete_ends [OF that]] nf_last [OF complete_ends [OF that]]])
      fix e n2 assume "n' \<le> n2"
      with that have c: "complete_computation n2 c" by (rule complete_mono)
      show "never_fails n2 (gep_steps C rest c (e, False))"
        by (rule 4(2) [OF False]) (use 4(3) in \<open>simp_all add: c gep_state_def\<close>)
    qed
    have add: "never_fails n' (rt_bind (last_value c) (\<lambda>x. rt_bind (gep_add C c (x, False) address)
        (\<lambda>c. rt_bind (last_value c) (\<lambda>e. gep_steps C rest c (e, False)))))" if "complete_computation n' c" for n' c
    proof (rule nf_bind [OF keeps_last [OF complete_ends [OF that]] nf_last [OF complete_ends [OF that]]])
      fix x n2 assume "n' \<le> n2"
      with that have c: "complete_computation n2 c" by (rule complete_mono)
      show "never_fails n2 (rt_bind (gep_add C c (x, False) address) (\<lambda>c. rt_bind (last_value c) (\<lambda>e. gep_steps C rest c (e, False))))"
        by (rule nf_bind [OF keeps_gep_add nf_gep_add step]) (simp_all add: c gep_state_def)
    qed
    show ?thesis
      unfolding gep_steps.simps if_not_P [OF False]
      by (rule nf_bind [OF keeps_gep_scale [OF 4(4)] nf_gep_scale add]) (use 4(3) in simp)
  qed
qed (simp_all add: nf_prims)

lemma nf_gep: "\<forall>i \<in> set idxs. supported_index i \<Longrightarrow> never_fails n (visitGetElementPtrInst C I ptr idxs)"
proof -
  assume idxs: "\<forall>i \<in> set idxs. supported_index i"
  have 1: "never_fails n' (IRBuilder (Before (i_name I)) (rt_bind (gep_steps C idxs empty_computation (ptr, True))
      (\<lambda>sc. registerSymbolicComputation sc (Some (result_of I)))))" for n'
    by (rule nf_IRBuilder, rule nf_bind [OF keeps_gep_steps nf_gep_steps [OF idxs] nf_register(1)]) (simp_all add: gep_state_def)
  show ?thesis
    unfolding visitGetElementPtrInst_def
    by (rule nf_bind [OF keeps_exprs nf_prims(2)]) (auto simp del: index_value.simps intro!: nf_prims 1)
qed

subsection \<open>Casts and aggregates\<close>

lemma nf_bit_width: "getIntegerBitWidth t \<noteq> None \<Longrightarrow> never_fails n (bit_width t)"
  unfolding bit_width_def by (auto intro: nf_prims)

text \<open>The casts that the pass understands.\<close>

definition supported_cast :: "instruction \<Rightarrow> cast_op \<Rightarrow> llvm_value \<Rightarrow> bool" where
  "supported_cast I opc a \<longleftrightarrow>
     (opc \<in> {CSExt, CZExt} \<longrightarrow> getIntegerBitWidth (getType a) \<noteq> None) \<and>
     (opc \<in> {CSExt, CZExt, CTrunc, CFPToSI, CFPToUI} \<longrightarrow> getIntegerBitWidth (i_type I) \<noteq> None) \<and>
     (opc = CBitCast \<longrightarrow> isIntegerTy (getType a) \<and> isFloatingPointTy (i_type I) \<or>
        isFloatingPointTy (getType a) \<and> isIntegerTy (i_type I) \<or> getType a = PointerTy \<and> i_type I = PointerTy)"

lemma nf_extension:
  assumes "call_type C f = Some PointerTy" "getIntegerBitWidth (getType a) \<noteq> None" "getIntegerBitWidth (i_type I) \<noteq> None"
  shows "never_fails n (visitExtension C I f a)"
proof -
  have 1: "never_fails n' (IRBuilder p (rt_bind (forceBuildRuntimeCall C BuildBoolToBit [(a, True)]) (\<lambda>bit.
      rt_bind (last_value bit) (\<lambda>e. rt_bind (forceBuildRuntimeCall C f [(e, False), (k, False)]) (\<lambda>ext.
      registerSymbolicComputation (merge_computation bit ext) r)))))" for n' p k r
    by (rule nf_IRBuilder, rule nf_bind [OF keeps_force_ends nf_force], simp, simp, rule nf_bind [OF keeps_last nf_last], assumption,
        assumption, rule nf_bind [OF keeps_force nf_force]) (use assms(1) in \<open>simp_all add: nf_register\<close>)
  show ?thesis
    unfolding visitExtension_def
    by (rule keeps_any_bind [OF keeps_bit_width nf_bit_width], rule assms, rule keeps_any_bind [OF keeps_bit_width nf_bit_width], rule assms)
      (use assms(1) in \<open>simp add: 1 nf_cast_call\<close>)
qed

lemma nf_trunc:
  assumes "getIntegerBitWidth (i_type I) \<noteq> None"
  shows "never_fails n (visitTruncInst C I a)"
proof -
  have k: "keeps_inv n' (if b then rt_bind (last_value c) (\<lambda>e. rt_bind (forceBuildRuntimeCall C BuildBitToBool [(e, False)])
      (\<lambda>bool. rt_return (merge_computation c bool))) else rt_return c) (\<lambda>_ _. True)" if "ends_in (Some PointerTy) n' c" for n' c b
    by (auto intro!: keeps_any keeps_bind [OF keeps_last [OF that]] keeps_bind [OF keeps_force])
  have f: "never_fails n' (if b then rt_bind (last_value c) (\<lambda>e. rt_bind (forceBuildRuntimeCall C BuildBitToBool [(e, False)])
      (\<lambda>bool. rt_return (merge_computation c bool))) else rt_return c)" if "ends_in (Some PointerTy) n' c" for n' c b
    by (auto intro!: nf_prims nf_bind [OF keeps_last [OF that] nf_last [OF that]] nf_bind [OF keeps_force nf_force])
  have 1: "never_fails n' (IRBuilder p (rt_bind (forceBuildRuntimeCall C BuildTrunc [(a, True), (k, False)]) (\<lambda>c.
      rt_bind (if b then rt_bind (last_value c) (\<lambda>e. rt_bind (forceBuildRuntimeCall C BuildBitToBool [(e, False)])
      (\<lambda>bool. rt_return (merge_computation c bool))) else rt_return c) (\<lambda>sc. registerSymbolicComputation sc r))))" for n' p k b r
    by (rule nf_IRBuilder, rule nf_bind [OF keeps_force_ends nf_force], simp, simp, rule keeps_any_bind [OF k f]) (simp_all add: nf_register)
  show ?thesis
    unfolding visitTruncInst_def
    by (rule nf_bind [OF keeps_getSymbolicExpression nf_prims(6)])
      (simp add: nf_prims keeps_any_bind [OF keeps_bit_width nf_bit_width [OF assms] 1])
qed

lemma nf_bitcast:
  assumes "supported_cast I CBitCast a"
  shows "never_fails n (visitBitCastInst C I a)"
proof -
  have 1: "never_fails n (rt_bind (rt_assert msg True) (\<lambda>_. copy_expression I a))" for msg
    by (simp add: rt_assert_def nf_copy)
  have 2: "never_fails n (IRBuilder p (rt_bind (buildRuntimeCall C BuildFloatToBits [(a, True)]) (\<lambda>r. registerOptional r None)))" for p
    by (intro nf_IRBuilder nf_call_register) simp
  show ?thesis
    using assms unfolding visitBitCastInst_def supported_cast_def by (auto intro!: nf_cast_call 1 2 simp: rt_assert_def nf_copy)
qed

lemma nf_cast: "supported_cast I opc a \<Longrightarrow> never_fails n (visitCastInst C I opc a)"
  by (cases opc) (auto simp: visitSIToFPInst_def visitUIToFPInst_def visitFPExtInst_def visitFPTruncInst_def visitFPToSI_def visitFPToUI_def
      supported_cast_def
      intro!: nf_extension nf_bitcast nf_trunc nf_copy nf_cast_call keeps_any_bind [OF keeps_bit_width nf_bit_width] nf_prims)

lemma nf_phi: "never_fails n (visitPHINode I inc)"
  by (simp add: never_fails_def visitPHINode_def fresh_def rt_bind_def rt_get_def rt_modify_def rt_return_def set_expression_def)

definition member_exists :: "'a data_layout_scheme \<Rightarrow> llvm_value \<Rightarrow> nat list \<Rightarrow> bool" where
  "member_exists dl V idxs \<longleftrightarrow> (\<exists>k. member_offset dl 0 (getType V) idxs = Inr k)"

lemma nf_offset: "member_exists dl V idxs \<Longrightarrow> never_fails n (aggregateMemberOffset dl (getType V) idxs)"
  by (auto simp: aggregateMemberOffset_def member_exists_def nf_prims)

lemma nf_insert:
  assumes "member_exists C a idxs"
  shows "never_fails n (visitInsertValueInst C I a v idxs)"
proof -
  have tail: "never_fails n' (case r of
         None \<Rightarrow> rt_bind (make_input v e 1 (Inst t k)) (\<lambda>inp'. registerSymbolicComputation
             \<lparr>firstInstruction = Some (Inst t k), lastInstruction = Some (Inst t k), inputs = [inp, inp']\<rparr> x)
       | Some c \<Rightarrow> registerSymbolicComputation (merge_computation c
             \<lparr>firstInstruction = Some (Inst t k), lastInstruction = Some (Inst t k), inputs = [inp]\<rparr>) x)"
    if "getType e = PointerTy" for n' r e t k inp x
    by (cases r) (auto intro!: nf_bind [OF keeps_make_input nf_make_input [OF that]] nf_register)
  have rest: "never_fails n1 (rt_bind (getSymbolicExpressionOrNull a) (\<lambda>vt.
      rt_bind (converted r v) (\<lambda>e. rt_bind (aggregateMemberOffset C (getType a) idxs) (\<lambda>offset.
      rt_bind (CreateCall C BuildInsert [vt, e, getInt64 offset, le]) (\<lambda>insert.
      rt_bind (make_input a vt 0 insert) (\<lambda>inp.
      case r of
         None \<Rightarrow> rt_bind (make_input v e 1 insert) (\<lambda>inp'. registerSymbolicComputation
             \<lparr>firstInstruction = Some insert, lastInstruction = Some insert, inputs = [inp, inp']\<rparr> x)
       | Some c \<Rightarrow> registerSymbolicComputation (merge_computation c
             \<lparr>firstInstruction = Some insert, lastInstruction = Some insert, inputs = [inp]\<rparr>) x))))))"
    if r: "\<And>c. r = Some c \<Longrightarrow> ends_in (Some PointerTy) n1 c" for n1 r le x
  proof (rule nf_bind [OF keeps_OrNull nf_prims(7)])
    fix vt n2 assume n2: "n1 \<le> n2" "expr_ok n2 vt"
    have r2: "ends_in (Some PointerTy) n2 c" if "r = Some c" for c using r [OF that] n2(1) by (rule ends_in_mono)
    show "never_fails n2 (rt_bind (converted r v) (\<lambda>e. rt_bind (aggregateMemberOffset C (getType a) idxs) (\<lambda>offset.
      rt_bind (CreateCall C BuildInsert [vt, e, getInt64 offset, le]) (\<lambda>insert.
      rt_bind (make_input a vt 0 insert) (\<lambda>inp.
      case r of
         None \<Rightarrow> rt_bind (make_input v e 1 insert) (\<lambda>inp'. registerSymbolicComputation
             \<lparr>firstInstruction = Some insert, lastInstruction = Some insert, inputs = [inp, inp']\<rparr> x)
       | Some c \<Rightarrow> registerSymbolicComputation (merge_computation c
             \<lparr>firstInstruction = Some insert, lastInstruction = Some insert, inputs = [inp]\<rparr>) x)))))"
      by (rule nf_bind [OF keeps_converted nf_converted], erule r2, erule r2,
          rule keeps_any_bind [OF keeps_offset nf_offset [OF assms]], rule nf_bind [OF keeps_CreateCall nf_CreateCall], simp, clarify,
          rule keeps_any_bind [OF keeps_make_input nf_make_input])
        (use n2(2) in \<open>simp_all add: expr_ok_def tail del: One_nat_def\<close>)
  qed
  show ?thesis
    unfolding visitInsertValueInst_def Let_def SymbolicComputation.update_convs SymbolicComputation.select_convs append.simps
    by (rule nf_bind [OF keeps_getSymbolicExpression nf_prims(6)], rule nf_bind [OF keeps_getSymbolicExpression nf_prims(6)], split if_split,
        intro conjI impI nf_prims nf_IRBuilder, rule nf_bind [OF keeps_OrNull nf_prims(7)], rule nf_bind [OF keeps_to_bits nf_to_bits],
        simp add: expr_ok_def, rule rest) simp
qed

lemma nf_extract:
  assumes "member_exists C a idxs"
  shows "never_fails n (visitExtractValueInst C I a idxs)"
proof -
  have 1: "never_fails n' (rt_bind (CreateCall C BuildExtract args) (\<lambda>bits.
      rt_bind (convertBitVectorExprForType C bits t) (\<lambda>result. rt_bind (make_input a e 0 bits) (\<lambda>inp.
      registerSymbolicComputation \<lparr>firstInstruction = Some bits, lastInstruction = Some result, inputs = [inp]\<rparr> r))))"
    if "getType e = PointerTy" for n' args t e r
    by (rule nf_bind [OF keeps_CreateCall nf_CreateCall], simp, clarsimp, rule nf_bind [OF keeps_from_call nf_from_bits], assumption,
        rule nf_bind [OF keeps_make_input nf_make_input [OF that] nf_register(1)])
  show ?thesis
    unfolding visitExtractValueInst_def
    by (rule nf_bind [OF keeps_getSymbolicExpression nf_prims(6)])
      (auto simp: expr_ok_def split: option.split intro!: nf_prims nf_IRBuilder keeps_any_bind [OF keeps_offset nf_offset [OF assms]] 1)
qed

subsection \<open>The visitor\<close>

text \<open>The instructions that the pass supports; all others are left alone.\<close>

definition supported :: "compile_env \<Rightarrow> instruction \<Rightarrow> bool" where
  "supported C I \<longleftrightarrow>
     (case i_kind I of
        BinaryOperator opc a b \<Rightarrow> getType a = IntegerTy 1 \<longrightarrow> opc \<in> {BAnd, BOr, BXor}
      | CmpInst p a b \<Rightarrow> p \<noteq> FCMP_FALSE \<and> p \<noteq> FCMP_TRUE
      | GetElementPtrInst ptr idxs \<Rightarrow> (\<forall>i \<in> set idxs. supported_index i)
      | CastInst opc a \<Rightarrow> supported_cast I opc a
      | InsertValueInst agg v idxs \<Rightarrow> member_exists C agg idxs
      | ExtractValueInst agg idxs \<Rightarrow> member_exists C agg idxs
      | SwitchInst c cases \<Rightarrow> (\<forall>v \<in> set cases. scalar_type (getType v))
      | _ \<Rightarrow> True)"

lemma handler_imported: "call_type C f \<noteq> None \<Longrightarrow> runtime_member C f \<noteq> None"
  by (auto simp: call_type_def)

lemma nf_checked_call:
  assumes "call_type C f \<noteq> None"
  shows "never_fails n (rt_bind (rt_assert msg (runtime_member C f \<noteq> None)) (\<lambda>_. symbolic_call C I f args))"
  using handler_imported [OF assms] by (simp add: rt_assert_def nf_symbolic_call [OF assms])

lemma nf_binary: "getType a = IntegerTy 1 \<longrightarrow> opc \<in> {BAnd, BOr, BXor} \<Longrightarrow> never_fails n (Symbolizer.visitBinaryOperator C I opc a b)"
  unfolding Symbolizer.visitBinaryOperator_def binary_handler_def
  by (cases "getType a = IntegerTy 1") (auto intro!: nf_checked_call [simplified] simp del: One_nat_def)

lemma nf_visit: "supported C I \<Longrightarrow> never_fails n (visit C I)"
  unfolding visit_def visitCallInst_def visitInvokeInst_def handleInlineAssembly_def visitUnaryOperator_def visitCmpInst_def supported_def
  by (cases "i_kind I")
    (auto simp del: One_nat_def intro!: nf_binary nf_checked_call [simplified] nf_select nf_return_inst nf_branch nf_function_call nf_load nf_store nf_gep nf_cast
      nf_phi nf_insert nf_extract nf_switch nf_prims)

subsection \<open>Whole functions\<close>

lemma nf_symbolize_args: "never_fails n (symbolize_args dl k args)"
proof (induction args arbitrary: n k)
  case (Cons a args)
  obtain t u where a: "a = (t, u)" by (cases a)
  have k: "keeps_inv n (if u then rt_bind (CreateCall dl GetParameterExpression [x]) (\<lambda>e. set_expression V (Some e)) else rt_return ())
      (\<lambda>_ _. True)" for x V
    by (auto intro!: keeps_any keeps_bind [OF keeps_expr_call] keeps_set_expression)
  have f: "never_fails n (if u then rt_bind (CreateCall dl GetParameterExpression [x]) (\<lambda>e. set_expression V (Some e)) else rt_return ())" for x V
    by (auto intro!: nf_prims nf_bind [OF keeps_CreateCall nf_CreateCall])
  show ?case unfolding a symbolize_args.simps by (rule keeps_any_bind [OF k f Cons])
qed (simp add: nf_prims)

lemma nf_arguments: "never_fails n (symbolizeFunctionArguments C nm args)"
  unfolding symbolizeFunctionArguments_def by (auto intro!: nf_prims nf_IRBuilder nf_symbolize_args)

lemma nf_notify: "never_fails n (insertBasicBlockNotification C B)"
  unfolding insertBasicBlockNotification_def
  by (auto intro!: nf_IRBuilder(2) nf_bind [OF keeps_CreateCall nf_CreateCall] nf_prims)

lemma nf_notify_blocks: "never_fails n (notify_blocks C Bs)"
  by (induction Bs arbitrary: n) (auto intro!: nf_prims keeps_any_bind [OF keeps_notify nf_notify])

lemma nf_visit_all: "\<forall>I \<in> set Is. supported C I \<Longrightarrow> never_fails n (visit_all C Is)"
  by (induction Is arbitrary: n) (auto intro!: nf_prims keeps_any_bind [OF keeps_visit nf_visit])

lemma symbolize_body_total:
  assumes "\<forall>I \<in> set (f_insts F). supported C I"
  shows "\<exists>st. symbolize_body C F (new_symbolizer n) = Inr ((), st) \<and> symbolizer_inv st"
proof -
  have "never_fails n (symbolize_body C F)"
    unfolding symbolize_body_def
    by (intro keeps_any_bind [OF keeps_arguments nf_arguments] keeps_any_bind [OF keeps_notify_blocks nf_notify_blocks] nf_visit_all assms)
  then obtain u st where st: "symbolize_body C F (new_symbolizer n) = Inr (u, st)"
    using inv_new [of n] by (fastforce simp: never_fails_def new_symbolizer_def)
  then show ?thesis using symbolize_body_inv [OF st] by simp
qed

end
