(* ===== verification/Compiler_Properties.thy ===== *)
theory Compiler_Properties
  imports Operator_Laws Constraint_Laws Visitor_Totality Examples
begin

text \<open>
  The properties of the compiler pass: what the inserted code does when the instrumented program runs
  against the run-time library, and what the pass itself guarantees.
\<close>

subsection \<open>Examples\<close>

definition example_env :: compile_env where
  "example_env = \<lparr>getTypeStoreSize = (\<lambda>_. 1), getTypeAllocSize = (\<lambda>_. 1), getElementOffset = (\<lambda>_ i. of_nat i),
     layout_little_endian = True, getPointerSizeInBits = 64, getFirstNonPHI = (\<lambda>_. 20), getFirstInsertionPt = (\<lambda>_. 20),
     critical_edge = (\<lambda>_ _. False), getLoopFor = (\<lambda>_. Some \<lparr>getHeader = 0, getLoopLatch = Some 1, loop_blocks = [0, 1]\<rparr>),
     loop_info = True, inst_address = (\<lambda>n. of_nat n), block_address = (\<lambda>n. of_nat n)\<rparr>"

text \<open>A byte \<open>a\<close> of the program with the expression \<open>x8\<close>, a condition with an expression, and a constant.\<close>

definition a8 :: llvm_value where "a8 = Inst (IntegerTy 8) 0"
definition c1 :: llvm_value where "c1 = Inst (IntegerTy 1) 2"

definition example_symbolizer :: symbolizer where
  "example_symbolizer = (new_symbolizer 4)\<lparr>symbolicExpressions := [a8 \<mapsto> Inst PointerTy 1, c1 \<mapsto> Inst PointerTy 3]\<rparr>"

definition z64 :: z3_term where "z64 = T_num 64 0"

definition compiled_backend :: "z3_term simple_state" where
  "compiled_backend = example_backend\<lparr>g_null_pointer := Some z64,
     allocatedExpressions := {x8, y8, x16, y16, T_bool True, T_bool False, z64}\<rparr>"

definition compiled_state :: "(z3_term simple_state, z3_term) runtime" where
  "compiled_state = example_state\<lparr>backend_state := compiled_backend\<rparr>"

definition example_frame :: "z3_term frame" where
  "example_frame = \<lparr>regs = (\<lambda>_. VVoid)(0 := VInt 8 5, 1 := VExpr (Some x8), 2 := VInt 1 1, 3 := VExpr None),
     leaves = (\<lambda>_. VVoid), cells = (\<lambda>_. VVoid)\<rparr>"

definition example_instruction :: "inst_kind \<Rightarrow> ty \<Rightarrow> instruction" where
  "example_instruction k t = \<lparr>i_name = 10, i_type = t, i_kind = k, i_used = True, i_block = 0, i_next = 11,
     i_debug = [(''a.c'', 3)], i_check = None, i_guarded = False\<rparr>"

lemma compiled_ready: "ready term_z3 term_sem compiled_state"
  by (simp add: ready_def constants_def compiled_state_def compiled_backend_def example_backend_def live_exprs_def z64_def)

lemma example_wf: "wf_exprs example_symbolizer"
  by (simp add: wf_exprs_def example_symbolizer_def new_symbolizer_def a8_def c1_def)

lemma example_operands:
  "operands_ok term_sem example_env example_symbolizer example_frame compiled_state [a8, ConstantInt 8 3]
     [\<lambda>\<sigma>. int_smt 8 (take_bit 8 (\<sigma> ''x'')), \<lambda>_. int_smt 8 3]"
  "operands_ok term_sem example_env example_symbolizer example_frame compiled_state [a8] [\<lambda>\<sigma>. int_smt 8 (take_bit 8 (\<sigma> ''x''))]"
  by (simp_all add: operands_ok_def wf_exprs_def tracked_def expr_value_def scalar_type_def a8_def c1_def example_symbolizer_def
      new_symbolizer_def expression_or_null_def example_frame_def compiled_state_def compiled_backend_def live_exprs_def int_smt_def
      example_sem example_env_def)

subsection \<open>Instrumented instructions\<close>

text \<open>C5. An integer operator of the program is tracked: the code inserted for it runs to its end, keeps the
  registers of the program, builds nothing when both operands are concrete, and otherwise leaves an
  expression that denotes the result of the operator wherever LLVM defines one.\<close>

theorem binary_operator_instrumented:
  assumes "z3_laws z sem" "i_kind I = BinaryOperator opc a b" "getType a = IntegerTy n" "integer_op opc" "0 < n"
    and "n = 1 \<longrightarrow> boolean_op opc"
    and "operands_ok sem C st fr s [a, b] [\<lambda>\<sigma>. int_smt n (i \<sigma>), \<lambda>\<sigma>. int_smt n (j \<sigma>)]" "ready z sem s"
    and "n = 1 \<longrightarrow> (\<forall>\<sigma>. i \<sigma> \<in> {0, 1} \<and> j \<sigma> \<in> {0, 1})"
  shows "\<exists>H. (\<forall>\<sigma> k. llvm_binary opc n (i \<sigma>) (j \<sigma>) = Some k \<longrightarrow> H \<sigma> = int_smt n k) \<and>
    tracks_instruction D z sem C I st fr s [a, b] H"
  by (rule z3_laws.binary_operator_tracked [OF assms])

theorem binary_operator_instrumented_witness:
  "\<exists>H. (\<forall>\<sigma> k. llvm_binary BAdd 8 (take_bit 8 (\<sigma> ''x'')) 3 = Some k \<longrightarrow> H \<sigma> = int_smt 8 k) \<and>
    tracks_instruction (\<lambda>_ x. x) term_z3 term_sem example_env
      (example_instruction (BinaryOperator BAdd a8 (ConstantInt 8 3)) (IntegerTy 8)) example_symbolizer example_frame compiled_state
      [a8, ConstantInt 8 3] H"
  by (rule binary_operator_instrumented [OF term_lib.z3_laws_axioms _ _ _ _ _ example_operands(1) compiled_ready])
    (simp_all add: example_instruction_def a8_def integer_op_def)

text \<open>C10. An integer or pointer comparison of the program is tracked: the expression of its result denotes the
  comparison of the operands.\<close>

theorem comparison_instrumented:
  assumes "z3_laws z sem" "i_kind I = CmpInst p a b" "isIntegerTy t \<or> t = PointerTy"
    and "operands_ok sem C st fr s [a, b] [\<lambda>\<sigma>. value_smt C t (i \<sigma>), \<lambda>\<sigma>. value_smt C t (j \<sigma>)]" "ready z sem s"
    and "\<And>\<sigma>. llvm_icmp p (value_width C t) (i \<sigma>) (j \<sigma>) = Some (c \<sigma>)"
    and "t = IntegerTy 1 \<longrightarrow> p \<in> {ICMP_EQ, ICMP_NE} \<and> (\<forall>\<sigma>. i \<sigma> \<in> {0, 1} \<and> j \<sigma> \<in> {0, 1})"
  shows "tracks_instruction D z sem C I st fr s [a, b] (\<lambda>\<sigma>. BoolV (c \<sigma>))"
  by (rule z3_laws.comparison_tracked [OF assms])

theorem comparison_instrumented_witness:
  "tracks_instruction (\<lambda>_ x. x) term_z3 term_sem example_env
     (example_instruction (CmpInst ICMP_ULT a8 (ConstantInt 8 3)) (IntegerTy 1)) example_symbolizer example_frame compiled_state
     [a8, ConstantInt 8 3] (\<lambda>\<sigma>. BoolV (take_bit 8 (\<sigma> ''x'') < 3))"
  by (rule comparison_instrumented [OF term_lib.z3_laws_axioms, where t = "IntegerTy 8" and i = "\<lambda>\<sigma>. take_bit 8 (\<sigma> ''x'')"
        and j = "\<lambda>_. 3" and p = ICMP_ULT])
    (use example_operands(1) compiled_ready in \<open>simp_all add: example_instruction_def\<close>)

text \<open>C11. An extension or truncation of an integer is tracked, conversions from and to \<open>i1\<close> included, where the
  solver has a separate sort.\<close>

theorem cast_instrumented:
  assumes "z3_laws z sem" "i_kind I = CastInst opc a" "getType a = IntegerTy n" "i_type I = IntegerTy m"
    and "0 < n" "0 < m" "n \<le> 255" "m \<le> 255"
    and "operands_ok sem C st fr s [a] [\<lambda>\<sigma>. int_smt n (i \<sigma>)]" "ready z sem s"
    and "\<And>\<sigma>. llvm_cast opc n m (i \<sigma>) = Some (c \<sigma>)" "n = 1 \<longrightarrow> (\<forall>\<sigma>. i \<sigma> \<in> {0, 1})"
  shows "tracks_instruction D z sem C I st fr s [a] (\<lambda>\<sigma>. int_smt m (c \<sigma>))"
  by (rule z3_laws.cast_tracked [OF assms])

theorem cast_instrumented_witness:
  "tracks_instruction (\<lambda>_ x. x) term_z3 term_sem example_env
     (example_instruction (CastInst CTrunc a8) (IntegerTy 1)) example_symbolizer example_frame compiled_state
     [a8] (\<lambda>\<sigma>. int_smt 1 (take_bit 1 (take_bit 8 (\<sigma> ''x''))))"
  by (rule cast_instrumented [OF term_lib.z3_laws_axioms _ _ _ _ _ _ _ example_operands(2) compiled_ready, where opc = CTrunc])
    (simp_all add: example_instruction_def a8_def)

subsection \<open>Short circuits\<close>

text \<open>C9. \<open>shortCircuitExpressionUses\<close> rewrites a recorded computation in place: the run of instructions becomes the
  code that \<open>rewritten\<close> describes (the null checks and the branch around the slow path), every use of the old
  result becomes a use of the new one, and nothing else changes.\<close>

theorem short_circuit_replaces:
  assumes "distinct (map e_name (all_emitted st))" "inserted st = A @ (p, pre @ map Ins run @ post) # B"
    and "run \<noteq> []" "\<forall>i \<in> set run. Inst t (e_name (last run)) \<notin> set (e_args i)"
    and "inps \<noteq> []" "\<forall>inp \<in> set inps. \<exists>i \<in> set run. e_name i = user inp \<and> operandIndex inp < length (e_args i)"
    and "\<forall>inp \<in> set inps. scalar_type (getType (concreteValue inp))" "value_used (Inst t (e_name (last run))) st"
  shows "\<exists>code v st1 st'.
    let sc = \<lparr>firstInstruction = Some (Inst t' (e_name (hd run))), lastInstruction = Some (Inst t (e_name (last run))), inputs = inps\<rparr>;
        replaced = map (replace_stmt (Inst t (e_name (last run))) v)
    in rewritten dl sc run st = Inr ((code, v), st1) \<and> short_circuit dl sc st = Inr ((), st') \<and>
       inserted st' = map (\<lambda>(q, c). (q, replaced c)) A @ (p, replaced pre @ code @ replaced post) # map (\<lambda>(q, c). (q, replaced c)) B"
proof (rule short_circuit_in_place [OF assms(1-4) refl assms(5-8), where t' = t' and dl = dl])
  fix code v st1 st'
  let ?sc = "\<lparr>firstInstruction = Some (Inst t' (e_name (hd run))), lastInstruction = Some (Inst t (e_name (last run))), inputs = inps\<rparr>"
  let ?r = "map (replace_stmt (Inst t (e_name (last run))) v)"
  assume "rewritten dl ?sc run st = Inr ((code, v), st1)" "short_circuit dl ?sc st = Inr ((), st')"
    "inserted st' = map (\<lambda>(q, c). (q, ?r c)) A @ (p, ?r pre @ code @ ?r post) # map (\<lambda>(q, c). (q, ?r c)) B"
  then show ?thesis unfolding Let_def by blast
qed

definition add_call :: emitted where
  "add_call = \<lparr>e_name = 4, e_type = PointerTy, e_op = Call (BinaryOperatorHandler BAdd), e_args = [Inst PointerTy 1, ConstantPointerNull]\<rparr>"

definition neg_call :: emitted where
  "neg_call = \<lparr>e_name = 5, e_type = PointerTy, e_op = Call UnaryOperatorHandler, e_args = [Inst PointerTy 4]\<rparr>"

definition two_calls_state :: symbolizer where
  "two_calls_state = example_symbolizer\<lparr>next_name := 6, inserted := [(Before 10, [Ins add_call, Ins neg_call])]\<rparr>"

theorem short_circuit_replaces_witness:
  "\<exists>code v st1 st'.
    let sc = \<lparr>firstInstruction = Some (Inst PointerTy 4), lastInstruction = Some (Inst PointerTy 4), inputs = call_inputs 4 [a8, ConstantInt 8 3]\<rparr>;
        replaced = map (replace_stmt (Inst PointerTy 4) v)
    in rewritten example_env sc [add_call] two_calls_state = Inr ((code, v), st1) \<and>
       short_circuit example_env sc two_calls_state = Inr ((), st') \<and>
       inserted st' = [(Before 10, code @ replaced [Ins neg_call])]"
  using short_circuit_replaces [where st = two_calls_state and A = "[]" and p = "Before 10" and pre = "[]" and run = "[add_call]"
      and post = "[Ins neg_call]" and B = "[]" and t = PointerTy and t' = PointerTy and inps = "call_inputs 4 [a8, ConstantInt 8 3]"
      and dl = example_env]
  by (simp add: two_calls_state_def all_emitted_def add_call_def neg_call_def call_inputs_def enumerate_eq_zip scalar_type_def a8_def
      value_used_def)

subsection \<open>Path constraints\<close>








subsection \<open>Expressions of values and parameters\<close>

lemma emits_code: "emits st st' new \<Longrightarrow> code st' = code st @ new"
  unfolding emits_def by (metis symbolizer.select_convs(9) symbolizer.surjective symbolizer.update_convs(8,9))



text \<open>C13. Argument expressions reach the callee: after the caller's code has stored the expressions of up to 256
  arguments, the code at the entry of the callee finds, for each parameter that is used, the expression
  (possibly null) of the argument at the same position.\<close>

theorem parameters_reach_callee:
  assumes "wf_exprs st" "length args \<le> 256" "\<forall>a \<in> set args. is_expr (eval_value fr (expression_or_null st a))"
    and "length (g_function_arguments s) = 256" "length params = length args"
  shows "\<exists>st1 set_code st2 get_code. set_parameters C 0 args st = Inr ((), st1) \<and> code st1 = code st @ set_code \<and>
    symbolize_args C' 0 params st0 = Inr ((), st2) \<and> code st2 = code st0 @ get_code \<and>
    rt_ok (exec_code D (simple_call z) set_code) (fr, s) (\<lambda>_ (_, s1).
      rt_ok (exec_code D (simple_call z) get_code) (fr0, s1) (\<lambda>_ (fr2, s2). s2 = s1 \<and>
        (\<forall>i < length params. snd (params ! i) \<longrightarrow>
          (\<exists>e. symbolicExpressions st2 (Argument (fst (params ! i)) i) = Some e \<and>
            eval_value fr2 e = eval_value fr (expression_or_null st (args ! i))))))"
proof -
  let ?xs = "map (\<lambda>a. expr_of (eval_value fr (expression_or_null st a))) args"
  obtain u st1 set_code where w: "set_parameters C 0 args st = Inr (u, st1)" "emits st st1 set_code"
    "rt_ok (exec_code D (simple_call z) set_code) (fr, s) (\<lambda>_ (fr', s'). agree (next_name st) fr fr' \<and>
      s' = s\<lparr>g_function_arguments := set_from 0 ?xs (g_function_arguments s)\<rparr>)"
    using set_parameters_builds [OF assms(1) _ assms(3), of 0 D z C s] assms(2) unfolding builds_def by auto
  have "0 + length params \<le> 256" using assms(2,5) by simp
  from symbolize_args_reads [OF this, of C' st0 D z]
  obtain st2 get_code where r: "symbolize_args C' 0 params st0 = Inr ((), st2)" "code st2 = code st0 @ get_code"
    "\<And>fr s. rt_ok (exec_code D (simple_call z) get_code) (fr, s) (\<lambda>_ (fr', s'). s' = s \<and> agree (next_name st0) fr fr' \<and>
      (\<forall>i < length params. parameter_read st2 fr' (g_function_arguments s) (0 + i) (params ! i)))"
    by blast
  have arg: "VExpr (set_from 0 ?xs (g_function_arguments s) ! i) = eval_value fr (expression_or_null st (args ! i))" if "i < length params" for i
    using set_from_nth [of i ?xs 0 "g_function_arguments s"] that assms(2-5) by (simp add: is_expr_def)
  have "rt_ok (exec_code D (simple_call z) set_code) (fr, s) (\<lambda>_ (_, s1).
      rt_ok (exec_code D (simple_call z) get_code) (fr0, s1) (\<lambda>_ (fr2, s2). s2 = s1 \<and>
        (\<forall>i < length params. snd (params ! i) \<longrightarrow>
          (\<exists>e. symbolicExpressions st2 (Argument (fst (params ! i)) i) = Some e \<and>
            eval_value fr2 e = eval_value fr (expression_or_null st (args ! i))))))"
  proof (rule rt_ok_mono [OF w(3)], clarify)
    fix fr' :: "'b frame"
    show "rt_ok (exec_code D (simple_call z) get_code) (fr0, s\<lparr>g_function_arguments := set_from 0 ?xs (g_function_arguments s)\<rparr>)
      (\<lambda>_ (fr2, s2). s2 = s\<lparr>g_function_arguments := set_from 0 ?xs (g_function_arguments s)\<rparr> \<and>
        (\<forall>i < length params. snd (params ! i) \<longrightarrow>
          (\<exists>e. symbolicExpressions st2 (Argument (fst (params ! i)) i) = Some e \<and>
            eval_value fr2 e = eval_value fr (expression_or_null st (args ! i)))))"
      by (rule rt_ok_mono [OF r(3)]) (auto simp: parameter_read_def case_prod_unfold arg)
  qed
  then show ?thesis using w(1) emits_code [OF w(2)] r(1,2) by (cases u) blast
qed

theorem parameters_reach_callee_witness:
  "\<exists>st1 set_code st2 get_code. set_parameters example_env 0 [a8, ConstantInt 8 3] example_symbolizer = Inr ((), st1) \<and>
    code st1 = code example_symbolizer @ set_code \<and>
    symbolize_args example_env 0 [(IntegerTy 8, True), (IntegerTy 8, False)] (new_symbolizer 0) = Inr ((), st2) \<and>
    code st2 = code (new_symbolizer 0) @ get_code \<and>
    rt_ok (exec_code (\<lambda>_ x. x) (simple_call term_z3) set_code) (example_frame, compiled_state) (\<lambda>_ (_, s1).
      rt_ok (exec_code (\<lambda>_ x. x) (simple_call term_z3) get_code) (example_frame, s1) (\<lambda>_ (fr2, s2). s2 = s1 \<and>
        (\<forall>i < length [(IntegerTy 8, True), (IntegerTy 8, False)]. snd ([(IntegerTy 8, True), (IntegerTy 8, False)] ! i) \<longrightarrow>
          (\<exists>e. symbolicExpressions st2 (Argument (fst ([(IntegerTy 8, True), (IntegerTy 8, False)] ! i)) i) = Some e \<and>
            eval_value fr2 e = eval_value example_frame (expression_or_null example_symbolizer ([a8, ConstantInt 8 3] ! i))))))"
  by (rule parameters_reach_callee [OF example_wf])
    (simp_all add: is_expr_def expr_of_def expression_or_null_def example_symbolizer_def new_symbolizer_def a8_def c1_def example_frame_def
      compiled_state_def example_state_def)

subsection \<open>Offsets and slots\<close>

text \<open>The offset of a member as a number that does not wrap, and the products that the pass takes in 32 bits.\<close>

fun exact_offset :: "'a data_layout_scheme \<Rightarrow> ty \<Rightarrow> nat list \<Rightarrow> nat option" where
  "exact_offset dl t [] = Some 0"
| "exact_offset dl (StructTy ts) (idx # idxs) =
     (if idx < length ts then map_option (\<lambda>k. unat (getElementOffset dl ts idx) + k) (exact_offset dl (ts ! idx) idxs) else None)"
| "exact_offset dl (ArrayTy n t) (idx # idxs) =
     map_option (\<lambda>k. unat (getTypeAllocSize dl t) * idx + k) (exact_offset dl t idxs)"
| "exact_offset dl _ (idx # idxs) = None"

fun products_fit :: "'a data_layout_scheme \<Rightarrow> ty \<Rightarrow> nat list \<Rightarrow> bool" where
  "products_fit dl (StructTy ts) (idx # idxs) = (idx < length ts \<longrightarrow> products_fit dl (ts ! idx) idxs)"
| "products_fit dl (ArrayTy n t) (idx # idxs) = (unat (getTypeAllocSize dl t) * idx < 2 ^ 32 \<and> products_fit dl t idxs)"
| "products_fit dl _ _ = True"

lemma product_fits:
  assumes "unat (sz :: u64) * idx < 2 ^ 32"
  shows "(ucast (ucast sz * of_nat idx :: u32) :: u64) = of_nat (unat sz * idx)"
proof (cases "idx = 0")
  case False
  have "unat sz \<le> unat sz * idx" using False by simp
  then have "unat sz < 2 ^ 32" using assms by linarith
  then have "(ucast sz :: u32) = of_nat (unat sz)" by (metis of_nat_unat)
  then have "(ucast sz * of_nat idx :: u32) = of_nat (unat sz * idx)" by simp
  moreover have "unat (of_nat (unat sz * idx) :: u32) = unat sz * idx" by (subst unat_of_nat) (use assms in simp)
  ultimately show ?thesis by (metis of_nat_unat)
qed simp

lemma member_offset_exact:
  "products_fit dl t idxs \<Longrightarrow> exact_offset dl t idxs = Some k \<Longrightarrow> member_offset dl off t idxs = Inr (off + of_nat k)"
proof (induction dl off t idxs arbitrary: k rule: member_offset.induct)
  case (2 dl offset ts idx idxs)
  then show ?case by (auto split: if_splits simp: add.assoc)
next
  case (3 dl offset n t idx idxs)
  then show ?case by (auto simp: Let_def product_fits add.assoc)
qed auto

lemma member_offset_missing: "exact_offset dl t idxs = None \<Longrightarrow> member_offset dl off t idxs = Inl Undefined_behaviour"
  by (induction dl off t idxs rule: member_offset.induct) (auto split: if_splits simp: Let_def)

text \<open>C36. \<open>aggregateMemberOffset\<close> is the offset of the member in the data layout, as long as no product of an index and
  an element size reaches 2^32 (the element size is an \<open>unsigned\<close>); a member that does not exist has no offset.\<close>

theorem member_offset_bounds:
  assumes "products_fit dl t idxs"
  shows "aggregateMemberOffset dl t idxs st =
    (case exact_offset dl t idxs of None \<Rightarrow> Inl Undefined_behaviour | Some k \<Rightarrow> Inr (of_nat k, st))"
  using member_offset_exact [OF assms, of _ 0] member_offset_missing [of dl t idxs 0]
  by (auto simp: aggregateMemberOffset_def rt_return_def rt_raise_def split: option.split)

theorem member_offset_bounds_witness:
  "aggregateMemberOffset example_env (StructTy [IntegerTy 8, ArrayTy 4 (IntegerTy 8)]) [1, 3] example_symbolizer =
    Inr (4, example_symbolizer)"
  using member_offset_bounds [of example_env "StructTy [IntegerTy 8, ArrayTy 4 (IntegerTy 8)]" "[1, 3]" example_symbolizer]
  by (simp add: example_env_def)







subsection \<open>The table of imports\<close>






subsection \<open>The pass as a whole\<close>

text \<open>C39. Renaming: when no two functions have the same name and no function already has the name of a wrapper,
  the module pass gives exactly the intercepted functions the suffix of the wrappers, leaves no intercepted
  name behind, and adds a constructor of priority 0 that calls \<open>_sym_initialize\<close>.\<close>

theorem module_redirected:
  assumes "\<And>S nm. nm \<notin> S \<Longrightarrow> unique S nm = nm" "distinct (function_names M)"
    and "\<And>nm. nm \<in> set (function_names M) \<Longrightarrow> isInterceptedFunction nm \<Longrightarrow> nm @ ''_symbolized'' \<notin> set (function_names M)"
    and "kSymCtorName \<notin> set (function_names M)"
  shows "\<exists>M'. instrumentModule unique M = (True, M') \<and> function_names M' = map symbolized_name (function_names M) @ [kSymCtorName] \<and>
    (\<forall>nm \<in> set (function_names M'). \<not> isInterceptedFunction nm) \<and>
    global_ctors M' = global_ctors M @ [(kSymCtorName, 0)] \<and> ctor_calls M' kSymCtorName = Some ''_sym_initialize''"
proof -
  have names: "rename_functions unique [] (function_names M) = map symbolized_name (function_names M)"
    using rename_functions_names [OF assms(1,2), where ds = "[]"] assms(3) by simp
  have "nm @ ''_symbolized'' \<noteq> kSymCtorName" for nm
  proof
    assume "nm @ ''_symbolized'' = kSymCtorName"
    then have "length (nm @ ''_symbolized'') = length kSymCtorName" by (rule arg_cong)
    then show False by (simp add: kSymCtorName_def)
  qed
  then have "symbolized_name nm \<noteq> kSymCtorName" if "nm \<noteq> kSymCtorName" for nm
    using that unfolding symbolized_name_def by (auto split: if_splits)
  then have "kSymCtorName \<notin> symbolized_name ` set (function_names M)" using assms(4) by (metis imageE)
  then have "kSymCtorName \<notin> set (map symbolized_name (function_names M))" unfolding set_map .
  then have ctor: "unique (set (map symbolized_name (function_names M))) kSymCtorName = kSymCtorName" by (rule assms(1))
  have "\<not> isInterceptedFunction kSymCtorName" by (simp add: isInterceptedFunction_def kInterceptedFunctions_def kSymCtorName_def)
  then have clean: "\<forall>nm \<in> set (map symbolized_name (function_names M) @ [kSymCtorName]). \<not> isInterceptedFunction nm"
    using symbolized_not_intercepted by (metis (no_types, lifting) Un_iff empty_iff empty_set imageE insert_iff list.simps(15) set_append set_map)
  show ?thesis
    unfolding instrumentModule_def names Let_def ctor by (intro exI conjI, rule refl) (simp_all add: clean [simplified])
qed

theorem module_redirected_witness:
  "\<exists>M'. instrumentModule (\<lambda>S nm. if nm \<in> S then nm @ ''1'' else nm) \<lparr>function_names = [''main'', ''read''], global_ctors = [], ctor_calls = Map.empty\<rparr> =
      (True, M') \<and> function_names M' = [''main'', ''read_symbolized'', ''__sym_ctor'']"
  using module_redirected [of "\<lambda>S nm. if nm \<in> S then nm @ ''1'' else nm" "\<lparr>function_names = [''main'', ''read''], global_ctors = [], ctor_calls = Map.empty\<rparr>"]
  by (auto simp: kSymCtorName_def symbolized_name_def isInterceptedFunction_def kInterceptedFunctions_def)

text \<open>C8. The invariant of the symbolizer: the expression of every value is a pointer made earlier, and every recorded
  computation has inputs, a first and a last instruction that exist. Every visitor keeps it, and never
  gives out a name twice.\<close>

theorem visitors_keep_invariant:
  assumes "symbolizer_inv st" "visit C I st = Inr ((), st')"
  shows "symbolizer_inv st' \<and> next_name st \<le> next_name st'"
  using keeps_visit [of "next_name st" C I] assms unfolding keeps_inv_def by blast

lemma example_inv: "symbolizer_inv example_symbolizer"
  using example_wf by (simp add: symbolizer_inv_def example_symbolizer_def new_symbolizer_def)

definition add_instruction :: instruction where
  "add_instruction = example_instruction (BinaryOperator BAdd a8 (ConstantInt 8 3)) (IntegerTy 8)"

lemma add_supported: "supported C add_instruction"
  by (simp add: supported_def add_instruction_def example_instruction_def a8_def)

theorem visitors_keep_invariant_witness:
  "\<exists>st'. visit example_env add_instruction example_symbolizer = Inr ((), st') \<and> symbolizer_inv st'"
proof -
  obtain st' where "visit example_env add_instruction example_symbolizer = Inr ((), st')"
    using nf_visit [OF add_supported, of "next_name example_symbolizer"] example_inv unfolding never_fails_def by fastforce
  with visitors_keep_invariant [OF example_inv this] show ?thesis by blast
qed

text \<open>C7. The pass gets through every function whose instructions it supports: the entry code, the notifications and
  all visitors come to an end without a failing assertion, a call of a function that is not imported or a
  missing member, and leave a state that satisfies the invariant.\<close>

theorem functions_instrumented:
  assumes "\<forall>I \<in> set (f_insts F). supported C I"
  shows "\<exists>st. symbolize_body C F (new_symbolizer (first_name F)) = Inr ((), st) \<and> symbolizer_inv st"
  by (rule symbolize_body_total [OF assms])

theorem functions_instrumented_witness:
  "\<exists>st. symbolize_body example_env \<lparr>f_name = ''f'', f_args = [(IntegerTy 8, True)], f_blocks = [0], f_insts = [add_instruction],
      f_env = example_env\<rparr> (new_symbolizer 11) = Inr ((), st) \<and> symbolizer_inv st"
  using functions_instrumented [of "\<lparr>f_name = ''f'', f_args = [(IntegerTy 8, True)], f_blocks = [0], f_insts = [add_instruction],
      f_env = example_env\<rparr>" example_env] add_supported
  by (simp add: first_name_def add_instruction_def example_instruction_def)

end
