(* ===== verification/Qsym_Backend.thy ===== *)
theory Qsym_Backend
  imports Z3_Interface Libc_Wrappers
begin

text \<open>
  The QSYM backend, \<open>runtime/src/backends/qsym/Runtime.cpp\<close>: an adapter between the interface of the run-time
  library and the builder, the solver and the call stack of QSYM. QSYM is a submodule whose code is not part of the
  repository; its functions are the parameter record \<open>qsym\<close>, which works on a state of its own. The adapter
  adds the table of known expressions, the bytes of the input and the test-case handler.
\<close>

subsection \<open>QSYM\<close>

text \<open>The functions of \<open>qsym::ExprBuilder\<close> that the adapter calls, with the arguments that are not expressions.\<close>

datatype qsym_binary =
    Q_Add | Q_Sub | Q_Mul | Q_UDiv | Q_SDiv | Q_URem | Q_SRem | Q_Shl | Q_LShr | Q_AShr
  | Q_Slt | Q_Sle | Q_Sgt | Q_Sge | Q_Ult | Q_Ule | Q_Ugt | Q_Uge | Q_Equal | Q_Distinct
  | Q_LAnd | Q_And | Q_LOr | Q_Or | Q_Xor

datatype qsym_op =
    createConstant int nat
  | createTrue
  | createFalse
  | createBool bool
  | createRead nat
  | createBinary qsym_binary
  | createNeg
  | createNot
  | createIte
  | createSExt nat
  | createZExt nat
  | createTrunc nat
  | createConcat
  | createExtract nat nat
  | boolToBit nat

datatype qsym_answer = Q_sat | Q_unsat | Q_unknown

text \<open>
  \<open>create\<close> is \<open>None\<close> where QSYM stops the process. \<open>addJcc\<close> sees the input bytes and tells the test cases for which
  it calls \<open>saveValues\<close> (the suffix of the file and the concrete values of the model).
\<close>

record ('q, 'e) qsym =
  create :: "qsym_op \<Rightarrow> 'e list \<Rightarrow> 'q \<Rightarrow> ('e \<times> 'q) option"
  expr_bits :: "'e \<Rightarrow> nat"
  expr_string :: "'e \<Rightarrow> string"
  expr_simplify :: "'e \<Rightarrow> 'q \<Rightarrow> 'q"
  addJcc :: "'e \<Rightarrow> bool \<Rightarrow> u64 \<Rightarrow> u8 list \<Rightarrow> 'q \<Rightarrow> (string \<times> u8 list) list \<times> 'q"
  qsym_push :: "'q \<Rightarrow> 'q"
  qsym_add :: "'e \<Rightarrow> 'q \<Rightarrow> 'q"
  qsym_check :: "'q \<Rightarrow> qsym_answer \<times> 'q"
  qsym_pop :: "'q \<Rightarrow> 'q"
  visitCall :: "u64 \<Rightarrow> 'q \<Rightarrow> 'q"
  visitRet :: "u64 \<Rightarrow> 'q \<Rightarrow> 'q"
  visitBasicBlock :: "u64 \<Rightarrow> 'q \<Rightarrow> 'q"
  Solver_saveValues :: "string \<Rightarrow> u8 list \<Rightarrow> 'q \<Rightarrow> 'q"
  new_solver :: "string \<Rightarrow> string \<Rightarrow> 'q \<Rightarrow> 'q"
  PruneExprBuilder :: "'q \<Rightarrow> 'q"
  SymbolicExprBuilder :: "'q \<Rightarrow> 'q"

subsection \<open>State\<close>

text \<open>\<open>handled\<close> lists the calls of the user's test-case handlers; \<open>save_requests\<close> the test cases that QSYM is about to save.\<close>

record ('q, 'e) qsym_state =
  q_initialized :: bool
  q_allocated :: "'e set"
  solver_inputs :: "u8 list"
  g_test_case_handler :: "u64 option"
  handled :: "(u64 \<times> u8 list) list"
  save_requests :: "(string \<times> u8 list) list"
  qsym_internal :: 'q

definition qsym_registerExpression :: "'e \<Rightarrow> (('q, 'e) qsym_state, 'e option) rt" where
  "qsym_registerExpression expr =
     rt_bind (rt_get q_allocated) (\<lambda>known.
     if expr \<notin> known
     then rt_bind (rt_modify (\<lambda>s. s\<lparr>q_allocated := insert expr (q_allocated s)\<rparr>)) (\<lambda>_. rt_return (Some expr))
     else rt_return (Some expr))"

text \<open>\<open>allocatedExpressions.at\<close>, on a null pointer too.\<close>

definition qsym_at :: "'e option \<Rightarrow> (('q, 'e) qsym_state, 'e) rt" where
  "qsym_at expr =
     rt_bind (rt_get q_allocated) (\<lambda>known.
     case expr of None \<Rightarrow> rt_raise Out_of_range
     | Some e \<Rightarrow> if e \<in> known then rt_return e else rt_raise Out_of_range)"

fun qsym_at_all :: "'e option list \<Rightarrow> (('q, 'e) qsym_state, 'e list) rt" where
  "qsym_at_all [] = rt_return []"
| "qsym_at_all (x # xs) = rt_bind (qsym_at x) (\<lambda>e. rt_bind (qsym_at_all xs) (\<lambda>es. rt_return (e # es)))"

definition on_qsym :: "('q \<Rightarrow> 'q) \<Rightarrow> (('q, 'e) qsym_state, unit) rt" where
  "on_qsym f = rt_modify (\<lambda>s. s\<lparr>qsym_internal := f (qsym_internal s)\<rparr>)"

definition qsym_create :: "('q, 'e) qsym \<Rightarrow> qsym_op \<Rightarrow> 'e list \<Rightarrow> (('q, 'e) qsym_state, 'e) rt" where
  "qsym_create Q f es =
     rt_bind (rt_get qsym_internal) (\<lambda>q.
     case create Q f es q of
       None \<Rightarrow> rt_raise Solver_error
     | Some (e, q') \<Rightarrow> rt_bind (on_qsym (\<lambda>_. q')) (\<lambda>_. rt_return e))"

text \<open>The shape of the builders: \<open>registerExpression(g_expr_builder->create...(allocatedExpressions.at(a), ...))\<close>.\<close>

definition qsym_build ::
    "('q, 'e) qsym \<Rightarrow> qsym_op \<Rightarrow> 'e option list \<Rightarrow> (('q, 'e) qsym_state, 'e option) rt" where
  "qsym_build Q f xs =
     rt_bind (qsym_at_all xs) (\<lambda>es. rt_bind (qsym_create Q f es) qsym_registerExpression)"

subsection \<open>Constants\<close>

text \<open>On the 64-bit targets of the model, \<open>uint64_t\<close> and \<open>uintptr_t\<close> are the same.\<close>

definition qsym_build_integer :: "('q, 'e) qsym \<Rightarrow> u64 \<Rightarrow> u8 \<Rightarrow> (('q, 'e) qsym_state, 'e option) rt" where
  "qsym_build_integer Q val bits = qsym_build Q (createConstant (uint val) (unat bits)) []"

definition qsym_build_integer128 :: "('q, 'e) qsym \<Rightarrow> u64 \<Rightarrow> u64 \<Rightarrow> (('q, 'e) qsym_state, 'e option) rt" where
  "qsym_build_integer128 Q high low = qsym_build Q (createConstant (uint high * 2 ^ 64 + uint low) 128) []"

text \<open>The words of an \<open>llvm::APInt\<close>, least significant first.\<close>

fun words_value :: "u64 list \<Rightarrow> int" where
  "words_value [] = 0"
| "words_value (w # ws) = uint w + 2 ^ 64 * words_value ws"

definition qsym_build_integer_from_buffer ::
    "('q, 'e) qsym \<Rightarrow> (nat \<Rightarrow> u64) \<Rightarrow> u32 \<Rightarrow> (('q, 'e) qsym_state, 'e option) rt" where
  "qsym_build_integer_from_buffer Q buffer num_bits =
     rt_bind (rt_assert ''num_bits % 64 == 0'' (unat num_bits mod 64 = 0)) (\<lambda>_.
     qsym_build Q (createConstant (words_value (map buffer [0..<unat num_bits div 64])) (unat num_bits)) [])"

definition qsym_build_null_pointer :: "('q, 'e) qsym \<Rightarrow> (('q, 'e) qsym_state, 'e option) rt" where
  "qsym_build_null_pointer Q = qsym_build Q (createConstant 0 (8 * 8)) []"

definition qsym_build_true :: "('q, 'e) qsym \<Rightarrow> (('q, 'e) qsym_state, 'e option) rt" where
  "qsym_build_true Q = qsym_build Q createTrue []"

definition qsym_build_false :: "('q, 'e) qsym \<Rightarrow> (('q, 'e) qsym_state, 'e option) rt" where
  "qsym_build_false Q = qsym_build Q createFalse []"

definition qsym_build_bool :: "('q, 'e) qsym \<Rightarrow> bool \<Rightarrow> (('q, 'e) qsym_state, 'e option) rt" where
  "qsym_build_bool Q val = qsym_build Q (createBool val) []"

subsection \<open>Operations\<close>

text \<open>
  The table of \<open>DEF_BINARY_EXPR_BUILDER\<close>. The comparisons of floating-point numbers are among the functions of
  \<open>UNSUPPORTED\<close>, which return null.
\<close>

fun qsym_name :: "sym_binary \<Rightarrow> qsym_binary option" where
  "qsym_name SAdd = Some Q_Add"
| "qsym_name SSub = Some Q_Sub"
| "qsym_name SMul = Some Q_Mul"
| "qsym_name SUnsigned_div = Some Q_UDiv"
| "qsym_name SSigned_div = Some Q_SDiv"
| "qsym_name SUnsigned_rem = Some Q_URem"
| "qsym_name SSigned_rem = Some Q_SRem"
| "qsym_name SShift_left = Some Q_Shl"
| "qsym_name SLogical_shift_right = Some Q_LShr"
| "qsym_name SArithmetic_shift_right = Some Q_AShr"
| "qsym_name SSigned_less_than = Some Q_Slt"
| "qsym_name SSigned_less_equal = Some Q_Sle"
| "qsym_name SSigned_greater_than = Some Q_Sgt"
| "qsym_name SSigned_greater_equal = Some Q_Sge"
| "qsym_name SUnsigned_less_than = Some Q_Ult"
| "qsym_name SUnsigned_less_equal = Some Q_Ule"
| "qsym_name SUnsigned_greater_than = Some Q_Ugt"
| "qsym_name SUnsigned_greater_equal = Some Q_Uge"
| "qsym_name SEqual = Some Q_Equal"
| "qsym_name SNot_equal = Some Q_Distinct"
| "qsym_name SBool_and = Some Q_LAnd"
| "qsym_name SAnd = Some Q_And"
| "qsym_name SBool_or = Some Q_LOr"
| "qsym_name SOr = Some Q_Or"
| "qsym_name SBool_xor = Some Q_Distinct"
| "qsym_name SXor = Some Q_Xor"
| "qsym_name _ = None"

definition qsym_unsupported :: "(('q, 'e) qsym_state, 'e option) rt" where
  "qsym_unsupported = rt_return None"

definition qsym_build_binary ::
    "('q, 'e) qsym \<Rightarrow> sym_binary \<Rightarrow> 'e option \<Rightarrow> 'e option \<Rightarrow> (('q, 'e) qsym_state, 'e option) rt" where
  "qsym_build_binary Q f a b =
     (case qsym_name f of None \<Rightarrow> qsym_unsupported | Some g \<Rightarrow> qsym_build Q (createBinary g) [a, b])"

definition qsym_build_neg :: "('q, 'e) qsym \<Rightarrow> 'e option \<Rightarrow> (('q, 'e) qsym_state, 'e option) rt" where
  "qsym_build_neg Q expr = qsym_build Q createNeg [expr]"

definition qsym_build_not :: "('q, 'e) qsym \<Rightarrow> 'e option \<Rightarrow> (('q, 'e) qsym_state, 'e option) rt" where
  "qsym_build_not Q expr = qsym_build Q createNot [expr]"

definition qsym_build_ite ::
    "('q, 'e) qsym \<Rightarrow> 'e option \<Rightarrow> 'e option \<Rightarrow> 'e option \<Rightarrow> (('q, 'e) qsym_state, 'e option) rt" where
  "qsym_build_ite Q cond a b = qsym_build Q createIte [cond, a, b]"

definition qsym_build_sext :: "('q, 'e) qsym \<Rightarrow> 'e option \<Rightarrow> u8 \<Rightarrow> (('q, 'e) qsym_state, 'e option) rt" where
  "qsym_build_sext Q expr bits =
     (case expr of None \<Rightarrow> rt_return None
      | Some e \<Rightarrow> qsym_build Q (createSExt (unat bits + expr_bits Q e)) [expr])"

definition qsym_build_zext :: "('q, 'e) qsym \<Rightarrow> 'e option \<Rightarrow> u8 \<Rightarrow> (('q, 'e) qsym_state, 'e option) rt" where
  "qsym_build_zext Q expr bits =
     (case expr of None \<Rightarrow> rt_return None
      | Some e \<Rightarrow> qsym_build Q (createZExt (unat bits + expr_bits Q e)) [expr])"

definition qsym_build_trunc :: "('q, 'e) qsym \<Rightarrow> 'e option \<Rightarrow> u8 \<Rightarrow> (('q, 'e) qsym_state, 'e option) rt" where
  "qsym_build_trunc Q expr bits =
     (if expr = None then rt_return None else qsym_build Q (createTrunc (unat bits)) [expr])"

definition qsym_concat_helper ::
    "('q, 'e) qsym \<Rightarrow> 'e option \<Rightarrow> 'e option \<Rightarrow> (('q, 'e) qsym_state, 'e option) rt" where
  "qsym_concat_helper Q a b = qsym_build Q createConcat [a, b]"

definition qsym_extract_helper ::
    "('q, 'e) qsym \<Rightarrow> 'e option \<Rightarrow> nat \<Rightarrow> nat \<Rightarrow> (('q, 'e) qsym_state, 'e option) rt" where
  "qsym_extract_helper Q expr first_bit last_bit =
     qsym_build Q (createExtract last_bit ((size_sub first_bit last_bit + 1) mod 2 ^ 64)) [expr]"

definition qsym_bits_helper :: "('q, 'e) qsym \<Rightarrow> 'e option \<Rightarrow> (('q, 'e) qsym_state, nat) rt" where
  "qsym_bits_helper Q expr =
     (case expr of None \<Rightarrow> rt_raise Null_expression | Some e \<Rightarrow> rt_return (expr_bits Q e))"

definition qsym_build_bool_to_bit :: "('q, 'e) qsym \<Rightarrow> 'e option \<Rightarrow> (('q, 'e) qsym_state, 'e option) rt" where
  "qsym_build_bool_to_bit Q expr =
     (if expr = None then rt_return None else qsym_build Q (boolToBit 1) [expr])"

text \<open>Floating-point values are zeros of the right width.\<close>

definition qsym_build_float :: "('q, 'e) qsym \<Rightarrow> u64 \<Rightarrow> bool \<Rightarrow> (('q, 'e) qsym_state, 'e option) rt" where
  "qsym_build_float Q val is_double = qsym_build Q (createConstant 0 (if is_double then 64 else 32)) []"

definition qsym_build_float_to_bits :: "'e option \<Rightarrow> (('q, 'e) qsym_state, 'e option) rt" where
  "qsym_build_float_to_bits expr = rt_return expr"

subsection \<open>Inputs\<close>

text \<open>\<open>std::vector<uint8_t>::resize\<close> pads with zeros.\<close>

definition pushInputByte :: "nat \<Rightarrow> u8 \<Rightarrow> (('q, 'e) qsym_state, unit) rt" where
  "pushInputByte offset val =
     rt_bind (rt_get solver_inputs) (\<lambda>xs.
     rt_bind (if length xs \<le> offset
              then rt_modify (\<lambda>s. s\<lparr>solver_inputs := solver_inputs s @ replicate (offset + 1 - length (solver_inputs s)) 0\<rparr>)
              else rt_return ()) (\<lambda>_.
     rt_modify (\<lambda>s. s\<lparr>solver_inputs := (solver_inputs s)[offset := val]\<rparr>)))"

definition qsym_get_input_byte ::
    "('q, 'e) qsym \<Rightarrow> u64 \<Rightarrow> u8 \<Rightarrow> (('q, 'e) qsym_state, 'e option) rt" where
  "qsym_get_input_byte Q offset val =
     rt_bind (pushInputByte (unat offset) val) (\<lambda>_. qsym_build Q (createRead (unat offset)) [])"

definition qsym_get_input_byte_with_prefix ::
    "('q, 'e) qsym \<Rightarrow> string \<Rightarrow> u64 \<Rightarrow> u8 \<Rightarrow> (('q, 'e) qsym_state, 'e option) rt" where
  "qsym_get_input_byte_with_prefix Q prefix offset val =
     rt_bind (pushInputByte (unat offset) val) (\<lambda>_. qsym_build Q (createRead (unat offset)) [])"

subsection \<open>Path constraints, call stack and solver\<close>

definition qsym_push_path_constraint ::
    "('q, 'e) qsym \<Rightarrow> 'e option \<Rightarrow> bool \<Rightarrow> u64 \<Rightarrow> (('q, 'e) qsym_state, unit) rt" where
  "qsym_push_path_constraint Q constraint taken site_id =
     (if constraint = None then rt_return ()
      else rt_bind (qsym_at constraint) (\<lambda>e.
        rt_modify (\<lambda>s. let (saves, q) = addJcc Q e taken site_id (solver_inputs s) (qsym_internal s)
          in s\<lparr>qsym_internal := q, save_requests := save_requests s @ saves\<rparr>)))"

definition qsym_notify_call :: "('q, 'e) qsym \<Rightarrow> u64 \<Rightarrow> (('q, 'e) qsym_state, unit) rt" where
  "qsym_notify_call Q site_id = on_qsym (visitCall Q site_id)"

definition qsym_notify_ret :: "('q, 'e) qsym \<Rightarrow> u64 \<Rightarrow> (('q, 'e) qsym_state, unit) rt" where
  "qsym_notify_ret Q site_id = on_qsym (visitRet Q site_id)"

definition qsym_notify_basic_block :: "('q, 'e) qsym \<Rightarrow> u64 \<Rightarrow> (('q, 'e) qsym_state, unit) rt" where
  "qsym_notify_basic_block Q site_id = on_qsym (visitBasicBlock Q site_id)"

text \<open>The string in the buffer of 4096 characters, without its terminating zero.\<close>

definition qsym_expr_to_string :: "('q, 'e) qsym \<Rightarrow> 'e option \<Rightarrow> (('q, 'e) qsym_state, string) rt" where
  "qsym_expr_to_string Q expr =
     (case expr of None \<Rightarrow> rt_raise Null_expression
      | Some e \<Rightarrow> let expr_string = expr_string Q e;
                      copied = min (length expr_string) (4096 - 1)
                  in rt_return (take copied expr_string))"

definition qsym_feasible :: "('q, 'e) qsym \<Rightarrow> 'e option \<Rightarrow> (('q, 'e) qsym_state, bool) rt" where
  "qsym_feasible Q expr =
     (case expr of None \<Rightarrow> rt_raise Null_expression
      | Some e \<Rightarrow>
          rt_bind (on_qsym (expr_simplify Q e)) (\<lambda>_.
          rt_bind (on_qsym (qsym_push Q)) (\<lambda>_.
          rt_bind (on_qsym (qsym_add Q e)) (\<lambda>_.
          rt_bind (rt_get (\<lambda>s. qsym_check Q (qsym_internal s))) (\<lambda>(answer, q).
          rt_bind (on_qsym (\<lambda>_. q)) (\<lambda>_.
          rt_bind (on_qsym (qsym_pop Q)) (\<lambda>_.
          rt_return (answer = Q_sat))))))))"

definition qsym_collect_garbage :: "nat \<Rightarrow> 'e set \<Rightarrow> (('q, 'e) qsym_state, unit) rt" where
  "qsym_collect_garbage threshold reachableExpressions =
     rt_bind (rt_get q_allocated) (\<lambda>known.
     if card known < threshold then rt_return ()
     else rt_modify (\<lambda>s. s\<lparr>q_allocated := Set.filter (\<lambda>e. e \<in> reachableExpressions) (q_allocated s)\<rparr>))"

subsection \<open>Test cases\<close>

definition qsym_set_test_case_handler :: "u64 option \<Rightarrow> (('q, 'e) qsym_state, unit) rt" where
  "qsym_set_test_case_handler handler = rt_modify (\<lambda>s. s\<lparr>g_test_case_handler := handler\<rparr>)"

text \<open>
  \<open>EnhancedQsymSolver::saveValues\<close>, which QSYM calls back for a new test case; it clears the expressions of the
  handler's two parameters.
\<close>

definition saveValues ::
    "('q, 'e) qsym \<Rightarrow> string \<times> u8 list \<Rightarrow> ((('q, 'e) qsym_state, 'e) runtime, unit) rt" where
  "saveValues Q test_case =
     rt_bind (rt_get (\<lambda>s. g_test_case_handler (backend_state s))) (\<lambda>handler.
     case handler of
       Some h \<Rightarrow>
         (let vals = snd test_case in
          rt_bind (sym_set_parameter_expression 0 None) (\<lambda>_.
          rt_bind (sym_set_parameter_expression 1 None) (\<lambda>_.
          on_backend (rt_modify (\<lambda>s. s\<lparr>handled := handled s @ [(h, vals)]\<rparr>)))))
     | None \<Rightarrow> on_backend (on_qsym (Solver_saveValues Q (fst test_case) (snd test_case))))"

fun save_all ::
    "('q, 'e) qsym \<Rightarrow> (string \<times> u8 list) list \<Rightarrow> ((('q, 'e) qsym_state, 'e) runtime, unit) rt" where
  "save_all Q [] = rt_return ()"
| "save_all Q (t # ts) = rt_bind (saveValues Q t) (\<lambda>_. save_all Q ts)"

text \<open>A path constraint with the callbacks of QSYM, in the order of its test cases.\<close>

definition qsym_push_and_save ::
    "('q, 'e) qsym \<Rightarrow> 'e option \<Rightarrow> bool \<Rightarrow> u64 \<Rightarrow> ((('q, 'e) qsym_state, 'e) runtime, unit) rt" where
  "qsym_push_and_save Q constraint taken site_id =
     rt_bind (on_backend (qsym_push_path_constraint Q constraint taken site_id)) (\<lambda>_.
     rt_bind (rt_get (\<lambda>s. save_requests (backend_state s))) (\<lambda>requests.
     rt_bind (on_backend (rt_modify (\<lambda>s. s\<lparr>save_requests := []\<rparr>))) (\<lambda>_.
     save_all Q requests)))"

subsection \<open>Initialization\<close>

text \<open>\<open>exit(-1)\<close> ends the process: the model stops with an error.\<close>

definition on_config :: "(config, unit) rt \<Rightarrow> (('b, 'e, 'w) process, unit) rt" where
  "on_config m s = (case m (g_config s) of Inl err \<Rightarrow> Inl err | Inr (_, c) \<Rightarrow> Inr ((), s\<lparr>g_config := c\<rparr>))"

definition qsym_initialize ::
    "('q, 'e) qsym \<Rightarrow> environment \<Rightarrow> (string \<Rightarrow> bool) \<Rightarrow> (string \<Rightarrow> bool) \<Rightarrow>
     ((('q, 'e) qsym_state, 'e, 'w) process, unit) rt" where
  "qsym_initialize Q env fs_exists fs_is_directory =
     rt_bind (rt_get (\<lambda>p. q_initialized (backend_state (rtl p)))) (\<lambda>initialized.
     if initialized then rt_return ()
     else
       rt_bind (on_runtime (on_backend (rt_modify (\<lambda>s. s\<lparr>q_initialized := True\<rparr>)))) (\<lambda>_.
       rt_bind (on_config (loadConfig env)) (\<lambda>_.
       rt_bind initLibcWrappers (\<lambda>_.
       rt_bind (rt_get g_config) (\<lambda>c.
       if input c = NoInput then rt_return ()
       else if \<not> fs_exists (outputDir c) \<or> \<not> fs_is_directory (outputDir c)
       then rt_raise (Runtime_error ''the output directory does not exist'')
       else on_runtime (on_backend (
         rt_bind (on_qsym (new_solver Q (outputDir c) (aflCoverageMap c))) (\<lambda>_.
         on_qsym (if pruning c then PruneExprBuilder Q else SymbolicExprBuilder Q)))))))))"

subsection \<open>The backend\<close>

text \<open>The file does not define \<open>_sym_get_integer\<close>; \<open>get_int\<close> stands for whatever the program is linked with.\<close>

definition qsym_backend ::
    "('q, 'e) qsym \<Rightarrow> (string \<Rightarrow> (('q, 'e) qsym_state, 'e option) rt) \<Rightarrow> (('q, 'e) qsym_state, 'e) backend" where
  "qsym_backend Q get_int = \<lparr>
     build_integer = qsym_build_integer Q,
     build_binary = qsym_build_binary Q,
     build_ite = qsym_build_ite Q,
     build_sext = qsym_build_sext Q,
     build_zext = qsym_build_zext Q,
     build_trunc = qsym_build_trunc Q,
     build_bool_to_bit = qsym_build_bool_to_bit Q,
     concat_helper = qsym_concat_helper Q,
     extract_helper = qsym_extract_helper Q,
     bits_helper = qsym_bits_helper Q,
     get_input_byte = qsym_get_input_byte Q,
     get_input_byte_with_prefix = qsym_get_input_byte_with_prefix Q,
     get_integer = get_int,
     push_path_constraint = qsym_push_path_constraint Q\<rparr>"

end
