(* ===== verification/Qsym_Laws.thy ===== *)
theory Qsym_Laws
  imports Qsym_Backend Libc_Laws
begin

text \<open>
  The QSYM backend keeps the backend contract for every QSYM whose builder has the meaning of the expressions it
  is documented to build (SMT-LIB's, over the bytes of the input; this is the builder without pruning), and its input
  bytes agree with the memory they shadow. An algebra of QSYM's builder calls satisfies the laws.
\<close>

unbundle bit_operations_syntax

subsection \<open>The meaning of QSYM's expressions\<close>

fun qsym_z3 :: "qsym_binary \<Rightarrow> z3_op" where
  "qsym_z3 Q_Add = Z_bv2 Z_bvadd"
| "qsym_z3 Q_Sub = Z_bv2 Z_bvsub"
| "qsym_z3 Q_Mul = Z_bv2 Z_bvmul"
| "qsym_z3 Q_UDiv = Z_bv2 Z_bvudiv"
| "qsym_z3 Q_SDiv = Z_bv2 Z_bvsdiv"
| "qsym_z3 Q_URem = Z_bv2 Z_bvurem"
| "qsym_z3 Q_SRem = Z_bv2 Z_bvsrem"
| "qsym_z3 Q_Shl = Z_bv2 Z_bvshl"
| "qsym_z3 Q_LShr = Z_bv2 Z_bvlshr"
| "qsym_z3 Q_AShr = Z_bv2 Z_bvashr"
| "qsym_z3 Q_Slt = Z_bv2 Z_bvslt"
| "qsym_z3 Q_Sle = Z_bv2 Z_bvsle"
| "qsym_z3 Q_Sgt = Z_bv2 Z_bvsgt"
| "qsym_z3 Q_Sge = Z_bv2 Z_bvsge"
| "qsym_z3 Q_Ult = Z_bv2 Z_bvult"
| "qsym_z3 Q_Ule = Z_bv2 Z_bvule"
| "qsym_z3 Q_Ugt = Z_bv2 Z_bvugt"
| "qsym_z3 Q_Uge = Z_bv2 Z_bvuge"
| "qsym_z3 Q_Equal = Z_eq"
| "qsym_z3 Q_Distinct = Z_eq"
| "qsym_z3 Q_LAnd = Z_and"
| "qsym_z3 Q_And = Z_bv2 Z_bvand"
| "qsym_z3 Q_LOr = Z_or"
| "qsym_z3 Q_Or = Z_bv2 Z_bvor"
| "qsym_z3 Q_Xor = Z_bv2 Z_bvxor"

definition negated :: "smt_value option \<Rightarrow> smt_value option" where
  "negated v = (case v of Some (BoolV p) \<Rightarrow> Some (BoolV (\<not> p)) | _ \<Rightarrow> None)"

fun bv_op_sem :: "qsym_op \<Rightarrow> nat \<Rightarrow> int \<Rightarrow> smt_value option" where
  "bv_op_sem createNeg n x = Some (BVV n (take_bit n (- x)))"
| "bv_op_sem createNot n x = Some (BVV n (take_bit n (NOT x)))"
| "bv_op_sem (createSExt m) n x = (if n \<le> m then Some (BVV m (take_bit m (sval n x))) else None)"
| "bv_op_sem (createZExt m) n x = (if n \<le> m then Some (BVV m x) else None)"
| "bv_op_sem (createTrunc m) n x = (if 0 < m \<and> m \<le> n then Some (BVV m (take_bit m x)) else None)"
| "bv_op_sem (createExtract i m) n x =
     (if 0 < m \<and> i + m \<le> n then Some (BVV m (take_bit m (drop_bit i x))) else None)"
| "bv_op_sem _ n x = None"

fun qsym_unary_sem :: "qsym_op \<Rightarrow> smt_value \<Rightarrow> smt_value option" where
  "qsym_unary_sem f (BVV n x) = bv_op_sem f n x"
| "qsym_unary_sem (boolToBit n) (BoolV p) = (if 0 < n then Some (BVV n (of_bool p)) else None)"
| "qsym_unary_sem f v = None"

fun qsym_binary_sem :: "qsym_op \<Rightarrow> smt_value \<Rightarrow> smt_value \<Rightarrow> smt_value option" where
  "qsym_binary_sem (createBinary Q_Distinct) v w = negated (z3_sem Z_eq [v, w])"
| "qsym_binary_sem (createBinary g) v w = z3_sem (qsym_z3 g) [v, w]"
| "qsym_binary_sem createConcat v w = z3_sem Z_concat [v, w]"
| "qsym_binary_sem f v w = None"

text \<open>The input is a function from offsets to bytes.\<close>

fun qsym_nullary_sem :: "(nat \<Rightarrow> u8) \<Rightarrow> qsym_op \<Rightarrow> smt_value option" where
  "qsym_nullary_sem \<sigma> (createConstant k n) = (if 0 < n then Some (BVV n (take_bit n k)) else None)"
| "qsym_nullary_sem \<sigma> createTrue = Some (BoolV True)"
| "qsym_nullary_sem \<sigma> createFalse = Some (BoolV False)"
| "qsym_nullary_sem \<sigma> (createBool p) = Some (BoolV p)"
| "qsym_nullary_sem \<sigma> (createRead i) = Some (BVV 8 (uint (\<sigma> i)))"
| "qsym_nullary_sem \<sigma> f = None"

fun qsym_sem :: "(nat \<Rightarrow> u8) \<Rightarrow> qsym_op \<Rightarrow> smt_value list \<Rightarrow> smt_value option" where
  "qsym_sem \<sigma> f [] = qsym_nullary_sem \<sigma> f"
| "qsym_sem \<sigma> f [v] = qsym_unary_sem f v"
| "qsym_sem \<sigma> f [v, w] = qsym_binary_sem f v w"
| "qsym_sem \<sigma> f [c, v, w] = (if f = createIte then ite_sem c v w else None)"
| "qsym_sem \<sigma> f _ = None"

subsection \<open>The laws\<close>

fun not_float :: "smt_value \<Rightarrow> bool" where
  "not_float (FloatV d x) = False"
| "not_float _ = True"

text \<open>\<open>frames\<close> are the assertions of the solver, one list per \<open>push\<close>.\<close>

locale qsym_laws =
  fixes Q :: "('q, 'e) qsym" and sem :: "(nat \<Rightarrow> u8) \<Rightarrow> 'e \<Rightarrow> smt_value" and frames :: "'q \<Rightarrow> 'e list list"
  assumes q_range: "in_range (sem \<sigma> x)"
    and q_not_float: "not_float (sem \<sigma> x)"
    and q_create: "(\<And>\<sigma>. qsym_sem \<sigma> f (map (sem \<sigma>) xs) = Some (F \<sigma>)) \<Longrightarrow>
      \<exists>e q'. create Q f xs q = Some (e, q') \<and> (\<forall>\<sigma>. sem \<sigma> e = F \<sigma>)"
    and q_bits: "(\<And>\<sigma>. \<exists>i. sem \<sigma> x = BVV n i) \<Longrightarrow> expr_bits Q x = n"
    and q_simplify: "frames (expr_simplify Q x q) = frames q"
    and q_push: "frames (qsym_push Q q) = [] # frames q"
    and q_add: "frames q = fs # fss \<Longrightarrow> frames (qsym_add Q x q) = (x # fs) # fss"
    and q_pop: "frames q = fs # fss \<Longrightarrow> frames (qsym_pop Q q) = fss"
    and q_check: "qsym_check Q q = (answer, q') \<Longrightarrow> frames q' = frames q"
      "qsym_check Q q = (Q_sat, q') \<Longrightarrow> \<exists>\<sigma>. \<forall>c \<in> set (concat (frames q)). sem \<sigma> c = BoolV True"

subsection \<open>The contract\<close>

lemma qsym_register_ok:
  "rt_ok (qsym_registerExpression e) s (\<lambda>x s'. x = Some e \<and> e \<in> q_allocated s' \<and> q_allocated s \<subseteq> q_allocated s' \<and>
     solver_inputs s' = solver_inputs s \<and> qsym_internal s' = qsym_internal s)"
  by (auto simp: qsym_registerExpression_def rt_simps)

lemma qsym_at_all_known: "set xs \<subseteq> q_allocated s \<Longrightarrow> qsym_at_all (map Some xs) s = Inr (xs, s)"
  by (induction xs) (auto simp: qsym_at_def rt_bind_def rt_get_def rt_return_def)

text \<open>An expression that was never registered, or was collected, is refused.\<close>

lemma qsym_build_unknown:
  assumes "e \<notin> q_allocated s"
  shows "qsym_build Q f (Some e # xs) s = Inl Out_of_range" "qsym_build Q f (None # xs) s = Inl Out_of_range"
  using assms by (simp_all add: qsym_build_def qsym_at_def rt_bind_def rt_get_def rt_raise_def)

lemma qsym_binary_other: "g \<noteq> Q_Distinct \<Longrightarrow> qsym_binary_sem (createBinary g) v w = z3_sem (qsym_z3 g) [v, w]"
  by (cases g) simp_all

lemma distinct_table:
  assumes "smt_binary f v w = Some r" "f \<in> {SNot_equal, SBool_xor}"
  shows "negated (z3_sem Z_eq [v, w]) = Some r"
  using assms by (cases v; cases w) (auto simp: negated_def z3_sem_def binary_sem_def eq_sem_def split: if_splits)

lemma qsym_name_z3:
  assumes "f \<notin> {SNot_equal, SBool_xor}" "qsym_name f = Some g"
  shows "g \<noteq> Q_Distinct" "qsym_z3 g = z3_name f"
  using assms by (cases f; auto)+

lemma qsym_name_none: "qsym_name f = None \<Longrightarrow> smt_binary f v w = Some r \<Longrightarrow> \<not> not_float v"
  by (cases f; cases v; cases w) (auto split: if_splits)

lemma qsym_binary_table:
  assumes "smt_binary f v w = Some r" "in_range v" "not_float v"
  shows "\<exists>g. qsym_name f = Some g \<and> qsym_sem \<sigma> (createBinary g) [v, w] = Some r"
proof (cases "f \<in> {SNot_equal, SBool_xor}")
  case True
  then show ?thesis using distinct_table [OF assms(1)] by auto
next
  case False
  obtain g where g: "qsym_name f = Some g" using qsym_name_none [OF _ assms(1)] assms(3) by (cases "qsym_name f") auto
  have "z3_sem (z3_name f) [v, w] = Some r" using binary_table [OF assms(1) _ assms(2)] False by simp
  then show ?thesis using g qsym_binary_other qsym_name_z3 [OF False g] by simp
qed

context qsym_laws
begin

lemma qsym_build_ok:
  assumes "set xs \<subseteq> q_allocated s" "\<And>\<sigma>. qsym_sem \<sigma> f (map (sem \<sigma>) xs) = Some (F \<sigma>)"
  shows "rt_ok (qsym_build Q f (map Some xs)) s (\<lambda>x s'. \<exists>e. x = Some e \<and> e \<in> q_allocated s' \<and>
    q_allocated s \<subseteq> q_allocated s' \<and> (\<forall>\<sigma>. sem \<sigma> e = F \<sigma>) \<and> solver_inputs s' = solver_inputs s)"
proof -
  obtain e q' where e: "create Q f xs (qsym_internal s) = Some (e, q')" "\<forall>\<sigma>. sem \<sigma> e = F \<sigma>"
    using q_create [OF assms(2)] by blast
  show ?thesis
    unfolding qsym_build_def rt_ok_bind
    using e by (auto simp: rt_ok_def [of "qsym_at_all (map Some xs)"] qsym_at_all_known [OF assms(1)] qsym_create_def on_qsym_def rt_simps
        intro!: rt_ok_mono [OF qsym_register_ok])
qed

lemma qsym_build_denotes:
  assumes "set xs \<subseteq> q_allocated s" "\<And>\<sigma>. qsym_sem \<sigma> f (map (sem \<sigma>) xs) = Some (F \<sigma>)"
  shows "denotes q_allocated sem (qsym_build Q f (map Some xs)) s F"
  unfolding denotes_def by (rule rt_ok_mono [OF qsym_build_ok [OF assms]]) blast+

lemmas qsym_build0 = qsym_build_denotes [where xs = "[]", simplified]
lemmas qsym_build1 = qsym_build_denotes [where xs = "[x]" for x, simplified]
lemmas qsym_build2 = qsym_build_denotes [where xs = "[x, y]" for x y, simplified]
lemmas qsym_build3 = qsym_build_denotes [where xs = "[x, y, w]" for x y w, simplified]

lemma qsym_binary_denotes:
  assumes "x \<in> q_allocated s" "y \<in> q_allocated s" "\<And>\<sigma>. smt_binary f (sem \<sigma> x) (sem \<sigma> y) = Some (F \<sigma>)"
  shows "denotes q_allocated sem (qsym_build_binary Q f (Some x) (Some y)) s F"
proof -
  obtain g where g: "qsym_name f = Some g"
    using qsym_binary_table [OF assms(3) q_range q_not_float] by blast
  have "qsym_sem \<sigma> (createBinary g) [sem \<sigma> x, sem \<sigma> y] = Some (F \<sigma>)" for \<sigma>
    using qsym_binary_table [OF assms(3) q_range q_not_float, of \<sigma> \<sigma>] g by auto
  then show ?thesis using qsym_build2 [of x s y "createBinary g" F] assms(1,2) by (simp add: qsym_build_binary_def g)
qed

lemma qsym_ext_denotes:
  assumes "x \<in> q_allocated s" "\<And>\<sigma>. sem \<sigma> x = BVV n (f \<sigma>)"
  shows "denotes q_allocated sem (qsym_build_sext Q (Some x) w) s (\<lambda>\<sigma>. BVV (n + unat w) (take_bit (n + unat w) (sval n (f \<sigma>))))"
    and "denotes q_allocated sem (qsym_build_zext Q (Some x) w) s (\<lambda>\<sigma>. BVV (n + unat w) (f \<sigma>))"
proof -
  have "expr_bits Q x = n" by (rule q_bits) (simp add: assms(2))
  then show "denotes q_allocated sem (qsym_build_sext Q (Some x) w) s (\<lambda>\<sigma>. BVV (n + unat w) (take_bit (n + unat w) (sval n (f \<sigma>))))"
    "denotes q_allocated sem (qsym_build_zext Q (Some x) w) s (\<lambda>\<sigma>. BVV (n + unat w) (f \<sigma>))"
    using assms by (auto simp: qsym_build_sext_def qsym_build_zext_def add.commute [of "unat w"] intro!: qsym_build1)
qed

lemma qsym_extract_denotes:
  assumes "x \<in> q_allocated s" "\<And>\<sigma>. sem \<sigma> x = BVV n (f \<sigma>)" "lo \<le> hi" "hi < n" "n < 2 ^ 32"
  shows "denotes q_allocated sem (qsym_extract_helper Q (Some x) hi lo) s (\<lambda>\<sigma>. BVV (hi - lo + 1) (bv_extract hi lo (f \<sigma>)))"
proof -
  have "size_sub hi lo + 1 = hi - lo + 1" using assms(3-5) by (subst size_sub_le) auto
  moreover have "hi - lo + 1 < 2 ^ 64" using assms(3-5) by simp
  ultimately have m: "(size_sub hi lo + 1) mod 2 ^ 64 = hi - lo + 1" by simp
  show ?thesis
    unfolding qsym_extract_helper_def m
    by (rule qsym_build1) (use assms in \<open>simp_all add: bv_extract_def drop_bit_eq_div\<close>)
qed

lemma qsym_constant_denotes:
  "0 < n \<Longrightarrow> denotes q_allocated sem (qsym_build Q (createConstant k n) []) s (\<lambda>_. BVV n (take_bit n k))"
  by (rule qsym_build0) simp

lemma qsym_bits_ok:
  assumes "\<And>\<sigma>. \<exists>i. sem \<sigma> x = BVV n i"
  shows "\<exists>s'. qsym_bits_helper Q (Some x) s = Inr (n, s') \<and> q_allocated s \<subseteq> q_allocated s'"
  using q_bits [OF assms] by (simp add: qsym_bits_helper_def rt_return_def)

end

sublocale qsym_laws \<subseteq> contract: expr_backend "qsym_backend Q get_int" q_allocated sem for get_int
proof
  show "0 < n \<and> 0 \<le> i \<and> i < 2 ^ n" if "sem \<sigma> x = BVV n i" for \<sigma> x n i
    using q_range [of \<sigma> x] that by simp
  show "denotes q_allocated sem (build_integer (qsym_backend Q get_int) k w) s (\<lambda>_. BVV (unat w) (take_bit (unat w) (uint k)))"
    if "0 < unat w" for k and w :: u8 and s
    using qsym_constant_denotes [OF that] by (simp add: qsym_backend_def qsym_build_integer_def)
  show "denotes q_allocated sem (build_ite (qsym_backend Q get_int) (Some c) (Some x) (Some y)) s (\<lambda>\<sigma>. if p \<sigma> then sem \<sigma> x else sem \<sigma> y)"
    if "c \<in> q_allocated s" "x \<in> q_allocated s" "y \<in> q_allocated s" "\<And>\<sigma>. sem \<sigma> c = BoolV (p \<sigma>)" "\<And>\<sigma>. same_sort (sem \<sigma> x) (sem \<sigma> y)"
    for c s x y p
    using qsym_build3 [of c s x y createIte] that by (simp add: qsym_backend_def qsym_build_ite_def ite_sem_def)
  show "denotes q_allocated sem (build_trunc (qsym_backend Q get_int) (Some x) w) s (\<lambda>\<sigma>. BVV (unat w) (take_bit (unat w) (f \<sigma>)))"
    if "x \<in> q_allocated s" "\<And>\<sigma>. sem \<sigma> x = BVV n (f \<sigma>)" "0 < unat w" "unat w \<le> n" for x s n f and w :: u8
    using qsym_build1 [of x s "createTrunc (unat w)"] that by (simp add: qsym_backend_def qsym_build_trunc_def)
  show "denotes q_allocated sem (build_bool_to_bit (qsym_backend Q get_int) (Some x)) s (\<lambda>\<sigma>. BVV 1 (of_bool (p \<sigma>)))"
    if "x \<in> q_allocated s" "\<And>\<sigma>. sem \<sigma> x = BoolV (p \<sigma>)" for x s p
    using qsym_build1 [of x s "boolToBit 1"] that by (simp add: qsym_backend_def qsym_build_bool_to_bit_def)
  show "denotes q_allocated sem (concat_helper (qsym_backend Q get_int) (Some x) (Some y)) s (\<lambda>\<sigma>. BVV (n + m) (bv_concat m (f \<sigma>) (g \<sigma>)))"
    if "x \<in> q_allocated s" "y \<in> q_allocated s" "\<And>\<sigma>. sem \<sigma> x = BVV n (f \<sigma>)" "\<And>\<sigma>. sem \<sigma> y = BVV m (g \<sigma>)" for x s y n f m g
    using qsym_build2 [of x s y createConcat] that
    by (simp add: qsym_backend_def qsym_concat_helper_def z3_sem_def binary_sem_def bv_concat_def push_bit_eq_mult)
  show "denotes q_allocated sem (extract_helper (qsym_backend Q get_int) (Some x) hi lo) s (\<lambda>\<sigma>. BVV (hi - lo + 1) (bv_extract hi lo (f \<sigma>)))"
    if "x \<in> q_allocated s" "\<And>\<sigma>. sem \<sigma> x = BVV n (f \<sigma>)" "lo \<le> hi" "hi < n" "n < 2 ^ 32" for x s n f lo hi
    using qsym_extract_denotes [OF that] by (simp add: qsym_backend_def)
qed (auto simp: qsym_backend_def qsym_build_sext_def [where expr = None] qsym_build_zext_def [where expr = None] qsym_build_trunc_def
    qsym_build_bool_to_bit_def rt_return_def intro: qsym_binary_denotes qsym_ext_denotes qsym_bits_ok)

sublocale qsym_laws \<subseteq> pushes: constraint_backend "qsym_backend Q get_int" q_allocated sem for get_int
proof
  show "\<exists>s'. push_path_constraint (qsym_backend Q get_int) (Some c) taken site s = Inr ((), s') \<and> q_allocated s \<subseteq> q_allocated s'"
    if "c \<in> q_allocated s" for c s taken site
    using that by (auto simp: qsym_backend_def qsym_push_path_constraint_def qsym_at_def rt_bind_def rt_get_def rt_modify_def rt_return_def
        split: prod.split)
qed

context qsym_laws
begin

lemma qsym_contract: "constraint_backend (qsym_backend Q get_int) q_allocated sem"
  by (rule pushes.constraint_backend_axioms)

lemma axioms_contract: "expr_backend (qsym_backend Q get_int) q_allocated sem"
  by (rule contract.expr_backend_axioms)

end

subsection \<open>Inputs\<close>

text \<open>The input as the solver knows it: bytes that were never read are zero.\<close>

definition input_at :: "('q, 'e) qsym_state \<Rightarrow> nat \<Rightarrow> u8" where
  "input_at s i = (if i < length (solver_inputs s) then solver_inputs s ! i else 0)"

lemma input_at_cong: "solver_inputs s' = solver_inputs s \<Longrightarrow> input_at s' = input_at s"
  by (simp add: input_at_def fun_eq_iff)

lemma pushInputByte_run:
  "rt_ok (pushInputByte k v) s (\<lambda>_ s'. (\<exists>xs. s' = s\<lparr>solver_inputs := xs\<rparr>) \<and> input_at s' = (input_at s)(k := v))"
proof -
  have "input_at (s\<lparr>solver_inputs := (solver_inputs s @ replicate (k + 1 - length (solver_inputs s)) 0)[k := v]\<rparr>) = (input_at s)(k := v)"
    if "length (solver_inputs s) \<le> k"
    using that by (auto simp: input_at_def fun_eq_iff nth_append nth_list_update)
  moreover have "input_at (s\<lparr>solver_inputs := (solver_inputs s)[k := v]\<rparr>) = (input_at s)(k := v)"
    if "\<not> length (solver_inputs s) \<le> k"
    using that by (auto simp: input_at_def fun_eq_iff)
  ultimately show ?thesis by (auto simp: pushInputByte_def rt_simps)
qed

context qsym_laws
begin

text \<open>The expression of an input byte is the byte at its offset, whatever was read before.\<close>

lemma get_input_byte_ok:
  "rt_ok (qsym_get_input_byte Q off v) s (\<lambda>x s'. \<exists>e. x = Some e \<and> e \<in> q_allocated s' \<and> q_allocated s \<subseteq> q_allocated s' \<and>
     (\<forall>\<sigma>. sem \<sigma> e = BVV 8 (uint (\<sigma> (unat off)))) \<and> input_at s' = (input_at s)(unat off := v))"
  unfolding qsym_get_input_byte_def rt_ok_bind
proof (rule rt_ok_mono [OF pushInputByte_run], clarify)
  fix xs
  assume "input_at (s\<lparr>solver_inputs := xs\<rparr>) = (input_at s)(unat off := v)"
  then have "input_at s' = (input_at s)(unat off := v)" if "solver_inputs s' = xs" for s' :: "('q, 'e) qsym_state"
    using input_at_cong [of s' "s\<lparr>solver_inputs := xs\<rparr>"] that by simp
  moreover have "rt_ok (qsym_build Q (createRead (unat off)) (map Some [])) (s\<lparr>solver_inputs := xs\<rparr>) (\<lambda>x s'. \<exists>e. x = Some e \<and> e \<in> q_allocated s' \<and>
    q_allocated (s\<lparr>solver_inputs := xs\<rparr>) \<subseteq> q_allocated s' \<and> (\<forall>\<sigma>. sem \<sigma> e = BVV 8 (uint (\<sigma> (unat off)))) \<and>
    solver_inputs s' = solver_inputs (s\<lparr>solver_inputs := xs\<rparr>))"
    by (rule qsym_build_ok) simp_all
  ultimately show "rt_ok (qsym_build Q (createRead (unat off)) []) (s\<lparr>solver_inputs := xs\<rparr>) (\<lambda>x s'. \<exists>e. x = Some e \<and> e \<in> q_allocated s' \<and>
    q_allocated s \<subseteq> q_allocated s' \<and> (\<forall>\<sigma>. sem \<sigma> e = BVV 8 (uint (\<sigma> (unat off)))) \<and> input_at s' = (input_at s)(unat off := v))"
    by (auto elim!: rt_ok_mono)
qed

lemma offset_of: "unat (off :: u64) + n < 2 ^ 64 \<Longrightarrow> i < n \<Longrightarrow> unat (off + of_nat i) = unat off + i"
  by (subst unat_add_lem [THEN iffD1]) (simp_all add: unat_of_nat)

lemma make_symbolic_generates:
  assumes "unat off + n < 2 ^ 64"
  shows "generates (\<lambda>i. rt_bind (rt_get (\<lambda>s. memory s (data + of_nat i))) (\<lambda>byte.
      on_backend (get_input_byte (qsym_backend Q get_int) (off + of_nat i) byte)))
    (\<lambda>i b. \<forall>j < i. input_at b (unat off + j) = m (data + of_nat j))
    (\<lambda>b b'. q_allocated b \<subseteq> q_allocated b')
    (\<lambda>i x b. \<exists>e. x = Some e \<and> e \<in> q_allocated b \<and> (\<forall>\<sigma>. sem \<sigma> e = BVV 8 (uint (\<sigma> (unat off + i))))) n m"
  unfolding generates_def
proof (intro conjI allI impI)
  fix i and s :: "(('q, 'e) qsym_state, 'e) runtime"
  assume i: "i < n" and m: "memory s = m" and I: "\<forall>j < i. input_at (backend_state s) (unat off + j) = m (data + of_nat j)"
  have off: "unat (off + of_nat i) = unat off + i" by (rule offset_of [OF assms i])
  have "rt_ok (on_backend (qsym_get_input_byte Q (off + of_nat i) (memory s (data + of_nat i)))) s (\<lambda>x s'.
      \<exists>b. s' = s\<lparr>backend_state := b\<rparr> \<and> q_allocated (backend_state s) \<subseteq> q_allocated b \<and>
        (\<forall>j < Suc i. input_at b (unat off + j) = m (data + of_nat j)) \<and>
        (\<exists>e. x = Some e \<and> e \<in> q_allocated b \<and> (\<forall>\<sigma>. sem \<sigma> e = BVV 8 (uint (\<sigma> (unat off + i))))))"
    unfolding rt_ok_on_backend
    by (rule rt_ok_mono [OF get_input_byte_ok]) (use I m in \<open>auto simp: off less_Suc_eq\<close>)
  then show "rt_ok (rt_bind (rt_get (\<lambda>s. memory s (data + of_nat i))) (\<lambda>byte.
      on_backend (get_input_byte (qsym_backend Q get_int) (off + of_nat i) byte))) s (\<lambda>x s'.
      \<exists>b. s' = s\<lparr>backend_state := b\<rparr> \<and> q_allocated (backend_state s) \<subseteq> q_allocated b \<and>
        (\<forall>j < Suc i. input_at b (unat off + j) = m (data + of_nat j)) \<and>
        (\<exists>e. x = Some e \<and> e \<in> q_allocated b \<and> (\<forall>\<sigma>. sem \<sigma> e = BVV 8 (uint (\<sigma> (unat off + i))))))"
    by (simp add: rt_simps qsym_backend_def)
qed (auto simp: reflp_def transp_def)

lemma make_symbolic_coherent:
  assumes "unat off + unat len < 2 ^ 64"
  shows "rt_ok (sym_make_symbolic (qsym_backend Q get_int) data len off) s (\<lambda>_ s'.
    (\<forall>j < unat len. \<exists>e. shadow_at (g_shadow_pages s') (data + of_nat j) = Some e \<and> e \<in> q_allocated (backend_state s') \<and>
      (\<forall>\<sigma>. sem \<sigma> e = BVV 8 (uint (\<sigma> (unat off + j)))) \<and>
      sem (input_at (backend_state s')) e = BVV 8 (uint (memory s' (data + of_nat j)))) \<and>
    (\<forall>a. \<not> a - data < len \<longrightarrow> shadow_at (g_shadow_pages s') a = shadow_at (g_shadow_pages s) a))"
  by (rule store_all_generates [OF make_symbolic_generates [OF assms], of s data get_int data])
    (fastforce simp: sym_make_symbolic_def rt_ok_def)+

subsection \<open>Feasibility\<close>

lemma feasible_ok:
  "rt_ok (qsym_feasible Q (Some e)) s (\<lambda>r s'.
    (r \<longrightarrow> (\<exists>\<sigma>. sem \<sigma> e = BoolV True \<and> (\<forall>c \<in> set (concat (frames (qsym_internal s))). sem \<sigma> c = BoolV True))) \<and>
    frames (qsym_internal s') = frames (qsym_internal s) \<and> q_allocated s' = q_allocated s \<and> solver_inputs s' = solver_inputs s)"
proof -
  let ?q = "qsym_add Q e (qsym_push Q (expr_simplify Q e (qsym_internal s)))"
  have q: "frames ?q = [e] # frames (qsym_internal s)"
    using q_add [OF q_push, of e] by (simp add: q_simplify)
  obtain answer q' where a: "qsym_check Q ?q = (answer, q')" by fastforce
  have "frames (qsym_pop Q q') = frames (qsym_internal s)" using q_pop [of q'] q_check(1) [OF a] q by simp
  moreover have "\<exists>\<sigma>. sem \<sigma> e = BoolV True \<and> (\<forall>c \<in> set (concat (frames (qsym_internal s))). sem \<sigma> c = BoolV True)" if "answer = Q_sat"
    using q_check(2) [of ?q q'] a q that by auto
  ultimately show ?thesis using a by (simp add: qsym_feasible_def on_qsym_def rt_simps)
qed

end

subsection \<open>A builder that keeps the laws\<close>

datatype q_term = QT qsym_op "q_term list"

fun q_term_sem :: "(nat \<Rightarrow> u8) \<Rightarrow> q_term \<Rightarrow> smt_value" where
  "q_term_sem \<sigma> (QT f ts) = (case qsym_sem \<sigma> f (map (q_term_sem \<sigma>) ts) of Some v \<Rightarrow> v | None \<Rightarrow> BoolV False)"

definition no_input :: "nat \<Rightarrow> u8" where
  "no_input = (\<lambda>_. 0)"

definition term_qsym :: "(q_term list list, q_term) qsym" where
  "term_qsym = \<lparr>
     create = (\<lambda>f ts q. if qsym_sem no_input f (map (q_term_sem no_input) ts) = None then None else Some (QT f ts, q)),
     expr_bits = (\<lambda>t. case q_term_sem no_input t of BVV n _ \<Rightarrow> n | _ \<Rightarrow> 0),
     expr_string = (\<lambda>_. []),
     expr_simplify = (\<lambda>_ q. q),
     addJcc = (\<lambda>t taken site input q. ([(to_string (length q), input)], q)),
     qsym_push = (#) [],
     qsym_add = (\<lambda>t q. (t # hd q) # tl q),
     qsym_check = (\<lambda>q. (if list_all (\<lambda>t. q_term_sem no_input t = BoolV True) (concat q) then Q_sat else Q_unknown, q)),
     qsym_pop = tl,
     visitCall = (\<lambda>_ q. q),
     visitRet = (\<lambda>_ q. q),
     visitBasicBlock = (\<lambda>_ q. q),
     Solver_saveValues = (\<lambda>_ _ q. q),
     new_solver = (\<lambda>_ _ _. [[]]),
     PruneExprBuilder = (\<lambda>q. q),
     SymbolicExprBuilder = (\<lambda>q. q)\<rparr>"

definition plain_value :: "smt_value \<Rightarrow> bool" where
  "plain_value v \<longleftrightarrow> in_range v \<and> not_float v"

lemma plain_bv [simp]: "plain_value (BVV n x) \<longleftrightarrow> 0 < n \<and> 0 \<le> x \<and> x < 2 ^ n" "plain_value (BoolV p)"
  by (simp_all add: plain_value_def)

lemma wider: "x < 2 ^ n \<Longrightarrow> n \<le> m \<Longrightarrow> x < (2 ^ m :: int)"
  by (erule order_less_le_trans) (rule power_increasing, simp_all)

lemma bv_op_plain: "bv_op_sem f n x = Some v \<Longrightarrow> plain_value (BVV n x) \<Longrightarrow> plain_value v"
  by (cases f) (auto split: if_splits intro: wider)

lemma bool_or_bv: "z3_sem (qsym_z3 g) [v, w] = Some r \<Longrightarrow> not_float r" "z3_sem Z_concat [v, w] = Some r \<Longrightarrow> not_float r"
proof -
  have bv: "bv_sem h n x y = Some r \<Longrightarrow> not_float r" for h n x y by (cases h) auto
  show "z3_sem (qsym_z3 g) [v, w] = Some r \<Longrightarrow> not_float r"
    using bv by (cases g; cases v; cases w) (auto simp: z3_sem_def binary_sem_def eq_sem_def split: if_splits)
  show "z3_sem Z_concat [v, w] = Some r \<Longrightarrow> not_float r"
    by (cases v; cases w) (auto simp: z3_sem_def binary_sem_def split: if_splits)
qed

lemma qsym_binary_plain:
  assumes "qsym_binary_sem f v w = Some r" "plain_value v" "plain_value w"
  shows "plain_value r"
proof -
  have z3: "in_range r" if "z3_sem h [v, w] = Some r" for h
    using z3_sem_range [OF that] assms(2,3) by (simp add: plain_value_def)
  have neg: "plain_value r" if "negated u = Some r" for u
    using that by (auto simp: negated_def split: option.splits smt_value.splits)
  have bin: "plain_value r" if "qsym_binary_sem (createBinary g) v w = Some r" for g
  proof (cases "g = Q_Distinct")
    case True
    then show ?thesis using neg that by simp
  next
    case False
    then show ?thesis using that z3 bool_or_bv(1) by (simp add: qsym_binary_other plain_value_def)
  qed
  show ?thesis
    using assms(1) bin z3 bool_or_bv(2) by (cases f) (simp_all add: plain_value_def)
qed

lemma qsym_sem_plain:
  assumes "qsym_sem \<sigma> f vs = Some v" "list_all plain_value vs"
  shows "plain_value v"
proof -
  have un: "plain_value r" if "qsym_unary_sem f u = Some r" "plain_value u" for u r
    using that bv_op_plain [of f] by (cases u; cases f) (auto split: if_splits simp: one_less_power simp del: bv_op_sem.simps)
  have nu: "plain_value r" if "qsym_nullary_sem \<sigma> f = Some r" for r
    using that uint_lt2p [where 'a = 8] by (cases f) (auto split: if_splits)
  have ite: "plain_value r" if "ite_sem c u w = Some r" "plain_value u" "plain_value w" for c u w r
    using that by (auto simp: ite_sem_def split: smt_value.splits if_splits)
  show ?thesis
    using assms nu un qsym_binary_plain ite by (cases "(\<sigma>, f, vs)" rule: qsym_sem.cases) (auto split: if_splits)
qed

lemma q_term_plain: "plain_value (q_term_sem \<sigma> t)"
proof (induction t)
  case (QT f ts)
  then have "list_all plain_value (map (q_term_sem \<sigma>) ts)" by (simp add: list_all_iff)
  then show ?case by (auto split: option.splits intro: qsym_sem_plain)
qed

interpretation term_qsym: qsym_laws term_qsym q_term_sem "\<lambda>q. q"
proof
  show "in_range (q_term_sem \<sigma> x)" "not_float (q_term_sem \<sigma> x)" for \<sigma> x
    using q_term_plain [of \<sigma> x] by (simp_all add: plain_value_def)
  show "\<exists>e q'. create term_qsym f xs q = Some (e, q') \<and> (\<forall>\<sigma>. q_term_sem \<sigma> e = F \<sigma>)"
    if "\<And>\<sigma>. qsym_sem \<sigma> f (map (q_term_sem \<sigma>) xs) = Some (F \<sigma>)" for f xs F q
    using that by (simp add: term_qsym_def)
  show "expr_bits term_qsym x = n" if "\<And>\<sigma>. \<exists>i. q_term_sem \<sigma> x = BVV n i" for x n
    using that [of no_input] by (auto simp: term_qsym_def)
  show "\<exists>\<sigma>. \<forall>c \<in> set (concat q). q_term_sem \<sigma> c = BoolV True" if "qsym_check term_qsym q = (Q_sat, q')" for q q'
    using that by (intro exI [of _ no_input]) (auto simp: term_qsym_def list_all_iff split: if_splits)
qed (auto simp: term_qsym_def)

end
