(* ===== verification/Qsym_Properties.thy ===== *)
theory Qsym_Properties
  imports Qsym_Laws
begin

text \<open>
  Properties of the run-time library with the QSYM backend, with instances at the algebra of QSYM's builder calls.
\<close>

subsection \<open>Expressions\<close>


definition read_byte :: "nat \<Rightarrow> q_term" where
  "read_byte i = QT (createRead i) []"

definition no_integer :: "string \<Rightarrow> ((q_term list list, q_term) qsym_state, q_term option) rt" where
  "no_integer name = rt_raise Undefined_behaviour"


text \<open>Loads and stores with the QSYM backend: the roundtrip of the common half, by the contract alone.\<close>

theorem qsym_write_then_read:
  assumes "qsym_laws Q sem frames" "e \<in> q_allocated (backend_state s)"
    and "\<And>\<sigma>. sem \<sigma> e = BVV (8 * unat len) (f \<sigma>)" "len \<noteq> 0" "8 * unat len < 2 ^ 32" "unat addr + unat len < 2 ^ 64"
  shows "rt_ok (sym_write_memory (qsym_backend Q get_int) addr len (Some e) le) s (\<lambda>_ s'.
    mem_denotes q_allocated sem (sym_read_memory (qsym_backend Q get_int) addr len le) s' (\<lambda>\<sigma>. sem \<sigma> e) \<and>
    (\<forall>a. \<not> a - addr < len \<longrightarrow> shadow_at (g_shadow_pages s') a = shadow_at (g_shadow_pages s) a))"
  by (rule expr_backend.write_read_same [OF qsym_laws.axioms_contract [OF assms(1)] assms(2-6)])

text \<open>The wrapper of \<open>memmove\<close> with the QSYM backend.\<close>

theorem qsym_memmove_moves:
  assumes "qsym_laws Q sem frames" "unat src + unat n < 2 ^ 64" "unat dest + unat n < 2 ^ 64"
    and "arg_ok q_allocated sem (rtl s) (0, 64)" "arg_ok q_allocated sem (rtl s) (1, 64)" "arg_ok q_allocated sem (rtl s) (2, 64)"
  shows "rt_ok (SYM_memmove (qsym_backend Q get_int) L dest src n) s (\<lambda>result s'. result = dest \<and>
    moved sem dest src n (rtl s) (rtl s') \<and> g_return_value (rtl s') = g_function_arguments (rtl s) ! 0)"
  by (rule constraint_backend.SYM_memmove_moves [OF qsym_laws.qsym_contract [OF assms(1)] assms(2-6)])

subsection \<open>Inputs\<close>

text \<open>C34. Symbolic input is coherent with concrete memory: after \<open>_sym_make_symbolic\<close>, the expression of every byte of the
  region denotes the byte of the input at its offset, and its value under the input that the solver has recorded is the
  byte in the program's memory; the rest of shadow memory is unchanged. The offsets may come in any order and leave gaps.\<close>

theorem qsym_inputs_coherent:
  assumes "qsym_laws Q sem frames" "unat off + unat len < 2 ^ 64"
  shows "rt_ok (sym_make_symbolic (qsym_backend Q get_int) data len off) s (\<lambda>_ s'.
    (\<forall>j < unat len. \<exists>e. shadow_at (g_shadow_pages s') (data + of_nat j) = Some e \<and> e \<in> q_allocated (backend_state s') \<and>
      (\<forall>\<sigma>. sem \<sigma> e = BVV 8 (uint (\<sigma> (unat off + j)))) \<and>
      sem (input_at (backend_state s')) e = BVV 8 (uint (memory s' (data + of_nat j)))) \<and>
    (\<forall>a. \<not> a - data < len \<longrightarrow> shadow_at (g_shadow_pages s') a = shadow_at (g_shadow_pages s) a))"
  by (rule qsym_laws.make_symbolic_coherent [OF assms])

definition qsym_example :: "((q_term list list, q_term) qsym_state, q_term) runtime" where
  "qsym_example =
     \<lparr>g_shadow_pages = Map.empty, memory = (\<lambda>a. ucast a), expr_cells = (\<lambda>_. None), g_return_value = None,
      g_function_arguments = replicate 256 (Some (read_byte 7)), expressionRegions = [], memory_input = True, inputOffset_plain = 0, inputOffset_type = 0,
      inputOffset_prefix = 0,
      backend_state = \<lparr>q_initialized = True, q_allocated = {read_byte 7, QT createTrue []}, solver_inputs = [], g_test_case_handler = Some 42,
        handled = [], save_requests = [], qsym_internal = [[]]\<rparr>\<rparr>"

theorem qsym_inputs_coherent_witness:
  "rt_ok (sym_make_symbolic (qsym_backend term_qsym no_integer) 4094 5 3) qsym_example (\<lambda>_ s'.
    (\<forall>j < unat (5::u64). \<exists>e. shadow_at (g_shadow_pages s') (4094 + of_nat j) = Some e \<and> e \<in> q_allocated (backend_state s') \<and>
      (\<forall>\<sigma>. q_term_sem \<sigma> e = BVV 8 (uint (\<sigma> (unat (3::u64) + j)))) \<and>
      q_term_sem (input_at (backend_state s')) e = BVV 8 (uint (memory s' (4094 + of_nat j)))) \<and>
    (\<forall>a. \<not> a - 4094 < 5 \<longrightarrow> shadow_at (g_shadow_pages s') a = shadow_at (g_shadow_pages qsym_example) a))"
  by (rule qsym_inputs_coherent [OF term_qsym.qsym_laws_axioms]) simp

subsection \<open>Solver\<close>

text \<open>Feasibility: the answer yes is only given when some input satisfies the expression and all constraints, and the solver
  is left as it was.\<close>

theorem qsym_feasible_sound:
  assumes "qsym_laws Q sem frames"
  shows "rt_ok (qsym_feasible Q (Some e)) s (\<lambda>r s'.
    (r \<longrightarrow> (\<exists>\<sigma>. sem \<sigma> e = BoolV True \<and> (\<forall>c \<in> set (concat (frames (qsym_internal s))). sem \<sigma> c = BoolV True))) \<and>
    frames (qsym_internal s') = frames (qsym_internal s) \<and> q_allocated s' = q_allocated s \<and> solver_inputs s' = solver_inputs s)"
  by (rule qsym_laws.feasible_ok [OF assms])

text \<open>Garbage collection keeps what shadow memory refers to.\<close>

theorem qsym_garbage_keeps_shadow:
  assumes "shadow_at (g_shadow_pages m) a = Some e" "e \<in> q_allocated s"
  shows "rt_ok (qsym_collect_garbage threshold (collectReachableExpressions m)) s (\<lambda>_ s'. e \<in> q_allocated s')"
  using assms(2) shadow_reachable [OF assms(1)] by (auto simp: qsym_collect_garbage_def rt_simps)

subsection \<open>Test cases\<close>




subsection \<open>Initialization\<close>

text \<open>Without an output directory, initialization ends the process; without symbolic input it succeeds and creates no solver.\<close>

theorem qsym_initialize_cases:
  assumes "\<not> q_initialized (backend_state (rtl p))" "loadConfig env (g_config p) = Inr ((), c)"
  shows "input c \<noteq> NoInput \<Longrightarrow> \<not> (fs_exists (outputDir c) \<and> fs_is_directory (outputDir c)) \<Longrightarrow>
      qsym_initialize Q env fs_exists fs_is_directory p = Inl (Runtime_error ''the output directory does not exist'')"
    and "input c = NoInput \<Longrightarrow>
      rt_ok (qsym_initialize Q env fs_exists fs_is_directory) p (\<lambda>_ p'. backend_state (rtl p') = (backend_state (rtl p))\<lparr>q_initialized := True\<rparr>)"
  using assms
  by (auto simp: qsym_initialize_def on_config_def initLibcWrappers_def on_runtime_def on_backend_def rt_ok_def rt_bind_def rt_get_def rt_modify_def
      rt_return_def rt_raise_def)

end
