(* ===== verification/Loop_Unrolling.thy ===== *)
theory Loop_Unrolling
  imports Main
begin

text \<open>
  \<open>compiler/Unroll.cpp\<close>: which loops the pass hands to LLVM's unroller, and with which options. The unroller and the
  analyses of a loop are parameters, over a state of LLVM (the function with its analyses).
\<close>

record unroll_options =
  unroll_count :: nat
  unroll_force :: bool
  ForgetAllSCEV :: bool

datatype unroll_result = Unmodified | PartiallyUnrolled | FullyUnrolled

record ('l, 'f) unroller =
  getLoopsInPreorder :: "'f \<Rightarrow> 'l list"
  getLoopPreheader :: "'l \<Rightarrow> 'f \<Rightarrow> bool"
  getBlocks_size :: "'l \<Rightarrow> 'f \<Rightarrow> nat"
  UnrollLoop :: "'l \<Rightarrow> unroll_options \<Rightarrow> 'f \<Rightarrow> unroll_result \<times> 'f"

definition unroll_step :: "('l, 'f) unroller \<Rightarrow> 'l \<Rightarrow> bool \<times> 'f \<Rightarrow> bool \<times> 'f" where
  "unroll_step U L = (\<lambda>(Changed, F).
     if \<not> getLoopPreheader U L F then (Changed, F)
     else if getBlocks_size U L F > 20 then (Changed, F)
     else
       let ULO = \<lparr>unroll_count = 2, unroll_force = True, ForgetAllSCEV = False\<rparr>;
           (r, F') = UnrollLoop U L ULO F
       in (Changed \<or> r \<noteq> Unmodified, F'))"

definition unroll :: "('l, 'f) unroller \<Rightarrow> 'f \<Rightarrow> bool \<times> 'f" where
  "unroll U F = fold (unroll_step U) (getLoopsInPreorder U F) (False, F)"

text \<open>The pass reports a change whenever there is one, as long as the unroller leaves the function alone when it says so.\<close>

lemma unroll_step_changed:
  assumes "\<And>L ULO F. fst (UnrollLoop U L ULO F) = Unmodified \<Longrightarrow> snd (UnrollLoop U L ULO F) = F"
    and "unroll_step U L (c, F) = (False, F')"
  shows "\<not> c \<and> F' = F"
  using assms(1) [of L "\<lparr>unroll_count = 2, unroll_force = True, ForgetAllSCEV = False\<rparr>" F] assms(2)
  by (auto simp: unroll_step_def split: if_splits prod.splits)

theorem unroll_unchanged:
  assumes "\<And>L ULO F. fst (UnrollLoop U L ULO F) = Unmodified \<Longrightarrow> snd (UnrollLoop U L ULO F) = F"
    and "unroll U F = (False, F')"
  shows "F' = F"
proof -
  have "fold (unroll_step U) Ls (c, G) = (False, G') \<Longrightarrow> \<not> c \<and> G' = G" for Ls c G G'
  proof (induction Ls arbitrary: c G)
    case (Cons L Ls)
    obtain c1 G1 where 1: "unroll_step U L (c, G) = (c1, G1)" by fastforce
    have "\<not> c1" "G' = G1" using Cons.IH [of c1 G1] Cons.prems 1 by simp_all
    then show ?case using unroll_step_changed [OF assms(1), of L c G G1] 1 by simp
  qed simp
  then show ?thesis using assms(2) unfolding unroll_def by blast
qed

end
