(* ===== verification/Spec2Isabelle.thy ===== *)
theory Spec2Isabelle
  imports Process_Properties Checker_Properties FP_Properties Compiler_Properties Qsym_Properties Loop_Unrolling
begin

text \<open>
  A verification library for SYMROS, a fork of SymCC: the compiler pass that makes a program compute symbolic
  expressions of its values, the passes that insert numeric checks, and the run-time library with its two
  backends.

  \<^bold>\<open>The program.\<close> The compiler half (\<^verbatim>\<open>src/compiler\<close>) is a set of LLVM passes. \<^verbatim>\<open>Overflow.cpp\<close> and \<^verbatim>\<open>FPOverflow.cpp\<close> put
  chains of checks behind arithmetic; \<^verbatim>\<open>Symbolizer.cpp\<close> visits every instruction and inserts calls that build, beside
  each concrete value, an expression over the input, and then rewrites each computation so that it costs nothing on
  concrete data; \<^verbatim>\<open>Runtime.cpp\<close> is the table of the functions it calls, and \<^verbatim>\<open>Pass.cpp\<close> drives it all. The
  run-time half (\<^verbatim>\<open>src/runtime\<close>) keeps the expressions of memory in shadow pages (\<^verbatim>\<open>Shadow.h\<close>), composes operations
  from basic ones (\<^verbatim>\<open>RuntimeCommon.cpp\<close>), marks live expressions (\<^verbatim>\<open>GarbageCollection.cpp\<close>), reads its configuration
  (\<^verbatim>\<open>Config.cpp\<close>), wraps C library functions (\<^verbatim>\<open>LibcWrappers.cpp\<close>), and has two backends with the basic
  operations and the path constraints: one on Z3 (\<^verbatim>\<open>backends/simple/Runtime.cpp\<close>), one on QSYM (\<^verbatim>\<open>backends/qsym/Runtime.cpp\<close>).

  \<^bold>\<open>Foundations.\<close>
  \<^item> \<^verbatim>\<open>Prelude\<close>: the state-and-error monad of fallible code (an assertion, an exception, undefined behaviour and a refusal
    of the solver are errors) with its total-correctness rules, and lemmas on lists, words and bits.
  \<^item> \<^verbatim>\<open>C_Strings\<close>, \<^verbatim>\<open>Bytes\<close>: string functions of the C library, and bit vectors as bytes in both orders.

  \<^bold>\<open>Run-time library.\<close>
  \<^item> \<^verbatim>\<open>Shadow\<close>: pages and iterators of \<^verbatim>\<open>Shadow.h\<close>; \<open>isConcrete\<close>, and the standard algorithms over
    iterators, with the addresses as 64-bit words that wrap around.
  \<^item> \<^verbatim>\<open>Backend\<close>: the record of operations that \<^verbatim>\<open>RuntimeCommon.cpp\<close> calls, the values that expressions
    denote, and the locale \<open>expr_backend\<close> with the laws of the contract.
  \<^item> \<^verbatim>\<open>Runtime_Exprs\<close>, \<^verbatim>\<open>Runtime_Aggregates\<close>, \<^verbatim>\<open>Runtime_Overflow\<close>: the composed operations of
    \<^verbatim>\<open>RuntimeCommon.cpp\<close> (extract, insert, bswap, saturation, shifts, abs, overflow) and what they denote.
  \<^item> \<^verbatim>\<open>Runtime_Memory\<close>, \<^verbatim>\<open>Memory_Laws\<close>, \<^verbatim>\<open>Store_Loops\<close>, \<^verbatim>\<open>Memory_Access\<close>: the state of the library (shadow pages, concrete
    memory, registers for arguments and results, regions), its memory operations and the loops that store
    one expression per byte.
  \<^item> \<^verbatim>\<open>Z3_Interface\<close>: the Z3 functions that the simple backend calls, as a record of parameters, the locale
    \<open>z3_laws\<close> of their documented meaning, and a term algebra that satisfies it.
  \<^item> \<^verbatim>\<open>Simple_Backend\<close>: every builder, the inputs, the path constraints, feasibility and garbage
    collection of \<^verbatim>\<open>backends/simple/Runtime.cpp\<close>; \<^verbatim>\<open>Simple_Backend_Laws\<close>, \<^verbatim>\<open>Simple_Inputs\<close>, \<^verbatim>\<open>Simple_Paths\<close>,
    \<^verbatim>\<open>Simple_Refusals\<close>: that it meets the contract, its reference counts, input variables, solver frames and
    queries, and its refusals.
  \<^item> \<^verbatim>\<open>Qsym_Backend\<close>: the adapter to QSYM, with QSYM's builder, solver and call stack as a record of parameters;
    \<^verbatim>\<open>Qsym_Laws\<close>, \<^verbatim>\<open>Qsym_Properties\<close>: the locale \<open>qsym_laws\<close>, that the adapter meets the same contract, that its input
    bytes agree with memory, and that test cases reach the handler.
  \<^item> \<^verbatim>\<open>Config\<close>: flags, numbers and environment variables. \<^verbatim>\<open>Libc\<close>, \<^verbatim>\<open>Libc_Wrappers\<close>: the C library (memory and string functions
    defined, system calls as parameters) and every wrapper; \<^verbatim>\<open>Libc_Laws\<close>, \<^verbatim>\<open>Libc_Inputs\<close>: what the wrappers do to the
    values of memory and to the position in the input.
  \<^item> \<^verbatim>\<open>Examples\<close>, \<^verbatim>\<open>Process_Properties\<close>, and this theory: concrete states, and the properties of the run-time library.

  \<^bold>\<open>Compiler.\<close>
  \<^item> \<^verbatim>\<open>Check_Blocks\<close>: basic blocks with checks, the drivers that visit a function, runs as an inductive relation, and the
    locale \<open>block_checker\<close>: what one visit does determines what a pass does. \<^verbatim>\<open>Overflow_Checker\<close> and \<^verbatim>\<open>FP_Checker\<close>
    model the two checkers with their passes and interpret it; \<^verbatim>\<open>Checker_Properties\<close>, \<^verbatim>\<open>FP_Properties\<close> hold their properties.
  \<^item> \<^verbatim>\<open>LLVM_IR\<close>, \<^verbatim>\<open>Runtime_Table\<close>, \<^verbatim>\<open>Emitted_Code\<close>: types, values and instructions, the table of imports, and the code
    that is inserted (calls, guards with PHI nodes, insertion points) with the state of the class \<^verbatim>\<open>Symbolizer\<close>.
  \<^item> \<^verbatim>\<open>Symbolizer\<close>, \<^verbatim>\<open>Short_Circuit\<close>: all visitors, and \<open>shortCircuitExpressionUses\<close>. \<^verbatim>\<open>Instrument\<close>: modules and functions as
    \<^verbatim>\<open>Pass.cpp\<close> instruments them. \<^verbatim>\<open>Loop_Unrolling\<close>: the choice of loops in \<^verbatim>\<open>Unroll.cpp\<close>.
  \<^item> \<^verbatim>\<open>IR_Exec\<close>: what the inserted code does at run time, against the library with the simple backend. \<^verbatim>\<open>Staging\<close> reasons about code
    that is built now and run later; \<^verbatim>\<open>Value_Exprs\<close>, \<^verbatim>\<open>Short_Circuit_Laws\<close>, \<^verbatim>\<open>Symbolizer_Laws\<close>, \<^verbatim>\<open>Operator_Laws\<close>: constants,
    short-circuited computations, and operators, comparisons and casts against an independent meaning of
    LLVM's instructions; \<^verbatim>\<open>Rewriting_Laws\<close>, \<^verbatim>\<open>Constraint_Laws\<close>, \<^verbatim>\<open>Call_Laws\<close>: rewriting in place, path
    constraints of branches and loops, and the passing of arguments.
  \<^item> \<^verbatim>\<open>Symbolizer_Invariants\<close>, \<^verbatim>\<open>Visitor_Totality\<close>: an invariant of all visitors, and that they never fail on the instructions
    they support. \<^verbatim>\<open>Compiler_Properties\<close>: the properties of the pass.

  \<^bold>\<open>What is shown.\<close> Storing and loading, copying and moving expressions are exact. Both backends implement one contract, so
  that the meaning of every composed operation holds with either. Reference counts, solver frames and garbage collection
  are sound. Wrappers and configuration do what they promise, or fail in the ways that are stated. The code
  that the compiler inserts builds nothing for concrete data and otherwise expressions that denote what the program
  computes; constraints of branches are pushed exactly when their condition is symbolic; the pass gets through every function of
  supported instructions. The checks are exact, and the passes keep the program around them.

  \<^bold>\<open>Parameters and bounds.\<close> Z3, QSYM, system calls, LLVM's lowering, inline assembly, verifier, unroller, data layout and
  choice of unique names are arguments; what is relied on is named in locales or hypotheses, with instances. Targets have
  64-bit pointers. Loops are structural or have measures; no fuel is used outside of \<open>run_checks\<close>, whose nine
  steps are the longest chain of the integer checks. Evaluation order among the arguments of a C++ call is from left to right.
  Floating-point numbers of \<^verbatim>\<open>FP_Checker\<close> follow IEEE 754 with rounding to nearest, for the formats from \<open>half\<close> to \<open>fp128\<close>.

  \<^bold>\<open>Not modelled.\<close> The registration of passes in \<^verbatim>\<open>Main.cpp\<close> and the header declarations have no behaviour of their own. The
  hashes of variables, debug output and the printing of expressions in the simple backend only reach log files. The
  32-bit variants of the QSYM adapter and its pruning builder are left out, the latter because QSYM's sources are
  not in the repository. Programs in other languages (the fuzzing helper in Rust, the Ada bindings, the scripts)
  and the test programs are outside of the C++ implementation.
\<close>

section \<open>Memory\<close>

text \<open>C1. Loads and stores: storing an expression of \<open>len\<close> bytes and loading the same bytes in the same
  byte order gives an expression with the same value under every input; no other byte of shadow
  memory changes.\<close>

theorem write_then_read:
  assumes "z3_laws z sem" "e \<in> live_exprs (backend_state s)"
    and "\<And>\<sigma>. sem \<sigma> e = BVV (8 * unat len) (f \<sigma>)" "len \<noteq> 0" "8 * unat len < 2 ^ 32"
    and "unat addr + unat len < 2 ^ 64"
  shows "rt_ok (sym_write_memory (simple_backend z) addr len (Some e) le) s (\<lambda>_ s'.
    mem_denotes live_exprs sem (sym_read_memory (simple_backend z) addr len le) s' (\<lambda>\<sigma>. sem \<sigma> e) \<and>
    (\<forall>a. \<not> a - addr < len \<longrightarrow> shadow_at (g_shadow_pages s') a = shadow_at (g_shadow_pages s) a))"
  by (rule expr_backend.write_read_same [OF z3_laws.simple_contract [OF assms(1)] assms(2-6)])

theorem write_then_read_witness:
  "rt_ok (sym_write_memory (simple_backend term_z3) 4095 2 (Some x16) True) example_state (\<lambda>_ s'.
    mem_denotes live_exprs term_sem (sym_read_memory (simple_backend term_z3) 4095 2 True) s'
      (\<lambda>\<sigma>. term_sem \<sigma> x16) \<and>
    (\<forall>a. \<not> a - 4095 < 2 \<longrightarrow> shadow_at (g_shadow_pages s') a = shadow_at (g_shadow_pages example_state) a))"
  by (rule write_then_read [OF term_lib.z3_laws_axioms])
    (use example_live in \<open>simp_all add: example_state_def example_sem\<close>)

text \<open>C2. A load of a region that has at least one symbolic byte denotes the bytes of the region joined in
  the requested byte order: the value of the shadow expression where a byte is symbolic, the concrete
  byte of the program's memory where it is not.\<close>

theorem read_memory_correct:
  assumes "z3_laws z sem" "len \<noteq> 0" "\<not> isConcrete (g_shadow_pages s) addr len"
    and "\<And>b. b - addr < len \<Longrightarrow> byte_ok live_exprs sem s b"
  shows "mem_denotes live_exprs sem (sym_read_memory (simple_backend z) addr len le) s
    (\<lambda>\<sigma>. BVV (8 * unat len) (be_val (mem_order le (region_bytes sem s addr (unat len) \<sigma>))))"
  by (rule expr_backend.read_memory_denotes [OF z3_laws.simple_contract [OF assms(1)] assms(2-4)])

theorem read_memory_correct_witness:
  "mem_denotes live_exprs term_sem (sym_read_memory (simple_backend term_z3) 7 3 True) example_state
    (\<lambda>\<sigma>. BVV (8 * unat (3::u64)) (be_val (mem_order True (region_bytes term_sem example_state 7 (unat (3::u64)) \<sigma>)))) \<and>
   region_bytes term_sem example_state 7 3 (\<lambda>_. 255) = [7, 255, 9]"
proof
  have "\<not> isConcrete (g_shadow_pages example_state) 7 3"
    using isConcrete_iff [of 7 3 "g_shadow_pages example_state"] example_shadow by (auto intro!: exI [of _ 8])
  moreover have "byte_ok live_exprs term_sem example_state b" for b
    using example_live by (auto simp: byte_ok_def example_shadow example_sem example_fields)
  ultimately show "mem_denotes live_exprs term_sem (sym_read_memory (simple_backend term_z3) 7 3 True) example_state
    (\<lambda>\<sigma>. BVV (8 * unat (3::u64)) (be_val (mem_order True (region_bytes term_sem example_state 7 (unat (3::u64)) \<sigma>))))"
    by (intro read_memory_correct [OF term_lib.z3_laws_axioms]) simp_all
  show "region_bytes term_sem example_state 7 3 (\<lambda>_. 255) = [7, 255, 9]"
    by (simp add: region_bytes_def byte_value_def example_shadow example_sem example_fields upt_rec)
qed



text \<open>\<open>_sym_memcpy\<close> is exact when the destination does not lie strictly inside the source region.\<close>

theorem memcpy_exact:
  assumes "unat src + unat len < 2 ^ 64" "unat dest + unat len < 2 ^ 64" "dest = src \<or> len \<le> dest - src"
  shows "rt_ok (sym_memcpy dest src len) s (\<lambda>_ s'. \<forall>b. shadow_at (g_shadow_pages s') b =
    (if b - dest < len then shadow_at (g_shadow_pages s) (src + (b - dest))
     else shadow_at (g_shadow_pages s) b))"
proof -
  obtain sh' where "sym_memcpy dest src len s = Inr ((), s\<lparr>g_shadow_pages := sh'\<rparr>)"
    "\<And>b. shadow_at sh' b = (if b - dest < len then shadow_at (g_shadow_pages s) (src + (b - dest))
      else shadow_at (g_shadow_pages s) b)" using assms by (rule memcpy_run) blast
  then show ?thesis by (simp add: rt_ok_def)
qed

theorem memcpy_exact_witness:
  "rt_ok (sym_memcpy 4094 8 4) example_state (\<lambda>_ s'. \<forall>b. shadow_at (g_shadow_pages s') b =
    (if b - 4094 < 4 then shadow_at (g_shadow_pages example_state) (8 + (b - 4094))
     else shadow_at (g_shadow_pages example_state) b))"
  by (rule memcpy_exact) simp_all



text \<open>Storing a null expression makes exactly the region concrete, and loading it then builds no
  expression at all.\<close>

theorem write_concrete:
  assumes "len \<noteq> 0" "unat addr + unat len < 2 ^ 64"
  shows "rt_ok (sym_write_memory (simple_backend z) addr len None le) s (\<lambda>_ s'.
    (\<forall>a. shadow_at (g_shadow_pages s') a = (if a - addr < len then None else shadow_at (g_shadow_pages s) a)) \<and>
    sym_read_memory (simple_backend z) addr len le' s' = Inr (None, s'))"
  by (rule write_null [OF assms])

theorem write_concrete_witness:
  "rt_ok (sym_write_memory (simple_backend term_z3) 8 4 None True) example_state (\<lambda>_ s'.
    (\<forall>a. shadow_at (g_shadow_pages s') a = (if a - 8 < 4 then None else shadow_at (g_shadow_pages example_state) a)) \<and>
    sym_read_memory (simple_backend term_z3) 8 4 True s' = Inr (None, s'))"
  by (rule write_concrete) simp_all

section \<open>Expressions\<close>

text \<open>C3. The simple backend implements the backend contract that \<open>RuntimeCommon.cpp\<close> relies on, for every
  solver library that keeps the documented laws of Z3: each builder returns a live expression with
  the meaning of the operation it is named after.\<close>

theorem simple_backend_refines_contract:
  assumes "z3_laws z sem"
  shows "expr_backend (simple_backend z) live_exprs sem"
  by (rule z3_laws.simple_contract [OF assms])

theorem simple_backend_refines_contract_witness:
  "expr_backend (simple_backend term_z3) live_exprs term_sem"
  by (rule simple_backend_refines_contract [OF term_lib.z3_laws_axioms])



text \<open>Unsigned saturating addition and subtraction (below 64 bits).\<close>

theorem unsigned_saturation_correct:
  assumes "z3_laws z sem" "{a, b} \<subseteq> live_exprs s"
    and "\<And>\<sigma>. sem \<sigma> a = BVV n (f \<sigma>)" "\<And>\<sigma>. sem \<sigma> b = BVV n (g \<sigma>)" "n < 64"
  shows "denotes live_exprs sem (sym_build_uadd_sat (simple_backend z) (Some a) (Some b)) s
      (\<lambda>\<sigma>. BVV n (min (2 ^ n - 1) (f \<sigma> + g \<sigma>))) \<and>
    denotes live_exprs sem (sym_build_usub_sat (simple_backend z) (Some a) (Some b)) s
      (\<lambda>\<sigma>. BVV n (max 0 (f \<sigma> - g \<sigma>)))"
proof -
  note B = z3_laws.simple_contract [OF assms(1)]
  have "n \<le> 64" using assms(5) by simp
  then show ?thesis
    using comp_denotes [OF expr_backend.comp_uadd_sat [OF B assms(3,4,5)] assms(2)]
      comp_denotes [OF expr_backend.comp_usub_sat [OF B _ _ assms(3,4)] assms(2)] by blast
qed

theorem unsigned_saturation_correct_witness:
  "denotes live_exprs term_sem (sym_build_uadd_sat (simple_backend term_z3) (Some x8) (Some y8)) example_backend
      (\<lambda>\<sigma>. BVV 8 (min (2 ^ 8 - 1) (take_bit 8 (\<sigma> ''x'') + take_bit 8 (\<sigma> ''y'')))) \<and>
   denotes live_exprs term_sem (sym_build_usub_sat (simple_backend term_z3) (Some x8) (Some y8)) example_backend
      (\<lambda>\<sigma>. BVV 8 (max 0 (take_bit 8 (\<sigma> ''x'') - take_bit 8 (\<sigma> ''y''))))"
  by (rule unsigned_saturation_correct [OF term_lib.z3_laws_axioms])
    (use example_live in \<open>simp_all add: example_sem\<close>)

text \<open>Signed saturating left shift (below 64 bits, shift amount below the width): the product with
  the power of two, clamped.\<close>

theorem signed_shift_saturation_correct:
  assumes "z3_laws z sem" "{a, b} \<subseteq> live_exprs s"
    and "\<And>\<sigma>. sem \<sigma> a = BVV n (f \<sigma>)" "\<And>\<sigma>. sem \<sigma> b = BVV n (g \<sigma>)" "n < 64" "\<And>\<sigma>. g \<sigma> < int n"
  shows "denotes live_exprs sem (sym_build_sshl_sat (simple_backend z) (Some a) (Some b)) s
    (\<lambda>\<sigma>. BVV n (take_bit n (saturate n (sval n (f \<sigma>) * 2 ^ nat (g \<sigma>)))))"
  by (rule comp_denotes [OF expr_backend.comp_sshl_sat [OF z3_laws.simple_contract [OF assms(1)]] assms(2)])
    (rule assms)+

theorem signed_shift_saturation_correct_witness:
  "denotes live_exprs term_sem (sym_build_sshl_sat (simple_backend term_z3) (Some x8) (Some (T_num 8 3)))
    (example_backend\<lparr>allocatedExpressions := {x8, T_num 8 3}\<rparr>)
    (\<lambda>\<sigma>. BVV 8 (take_bit 8 (saturate 8 (sval 8 (take_bit 8 (\<sigma> ''x'')) * 2 ^ nat 3))))"
  by (rule signed_shift_saturation_correct [OF term_lib.z3_laws_axioms])
    (simp_all add: example_sem live_exprs_def)

text \<open>\<open>_sym_build_abs\<close> denotes the absolute value, the least value wrapping around to itself.\<close>

theorem abs_correct:
  assumes "z3_laws z sem" "{a} \<subseteq> live_exprs s" "\<And>\<sigma>. sem \<sigma> a = BVV n (f \<sigma>)" "n \<le> 64"
  shows "denotes live_exprs sem (sym_build_abs (simple_backend z) (Some a)) s
    (\<lambda>\<sigma>. BVV n (take_bit n \<bar>sval n (f \<sigma>)\<bar>))"
  by (rule comp_denotes [OF expr_backend.comp_abs [OF z3_laws.simple_contract [OF assms(1)] assms(3,4)] assms(2)])

theorem abs_correct_witness:
  "denotes live_exprs term_sem (sym_build_abs (simple_backend term_z3) (Some x8)) example_backend
    (\<lambda>\<sigma>. BVV 8 (take_bit 8 \<bar>sval 8 (take_bit 8 (\<sigma> ''x''))\<bar>))"
  by (rule abs_correct [OF term_lib.z3_laws_axioms]) (use example_live in \<open>simp_all add: example_sem\<close>)



text \<open>Multiplication with overflow: right for signed operands; for unsigned ones the flag is the top
  bit of the double-width product, so products between \<open>2 ^ n\<close> and \<open>2 ^ (2 n - 1)\<close> are not reported.\<close>

theorem mul_overflow_flag_correct:
  assumes "z3_laws z sem" "a \<in> live_exprs s" "b \<in> live_exprs s"
    and "\<And>\<sigma>. sem \<sigma> a = BVV (8 * k) (f \<sigma>)" "\<And>\<sigma>. sem \<sigma> b = BVV (8 * k) (g \<sigma>)"
    and "8 * k < 256" "le \<Longrightarrow> even k"
  shows "denotes live_exprs sem (sym_build_mul_overflow (simple_backend z) (Some a) (Some b) is_signed le) s
      (\<lambda>\<sigma>. BVV (16 * k) (be_val (overflow_struct le k (take_bit (8 * k) (f \<sigma> * g \<sigma>))
         (if is_signed then signed_overflow (8 * k) (sval (8 * k) (f \<sigma>) * sval (8 * k) (g \<sigma>))
          else 2 ^ (2 * (8 * k) - 1) \<le> f \<sigma> * g \<sigma>))))"
proof -
  have L: "{a, b} \<subseteq> live_exprs s" using assms(2,3) by simp
  have m: "a \<in> {a, b}" "b \<in> {a, b}" by simp_all
  show ?thesis
    using comp_denotes [OF expr_backend.comp_mul_overflow [OF z3_laws.simple_contract [OF assms(1)] m assms(4,5,6)] L]
      assms(7) by blast
qed

theorem mul_overflow_flag_correct_witness:
  "denotes live_exprs term_sem (sym_build_mul_overflow (simple_backend term_z3) (Some x16) (Some y16) False True) example_backend
      (\<lambda>\<sigma>. BVV (16 * 2) (be_val (overflow_struct True 2 (take_bit (8 * 2) (take_bit 16 (\<sigma> ''u'') * take_bit 16 (\<sigma> ''v'')))
         (if False then signed_overflow (8 * 2) (sval (8 * 2) (take_bit 16 (\<sigma> ''u'')) * sval (8 * 2) (take_bit 16 (\<sigma> ''v'')))
          else 2 ^ (2 * (8 * 2) - 1) \<le> take_bit 16 (\<sigma> ''u'') * take_bit 16 (\<sigma> ''v'')))))"
  by (rule mul_overflow_flag_correct [OF term_lib.z3_laws_axioms])
    (use example_live in \<open>simp_all add: example_sem\<close>)

text \<open>On little-endian targets addition with overflow of an odd number of bytes, \<open>i8\<close> included, ends in
  the assertion of \<open>_sym_build_bswap\<close>.\<close>

theorem add_overflow_odd_fails:
  assumes "z3_laws z sem" "a \<in> live_exprs s" "b \<in> live_exprs s"
    and "\<And>\<sigma>. sem \<sigma> a = BVV (8 * k) (f \<sigma>)" "\<And>\<sigma>. sem \<sigma> b = BVV (8 * k) (g \<sigma>)" "8 * k < 2 ^ 31" "odd k"
  shows "sym_build_add_overflow (simple_backend z) (Some a) (Some b) is_signed True s =
    Inl (Assertion_failed ''bswap is not applicable'')"
  by (rule expr_backend.add_overflow_odd [OF z3_laws.simple_contract [OF assms(1)] assms(2-7)])

theorem add_overflow_odd_fails_witness:
  "sym_build_add_overflow (simple_backend term_z3) (Some x8) (Some y8) False True example_backend =
    Inl (Assertion_failed ''bswap is not applicable'')"
  by (rule add_overflow_odd_fails [where k = 1, OF term_lib.z3_laws_axioms])
    (use example_live in \<open>simp_all add: example_sem\<close>)

text \<open>C20. Aggregates: what \<open>_sym_build_insert\<close> put at an offset, \<open>_sym_build_extract\<close> takes out again
  unchanged, in either byte order.\<close>

theorem insert_then_extract:
  assumes "z3_laws z sem" "t \<in> live_exprs s" "i \<in> live_exprs s"
    and "\<And>\<sigma>. sem \<sigma> t = BVV (8 * N) (f \<sigma>)" "\<And>\<sigma>. sem \<sigma> i = BVV (8 * k) (g \<sigma>)"
    and "8 * N < 2 ^ 32" "ofs + k \<le> N" "le \<Longrightarrow> k = 1 \<or> even k"
  shows "denotes live_exprs sem
    (rt_bind (sym_build_insert (simple_backend z) (Some t) (Some i) ofs le)
       (\<lambda>r. sym_build_extract (simple_backend z) r ofs k le)) s (\<lambda>\<sigma>. BVV (8 * k) (g \<sigma>))"
proof -
  have L: "{t, i} \<subseteq> live_exprs s" using assms(2,3) by simp
  have m: "t \<in> {t, i}" "i \<in> {t, i}" by simp_all
  show ?thesis
    using comp_denotes [OF expr_backend.comp_insert_extract
        [OF z3_laws.simple_contract [OF assms(1)] m assms(4-7)] L] assms(8) by blast
qed

theorem insert_then_extract_witness:
  "denotes live_exprs term_sem
    (rt_bind (sym_build_insert (simple_backend term_z3) (Some x16) (Some y8) 1 True)
       (\<lambda>r. sym_build_extract (simple_backend term_z3) r 1 1 True)) example_backend
    (\<lambda>\<sigma>. BVV (8 * 1) (take_bit 8 (\<sigma> ''y'')))"
  by (rule insert_then_extract [where N = 2, OF term_lib.z3_laws_axioms])
    (use example_live in \<open>simp_all add: example_sem\<close>)

text \<open>Insertion replaces exactly the bytes it covers.\<close>

theorem insert_correct:
  assumes "z3_laws z sem" "t \<in> live_exprs s" "i \<in> live_exprs s"
    and "\<And>\<sigma>. sem \<sigma> t = BVV (8 * N) (f \<sigma>)" "\<And>\<sigma>. sem \<sigma> i = BVV (8 * k) (g \<sigma>)"
    and "8 * N < 2 ^ 32" "ofs + k \<le> N" "le \<Longrightarrow> k = 1 \<or> even k"
  shows "denotes live_exprs sem (sym_build_insert (simple_backend z) (Some t) (Some i) ofs le) s
    (\<lambda>\<sigma>. BVV (8 * N) (be_val (take ofs (mem_bytes N (f \<sigma>)) @
        mem_order le (mem_bytes k (g \<sigma>)) @ drop (ofs + k) (mem_bytes N (f \<sigma>)))))"
proof -
  have L: "{t, i} \<subseteq> live_exprs s" using assms(2,3) by simp
  have m: "t \<in> {t, i}" "i \<in> {t, i}" by simp_all
  show ?thesis
    using comp_denotes [OF expr_backend.comp_insert
        [OF z3_laws.simple_contract [OF assms(1)] m assms(4-7)] L] assms(8) by blast
qed

theorem insert_correct_witness:
  "denotes live_exprs term_sem (sym_build_insert (simple_backend term_z3) (Some x16) (Some y8) 0 True) example_backend
    (\<lambda>\<sigma>. BVV (8 * 2) (be_val (take 0 (mem_bytes 2 (take_bit 16 (\<sigma> ''u''))) @
        mem_order True (mem_bytes 1 (take_bit 8 (\<sigma> ''y''))) @ drop (0 + 1) (mem_bytes 2 (take_bit 16 (\<sigma> ''u''))))))"
  by (rule insert_correct [OF term_lib.z3_laws_axioms])
    (use example_live in \<open>simp_all add: example_sem\<close>)

text \<open>Byte swapping twice is the identity.\<close>

theorem bswap_involutive:
  assumes "z3_laws z sem" "{x} \<subseteq> live_exprs s" "\<And>\<sigma>. sem \<sigma> x = BVV (8 * N) (f \<sigma>)" "8 * N < 2 ^ 32" "even N"
  shows "denotes live_exprs sem
    (rt_bind (sym_build_bswap (simple_backend z) (Some x)) (sym_build_bswap (simple_backend z))) s
    (\<lambda>\<sigma>. BVV (8 * N) (f \<sigma>))"
  by (rule comp_denotes [OF expr_backend.comp_bswap_bswap [OF z3_laws.simple_contract [OF assms(1)] _ assms(3-5)] assms(2)])
    simp

theorem bswap_involutive_witness:
  "denotes live_exprs term_sem
    (rt_bind (sym_build_bswap (simple_backend term_z3) (Some x16)) (sym_build_bswap (simple_backend term_z3)))
    example_backend (\<lambda>\<sigma>. BVV (8 * 2) (take_bit 16 (\<sigma> ''u'')))"
  by (rule bswap_involutive [OF term_lib.z3_laws_axioms]) (use example_live in \<open>simp_all add: example_sem\<close>)

text \<open>The funnel shifts never yield an expression: they shift a value of double width by an amount of
  single width, which the solver refuses.\<close>

theorem funnel_shifts_refused:
  assumes "z3_laws z sem" "\<And>\<sigma>. sem \<sigma> a = BVV n (f \<sigma>)" "\<And>\<sigma>. sem \<sigma> b = BVV n (g \<sigma>)"
    "\<And>\<sigma>. sem \<sigma> c = BVV n (h \<sigma>)" "n \<le> 64" "{a, b, c} \<subseteq> live_exprs s"
  shows "sym_build_funnel_shift_left (simple_backend z) (Some a) (Some b) (Some c) s = Inl Solver_error \<and>
    sym_build_funnel_shift_right (simple_backend z) (Some a) (Some b) (Some c) s = Inl Solver_error"
  using z3_laws.funnel_refused [OF assms] by blast

theorem funnel_shifts_refused_witness:
  "sym_build_funnel_shift_left (simple_backend term_z3) (Some x8) (Some y8) (Some x8) example_backend = Inl Solver_error \<and>
   sym_build_funnel_shift_right (simple_backend term_z3) (Some x8) (Some y8) (Some x8) example_backend = Inl Solver_error"
  by (rule funnel_shifts_refused [where n = 8, OF term_lib.z3_laws_axioms]) (use example_live in \<open>simp_all add: example_sem\<close>)

section \<open>Path constraints and the solver\<close>


definition branch8 :: z3_term where
  "branch8 = T_app Z_eq [x8, y8]"

lemma branch8_sem: "term_sem \<sigma> branch8 = BoolV (take_bit 8 (\<sigma> ''x'') = take_bit 8 (\<sigma> ''y''))"
  by (simp add: branch8_def example_sem z3_sem_def binary_sem_def eq_sem_def)

lemma branch8_simplify: "z3_simplify term_z3 branch8 = branch8" "branch8 \<noteq> mk_true term_z3" "branch8 \<noteq> mk_false term_z3"
  by (simp_all add: term_z3_def term_simplify_def branch8_def x8_def y8_def)

lemma example_ready: "bools_ready term_z3 example_backend"
  by (simp add: bools_ready_def example_backend_def term_z3_def)


text \<open>A constraint that simplifies to a constant sends nothing to the solver; if the constant
  contradicts the direction taken, the call ends in the assertion about impossible branches.\<close>

theorem path_constraint_constant:
  assumes "bools_ready z s" "z3_simplify z e = (if b then mk_true z else mk_false z)" "mk_true z \<noteq> mk_false z"
  shows "case sym_push_path_constraint_with_loc z (Some e) taken site file line slot s of
      Inl err \<Rightarrow> b \<noteq> (taken \<noteq> 0) \<and> err = Assertion_failed ''We have taken an impossible branch''
    | Inr (u, s') \<Rightarrow> b = (taken \<noteq> 0) \<and> logged_queries (calls s') = logged_queries (calls s) \<and>
        solver_frames (calls s') = solver_frames (calls s) \<and> refs (calls s') = refs (calls s)"
  unfolding push_loc_constant [OF assms] by (auto simp: fun_eq_iff)

theorem path_constraint_constant_witness:
  "case sym_push_path_constraint_with_loc term_z3 (Some (T_bool True)) 0 7 ''main.c'' 12 3 example_backend of
      Inl err \<Rightarrow> True \<noteq> ((0::int) \<noteq> 0) \<and> err = Assertion_failed ''We have taken an impossible branch''
    | Inr (u, s') \<Rightarrow> True = ((0::int) \<noteq> 0) \<and> logged_queries (calls s') = logged_queries (calls example_backend) \<and>
        solver_frames (calls s') = solver_frames (calls example_backend) \<and> refs (calls s') = refs (calls example_backend)"
  by (rule path_constraint_constant [OF example_ready]) (simp_all add: term_z3_def term_simplify_def)

text \<open>The collected comparison of two strings: when the last constraint arrives, one query is logged.
  If every comparison so far went the way of equal strings, it asks that all of them do (the
  conjunction); otherwise it asks that some comparison fails (the disjunction).\<close>

theorem string_comparison_query:
  assumes "z3_laws z sem" "\<And>\<sigma>. sem \<sigma> e = BoolV (p \<sigma>)" "bools_ready z s" "string_lists sem s ps"
    and "z3_simplify z e \<noteq> mk_true z" "z3_simplify z e \<noteq> mk_false z"
    and "strstr file ''symros_string.hpp''" "line \<noteq> string_size_check_line"
    and "int (length ps) + 1 = (line - strcmp_start_line + 1) mod 2 ^ 64"
  shows "rt_ok (sym_push_path_constraint_with_loc z (Some e) taken site file line slot) s (\<lambda>_ s'.
    (\<exists>q. logged_queries (calls s') = (q # asserted (calls s)) # logged_queries (calls s) \<and>
         (\<forall>\<sigma>. sem \<sigma> q = BoolV (if taken \<noteq> 1 \<and> string_taken s then \<forall>p \<in> set (ps @ [p]). \<not> p \<sigma>
            else \<exists>p \<in> set (ps @ [p]). p \<sigma>))) \<and>
    solver_frames (calls s') = solver_frames (calls s))"
proof -
  obtain q s' where "sym_push_path_constraint_with_loc z (Some e) taken site file line slot s = Inr ((), s')"
    "logged_queries (calls s') = (q # asserted (calls s)) # logged_queries (calls s)"
    "\<And>\<sigma>. sem \<sigma> q = BoolV (if taken \<noteq> 1 \<and> string_taken s then \<forall>p \<in> set (ps @ [p]). \<not> p \<sigma>
       else \<exists>p \<in> set (ps @ [p]). p \<sigma>)"
    "solver_frames (calls s') = solver_frames (calls s)"
    using assms(2-9) by (rule z3_laws.final_step_query [OF assms(1)]) blast
  then show ?thesis unfolding rt_ok_def by blast
qed

theorem string_comparison_query_witness:
  "rt_ok (sym_push_path_constraint_with_loc term_z3 (Some branch8) 0 7 ''/usr/symros_string.hpp'' 23 3) example_backend (\<lambda>_ s'.
    (\<exists>q. logged_queries (calls s') = (q # asserted (calls example_backend)) # logged_queries (calls example_backend) \<and>
         (\<forall>\<sigma>. term_sem \<sigma> q = BoolV (if (0::int) \<noteq> 1 \<and> string_taken example_backend
            then \<forall>p \<in> set ([] @ [\<lambda>\<sigma>. take_bit 8 (\<sigma> ''x'') = take_bit 8 (\<sigma> ''y'')]). \<not> p \<sigma>
            else \<exists>p \<in> set ([] @ [\<lambda>\<sigma>. take_bit 8 (\<sigma> ''x'') = take_bit 8 (\<sigma> ''y'')]). p \<sigma>))) \<and>
    solver_frames (calls s') = solver_frames (calls example_backend))"
proof (rule string_comparison_query [OF term_lib.z3_laws_axioms])
  show "string_lists term_sem example_backend []"
    by (simp add: string_lists_def example_backend_def initial_state_def)
qed (simp_all add: branch8_sem branch8_simplify example_ready strcmp_start_line_def string_size_check_line_def)

text \<open>Every other string constraint leaves the frame it pushed on the solver's stack, and logs nothing.\<close>

theorem string_constraint_leaks_frame:
  assumes "z3_laws z sem" "\<And>\<sigma>. sem \<sigma> e = BoolV (p \<sigma>)" "bools_ready z s"
    and "z3_simplify z e \<noteq> mk_true z" "z3_simplify z e \<noteq> mk_false z" "strstr file ''symros_string.hpp''"
    and "line \<noteq> string_size_check_line \<Longrightarrow>
      int (length (string_eq_constraints s)) + 1 \<noteq> (line - strcmp_start_line + 1) mod 2 ^ 64"
  shows "rt_ok (sym_push_path_constraint_with_loc z (Some e) taken site file line slot) s (\<lambda>_ s'.
    solver_frames (calls s') = [] # solver_frames (calls s) \<and> logged_queries (calls s') = logged_queries (calls s))"
proof -
  have c: "sem \<sigma> (z3_simplify z e) = BoolV (p \<sigma>)" for \<sigma>
    using assms(2) z3_laws.z3_simplifies [OF assms(1)] by simp
  obtain n where n: "mk_app z Z_not [z3_simplify z e] = Some n"
    using assms(1) c by (rule z3_laws.negation)
  have g: "g_true s \<noteq> Some (z3_simplify z e)" "g_false s \<noteq> Some (z3_simplify z e)"
    using assms(3-5) by (auto simp: bools_ready_def)
  obtain s' where "sym_push_path_constraint_with_loc z (Some e) taken site file line slot s = Inr ((), s')"
    "calls s' = [Dec_ref (Ast_ref (z3_simplify z n)), Dec_ref (Ast_ref (z3_simplify z e)), Solver_push,
       Inc_ref (Ast_ref (z3_simplify z n)), Inc_ref (Ast_ref (z3_simplify z e))] @ calls s"
    using string_step_run [OF n refl refl g assms(6,7), of taken site slot] by blast
  then show ?thesis unfolding rt_ok_def by simp
qed

theorem string_constraint_leaks_frame_witness:
  "rt_ok (sym_push_path_constraint_with_loc term_z3 (Some branch8) 1 7 ''symros_string.hpp'' 13 3) example_backend (\<lambda>_ s'.
    solver_frames (calls s') = [] # solver_frames (calls example_backend) \<and>
    logged_queries (calls s') = logged_queries (calls example_backend))"
  by (rule string_constraint_leaks_frame [OF term_lib.z3_laws_axioms])
    (simp_all add: branch8_sem branch8_simplify example_ready string_size_check_line_def)

text \<open>C16. \<open>_sym_feasible\<close> answers yes only when some input satisfies the expression together with the
  assertions in force, and leaves the solver and the reference counts as they were.\<close>

theorem feasible_sound:
  assumes "z3_laws z sem"
  shows "rt_ok (sym_feasible z e) s (\<lambda>answer s'.
    (answer \<longrightarrow> (\<exists>\<sigma>. sem \<sigma> e = BoolV True \<and> (\<forall>c \<in> set (asserted (calls s)). sem \<sigma> c = BoolV True))) \<and>
    solver_frames (calls s') = solver_frames (calls s) \<and> refs (calls s') = refs (calls s))"
  using z3_laws.z3_check(1) [OF assms, of "z3_simplify z e # asserted (calls s)"] z3_laws.z3_simplifies [OF assms]
  by (auto simp: rt_ok_def feasible_run fun_eq_iff)

theorem feasible_sound_witness:
  "rt_ok (sym_feasible term_z3 branch8) example_backend (\<lambda>answer s'.
    (answer \<longrightarrow> (\<exists>\<sigma>. term_sem \<sigma> branch8 = BoolV True \<and>
       (\<forall>c \<in> set (asserted (calls example_backend)). term_sem \<sigma> c = BoolV True))) \<and>
    solver_frames (calls s') = solver_frames (calls example_backend) \<and> refs (calls s') = refs (calls example_backend))"
  by (rule feasible_sound [OF term_lib.z3_laws_axioms])

section \<open>Reference counts, inputs and garbage\<close>

text \<open>C14. Over every sequence of calls to the simple backend, no reference count of an expression is
  negative and every registered expression holds at least one reference, garbage collection included.\<close>

theorem reference_counts_invariant:
  assumes "simple_reachable z s"
  shows "(\<forall>e. 0 \<le> refs (calls s) (Ast_ref e)) \<and>
    (\<forall>e \<in> allocatedExpressions s. 0 < refs (calls s) (Ast_ref e))"
  using simple_reachable_refs_ok [OF assms] by (simp add: refs_ok_def)

lemma reachable_example:
  "simple_reachable term_z3 (snd (projr (sym_build_integer term_z3 5 8 initial_state)))"
proof (rule reach_step [OF reach_init])
  have "denotes live_exprs term_sem (sym_build_integer term_z3 5 8) initial_state
      (\<lambda>_. BVV (unat (8::u8)) (take_bit (unat (8::u8)) (uint (5::u64))))"
    by (rule term_lib.denotes_integer) simp
  then obtain e s' where "sym_build_integer term_z3 5 8 initial_state = Inr (Some e, s')" by (rule denotesE) blast
  then show "simple_step term_z3 initial_state (snd (projr (sym_build_integer term_z3 5 8 initial_state)))"
    by (auto intro: step_integer)
qed

lemma reachable_example_allocated:
  "T_num 8 5 \<in> allocatedExpressions (snd (projr (sym_build_integer term_z3 5 8 initial_state)))"
  by (simp add: sym_build_integer_def with_sort_def inc_ref_def dec_ref_def z3_call_def of_z3_def
      registerExpression_def term_z3_def initial_state_def rt_bind_def rt_modify_def rt_get_def rt_return_def)

theorem reference_counts_invariant_witness:
  "0 \<le> refs (calls (snd (projr (sym_build_integer term_z3 5 8 initial_state)))) (Ast_ref (T_bool True)) \<and>
   0 < refs (calls (snd (projr (sym_build_integer term_z3 5 8 initial_state)))) (Ast_ref (T_num 8 5))"
  using reference_counts_invariant [OF reachable_example] reachable_example_allocated by blast

text \<open>C22. Input bytes read in order: each offset has its own variable, named after the offset; reading an
  offset again returns the same variable; different offsets have different variables.\<close>

theorem input_bytes_in_order:
  assumes "z3_laws z sem" "stdin_table z (stdinBytes s)" "unat off \<le> length (stdinBytes s)"
  shows "rt_ok (sym_get_input_byte z off v) s (\<lambda>x s'.
    x = mk_const z (''stdin'' @ to_string (unat off)) (BV_sort 8) \<and> x \<noteq> None \<and> stdin_table z (stdinBytes s') \<and>
    length (stdinBytes s') = max (length (stdinBytes s)) (unat off + 1) \<and>
    sym_get_input_byte z off v' s' = Inr (x, s') \<and>
    (\<forall>i. i \<noteq> unat off \<longrightarrow> mk_const z (''stdin'' @ to_string i) (BV_sort 8) \<noteq> x))"
proof -
  obtain e s' where "mk_const z (''stdin'' @ to_string (unat off)) (BV_sort 8) = Some e"
    "sym_get_input_byte z off v s = Inr (Some e, s')" "stdin_table z (stdinBytes s')"
    "length (stdinBytes s') = max (length (stdinBytes s)) (unat off + 1)"
    "sym_get_input_byte z off v' s' = Inr (Some e, s')"
    using get_input_byte_in_order [OF assms] by blast
  then show ?thesis
    unfolding rt_ok_def using input_names_distinct [OF assms(1)] by (auto intro!: exI [of _ "Some e"])
qed

theorem input_bytes_in_order_witness:
  "rt_ok (sym_get_input_byte term_z3 0 65) initial_state (\<lambda>x s'.
    x = mk_const term_z3 (''stdin'' @ to_string (unat (0::u64))) (BV_sort 8) \<and> x \<noteq> None \<and>
    stdin_table term_z3 (stdinBytes s') \<and>
    length (stdinBytes s') = max (length (stdinBytes (initial_state :: z3_term simple_state))) (unat (0::u64) + 1) \<and>
    sym_get_input_byte term_z3 0 66 s' = Inr (x, s') \<and>
    (\<forall>i. i \<noteq> unat (0::u64) \<longrightarrow> mk_const term_z3 (''stdin'' @ to_string i) (BV_sort 8) \<noteq> x))"
  by (rule input_bytes_in_order [OF term_lib.z3_laws_axioms]) (simp_all add: initial_state_def stdin_table_def)

text \<open>Input bytes read out of order: a first read at an offset beyond the table is named after the
  length of the table instead of the offset, and the skipped offsets then read as null.\<close>

theorem input_bytes_gap:
  assumes "z3_laws z sem" "length (stdinBytes s) < unat off"
  shows "rt_ok (sym_get_input_byte z off v) s (\<lambda>x s'.
    x = mk_const z (''stdin'' @ to_string (length (stdinBytes s))) (BV_sort 8) \<and>
    (\<forall>i. length (stdinBytes s) \<le> unat i \<and> i < off \<longrightarrow> sym_get_input_byte z i v' s' = Inr (None, s')))"
proof -
  obtain e where e: "mk_const z (''stdin'' @ to_string (length (stdinBytes s))) (BV_sort 8) = Some e"
    using z3_laws.z3_const [OF assms(1), of 8] by auto
  obtain s' where s': "sym_get_input_byte z off v s = Inr (Some e, s')"
    "stdinBytes s' = stdinBytes s @ replicate (unat off - length (stdinBytes s)) None @ [Some e]"
    using get_input_byte_new [OF _ e, of off v] assms(2) by auto
  have "sym_get_input_byte z i v' s' = Inr (None, s')" if "length (stdinBytes s) \<le> unat i" "i < off" for i
  proof -
    have lt: "unat i < unat off" using that(2) by (simp add: word_less_nat_alt)
    then have "unat i < length (stdinBytes s')" using s'(2) assms(2) by simp
    moreover have "stdinBytes s' ! unat i = None"
      using that(1) lt by (simp add: s'(2) nth_append)
    ultimately show ?thesis using get_input_byte_known [of i s' z v'] by simp
  qed
  then show ?thesis unfolding rt_ok_def using s'(1) e by auto
qed

theorem input_bytes_gap_witness:
  "rt_ok (sym_get_input_byte term_z3 3 65) initial_state (\<lambda>x s'.
    x = mk_const term_z3 (''stdin'' @ to_string (length (stdinBytes (initial_state :: z3_term simple_state)))) (BV_sort 8) \<and>
    (\<forall>i. length (stdinBytes (initial_state :: z3_term simple_state)) \<le> unat i \<and> i < 3 \<longrightarrow>
       sym_get_input_byte term_z3 i 65 s' = Inr (None, s')))"
  by (rule input_bytes_gap [OF term_lib.z3_laws_axioms]) (simp add: initial_state_def)

text \<open>C17. Garbage collection keeps what shadow memory refers to: an expression that shadows a byte is still
  registered afterwards, and no expression loses a reference.\<close>

theorem garbage_collection_keeps_shadow:
  assumes "shadow_at (g_shadow_pages m) a = Some e" "e \<in> allocatedExpressions s"
  shows "rt_ok (sym_collect_garbage threshold (Some ` collectReachableExpressions m)) s (\<lambda>_ s'.
    e \<in> allocatedExpressions s' \<and> calls s' = calls s)"
  using assms(2) shadow_reachable [OF assms(1)] by (auto simp: sym_collect_garbage_def rt_simps)

theorem garbage_collection_keeps_shadow_witness:
  "rt_ok (sym_collect_garbage 0 (Some ` collectReachableExpressions example_state)) example_backend (\<lambda>_ s'.
    x8 \<in> allocatedExpressions s' \<and> calls s' = calls example_backend)"
  by (rule garbage_collection_keeps_shadow [of example_state 8])
    (simp_all add: example_shadow example_backend_def)

end
